(* ===== verification/Prelude.thy ===== *)
theory Prelude
  imports Main
begin

text \<open>
  What every component of the development shares: the exceptions of
  \<^verbatim>\<open>src/src/edgeai/errors.py\<close> (with the built-in ones the code raises or catches), results
  that carry an exception (\<open>exc + 'a\<close>), programs that thread a state and may raise
  (\<open>('s, 'a) prog\<close>: an exception keeps the state changes made before it, as Python does),
  a small Hoare logic for those programs, and generic lemmas on lists and maps.

  A component that only computes uses the result type; a component that mutates an object
  or the disk uses programs over that object's record.
\<close>

named_theorems wp \<open>Hoare rules for programs\<close>
named_theorems prog_simps \<open>equations of the program combinators\<close>

section \<open>Exceptions\<close>

text \<open>
  One constructor per class of \<^verbatim>\<open>errors.py\<close>, then the built-in and protocol classes.
  \<open>mro\<close> is the class and its bases (the part of Python's method resolution order that
  \<open>except\<close> clauses look at); the root \<^verbatim>\<open>Exception\<close> is implicit.
\<close>

datatype exc_class =
    EdgeAIError | ValidationError | ArtifactIntegrityError | SignatureError | RegistryError
  | DeploymentError | RollbackRejected | HealthGateError | DeploymentConflict
  | QueueFull | QueueDropped | DeadlineExceeded | ExecutorClosed
  | ExecutionDeadlineExceeded | BackendProcessError
  | ValueError | TypeError | RuntimeError | OSErr | TimeoutErr | EOFErr
  | OverflowErr | KeyErr | UnicodeDecodeError | UnicodeEncodeError | IPCProtocolError | OtherError

fun mro :: "exc_class \<Rightarrow> exc_class list" where
  "mro EdgeAIError = [EdgeAIError]"
| "mro ValidationError = [ValidationError, EdgeAIError]"
| "mro ArtifactIntegrityError = [ArtifactIntegrityError, EdgeAIError]"
| "mro SignatureError = [SignatureError, ArtifactIntegrityError, EdgeAIError]"
| "mro RegistryError = [RegistryError, EdgeAIError]"
| "mro DeploymentError = [DeploymentError, EdgeAIError]"
| "mro RollbackRejected = [RollbackRejected, DeploymentError, EdgeAIError]"
| "mro HealthGateError = [HealthGateError, DeploymentError, EdgeAIError]"
| "mro DeploymentConflict = [DeploymentConflict, DeploymentError, EdgeAIError]"
| "mro QueueFull = [QueueFull, EdgeAIError]"
| "mro QueueDropped = [QueueDropped, QueueFull, EdgeAIError]"
| "mro DeadlineExceeded = [DeadlineExceeded, EdgeAIError]"
| "mro ExecutorClosed = [ExecutorClosed, EdgeAIError]"
| "mro ExecutionDeadlineExceeded = [ExecutionDeadlineExceeded, DeadlineExceeded, EdgeAIError]"
| "mro BackendProcessError = [BackendProcessError, EdgeAIError]"
| "mro ValueError = [ValueError]"
| "mro TypeError = [TypeError]"
| "mro RuntimeError = [RuntimeError]"
| "mro OSErr = [OSErr]"
| "mro TimeoutErr = [TimeoutErr, OSErr]"
| "mro EOFErr = [EOFErr]"
| "mro OverflowErr = [OverflowErr]"
| "mro KeyErr = [KeyErr]"
| "mro UnicodeDecodeError = [UnicodeDecodeError, ValueError]"
| "mro UnicodeEncodeError = [UnicodeEncodeError, ValueError]"
| "mro IPCProtocolError = [IPCProtocolError, ValueError]"
| "mro OtherError = [OtherError]"

fun class_name :: "exc_class \<Rightarrow> string" where
  "class_name EdgeAIError = ''EdgeAIError''"
| "class_name ValidationError = ''ValidationError''"
| "class_name ArtifactIntegrityError = ''ArtifactIntegrityError''"
| "class_name SignatureError = ''SignatureError''"
| "class_name RegistryError = ''RegistryError''"
| "class_name DeploymentError = ''DeploymentError''"
| "class_name RollbackRejected = ''RollbackRejected''"
| "class_name HealthGateError = ''HealthGateError''"
| "class_name DeploymentConflict = ''DeploymentConflict''"
| "class_name QueueFull = ''QueueFull''"
| "class_name QueueDropped = ''QueueDropped''"
| "class_name DeadlineExceeded = ''DeadlineExceeded''"
| "class_name ExecutorClosed = ''ExecutorClosed''"
| "class_name ExecutionDeadlineExceeded = ''ExecutionDeadlineExceeded''"
| "class_name BackendProcessError = ''BackendProcessError''"
| "class_name ValueError = ''ValueError''"
| "class_name TypeError = ''TypeError''"
| "class_name RuntimeError = ''RuntimeError''"
| "class_name OSErr = ''OSError''"
| "class_name TimeoutErr = ''TimeoutError''"
| "class_name EOFErr = ''EOFError''"
| "class_name OverflowErr = ''OverflowError''"
| "class_name KeyErr = ''KeyError''"
| "class_name UnicodeDecodeError = ''UnicodeDecodeError''"
| "class_name UnicodeEncodeError = ''UnicodeEncodeError''"
| "class_name IPCProtocolError = ''IPCProtocolError''"
| "class_name OtherError = ''Exception''"

text \<open>
  An exception instance: its class and its text. The texts are the source's literals;
  parts the source interpolates (a repr, the text of a library exception) are left out.
\<close>

datatype exc = Exc (exc_cls: exc_class) (exc_msg: string)

definition isinstance :: "exc \<Rightarrow> exc_class \<Rightarrow> bool" where
  "isinstance e c \<longleftrightarrow> c \<in> set (mro (exc_cls e))"

lemma isinstance_Exc [simp]: "isinstance (Exc k t) c \<longleftrightarrow> c \<in> set (mro k)"
  by (simp add: isinstance_def)

section \<open>Results\<close>

type_synonym 'a res = "exc + 'a"

definition rbind :: "'a res \<Rightarrow> ('a \<Rightarrow> 'b res) \<Rightarrow> 'b res" where
  "rbind r f = (case r of Inl e \<Rightarrow> Inl e | Inr x \<Rightarrow> f x)"

lemma rbind_simps [simp]:
  "rbind (Inl e) f = Inl e"
  "rbind (Inr x) f = f x"
  by (simp_all add: rbind_def)

lemma rbind_Inr_iff: "rbind r f = Inr y \<longleftrightarrow> (\<exists>x. r = Inr x \<and> f x = Inr y)"
  by (cases r) auto

lemma rbind_Inl_iff: "rbind r f = Inl e \<longleftrightarrow> r = Inl e \<or> (\<exists>x. r = Inr x \<and> f x = Inl e)"
  by (cases r) auto

lemma rbind_InrE:
  assumes "rbind r f = Inr y"
  obtains x where "r = Inr x" and "f x = Inr y"
  using assms by (auto simp: rbind_Inr_iff)

definition guard_r :: "bool \<Rightarrow> exc \<Rightarrow> unit res" where
  "guard_r b e = (if b then Inr () else Inl e)"

lemma guard_r_simps [simp]:
  "guard_r b e = Inr u \<longleftrightarrow> b"
  "guard_r b e = Inl e' \<longleftrightarrow> \<not> b \<and> e' = e"
  "guard_r True e = Inr ()"
  "guard_r False e = Inl e"
  by (auto simp: guard_r_def)

definition of_opt :: "exc \<Rightarrow> 'a option \<Rightarrow> 'a res" where
  "of_opt e x = (case x of None \<Rightarrow> Inl e | Some y \<Rightarrow> Inr y)"

lemma of_opt_simps [simp]:
  "of_opt e None = Inl e"
  "of_opt e (Some y) = Inr y"
  "of_opt e x = Inr z \<longleftrightarrow> x = Some z"
  "of_opt e x = Inl e' \<longleftrightarrow> x = None \<and> e' = e"
  by (auto simp: of_opt_def split: option.splits)

text \<open>\<open>except Exception as e: raise ... from e\<close>.\<close>

definition recast :: "(exc \<Rightarrow> exc) \<Rightarrow> 'a res \<Rightarrow> 'a res" where
  "recast h r = (case r of Inl e \<Rightarrow> Inl (h e) | Inr x \<Rightarrow> Inr x)"

lemma recast_simps [simp]:
  "recast h (Inl e) = Inl (h e)"
  "recast h (Inr x) = Inr x"
  "recast h r = Inr x \<longleftrightarrow> r = Inr x"
  by (auto simp: recast_def split: sum.splits)

text \<open>\<^verbatim>\<open>except (...) as e: raise ... from e\<close> for the listed classes only.\<close>

definition except_r :: "exc_class list \<Rightarrow> (exc \<Rightarrow> exc) \<Rightarrow> 'a res \<Rightarrow> 'a res" where
  "except_r cs h r =
     (case r of Inl e \<Rightarrow> Inl (if list_ex (isinstance e) cs then h e else e) | Inr x \<Rightarrow> Inr x)"

lemma except_r_Inr [simp]: "except_r cs h r = Inr x \<longleftrightarrow> r = Inr x" "except_r cs h (Inr x) = Inr x"
  by (auto simp: except_r_def split: sum.splits)

lemma rbind_errors:
  assumes "rbind r f = Inl e"
    and "r = Inl e \<Longrightarrow> P e" and "\<And>y. r = Inr y \<Longrightarrow> f y = Inl e \<Longrightarrow> P e"
  shows "P e"
  using assms by (auto simp: rbind_Inl_iff)

section \<open>Programs: state and exceptions\<close>

type_synonym ('s, 'a) prog = "'s \<Rightarrow> 'a res \<times> 's"

definition ret :: "'a \<Rightarrow> ('s, 'a) prog" where
  "ret x s = (Inr x, s)"

definition raise_e :: "exc \<Rightarrow> ('s, 'a) prog" where
  "raise_e e s = (Inl e, s)"

definition bind_p :: "('s, 'a) prog \<Rightarrow> ('a \<Rightarrow> ('s, 'b) prog) \<Rightarrow> ('s, 'b) prog" where
  "bind_p p f s = (case p s of (Inl e, s') \<Rightarrow> (Inl e, s') | (Inr x, s') \<Rightarrow> f x s')"

definition gets_p :: "('s \<Rightarrow> 'a) \<Rightarrow> ('s, 'a) prog" where
  "gets_p f s = (Inr (f s), s)"

definition modify_p :: "('s \<Rightarrow> 's) \<Rightarrow> ('s, unit) prog" where
  "modify_p f s = (Inr (), f s)"

definition lift_r :: "('s \<Rightarrow> 'a res) \<Rightarrow> ('s, 'a) prog" where
  "lift_r f s = (f s, s)"

definition guard_p :: "('s \<Rightarrow> bool) \<Rightarrow> exc \<Rightarrow> ('s, unit) prog" where
  "guard_p b e s = (if b s then Inr () else Inl e, s)"

text \<open>\<open>try: p  except Exception as e: h e\<close>.\<close>

definition catch_p :: "('s, 'a) prog \<Rightarrow> (exc \<Rightarrow> ('s, 'a) prog) \<Rightarrow> ('s, 'a) prog" where
  "catch_p p h s = (case p s of (Inl e, s') \<Rightarrow> h e s' | (Inr x, s') \<Rightarrow> (Inr x, s'))"

lemma prog_run [prog_simps]:
  "ret x s = (Inr x, s)"
  "raise_e e s = (Inl e, s)"
  "gets_p f s = (Inr (f s), s)"
  "modify_p g s = (Inr (), g s)"
  "lift_r h s = (h s, s)"
  "guard_p b e s = (if b s then Inr () else Inl e, s)"
  by (simp_all add: ret_def raise_e_def gets_p_def modify_p_def lift_r_def guard_p_def)

lemma bind_p_run [prog_simps]:
  "p s = (Inl e, s') \<Longrightarrow> bind_p p f s = (Inl e, s')"
  "p s = (Inr x, s') \<Longrightarrow> bind_p p f s = f x s'"
  by (simp_all add: bind_p_def)

lemma catch_p_run [prog_simps]:
  "p s = (Inl e, s') \<Longrightarrow> catch_p p h s = h e s'"
  "p s = (Inr x, s') \<Longrightarrow> catch_p p h s = (Inr x, s')"
  by (simp_all add: catch_p_def)

lemma bind_p_ret [simp]: "bind_p (ret x) f = f x"
  by (rule ext) (simp add: bind_p_def ret_def)

lemma bind_p_raise [simp]: "bind_p (raise_e e) f = raise_e e"
  by (rule ext) (simp add: bind_p_def raise_e_def)

lemma bind_p_Inr:
  "bind_p p f s = (Inr y, t) \<longleftrightarrow> (\<exists>x s'. p s = (Inr x, s') \<and> f x s' = (Inr y, t))"
  by (auto simp: bind_p_def split: prod.splits sum.splits)

lemma bind_p_Inl:
  "bind_p p f s = (Inl e, t) \<longleftrightarrow>
     p s = (Inl e, t) \<or> (\<exists>x s'. p s = (Inr x, s') \<and> f x s' = (Inl e, t))"
  by (auto simp: bind_p_def split: prod.splits sum.splits)

subsection \<open>Hoare triples\<close>

text \<open>
  From a state where \<open>P\<close> holds, a normal return ends in \<open>Q\<close> and an exception ends in
  \<open>R\<close>. Programs are total, so the triple is total correctness.
\<close>

definition hoare ::
  "('s \<Rightarrow> bool) \<Rightarrow> ('s, 'a) prog \<Rightarrow> ('a \<Rightarrow> 's \<Rightarrow> bool) \<Rightarrow> (exc \<Rightarrow> 's \<Rightarrow> bool) \<Rightarrow> bool" where
  "hoare P p Q R \<longleftrightarrow>
     (\<forall>s. P s \<longrightarrow> (case p s of (Inl e, t) \<Rightarrow> R e t | (Inr x, t) \<Rightarrow> Q x t))"

lemma hoareI:
  assumes "\<And>s x t. P s \<Longrightarrow> p s = (Inr x, t) \<Longrightarrow> Q x t"
    and "\<And>s e t. P s \<Longrightarrow> p s = (Inl e, t) \<Longrightarrow> R e t"
  shows "hoare P p Q R"
  using assms unfolding hoare_def by (auto split: prod.splits sum.splits)

lemma hoare_returns: "hoare P p Q R \<Longrightarrow> P s \<Longrightarrow> p s = (Inr x, t) \<Longrightarrow> Q x t"
  by (auto simp: hoare_def)

lemma hoare_raises: "hoare P p Q R \<Longrightarrow> P s \<Longrightarrow> p s = (Inl e, t) \<Longrightarrow> R e t"
  by (auto simp: hoare_def)

lemma hoare_weaken:
  assumes "hoare P p Q R"
    and "\<And>s. P' s \<Longrightarrow> P s"
    and "\<And>x t. Q x t \<Longrightarrow> Q' x t"
    and "\<And>e t. R e t \<Longrightarrow> R' e t"
  shows "hoare P' p Q' R'"
  using assms unfolding hoare_def by (fastforce split: prod.splits sum.splits)

lemma hoare_pre: "hoare P p Q R \<Longrightarrow> (\<And>s. P' s \<Longrightarrow> P s) \<Longrightarrow> hoare P' p Q R"
  by (rule hoare_weaken)

lemma hoare_ret [wp]: "hoare (\<lambda>s. Q x s) (ret x) Q R"
  by (simp add: hoare_def ret_def)

lemma hoare_raise [wp]: "hoare (\<lambda>s. R e s) (raise_e e) Q R"
  by (simp add: hoare_def raise_e_def)

lemma hoare_gets [wp]: "hoare (\<lambda>s. Q (f s) s) (gets_p f) Q R"
  by (simp add: hoare_def gets_p_def)

lemma hoare_modify [wp]: "hoare (\<lambda>s. Q () (f s)) (modify_p f) Q R"
  by (simp add: hoare_def modify_p_def)

lemma hoare_lift [wp]:
  "hoare (\<lambda>s. case f s of Inl e \<Rightarrow> R e s | Inr x \<Rightarrow> Q x s) (lift_r f) Q R"
  by (simp add: hoare_def lift_r_def)

lemma hoare_guard [wp]: "hoare (\<lambda>s. if b s then Q () s else R e s) (guard_p b e) Q R"
  by (simp add: hoare_def guard_p_def)

lemma hoare_bind:
  assumes "\<And>x. hoare (M x) (f x) Q R" and "hoare P p M R"
  shows "hoare P (bind_p p f) Q R"
  using assms unfolding hoare_def bind_p_def
  by (fastforce split: prod.splits sum.splits)

lemma hoare_catch:
  assumes "\<And>e. hoare (M e) (h e) Q R" and "hoare P p Q M"
  shows "hoare P (catch_p p h) Q R"
  using assms unfolding hoare_def catch_p_def
  by (fastforce split: prod.splits sum.splits)

lemma hoare_if:
  assumes "b \<Longrightarrow> hoare P1 p Q R" and "\<not> b \<Longrightarrow> hoare P2 q Q R"
  shows "hoare (\<lambda>s. if b then P1 s else P2 s) (if b then p else q) Q R"
  using assms by auto

section \<open>Lists and association lists\<close>

lemma length_concat_map_const:
  "(\<And>x. x \<in> set xs \<Longrightarrow> length (f x) = n) \<Longrightarrow> length (concat (map f xs)) = n * length xs"
  by (induction xs) auto

lemma map_of_eq_SomeD: "map_of xs k = Some v \<Longrightarrow> (k, v) \<in> set xs"
  by (rule map_of_SomeD)

lemma take_eq_append: "length xs = n \<Longrightarrow> take n (xs @ ys) = xs"
  by simp

lemma drop_eq_append: "length xs = n \<Longrightarrow> drop n (xs @ ys) = ys"
  by simp

end
