(* ===== verification/PyText.thy ===== *)
theory PyText
  imports Prelude "HOL-Library.List_Lexorder" "HOL-Library.Char_ord"
begin

text \<open>
  Python text. A \<^verbatim>\<open>bytes\<close> value is a \<open>string\<close> whose characters are the bytes. A
  \<^verbatim>\<open>str\<close> value is held as the bytes of its UTF-8 encoding, with a lone surrogate (which
  a Python string may hold, and which strict UTF-8 cannot encode) as its own three bytes;
  so \<^verbatim>\<open>encode("utf-8")\<close> and \<^verbatim>\<open>decode("utf-8")\<close> are the identity where they succeed,
  and Python's \<^verbatim>\<open>len\<close> counts \<open>code_points\<close>. Decimal printing and reading of integers
  is here too, as \<^verbatim>\<open>str\<close> and \<^verbatim>\<open>int\<close> do it.
\<close>

type_synonym bytes = string
type_synonym pystr = string

section \<open>Code points\<close>

definition byte_of :: "char \<Rightarrow> nat" where
  "byte_of c = of_char c"

lemma byte_of_less [simp]: "byte_of c < 256"
  by (simp add: byte_of_def)

lemma byte_of_eq_iff [simp]: "byte_of c = byte_of d \<longleftrightarrow> c = d"
  by (simp add: byte_of_def)

lemma byte_of_char_of [simp]: "n < 256 \<Longrightarrow> byte_of (char_of n) = n"
  by (simp add: byte_of_def)

lemma char_of_byte_of [simp]: "char_of (byte_of c) = c"
  by (simp add: byte_of_def)

definition is_cont :: "nat \<Rightarrow> bool" where
  "is_cont b \<longleftrightarrow> 128 \<le> b \<and> b < 192"

text \<open>
  The decoder; the flag says whether a surrogate (D800 to DFFF) is let through.
  \<open>None\<close> is \<^verbatim>\<open>UnicodeDecodeError\<close>.
\<close>

fun utf8_decode :: "bool \<Rightarrow> nat list \<Rightarrow> nat list option" where
  "utf8_decode surr [] = Some []"
| "utf8_decode surr (b # bs) =
     (if b < 128 then map_option ((#) b) (utf8_decode surr bs)
      else if 194 \<le> b \<and> b < 224 then
        (case bs of
          c1 # r \<Rightarrow>
            if is_cont c1 then map_option ((#) ((b - 192) * 64 + (c1 - 128))) (utf8_decode surr r)
            else None
        | _ \<Rightarrow> None)
      else if 224 \<le> b \<and> b < 240 then
        (case bs of
          c1 # c2 # r \<Rightarrow>
            (let n = (b - 224) * 4096 + (c1 - 128) * 64 + (c2 - 128)
             in if is_cont c1 \<and> is_cont c2 \<and> 2048 \<le> n \<and> (surr \<or> \<not> (55296 \<le> n \<and> n < 57344))
                then map_option ((#) n) (utf8_decode surr r) else None)
        | _ \<Rightarrow> None)
      else if 240 \<le> b \<and> b < 245 then
        (case bs of
          c1 # c2 # c3 # r \<Rightarrow>
            (let n = (b - 240) * 262144 + (c1 - 128) * 4096 + (c2 - 128) * 64 + (c3 - 128)
             in if is_cont c1 \<and> is_cont c2 \<and> is_cont c3 \<and> 65536 \<le> n \<and> n < 1114112
                then map_option ((#) n) (utf8_decode surr r) else None)
        | _ \<Rightarrow> None)
      else None)"

definition utf8_encode_cp :: "nat \<Rightarrow> nat list" where
  "utf8_encode_cp n =
     (if n < 128 then [n]
      else if n < 2048 then [192 + n div 64, 128 + n mod 64]
      else if n < 65536 then [224 + n div 4096, 128 + n div 64 mod 64, 128 + n mod 64]
      else [240 + n div 262144, 128 + n div 4096 mod 64, 128 + n div 64 mod 64, 128 + n mod 64])"

definition chr_str :: "nat \<Rightarrow> pystr" where
  "chr_str n = map char_of (utf8_encode_cp n)"

text \<open>The code points of a Python string (\<open>[]\<close> for bytes that encode none).\<close>

definition code_points :: "pystr \<Rightarrow> nat list" where
  "code_points s = (case utf8_decode True (map byte_of s) of Some cs \<Rightarrow> cs | None \<Rightarrow> [])"

text \<open>\<^verbatim>\<open>len(s)\<close> and \<^verbatim>\<open>s[:n]\<close>.\<close>

definition py_len :: "pystr \<Rightarrow> nat" where
  "py_len s = length (code_points s)"

definition py_take :: "nat \<Rightarrow> pystr \<Rightarrow> pystr" where
  "py_take n s = concat (map chr_str (take n (code_points s)))"

text \<open>\<^verbatim>\<open>b.decode("utf-8")\<close> and \<^verbatim>\<open>s.encode("utf-8")\<close>: both accept strict UTF-8 only.\<close>

definition utf8_ok :: "string \<Rightarrow> bool" where
  "utf8_ok s \<longleftrightarrow> utf8_decode False (map byte_of s) \<noteq> None"

text \<open>A value the model may take for a Python string: UTF-8, surrogates allowed.\<close>

definition str_ok :: "pystr \<Rightarrow> bool" where
  "str_ok s \<longleftrightarrow> utf8_decode True (map byte_of s) \<noteq> None"

lemma div_mod_64: "(n::nat) = n div 64 * 64 + n mod 64"
  by simp

lemma div_4096: "(n::nat) div 4096 = n div 64 div 64"
  by (simp add: div_mult2_eq [of n 64 64, simplified])

lemma div_262144: "(n::nat) div 262144 = n div 64 div 64 div 64"
  by (simp add: div_mult2_eq [of "n div 64" 64 64, simplified]
      div_mult2_eq [of n 64 4096, simplified])

lemma split_4096: "(n::nat) div 4096 * 4096 + n div 64 mod 64 * 64 + n mod 64 = n"
  using div_mod_64 [of n] div_mod_64 [of "n div 64"] div_4096 [of n] by linarith

lemma split_262144:
  "(n::nat) div 262144 * 262144 + n div 4096 mod 64 * 4096 + n div 64 mod 64 * 64 + n mod 64 = n"
proof -
  have "n div 4096 = n div 262144 * 64 + n div 4096 mod 64"
    using div_mod_64 [of "n div 4096"] by (simp add: div_4096 div_262144)
  then show ?thesis using split_4096 [of n] by linarith
qed

lemma decode_encode_cp:
  assumes "n < 1114112" and "surr \<or> \<not> (55296 \<le> n \<and> n < 57344)"
  shows "utf8_decode surr (utf8_encode_cp n @ bs) = map_option ((#) n) (utf8_decode surr bs)"
proof -
  have m: "n mod 64 < 64" "n div 64 mod 64 < 64" "n div 4096 mod 64 < 64" by simp_all
  consider "n < 128" | "128 \<le> n" "n < 2048" | "2048 \<le> n" "n < 65536" | "65536 \<le> n"
    by linarith
  then show ?thesis
  proof cases
    case 1
    then show ?thesis by (simp add: utf8_encode_cp_def)
  next
    case 2
    then have "2 \<le> n div 64" "n div 64 < 32" by auto
    with 2 m show ?thesis by (simp add: utf8_encode_cp_def is_cont_def)
  next
    case 3
    then have h: "n div 4096 < 16" by auto
    have "utf8_encode_cp n = [224 + n div 4096, 128 + n div 64 mod 64, 128 + n mod 64]"
      using 3 by (simp add: utf8_encode_cp_def)
    moreover have "is_cont (128 + n div 64 mod 64)" "is_cont (128 + n mod 64)"
      using m by (simp_all add: is_cont_def)
    ultimately show ?thesis
      using 3 h m assms(2) split_4096 [of n] by (simp add: Let_def)
  next
    case 4
    have h: "n div 262144 < 5" using assms(1) by auto
    have "utf8_encode_cp n = [240 + n div 262144, 128 + n div 4096 mod 64,
        128 + n div 64 mod 64, 128 + n mod 64]"
      using 4 by (simp add: utf8_encode_cp_def)
    moreover have "is_cont (128 + n div 4096 mod 64)" "is_cont (128 + n div 64 mod 64)"
      "is_cont (128 + n mod 64)"
      using m by (simp_all add: is_cont_def)
    ultimately show ?thesis
      using 4 h m assms(1) split_262144 [of n] by (simp add: Let_def)
  qed
qed

lemma contE:
  assumes "is_cont c"
  obtains y where "c = 128 + y" "y < 64"
proof
  show "c = 128 + (c - 128)" "c - 128 < 64" using assms unfolding is_cont_def by linarith+
qed

lemma digit_64: "z < 64 \<Longrightarrow> (a * 64 + z) div 64 = (a::nat)" "z < 64 \<Longrightarrow> (a * 64 + z) mod 64 = (z::nat)"
  by simp_all

lemma encode_two:
  assumes "194 \<le> b" "b < 224" "is_cont c1"
  shows "utf8_encode_cp ((b - 192) * 64 + (c1 - 128)) = [b, c1]"
proof -
  have "192 \<le> b" using assms(1) by simp
  then obtain x where "b = 192 + x" by (auto dest: le_Suc_ex)
  moreover obtain y where "c1 = 128 + y" "y < 64" using assms(3) by (rule contE)
  ultimately show ?thesis using assms(1,2) by (simp add: utf8_encode_cp_def)
qed

lemma encode_three:
  assumes "224 \<le> b" "b < 240" "is_cont c1" "is_cont c2"
    "n = (b - 224) * 4096 + (c1 - 128) * 64 + (c2 - 128)" "2048 \<le> n"
  shows "utf8_encode_cp n = [b, c1, c2]"
proof -
  obtain x y z where v: "b = 224 + x" "c1 = 128 + y" "y < 64" "c2 = 128 + z" "z < 64"
    using assms(1,3,4) by (auto dest: le_Suc_ex elim!: contE)
  have n: "n = (x * 64 + y) * 64 + z" using assms(5) v by simp
  have "n div 64 = x * 64 + y" "n mod 64 = z" unfolding n using v by (simp_all only: digit_64)
  moreover from this have "n div 4096 = x" using v by (simp add: div_4096)
  moreover have "n < 65536" using v n assms(2) by simp
  ultimately show ?thesis using v assms(6) by (simp add: utf8_encode_cp_def)
qed

lemma encode_four:
  assumes "240 \<le> b" "is_cont c1" "is_cont c2" "is_cont c3"
    "n = (b - 240) * 262144 + (c1 - 128) * 4096 + (c2 - 128) * 64 + (c3 - 128)" "65536 \<le> n"
  shows "utf8_encode_cp n = [b, c1, c2, c3]"
proof -
  obtain x y z w where v: "b = 240 + x" "c1 = 128 + y" "y < 64" "c2 = 128 + z" "z < 64"
    "c3 = 128 + w" "w < 64"
    using assms(1-4) by (auto dest: le_Suc_ex elim!: contE)
  have n: "n = ((x * 64 + y) * 64 + z) * 64 + w" using assms(5) v by simp
  have "n div 64 = (x * 64 + y) * 64 + z" "n mod 64 = w"
    unfolding n using v by (simp_all only: digit_64)
  moreover from this have "n div 4096 = x * 64 + y"
    using v by (simp only: div_4096 digit_64)
  moreover from this have "n div 262144 = x"
    using v by (simp add: div_262144 div_4096)
  moreover from calculation(1) have "n div 64 mod 64 = z" using v by (simp only: digit_64)
  ultimately show ?thesis using v assms(6) by (simp add: utf8_encode_cp_def)
qed

text \<open>The decoder only accepts the encodings of the code points it returns.\<close>

lemma encode_decode:
  "utf8_decode surr bs = Some cs \<Longrightarrow> concat (map utf8_encode_cp cs) = bs"
proof (induction surr bs arbitrary: cs rule: utf8_decode.induct)
  case (1 surr)
  then show ?case by simp
next
  case (2 surr b bs)
  consider (one) "b < 128" | (two) "194 \<le> b" "b < 224" | (three) "224 \<le> b" "b < 240"
    | (four) "240 \<le> b" "b < 245"
    using "2.prems" by (auto split: if_splits)
  then show ?case
  proof cases
    case one
    with "2.prems" obtain ds where "utf8_decode surr bs = Some ds" "cs = b # ds" by auto
    with "2.IH"(1) one show ?thesis by (simp add: utf8_encode_cp_def)
  next
    case two
    with "2.prems" obtain c1 r ds where d: "bs = c1 # r" "is_cont c1"
      "utf8_decode surr r = Some ds" "cs = ((b - 192) * 64 + (c1 - 128)) # ds"
      by (auto split: list.splits if_splits)
    have e: "utf8_encode_cp ((b - 192) * 64 + (c1 - 128)) = [b, c1]"
      using two d(2) by (rule encode_two)
    from "2.IH"(2) two d have "concat (map utf8_encode_cp ds) = r" by simp
    with d e show ?thesis by simp
  next
    case three
    with "2.prems" obtain c1 c2 r ds n where d: "bs = c1 # c2 # r"
      "n = (b - 224) * 4096 + (c1 - 128) * 64 + (c2 - 128)"
      "is_cont c1" "is_cont c2" "2048 \<le> n" "surr \<or> \<not> (55296 \<le> n \<and> n < 57344)"
      "utf8_decode surr r = Some ds" "cs = n # ds"
      by (auto split: list.splits if_splits simp: Let_def)
    have e: "utf8_encode_cp n = [b, c1, c2]"
      using three d(3,4,2,5) by (rule encode_three)
    from "2.IH"(3) three d have "concat (map utf8_encode_cp ds) = r" by (simp add: Let_def)
    with d e show ?thesis by simp
  next
    case four
    with "2.prems" obtain c1 c2 c3 r ds n where d: "bs = c1 # c2 # c3 # r"
      "n = (b - 240) * 262144 + (c1 - 128) * 4096 + (c2 - 128) * 64 + (c3 - 128)"
      "is_cont c1" "is_cont c2" "is_cont c3" "65536 \<le> n" "n < 1114112"
      "utf8_decode surr r = Some ds" "cs = n # ds"
      by (auto split: list.splits if_splits simp: Let_def)
    have e: "utf8_encode_cp n = [b, c1, c2, c3]"
      using four(1) d(3-5,2,6) by (rule encode_four)
    from "2.IH"(4) four d have "concat (map utf8_encode_cp ds) = r" by (simp add: Let_def)
    with d e show ?thesis by simp
  qed
qed

lemma chr_str_code_points:
  assumes "str_ok s"
  shows "concat (map chr_str (code_points s)) = s"
proof -
  from assms obtain cs where cs: "utf8_decode True (map byte_of s) = Some cs"
    by (auto simp: str_ok_def)
  have "concat (map chr_str cs) = map char_of (concat (map utf8_encode_cp cs))"
    by (induction cs) (simp_all add: chr_str_def)
  also have "\<dots> = s" by (simp add: encode_decode [OF cs] comp_def)
  finally show ?thesis by (simp add: code_points_def cs)
qed

lemma utf8_decode_mono: "utf8_decode False bs = Some cs \<Longrightarrow> utf8_decode True bs = Some cs"
proof (induction False bs arbitrary: cs rule: utf8_decode.induct)
  case (2 b bs)
  then show ?case by (auto simp: Let_def split: if_splits list.splits)
qed simp

lemma utf8_ok_str_ok: "utf8_ok s \<Longrightarrow> str_ok s"
  by (auto simp: utf8_ok_def str_ok_def dest: utf8_decode_mono)

lemma utf8_decode_ascii:
  "(\<forall>b \<in> set bs. b < 128) \<Longrightarrow> utf8_decode surr (bs @ r) = map_option ((@) bs) (utf8_decode surr r)"
  by (induction bs) (auto simp: option.map_comp comp_def option.map_ident append_def
      cong: option.map_cong split: option.splits)

definition ascii :: "string \<Rightarrow> bool" where
  "ascii s \<longleftrightarrow> (\<forall>c \<in> set s. byte_of c < 128)"

lemma ascii_utf8_ok: "ascii s \<Longrightarrow> utf8_ok s"
  using utf8_decode_ascii [of "map byte_of s" False "[]"] by (auto simp: utf8_ok_def ascii_def)

lemma ascii_code_points: "ascii s \<Longrightarrow> code_points s = map byte_of s"
  using utf8_decode_ascii [of "map byte_of s" True "[]"] by (auto simp: code_points_def ascii_def)

lemma ascii_py_len: "ascii s \<Longrightarrow> py_len s = length s"
  by (simp add: py_len_def ascii_code_points)

section \<open>Decimal integers\<close>

definition is_digit :: "char \<Rightarrow> bool" where
  "is_digit c \<longleftrightarrow> 48 \<le> byte_of c \<and> byte_of c \<le> 57"

definition digit_char :: "nat \<Rightarrow> char" where
  "digit_char d = char_of (48 + d)"

definition digit_val :: "char \<Rightarrow> nat" where
  "digit_val c = byte_of c - 48"

lemma digit_char [simp]:
  "d < 10 \<Longrightarrow> is_digit (digit_char d)"
  "d < 10 \<Longrightarrow> digit_val (digit_char d) = d"
  by (simp_all add: is_digit_def digit_char_def digit_val_def)

lemma digit_char_zero_iff: "d < 10 \<Longrightarrow> digit_char d = CHR ''0'' \<longleftrightarrow> d = 0"
proof -
  assume "d < 10"
  then have "byte_of (digit_char d) = 48 + d" by (simp add: digit_char_def)
  moreover have "byte_of (CHR ''0'') = 48" by (simp add: byte_of_def)
  ultimately show ?thesis by (metis add_cancel_right_right byte_of_eq_iff)
qed

fun nat_str :: "nat \<Rightarrow> string" where
  "nat_str n = (if n < 10 then [digit_char n] else nat_str (n div 10) @ [digit_char (n mod 10)])"

declare nat_str.simps [simp del]

definition int_str :: "int \<Rightarrow> string" where
  "int_str i = (if i < 0 then CHR ''-'' # nat_str (nat (- i)) else nat_str (nat i))"

definition str_nat :: "string \<Rightarrow> nat" where
  "str_nat s = foldl (\<lambda>a c. 10 * a + digit_val c) 0 s"

lemma str_nat_append1: "str_nat (s @ [c]) = 10 * str_nat s + digit_val c"
  by (simp add: str_nat_def)

lemma str_nat_nat_str [simp]: "str_nat (nat_str n) = n"
proof (induction n rule: nat_str.induct)
  case (1 n)
  show ?case
  proof (cases "n < 10")
    case True
    then show ?thesis by (simp add: nat_str.simps [of n] str_nat_def)
  next
    case False
    with 1 show ?thesis by (simp add: nat_str.simps [of n] str_nat_append1)
  qed
qed

lemma nat_str_digits: "c \<in> set (nat_str n) \<Longrightarrow> is_digit c"
proof (induction n rule: nat_str.induct)
  case (1 n)
  then show ?case by (auto simp: nat_str.simps [of n] split: if_splits)
qed

lemma nat_str_nonempty [simp]: "nat_str n \<noteq> []"
  by (subst nat_str.simps) simp

text \<open>No leading zero, but for zero itself.\<close>

lemma nat_str_hd: "0 < n \<Longrightarrow> hd (nat_str n) \<noteq> CHR ''0''"
proof (induction n rule: nat_str.induct)
  case (1 n)
  show ?case
  proof (cases "n < 10")
    case True
    with "1.prems" show ?thesis by (simp add: nat_str.simps [of n] digit_char_zero_iff)
  next
    case False
    then have "0 < n div 10" by simp
    with False "1.IH" show ?thesis by (simp add: nat_str.simps [of n] hd_append)
  qed
qed

lemma nat_str_zero: "nat_str 0 = ''0''"
  using digit_char_zero_iff [of 0] by (subst nat_str.simps) simp

lemma nat_str_length: "n < 10 ^ k \<Longrightarrow> 0 < k \<Longrightarrow> length (nat_str n) \<le> k"
proof (induction n arbitrary: k rule: nat_str.induct)
  case (1 n)
  show ?case
  proof (cases "n < 10")
    case True
    with "1.prems" show ?thesis by (simp add: nat_str.simps [of n])
  next
    case False
    then have "k \<noteq> 1" using "1.prems" by auto
    then obtain j where k: "k = Suc j" "0 < j" using "1.prems"(2) by (cases k) auto
    with "1.prems" have "n div 10 < 10 ^ j" by (simp add: less_mult_imp_div_less mult.commute)
    with "1.IH" False k have "length (nat_str (n div 10)) \<le> j" by blast
    with False k show ?thesis by (simp add: nat_str.simps [of n])
  qed
qed

lemma is_digit_ascii: "is_digit c \<Longrightarrow> byte_of c < 128"
  by (simp add: is_digit_def)

lemma nat_str_ascii: "ascii (nat_str n)"
  by (auto simp: ascii_def dest!: nat_str_digits is_digit_ascii)

lemma utf8_decode_append:
  "utf8_decode surr xs = Some cs \<Longrightarrow>
     utf8_decode surr (xs @ ys) = map_option ((@) cs) (utf8_decode surr ys)"
proof (induction surr xs arbitrary: cs rule: utf8_decode.induct)
  case (1 surr)
  then show ?case by (cases "utf8_decode surr ys") simp_all
next
  case (2 surr b bs)
  then show ?case
    by (cases "utf8_decode surr ys") (auto simp: Let_def split: if_splits list.splits)
qed

lemma utf8_ok_append: "utf8_ok s \<Longrightarrow> utf8_ok t \<Longrightarrow> utf8_ok (s @ t)"
  by (auto simp: utf8_ok_def utf8_decode_append)

lemma chr_str_high: "128 \<le> n \<Longrightarrow> n < 1114112 \<Longrightarrow> c \<in> set (chr_str n) \<Longrightarrow> 128 \<le> byte_of c"
  by (auto simp: chr_str_def utf8_encode_cp_def split: if_splits)

lemma two_bytes_less: "b < 224 \<Longrightarrow> c < 192 \<Longrightarrow> (b - 192) * 64 + (c - 128) < (2048::nat)"
proof -
  assume "b < 224" "c < 192"
  then have "b - 192 \<le> 31" "c - 128 \<le> 63" by simp_all
  then have "(b - 192) * 64 \<le> 31 * 64" by (intro mult_right_mono) simp_all
  then show ?thesis using \<open>c - 128 \<le> 63\<close> by simp
qed

lemma three_bytes_less:
  "b < 240 \<Longrightarrow> c < 192 \<Longrightarrow> d < 192 \<Longrightarrow> (b - 224) * 4096 + (c - 128) * 64 + (d - 128) < (65536::nat)"
proof -
  assume "b < 240" "c < 192" "d < 192"
  then have b: "b - 224 \<le> 15" and c: "c - 128 \<le> 63" and d: "d - 128 \<le> 63" by simp_all
  have "(b - 224) * 4096 \<le> 15 * 4096" using b by (rule mult_right_mono) simp
  moreover have "(c - 128) * 64 \<le> 63 * 64" using c by (rule mult_right_mono) simp
  ultimately show ?thesis using d by simp
qed

lemma utf8_decode_Cons:
  assumes "utf8_decode surr (b # bs) = Some cs"
  obtains n r cs' where "cs = n # cs'" "utf8_decode surr r = Some cs'" "length r \<le> length bs"
    "n < 1114112" "surr \<or> \<not> (55296 \<le> n \<and> n < 57344)"
proof -
  consider "b < 128" | "194 \<le> b" "b < 224" "\<not> b < 128"
    | "224 \<le> b" "b < 240" "\<not> b < 128" "\<not> b < 224"
    | "240 \<le> b" "b < 245" "\<not> b < 128" "\<not> b < 224" "\<not> b < 240"
    using assms by (fastforce split: if_splits)
  then show thesis
  proof cases
    case 1
    then show thesis using assms by (auto intro: that)
  next
    case 2
    then obtain c r where c: "bs = c # r" "is_cont c"
      using assms by (auto split: list.splits if_splits)
    then have "(b - 192) * 64 + (c - 128) < 2048" using 2 by (intro two_bytes_less) (simp_all add: is_cont_def)
    then show thesis using assms 2 c by (auto intro!: that [of "(b - 192) * 64 + (c - 128)" _ r])
  next
    case 3
    then obtain c d r where c: "bs = c # d # r" "is_cont c" "is_cont d"
      using assms by (auto simp: Let_def split: list.splits if_splits)
    define n where "n = (b - 224) * 4096 + (c - 128) * 64 + (d - 128)"
    have "n < 65536" unfolding n_def using 3 c by (intro three_bytes_less) (simp_all add: is_cont_def)
    moreover have "surr \<or> \<not> (55296 \<le> n \<and> n < 57344)" "map_option ((#) n) (utf8_decode surr r) = Some cs"
      using assms 3 c by (auto simp: Let_def n_def [symmetric] split: if_splits)
    ultimately show thesis using c by (auto intro!: that [of n _ r])
  next
    case 4
    then obtain c d e r where c: "bs = c # d # e # r" "is_cont c" "is_cont d" "is_cont e"
      using assms by (auto simp: Let_def split: list.splits if_splits)
    define n where "n = (b - 240) * 262144 + (c - 128) * 4096 + (d - 128) * 64 + (e - 128)"
    have "65536 \<le> n" "n < 1114112" "map_option ((#) n) (utf8_decode surr r) = Some cs"
      using assms 4 c by (simp_all add: Let_def n_def [symmetric] split: if_splits)
    then show thesis using c by (auto intro!: that [of n _ r])
  qed
qed

lemma utf8_decode_points:
  "utf8_decode surr bs = Some cs \<Longrightarrow> n \<in> set cs \<Longrightarrow>
     n < 1114112 \<and> (surr \<or> \<not> (55296 \<le> n \<and> n < 57344))"
proof (induction bs arbitrary: cs rule: length_induct)
  case (1 bs)
  show ?case
  proof (cases bs)
    case (Cons b bs')
    obtain m r cs' where "cs = m # cs'" "utf8_decode surr r = Some cs'" "length r \<le> length bs'"
      "m < 1114112" "surr \<or> \<not> (55296 \<le> m \<and> m < 57344)"
      using "1.prems"(1) unfolding Cons by (rule utf8_decode_Cons)
    note d = this
    show ?thesis
    proof (cases "n = m")
      case False
      then have "n \<in> set cs'" using "1.prems"(2) d(1) by simp
      then show ?thesis using "1.IH" d(2,3) Cons by (metis le_imp_less_Suc length_Cons)
    qed (use d in simp)
  qed (use 1 in simp)
qed

lemma utf8_decode_less: "utf8_decode surr bs = Some cs \<Longrightarrow> n \<in> set cs \<Longrightarrow> n < 1114112"
  by (simp add: utf8_decode_points)

lemma utf8_decode_strict:
  "utf8_decode False bs = Some cs \<Longrightarrow> n \<in> set cs \<Longrightarrow> \<not> (55296 \<le> n \<and> n < 57344)"
  using utf8_decode_points [of False] by blast
end
