(* ===== verification/PyFloat.thy ===== *)
theory PyFloat
  imports PyText Complex_Main "HOL-Library.Log_Nat"
begin

text \<open>
  Python numbers. A \<^verbatim>\<open>float\<close> is an IEEE 754 binary64: a finite one is held as its exact
  rational value (minus zero apart), and \<open>fl\<close> is round-half-even to 53 significant bits with
  gradual underflow, written out on rationals so that every operation evaluates. Comparisons
  between \<^verbatim>\<open>int\<close> and \<^verbatim>\<open>float\<close> are exact, as Python's are. \<open>float_repr\<close> is the shortest
  decimal text that reads back as the same value, which is what \<^verbatim>\<open>repr\<close> and \<^verbatim>\<open>json\<close> write.
\<close>

section \<open>Rounding\<close>

definition round_half_even :: "rat \<Rightarrow> int" where
  "round_half_even q =
     (let f = \<lfloor>q\<rfloor>; r = q - of_int f
      in if r < 1 / 2 then f else if 1 / 2 < r then f + 1 else if even f then f else f + 1)"

text \<open>For \<open>0 < q\<close>: the greatest \<open>e\<close> with \<open>2 powi e \<le> q\<close>.\<close>

definition flog2 :: "rat \<Rightarrow> int" where
  "flog2 q =
     (let (n, d) = quotient_of q; e = bitlen n - bitlen d
      in if 2 powi e \<le> q then e else e - 1)"

definition ulp_exp :: "rat \<Rightarrow> int" where
  "ulp_exp q = max (flog2 q - 52) (- 1074)"

definition fl :: "rat \<Rightarrow> rat" where
  "fl q =
     (if q = 0 then 0
      else let e = ulp_exp \<bar>q\<bar>
           in sgn q * (of_int (round_half_even (\<bar>q\<bar> / 2 powi e)) * 2 powi e))"

section \<open>Floats\<close>

datatype pyfloat = Fin rat | NegZero | PInf | NInf | NaN

definition float_max_exp :: rat where
  "float_max_exp = 2 ^ 1024"

text \<open>The float nearest to a sign and a magnitude.\<close>

definition float_round :: "bool \<Rightarrow> rat \<Rightarrow> pyfloat" where
  "float_round neg q =
     (let r = fl q
      in if r = 0 then (if neg then NegZero else Fin 0)
         else if float_max_exp \<le> r then (if neg then NInf else PInf)
         else Fin (if neg then - r else r))"

definition float_of_rat :: "rat \<Rightarrow> pyfloat" where
  "float_of_rat q = float_round (q < 0) \<bar>q\<bar>"

fun is_finite :: "pyfloat \<Rightarrow> bool" where
  "is_finite (Fin _) = True"
| "is_finite NegZero = True"
| "is_finite _ = False"

fun fin_val :: "pyfloat \<Rightarrow> rat" where
  "fin_val (Fin q) = q"
| "fin_val _ = 0"

definition is_double :: "pyfloat \<Rightarrow> bool" where
  "is_double x \<longleftrightarrow> (case x of Fin q \<Rightarrow> float_of_rat q = Fin q | _ \<Rightarrow> True)"

fun float_le :: "pyfloat \<Rightarrow> pyfloat \<Rightarrow> bool" where
  "float_le NaN y = False"
| "float_le x NaN = False"
| "float_le NInf y = True"
| "float_le x PInf = True"
| "float_le PInf y = False"
| "float_le x NInf = False"
| "float_le x y = (fin_val x \<le> fin_val y)"

fun float_lt :: "pyfloat \<Rightarrow> pyfloat \<Rightarrow> bool" where
  "float_lt NaN y = False"
| "float_lt x NaN = False"
| "float_lt x NInf = False"
| "float_lt PInf y = False"
| "float_lt NInf y = True"
| "float_lt x PInf = True"
| "float_lt x y = (fin_val x < fin_val y)"

fun float_neg :: "pyfloat \<Rightarrow> pyfloat" where
  "float_neg (Fin q) = (if q = 0 then NegZero else Fin (- q))"
| "float_neg NegZero = Fin 0"
| "float_neg PInf = NInf"
| "float_neg NInf = PInf"
| "float_neg NaN = NaN"

fun float_add :: "pyfloat \<Rightarrow> pyfloat \<Rightarrow> pyfloat" where
  "float_add NaN y = NaN"
| "float_add x NaN = NaN"
| "float_add PInf NInf = NaN"
| "float_add NInf PInf = NaN"
| "float_add PInf y = PInf"
| "float_add NInf y = NInf"
| "float_add x PInf = PInf"
| "float_add x NInf = NInf"
| "float_add NegZero NegZero = NegZero"
| "float_add x y = float_of_rat (fin_val x + fin_val y)"

definition float_sub :: "pyfloat \<Rightarrow> pyfloat \<Rightarrow> pyfloat" where
  "float_sub x y = float_add x (float_neg y)"

section \<open>Small integers are exact\<close>

lemma round_half_even_int [simp]: "round_half_even (of_int i) = i"
  by (simp add: round_half_even_def Let_def)

lemma ulp_exp_small_int:
  assumes "0 < i" "i < 2 ^ 53"
  shows "ulp_exp (of_int i) \<le> 0"
proof -
  have "bitlen i \<le> 53" using assms by (subst bitlen_le_iff_power) auto
  moreover have "bitlen (1::int) = 1" by (simp add: bitlen_def floorlog_def)
  ultimately show ?thesis by (simp add: ulp_exp_def flog2_def Let_def)
qed

lemma fl_int:
  assumes "0 \<le> i" "i < 2 ^ 53"
  shows "fl (of_int i) = of_int i"
proof (cases "i = 0")
  case False
  then have e: "ulp_exp (of_int i) \<le> 0" using assms ulp_exp_small_int by simp
  define k where "k = nat (- ulp_exp (of_int i))"
  have p: "(2::rat) powi ulp_exp (of_int i) = 1 / 2 ^ k"
    using e by (simp add: k_def power_int_def field_simps)
  have "of_int i / (2::rat) powi ulp_exp (of_int i) = of_int (i * 2 ^ k)" by (simp add: p)
  then have "round_half_even (of_int i / 2 powi ulp_exp (of_int i)) = i * 2 ^ k" by (simp only: round_half_even_int)
  then show ?thesis using False assms(1) by (simp add: fl_def Let_def p)
qed (simp add: fl_def)

lemma float_of_small_int:
  assumes "\<bar>i\<bar> < 2 ^ 53"
  shows "float_of_rat (of_int i) = Fin (of_int i)"
proof -
  have "fl \<bar>of_int i\<bar> = \<bar>of_int i\<bar>" using fl_int [of "\<bar>i\<bar>"] assms by simp
  moreover have "\<bar>of_int i :: rat\<bar> < float_max_exp"
  proof -
    have "\<bar>of_int i :: rat\<bar> < of_int (2 ^ 53)" using assms by linarith
    also have "\<dots> \<le> float_max_exp" by (simp add: float_max_exp_def power_increasing)
    finally show ?thesis .
  qed
  ultimately show ?thesis by (auto simp: float_of_rat_def float_round_def Let_def)
qed

section \<open>Numbers: an int or a float\<close>

datatype pynum = NInt int | NFloat pyfloat

text \<open>The exact value as a point of the extended rationals.\<close>

fun num_val :: "pynum \<Rightarrow> pyfloat" where
  "num_val (NInt i) = Fin (of_int i)"
| "num_val (NFloat x) = x"

definition num_le :: "pynum \<Rightarrow> pynum \<Rightarrow> bool" where
  "num_le x y = float_le (num_val x) (num_val y)"

definition num_lt :: "pynum \<Rightarrow> pynum \<Rightarrow> bool" where
  "num_lt x y = float_lt (num_val x) (num_val y)"

text \<open>\<^verbatim>\<open>float(i)\<close>: an integer beyond the largest double raises \<^verbatim>\<open>OverflowError\<close>.\<close>

definition int_to_float :: "int \<Rightarrow> pyfloat res" where
  "int_to_float i =
     (let x = float_of_rat (of_int i)
      in if is_finite x then Inr x else Inl (Exc OverflowErr ''int too large to convert to float''))"

fun num_to_float :: "pynum \<Rightarrow> pyfloat res" where
  "num_to_float (NInt i) = int_to_float i"
| "num_to_float (NFloat x) = Inr x"

text \<open>\<^verbatim>\<open>math.isfinite\<close> converts first, so a huge integer raises.\<close>

definition math_isfinite :: "pynum \<Rightarrow> bool res" where
  "math_isfinite x = rbind (num_to_float x) (\<lambda>y. Inr (is_finite y))"

fun num_sub :: "pynum \<Rightarrow> pynum \<Rightarrow> pynum res" where
  "num_sub (NInt a) (NInt b) = Inr (NInt (a - b))"
| "num_sub x y =
     rbind (num_to_float x) (\<lambda>a. rbind (num_to_float y) (\<lambda>b. Inr (NFloat (float_sub a b))))"

section \<open>Decimal text\<close>

text \<open>Reading: sign, the digits as one integer, and the power of ten they are scaled by.\<close>

definition scale10 :: "nat \<Rightarrow> int \<Rightarrow> rat" where
  "scale10 m k = of_nat m * 10 powi k"

definition float_of_decimal :: "bool \<Rightarrow> nat \<Rightarrow> int \<Rightarrow> pyfloat" where
  "float_of_decimal neg m k = float_round neg (scale10 m k)"

text \<open>For \<open>0 < q\<close>: the greatest \<open>k\<close> with \<open>10 powi k \<le> q\<close>.\<close>

definition flog10 :: "rat \<Rightarrow> int" where
  "flog10 q =
     (if 1 \<le> q then int (length (nat_str (nat \<lfloor>q\<rfloor>))) - 1
      else let L = int (length (nat_str (nat \<lfloor>1 / q\<rfloor>)))
           in if 10 powi (1 - L) \<le> q then 1 - L else - L)"

text \<open>
  The \<open>n\<close>-digit decimals next to \<open>q\<close>, nearer first, and the first of them over
  \<open>n = 1, 2, \<dots>, 17\<close> that reads back as \<open>q\<close>: the significand and the power of ten.
\<close>

definition decimal_candidates :: "rat \<Rightarrow> nat \<Rightarrow> (nat \<times> int) list" where
  "decimal_candidates q n =
     (let k = flog10 q - int n + 1; x = q / 10 powi k; a = round_half_even x;
          b = (if of_int a \<le> x then a + 1 else a - 1)
      in [(nat a, k), (nat b, k)])"

definition shortest_decimal :: "rat \<Rightarrow> (nat \<times> int) option" where
  "shortest_decimal q =
     List.find (\<lambda>(m, k). fl (scale10 m k) = q)
       (concat (map (decimal_candidates q) [1 ..< 18]))"

definition strip_zeros :: "string \<Rightarrow> string" where
  "strip_zeros s = rev (dropWhile (\<lambda>c. c = CHR ''0'') (rev s))"

definition exp_str :: "int \<Rightarrow> string" where
  "exp_str e =
     (let d = nat_str (nat \<bar>e\<bar>)
      in (if e < 0 then ''-'' else ''+'') @ (if length d < 2 then ''0'' @ d else d))"

text \<open>The layout of \<^verbatim>\<open>repr\<close>: positional while the exponent is in [-4, 16), else scientific.\<close>

definition decimal_layout :: "nat \<Rightarrow> int \<Rightarrow> string" where
  "decimal_layout m k =
     (let all = nat_str m; decpt = int (length all) + k; ds = strip_zeros all; n = int (length ds)
      in if - 4 < decpt \<and> decpt \<le> 16 then
           if decpt \<le> 0 then ''0.'' @ replicate (nat (- decpt)) (CHR ''0'') @ ds
           else if n \<le> decpt then ds @ replicate (nat (decpt - n)) (CHR ''0'') @ ''.0''
           else take (nat decpt) ds @ ''.'' @ drop (nat decpt) ds
         else take 1 ds @ (if 1 < n then ''.'' @ drop 1 ds else []) @ ''e'' @ exp_str (decpt - 1))"

definition float_repr :: "pyfloat \<Rightarrow> string" where
  "float_repr x =
     (case x of
        NegZero \<Rightarrow> ''-0.0''
      | PInf \<Rightarrow> ''inf'' | NInf \<Rightarrow> ''-inf'' | NaN \<Rightarrow> ''nan''
      | Fin q \<Rightarrow>
          if q = 0 then ''0.0''
          else (if q < 0 then ''-'' else []) @
               (case shortest_decimal \<bar>q\<bar> of Some (m, k) \<Rightarrow> decimal_layout m k | None \<Rightarrow> []))"

end
