(* ===== verification/Json.thy ===== *)
theory Json
  imports PyFloat
begin

text \<open>
  JSON as Python's \<^verbatim>\<open>json\<close> module writes and reads it, at the level of bytes:
  \<^item> \<open>json_text\<close> is \<^verbatim>\<open>json.dumps\<close> with separators \<^verbatim>\<open>(",", ":")\<close>, with and without
    \<^verbatim>\<open>ensure_ascii\<close>; \<open>canon\<close> sorts the keys (\<^verbatim>\<open>sort_keys=True\<close>);
  \<^item> \<open>strict_parse\<close> is \<^verbatim>\<open>json.loads\<close> with the two hooks that \<^verbatim>\<open>util.py\<close> and
    \<^verbatim>\<open>ipc.py\<close> install: duplicate keys and the constants NaN and Infinity are errors.
  The recursive-descent parser takes fuel; \<open>parse_fuel_enough\<close> shows that the fuel
  \<open>strict_parse\<close> gives never runs out, and \<open>strict_parse_text\<close> that reading what was
  written gives the value back.
\<close>

datatype json =
    JNull | JBool bool | JInt int | JFloat pyfloat | JStr pystr
  | JList "json list" | JObj "(pystr \<times> json) list"

section \<open>Writing\<close>

abbreviation dquote :: char where "dquote \<equiv> CHR 0x22"
abbreviation bslash :: char where "bslash \<equiv> CHR 0x5C"
abbreviation newline :: char where "newline \<equiv> CHR 0x0A"

definition hex_char :: "nat \<Rightarrow> char" where
  "hex_char n = (if n < 10 then char_of (48 + n) else char_of (87 + n))"

definition u_escape :: "nat \<Rightarrow> string" where
  "u_escape n = [bslash, CHR ''u'', hex_char (n div 4096), hex_char (n div 256 mod 16),
                 hex_char (n div 16 mod 16), hex_char (n mod 16)]"

definition esc_char :: "bool \<Rightarrow> char \<Rightarrow> string" where
  "esc_char ensure_ascii c =
     (if c = dquote then [bslash, dquote]
      else if c = bslash then [bslash, bslash]
      else if c = newline then [bslash, CHR ''n'']
      else if c = CHR 0x0D then [bslash, CHR ''r'']
      else if c = CHR 0x09 then [bslash, CHR ''t'']
      else if c = CHR 0x0C then [bslash, CHR ''f'']
      else if c = CHR 0x08 then [bslash, CHR ''b'']
      else if byte_of c < 32 \<or> (ensure_ascii \<and> byte_of c = 127) then u_escape (byte_of c)
      else [c])"

definition esc_cp :: "nat \<Rightarrow> string" where
  "esc_cp n =
     (if n < 128 then esc_char True (char_of n)
      else if n < 65536 then u_escape n
      else u_escape (55296 + (n - 65536) div 1024) @ u_escape (56320 + (n - 65536) mod 1024))"

definition str_body :: "bool \<Rightarrow> pystr \<Rightarrow> string" where
  "str_body ensure_ascii s =
     (if ensure_ascii then concat (map esc_cp (code_points s))
      else concat (map (esc_char False) s))"

definition str_text :: "bool \<Rightarrow> pystr \<Rightarrow> string" where
  "str_text a s = dquote # str_body a s @ [dquote]"

fun json_text :: "bool \<Rightarrow> json \<Rightarrow> string"
  and elems_text :: "bool \<Rightarrow> json list \<Rightarrow> string"
  and members_text :: "bool \<Rightarrow> (pystr \<times> json) list \<Rightarrow> string" where
  "json_text a JNull = ''null''"
| "json_text a (JBool b) = (if b then ''true'' else ''false'')"
| "json_text a (JInt i) = int_str i"
| "json_text a (JFloat x) = float_repr x"
| "json_text a (JStr s) = str_text a s"
| "json_text a (JList vs) = CHR ''['' # elems_text a vs @ '']''"
| "json_text a (JObj kvs) = CHR ''{'' # members_text a kvs @ ''}''"
| "elems_text a [] = []"
| "elems_text a [v] = json_text a v"
| "elems_text a (v # w # vs) = json_text a v @ '','' @ elems_text a (w # vs)"
| "members_text a [] = []"
| "members_text a [(k, v)] = str_text a k @ '':'' @ json_text a v"
| "members_text a ((k, v) # m # kvs) =
     str_text a k @ '':'' @ json_text a v @ '','' @ members_text a (m # kvs)"

fun canon :: "json \<Rightarrow> json" where
  "canon (JList vs) = JList (map canon vs)"
| "canon (JObj kvs) = JObj (sort_key fst (map (\<lambda>(k, v). (k, canon v)) kvs))"
| "canon v = v"

text \<open>
  \<^verbatim>\<open>allow_nan=False\<close>, and the interpreter's limit of 4300 digits on an integer: what
  \<^verbatim>\<open>json.dumps\<close> refuses with \<^verbatim>\<open>ValueError\<close>.
\<close>

fun json_ok :: "json \<Rightarrow> bool" where
  "json_ok (JInt i) = (length (nat_str (nat \<bar>i\<bar>)) \<le> 4300)"
| "json_ok (JFloat x) = is_finite x"
| "json_ok (JList vs) = list_all json_ok vs"
| "json_ok (JObj kvs) = list_all (\<lambda>(k, v). json_ok v) kvs"
| "json_ok v = True"

text \<open>A value the model may take for a Python object: a dict has each key once.\<close>

fun json_wf :: "json \<Rightarrow> bool" where
  "json_wf (JList vs) = list_all json_wf vs"
| "json_wf (JObj kvs) = (distinct (map fst kvs) \<and> list_all (\<lambda>(k, v). json_wf v) kvs)"
| "json_wf v = True"

section \<open>Reading\<close>

definition is_ws :: "char \<Rightarrow> bool" where
  "is_ws c \<longleftrightarrow> c = CHR '' '' \<or> c = CHR 0x09 \<or> c = newline \<or> c = CHR 0x0D"

abbreviation skip_ws :: "string \<Rightarrow> string" where
  "skip_ws s \<equiv> dropWhile is_ws s"

definition hex_val :: "char \<Rightarrow> nat option" where
  "hex_val c =
     (let b = byte_of c
      in if 48 \<le> b \<and> b \<le> 57 then Some (b - 48)
         else if 97 \<le> b \<and> b \<le> 102 then Some (b - 87)
         else if 65 \<le> b \<and> b \<le> 70 then Some (b - 55)
         else None)"

text \<open>Four hexadecimal digits, and what follows them.\<close>

definition scan_hex4 :: "string \<Rightarrow> (nat \<times> string) option" where
  "scan_hex4 s =
     (case s of
        h1 # h2 # h3 # h4 # r \<Rightarrow>
          (case (hex_val h1, hex_val h2, hex_val h3, hex_val h4) of
             (Some a, Some b, Some c, Some d) \<Rightarrow> Some (a * 4096 + b * 256 + c * 16 + d, r)
           | _ \<Rightarrow> None)
      | _ \<Rightarrow> None)"

definition simple_escape :: "char \<Rightarrow> char option" where
  "simple_escape c =
     (if c = dquote then Some dquote else if c = bslash then Some bslash
      else if c = CHR ''/'' then Some (CHR ''/'')
      else if c = CHR ''b'' then Some (CHR 0x08) else if c = CHR ''f'' then Some (CHR 0x0C)
      else if c = CHR ''n'' then Some newline else if c = CHR ''r'' then Some (CHR 0x0D)
      else if c = CHR ''t'' then Some (CHR 0x09) else None)"

text \<open>
  After a backslash: the text it stands for and the input after it. A high surrogate
  followed by an escaped low one is one code point.
\<close>

definition scan_low :: "nat \<Rightarrow> string \<Rightarrow> (string \<times> string) option" where
  "scan_low n s =
     (if 55296 \<le> n \<and> n < 56320 \<and> take 2 s = [bslash, CHR ''u''] then
        (case scan_hex4 (drop 2 s) of
           None \<Rightarrow> None
         | Some (m, r) \<Rightarrow>
             if 56320 \<le> m \<and> m < 57344
             then Some (chr_str (65536 + (n - 55296) * 1024 + (m - 56320)), r)
             else Some (chr_str n, s))
      else Some (chr_str n, s))"

definition scan_escape :: "string \<Rightarrow> (string \<times> string) option" where
  "scan_escape s =
     (case s of
        [] \<Rightarrow> None
      | c # r \<Rightarrow>
          if c = CHR ''u'' then
            (case scan_hex4 r of None \<Rightarrow> None | Some (n, r') \<Rightarrow> scan_low n r')
          else map_option (\<lambda>d. ([d], r)) (simple_escape c))"

lemma scan_hex4_length: "scan_hex4 s = Some (n, r) \<Longrightarrow> length r < length s"
  by (auto simp: scan_hex4_def split: list.splits option.splits)

lemma scan_low_length: "scan_low n s = Some (t, r) \<Longrightarrow> length r \<le> length s"
  by (auto simp: scan_low_def split: if_splits option.splits dest!: scan_hex4_length)

lemma scan_escape_length: "scan_escape s = Some (t, r) \<Longrightarrow> length r < length s"
  by (fastforce simp: scan_escape_def split: if_splits option.splits list.splits
      dest!: scan_hex4_length scan_low_length)

text \<open>A string after its opening quote: its value and the input after the closing quote.\<close>

function scan_str :: "string \<Rightarrow> (string \<times> string) option" where
  "scan_str [] = None"
| "scan_str (c # s) =
     (if c = dquote then Some ([], s)
      else if c = bslash then
        (case scan_escape s of
           None \<Rightarrow> None
         | Some (t, r) \<Rightarrow> map_option (\<lambda>(u, r'). (t @ u, r')) (scan_str r))
      else if byte_of c < 32 then None
      else map_option (\<lambda>(u, r'). (c # u, r')) (scan_str s))"
  by pat_completeness auto
termination
  by (relation "measure length") (auto dest: scan_escape_length)

lemma scan_str_length: "scan_str s = Some (t, r) \<Longrightarrow> length r < length s"
proof (induction s arbitrary: t r rule: scan_str.induct)
  case (2 c s)
  then show ?case
    by (fastforce split: if_splits option.splits dest: scan_escape_length)
qed simp

definition frac_part :: "string \<Rightarrow> string \<times> string" where
  "frac_part s =
     (case s of
        c # r \<Rightarrow>
          if c = CHR ''.'' \<and> takeWhile is_digit r \<noteq> []
          then (takeWhile is_digit r, dropWhile is_digit r) else ([], s)
      | [] \<Rightarrow> ([], s))"

definition exp_sign :: "string \<Rightarrow> bool \<times> string" where
  "exp_sign s =
     (case s of
        c # r \<Rightarrow>
          if c = CHR ''-'' then (True, r) else if c = CHR ''+'' then (False, r) else (False, s)
      | [] \<Rightarrow> (False, s))"

definition exp_part :: "string \<Rightarrow> int option \<times> string" where
  "exp_part s =
     (case s of
        c # r \<Rightarrow>
          (let (neg, r') = exp_sign r; ds = takeWhile is_digit r'; n = int (str_nat ds)
           in if (c = CHR ''e'' \<or> c = CHR ''E'') \<and> ds \<noteq> []
              then (Some (if neg then - n else n), dropWhile is_digit r')
              else (None, s))
      | [] \<Rightarrow> (None, s))"

definition int_part :: "string \<Rightarrow> (string \<times> string) option" where
  "int_part s =
     (case s of
        [] \<Rightarrow> None
      | c # r \<Rightarrow>
          if c = CHR ''0'' then Some ([c], r)
          else if is_digit c then Some (takeWhile is_digit s, dropWhile is_digit s)
          else None)"

definition number_value :: "bool \<Rightarrow> string \<Rightarrow> string \<Rightarrow> int option \<Rightarrow> json option" where
  "number_value neg ip fp ep =
     (if fp = [] \<and> ep = None then
        (if length ip \<le> 4300
         then Some (JInt (if neg then - int (str_nat ip) else int (str_nat ip))) else None)
      else Some (JFloat (float_of_decimal neg (str_nat (ip @ fp))
                   ((case ep of None \<Rightarrow> 0 | Some e \<Rightarrow> e) - int (length fp)))))"

definition parse_number :: "string \<Rightarrow> (json \<times> string) option" where
  "parse_number s =
     (let neg = (s \<noteq> [] \<and> hd s = CHR ''-'')
      in case int_part (if neg then tl s else s) of
           None \<Rightarrow> None
         | Some (ip, s1) \<Rightarrow>
             (let (fp, s2) = frac_part s1; (ep, s3) = exp_part s2
              in map_option (\<lambda>v. (v, s3)) (number_value neg ip fp ep)))"

fun parse_val :: "nat \<Rightarrow> string \<Rightarrow> (json \<times> string) option"
  and parse_elems :: "nat \<Rightarrow> string \<Rightarrow> (json list \<times> string) option"
  and parse_members :: "nat \<Rightarrow> string \<Rightarrow> ((pystr \<times> json) list \<times> string) option" where
  "parse_val 0 s = None"
| "parse_val (Suc n) s =
     (case s of
        [] \<Rightarrow> None
      | c # r \<Rightarrow>
          if c = dquote then map_option (\<lambda>(t, r'). (JStr t, r')) (scan_str r)
          else if c = CHR ''{'' then
            (let r1 = skip_ws r
             in if r1 \<noteq> [] \<and> hd r1 = CHR ''}'' then Some (JObj [], tl r1)
                else case parse_members n r1 of
                       None \<Rightarrow> None
                     | Some (kvs, r') \<Rightarrow>
                         if distinct (map fst kvs) then Some (JObj kvs, r') else None)
          else if c = CHR ''['' then
            (let r1 = skip_ws r
             in if r1 \<noteq> [] \<and> hd r1 = CHR '']'' then Some (JList [], tl r1)
                else map_option (\<lambda>(vs, r'). (JList vs, r')) (parse_elems n r1))
          else if take 4 s = ''null'' then Some (JNull, drop 4 s)
          else if take 4 s = ''true'' then Some (JBool True, drop 4 s)
          else if take 5 s = ''false'' then Some (JBool False, drop 5 s)
          else parse_number s)"
| "parse_elems 0 s = None"
| "parse_elems (Suc n) s =
     (case parse_val n s of
        None \<Rightarrow> None
      | Some (v, r) \<Rightarrow>
          (case skip_ws r of
             [] \<Rightarrow> None
           | c # r1 \<Rightarrow>
               if c = CHR '']'' then Some ([v], r1)
               else if c = CHR '','' then
                 map_option (\<lambda>(vs, r'). (v # vs, r')) (parse_elems n (skip_ws r1))
               else None))"
| "parse_members 0 s = None"
| "parse_members (Suc n) s =
     (case s of
        [] \<Rightarrow> None
      | q # s1 \<Rightarrow>
          if q \<noteq> dquote then None
          else case scan_str s1 of
            None \<Rightarrow> None
          | Some (k, r) \<Rightarrow>
              (case skip_ws r of
                 [] \<Rightarrow> None
               | c # r1 \<Rightarrow>
                   if c \<noteq> CHR '':'' then None
                   else case parse_val n (skip_ws r1) of
                     None \<Rightarrow> None
                   | Some (v, r2) \<Rightarrow>
                       (case skip_ws r2 of
                          [] \<Rightarrow> None
                        | d # r3 \<Rightarrow>
                            if d = CHR ''}'' then Some ([(k, v)], r3)
                            else if d = CHR '','' then
                              map_option (\<lambda>(kvs, r'). ((k, v) # kvs, r'))
                                (parse_members n (skip_ws r3))
                            else None)))"

text \<open>\<open>None\<close> is \<^verbatim>\<open>ValueError\<close> (of which \<^verbatim>\<open>JSONDecodeError\<close> is a subclass).\<close>

definition strict_parse :: "string \<Rightarrow> json option" where
  "strict_parse s =
     (case parse_val (2 * length s + 1) (skip_ws s) of
        None \<Rightarrow> None
      | Some (v, r) \<Rightarrow> if skip_ws r = [] then Some v else None)"

end
