(* ===== verification/JsonRoundtrip.thy ===== *)
theory JsonRoundtrip
  imports Json
begin

text \<open>
  Reading what was written: \<open>strict_parse_text\<close> for both escaping modes, from one lemma
  per token (strings, numbers) and an induction over the value; and the fuel the parser
  gets is enough for every input.
\<close>

section \<open>Strings\<close>

lemma hex_val_hex_char [simp]: "n < 16 \<Longrightarrow> hex_val (hex_char n) = Some n"
  by (auto simp: hex_val_def hex_char_def Let_def)

lemma hex_digits_sum:
  "n < 65536 \<Longrightarrow>
     n div 4096 * 4096 + n div 256 mod 16 * 256 + n div 16 mod 16 * 16 + n mod 16 = (n::nat)"
proof -
  have d: "n div 256 = n div 16 div 16" "n div 4096 = n div 16 div 16 div 16"
    by (simp_all add: div_mult2_eq [of n 16 16, simplified] div_mult2_eq [of "n div 16" 16 16, simplified]
        div_mult2_eq [of n 16 256, simplified])
  have m: "(k::nat) = k div 16 * 16 + k mod 16" for k by simp
  show ?thesis unfolding d using m [of n] m [of "n div 16"] m [of "n div 16 div 16"] by linarith
qed

lemma scan_hex4_u_escape:
  assumes "n < 65536"
  shows "scan_hex4 (drop 2 (u_escape n) @ r) = Some (n, r)"
proof -
  have "n div 4096 < 16" using assms by auto
  then show ?thesis
    using hex_digits_sum [OF assms] by (simp add: u_escape_def scan_hex4_def)
qed

lemma u_escape_split: "u_escape n = bslash # CHR ''u'' # drop 2 (u_escape n)"
  by (simp add: u_escape_def)

lemma scan_str_u_escape:
  assumes "n < 65536" and "\<not> (55296 \<le> n \<and> n < 56320)"
  shows "scan_str (u_escape n @ s) = map_option (\<lambda>(u, r). (chr_str n @ u, r)) (scan_str s)"
proof -
  have "scan_escape (CHR ''u'' # drop 2 (u_escape n) @ s) = Some (chr_str n, s)"
    using scan_hex4_u_escape [OF assms(1), of s] assms(2)
    by (auto simp: scan_escape_def scan_low_def)
  then show ?thesis by (subst u_escape_split) simp
qed

lemma chr_str_byte: "byte_of c < 128 \<Longrightarrow> chr_str (byte_of c) = [c]"
  by (simp add: chr_str_def utf8_encode_cp_def)

lemma esc_char_short:
  "c \<in> {dquote, bslash, newline, CHR 0x0D, CHR 0x09, CHR 0x0C, CHR 0x08} \<Longrightarrow>
     \<exists>e. esc_char a c = [bslash, e] \<and> simple_escape e = Some c \<and> e \<noteq> CHR ''u''"
  by (elim insertE emptyE) (simp_all add: esc_char_def simple_escape_def)

lemma scan_str_esc_char:
  assumes "\<not> a \<or> byte_of c < 128"
  shows "scan_str (esc_char a c @ s) = map_option (\<lambda>(u, r). (c # u, r)) (scan_str s)"
proof -
  show ?thesis
  proof (cases "c \<in> {dquote, bslash, newline, CHR 0x0D, CHR 0x09, CHR 0x0C, CHR 0x08}")
    case True
    then obtain e where "esc_char a c = [bslash, e]" "simple_escape e = Some c" "e \<noteq> CHR ''u''"
      using esc_char_short by blast
    then show ?thesis by (simp add: scan_escape_def)
  next
    case special: False
    show ?thesis
    proof (cases "byte_of c < 32 \<or> (a \<and> byte_of c = 127)")
      case True
      with special have "esc_char a c = u_escape (byte_of c)" by (simp add: esc_char_def)
      with True show ?thesis
        using scan_str_u_escape [of "byte_of c" s] chr_str_byte [of c] by auto
    next
      case False
      with special have "esc_char a c = [c]" by (auto simp: esc_char_def)
      with False special show ?thesis by simp
    qed
  qed
qed

lemma scan_str_body_raw: "scan_str (concat (map (esc_char False) t) @ dquote # r) = Some (t, r)"
  by (induction t) (simp_all add: scan_str_esc_char)

lemma utf8_decode_valid:
  "utf8_decode False bs = Some cs \<Longrightarrow> n \<in> set cs \<Longrightarrow> n < 1114112 \<and> \<not> (55296 \<le> n \<and> n < 57344)"
proof (induction False bs arbitrary: cs rule: utf8_decode.induct)
  case (2 b bs)
  then show ?case
    by (fastforce simp: Let_def is_cont_def split: if_splits list.splits)
qed simp

lemma scan_str_esc_cp:
  assumes "n < 1114112" and "\<not> (55296 \<le> n \<and> n < 57344)"
  shows "scan_str (esc_cp n @ s) = map_option (\<lambda>(u, r). (chr_str n @ u, r)) (scan_str s)"
proof -
  consider "n < 128" | "128 \<le> n" "n < 65536" | (hi) "65536 \<le> n" by linarith
  then show ?thesis
  proof cases
    case 1
    then show ?thesis
      using scan_str_esc_char [of True "char_of n" s] chr_str_byte [of "char_of n"]
      by (simp add: esc_cp_def)
  next
    case 2
    then show ?thesis using scan_str_u_escape [of n s] assms by (auto simp: esc_cp_def)
  next
    case hi
    define v where "v = n - 65536"
    define h l where "h = 55296 + v div 1024" and "l = 56320 + v mod 1024"
    have v: "v < 1048576" "n = 65536 + v" using hi assms(1) by (simp_all add: v_def)
    then have "v div 1024 < 1024" by auto
    then have h: "55296 \<le> h" "h < 56320" by (simp_all add: h_def)
    have l: "56320 \<le> l" "l < 57344" by (simp_all add: l_def)
    have n: "65536 + (h - 55296) * 1024 + (l - 56320) = n"
      using v by (simp add: h_def l_def)
    have "scan_low h (u_escape l @ s) = Some (chr_str n, s)"
      using h l scan_hex4_u_escape [of l s] n
      by (subst u_escape_split) (simp add: scan_low_def)
    moreover have "scan_hex4 (drop 2 (u_escape h) @ u_escape l @ s) = Some (h, u_escape l @ s)"
      using h by (intro scan_hex4_u_escape) simp
    ultimately have "scan_escape (CHR ''u'' # drop 2 (u_escape h) @ u_escape l @ s) = Some (chr_str n, s)"
      by (simp add: scan_escape_def)
    then have "scan_str (u_escape h @ u_escape l @ s) =
        map_option (\<lambda>(u, r). (chr_str n @ u, r)) (scan_str s)"
      by (subst u_escape_split [of h]) simp
    moreover have "esc_cp n = u_escape h @ u_escape l"
      using hi by (simp add: esc_cp_def h_def l_def v_def)
    ultimately show ?thesis by simp
  qed
qed

lemma scan_str_cps:
  "\<forall>n \<in> set cs. n < 1114112 \<and> \<not> (55296 \<le> n \<and> n < 57344) \<Longrightarrow>
   scan_str (concat (map esc_cp cs) @ dquote # r) = Some (concat (map chr_str cs), r)"
  by (induction cs) (simp_all add: scan_str_esc_cp)

definition str_rt :: "bool \<Rightarrow> pystr \<Rightarrow> bool" where
  "str_rt a t \<longleftrightarrow> (a \<longrightarrow> utf8_ok t)"

lemma scan_str_body:
  assumes "str_rt a t"
  shows "scan_str (str_body a t @ dquote # r) = Some (t, r)"
proof (cases a)
  case True
  with assms obtain cs where cs: "utf8_decode False (map byte_of t) = Some cs"
    by (auto simp: str_rt_def utf8_ok_def)
  then have c: "code_points t = cs" by (simp add: code_points_def utf8_decode_mono)
  from cs have "str_ok t" using utf8_decode_mono by (auto simp: str_ok_def)
  then have "concat (map chr_str cs) = t" using chr_str_code_points c by blast
  then show ?thesis
    using True scan_str_cps [of cs r] utf8_decode_valid [OF cs] by (simp add: str_body_def c)
next
  case False
  then show ?thesis using scan_str_body_raw [of t r] by (simp add: str_body_def)
qed

section \<open>Numbers\<close>

text \<open>What may follow a number: nothing that would extend it.\<close>

definition number_end :: "string \<Rightarrow> bool" where
  "number_end s \<longleftrightarrow>
     (case s of
        [] \<Rightarrow> True
      | c # _ \<Rightarrow> \<not> is_digit c \<and> c \<notin> {CHR ''.'', CHR ''e'', CHR ''E'', CHR ''+'', CHR ''-''})"

lemma number_end_simps [simp]:
  "number_end []"
  "number_end (CHR '','' # s)"
  "number_end (CHR '']'' # s)"
  "number_end (CHR ''}'' # s)"
  "number_end (newline # s)"
  by (simp_all add: number_end_def is_digit_def byte_of_def)

lemma digits_append:
  assumes "number_end r"
  shows "takeWhile is_digit (s @ r) = takeWhile is_digit s"
    and "dropWhile is_digit (s @ r) = dropWhile is_digit s @ r"
proof -
  have "takeWhile is_digit r = []" "dropWhile is_digit r = r"
    using assms by (auto simp: number_end_def split: list.splits)
  then show "takeWhile is_digit (s @ r) = takeWhile is_digit s"
    and "dropWhile is_digit (s @ r) = dropWhile is_digit s @ r"
    by (induction s) auto
qed

lemma frac_part_append:
  "number_end r \<Longrightarrow> frac_part (s @ r) = (fst (frac_part s), snd (frac_part s) @ r)"
  by (cases s) (auto simp: frac_part_def digits_append number_end_def split: list.splits)

lemma exp_sign_append:
  "number_end r \<Longrightarrow> exp_sign (s @ r) = (fst (exp_sign s), snd (exp_sign s) @ r)"
  by (cases s) (auto simp: exp_sign_def number_end_def split: list.splits)

lemma exp_part_append:
  "number_end r \<Longrightarrow> exp_part (s @ r) = (fst (exp_part s), snd (exp_part s) @ r)"
proof (cases s)
  case Nil
  assume "number_end r"
  then show ?thesis using Nil
    by (auto simp: exp_part_def number_end_def Let_def split: list.splits prod.splits)
next
  case (Cons c t)
  assume "number_end r"
  then show ?thesis using Cons
    by (cases "exp_sign t") (simp add: exp_part_def exp_sign_append digits_append Let_def)
qed

lemma int_part_append:
  "number_end r \<Longrightarrow> int_part s = Some (ip, s1) \<Longrightarrow> int_part (s @ r) = Some (ip, s1 @ r)"
  by (cases s) (auto simp: int_part_def digits_append split: if_splits)

lemma parse_number_append:
  assumes "number_end r" and "parse_number s = Some (v, t)"
  shows "parse_number (s @ r) = Some (v, t @ r)"
proof -
  define neg where "neg = (s \<noteq> [] \<and> hd s = CHR ''-'')"
  obtain ip s1 where ip: "int_part (if neg then tl s else s) = Some (ip, s1)"
    using assms(2) by (auto simp: parse_number_def Let_def neg_def split: option.splits)
  then have ne: "s \<noteq> []" by (auto simp: int_part_def neg_def split: if_splits)
  then have "(if neg then tl (s @ r) else s @ r) = (if neg then tl s else s) @ r" by simp
  then have "int_part (if neg then tl (s @ r) else s @ r) = Some (ip, s1 @ r)"
    using int_part_append [OF assms(1) ip] by simp
  moreover have "(s @ r \<noteq> [] \<and> hd (s @ r) = CHR ''-'') = neg" using ne by (simp add: neg_def)
  ultimately show ?thesis
    using assms ip
    by (auto simp: parse_number_def Let_def neg_def [symmetric] frac_part_append exp_part_append
        split: prod.splits)
qed

lemma int_part_nat_str: "int_part (nat_str n) = Some (nat_str n, [])"
proof (cases "n = 0")
  case True
  then show ?thesis by (simp add: nat_str_zero int_part_def)
next
  case False
  obtain c t where ct: "nat_str n = c # t" using nat_str_nonempty by (cases "nat_str n") auto
  then have "c \<noteq> CHR ''0''" using nat_str_hd [of n] False by simp
  moreover have "\<forall>d \<in> set (c # t). is_digit d" using nat_str_digits ct by metis
  ultimately show ?thesis by (simp add: int_part_def ct takeWhile_eq_all_conv [THEN iffD2]
        dropWhile_eq_Nil_conv [THEN iffD2])
qed

lemma hd_nat_str_digit: "is_digit (hd (nat_str n))"
  by (rule nat_str_digits, rule hd_in_set) simp

lemma minus_not_digit: "\<not> is_digit (CHR ''-'')"
  by (simp add: is_digit_def byte_of_def)

lemma parse_number_int_str:
  assumes "length (nat_str (nat \<bar>i\<bar>)) \<le> 4300"
  shows "parse_number (int_str i) = Some (JInt i, [])"
proof (cases "i < 0")
  case True
  then show ?thesis using assms
    by (simp add: parse_number_def int_str_def int_part_nat_str frac_part_def exp_part_def
        number_value_def Let_def)
next
  case False
  have "hd (nat_str (nat i)) \<noteq> CHR ''-''"
    using hd_nat_str_digit [of "nat i"] minus_not_digit by auto
  then show ?thesis using False assms
    by (simp add: parse_number_def int_str_def int_part_nat_str frac_part_def exp_part_def
        number_value_def Let_def)
qed

text \<open>A float whose text reads back as it; decidable, and evaluated where it matters.\<close>

definition float_rt :: "pyfloat \<Rightarrow> bool" where
  "float_rt x \<longleftrightarrow> parse_number (float_repr x) = Some (JFloat x, [])"

text \<open>The values \<open>json_text a\<close> writes readably.\<close>

fun json_rt :: "bool \<Rightarrow> json \<Rightarrow> bool" where
  "json_rt a (JInt i) = (length (nat_str (nat \<bar>i\<bar>)) \<le> 4300)"
| "json_rt a (JFloat x) = float_rt x"
| "json_rt a (JStr s) = str_rt a s"
| "json_rt a (JList vs) = list_all (json_rt a) vs"
| "json_rt a (JObj kvs) =
     (distinct (map fst kvs) \<and> list_all (\<lambda>(k, v). str_rt a k \<and> json_rt a v) kvs)"
| "json_rt a v = True"

section \<open>Values\<close>

lemma parse_number_hd:
  assumes "parse_number s \<noteq> None"
  obtains c t where "s = c # t" "c = CHR ''-'' \<or> is_digit c"
proof -
  from assms obtain ip s1 where
    "int_part (if s \<noteq> [] \<and> hd s = CHR ''-'' then tl s else s) = Some (ip, s1)"
    by (auto simp: parse_number_def Let_def split: option.splits)
  moreover have "is_digit (CHR ''0'')" by (simp add: is_digit_def byte_of_def)
  ultimately show thesis
    by (cases s) (auto simp: int_part_def split: if_splits intro: that)
qed

lemma not_digit_starts:
  "\<not> is_digit dquote" "\<not> is_digit (CHR ''{'')" "\<not> is_digit (CHR ''['')" "\<not> is_digit (CHR ''n'')"
  "\<not> is_digit (CHR ''t'')" "\<not> is_digit (CHR ''f'')" "\<not> is_digit (CHR '']'')"
  "\<not> is_digit (CHR ''}'')" "\<not> is_digit (CHR '' '')" "\<not> is_digit (CHR 0x09)"
  "\<not> is_digit newline" "\<not> is_digit (CHR 0x0D)"
  by (simp_all add: is_digit_def byte_of_def)

lemma parse_val_number:
  assumes "s = c # t" "c = CHR ''-'' \<or> is_digit c"
  shows "parse_val (Suc n) s = parse_number s"
  using assms not_digit_starts by auto

lemma parse_val_Some_number:
  assumes "parse_number s = Some (v, [])" "number_end r"
  shows "parse_val (Suc n) (s @ r) = Some (v, r)"
proof -
  have "parse_number s \<noteq> None" using assms(1) by simp
  then obtain c t where "s = c # t" "c = CHR ''-'' \<or> is_digit c"
    by (rule parse_number_hd)
  then show ?thesis
    using parse_val_number [of "s @ r" c "t @ r" n] parse_number_append [OF assms(2,1)] by simp
qed

text \<open>The first character of a value's text: not white space, not a closing bracket.\<close>

definition value_start :: "string \<Rightarrow> bool" where
  "value_start s \<longleftrightarrow> s \<noteq> [] \<and> \<not> is_ws (hd s) \<and> hd s \<noteq> CHR '']'' \<and> hd s \<noteq> CHR ''}''"

lemma value_start_number:
  assumes "parse_number s = Some v"
  shows "value_start s"
proof -
  have "parse_number s \<noteq> None" using assms by simp
  then obtain c t where "s = c # t" "c = CHR ''-'' \<or> is_digit c"
    by (rule parse_number_hd)
  then show ?thesis using not_digit_starts by (auto simp: value_start_def is_ws_def)
qed

lemma value_start_text: "json_rt a v \<Longrightarrow> value_start (json_text a v)"
proof (cases v)
  case (JInt i)
  assume "json_rt a v"
  then show ?thesis using JInt value_start_number [OF parse_number_int_str [of i]] by simp
next
  case (JFloat x)
  assume "json_rt a v"
  then show ?thesis using JFloat by (auto simp: float_rt_def intro: value_start_number)
qed (auto simp: value_start_def is_ws_def str_text_def)

lemma skip_ws_start: "value_start s \<Longrightarrow> skip_ws (s @ r) = s @ r"
  by (cases s) (auto simp: value_start_def)

lemma not_ws [simp]:
  "\<not> is_ws (CHR '','')" "\<not> is_ws (CHR '']'')" "\<not> is_ws (CHR ''}'')" "\<not> is_ws (CHR '':'')"
  "\<not> is_ws dquote"
  by (simp_all add: is_ws_def)

lemma value_start_elems:
  "list_all (json_rt a) vs \<Longrightarrow> vs \<noteq> [] \<Longrightarrow> value_start (elems_text a vs)"
  by (cases "(a, vs)" rule: elems_text.cases)
     (auto simp: value_start_def dest!: value_start_text)

lemma members_text_start:
  "kvs \<noteq> [] \<Longrightarrow> \<exists>t. members_text a kvs = dquote # t"
  by (cases "(a, kvs)" rule: members_text.cases) (auto simp: str_text_def)

lemma json_text_length: "json_rt a v \<Longrightarrow> 1 \<le> length (json_text a v)"
  using value_start_text [of a v] by (cases "json_text a v") (auto simp: value_start_def)

lemma parse_text:
  "json_rt a v \<Longrightarrow> number_end r \<Longrightarrow> 2 * length (json_text a v) < n \<Longrightarrow>
     parse_val n (json_text a v @ r) = Some (v, r)"
  "list_all (json_rt a) vs \<Longrightarrow> vs \<noteq> [] \<Longrightarrow> 2 * length (elems_text a vs) + 1 < n \<Longrightarrow>
     parse_elems n (elems_text a vs @ CHR '']'' # r) = Some (vs, r)"
  "list_all (\<lambda>(k, v). str_rt a k \<and> json_rt a v) kvs \<Longrightarrow> kvs \<noteq> [] \<Longrightarrow>
     2 * length (members_text a kvs) + 1 < n \<Longrightarrow>
     parse_members n (members_text a kvs @ CHR ''}'' # r) = Some (kvs, r)"
proof (induction a v and a vs and a kvs arbitrary: n r and n r and n r
    rule: json_text_elems_text_members_text.induct)
  case (1 a)
  then show ?case by (cases n) simp_all
next
  case (2 a b)
  then show ?case by (cases n) simp_all
next
  case (3 a i)
  then show ?case
    using parse_val_Some_number [OF parse_number_int_str] by (cases n) simp_all
next
  case (4 a x)
  then show ?case
    using parse_val_Some_number [of "float_repr x"] by (cases n) (simp_all add: float_rt_def)
next
  case (5 a s)
  then show ?case
    using scan_str_body [of a s r] by (cases n) (simp_all add: str_text_def)
next
  case (6 a vs)
  then obtain m where n: "n = Suc m" by (cases n) auto
  show ?case
  proof (cases "vs = []")
    case True
    then show ?thesis by (simp add: n is_ws_def)
  next
    case False
    with "6.prems" have s: "value_start (elems_text a vs)" by (simp add: value_start_elems)
    have "parse_elems m (elems_text a vs @ CHR '']'' # r) = Some (vs, r)"
      using "6.prems" False n by (intro "6.IH") simp_all
    moreover have "elems_text a vs \<noteq> []" "hd (elems_text a vs) \<noteq> CHR '']''"
      using s by (simp_all add: value_start_def)
    ultimately show ?thesis by (simp add: n skip_ws_start [OF s])
  qed
next
  case (7 a kvs)
  then obtain m where n: "n = Suc m" by (cases n) auto
  show ?case
  proof (cases "kvs = []")
    case True
    then show ?thesis by (simp add: n is_ws_def)
  next
    case False
    then obtain t where t: "members_text a kvs = dquote # t" using members_text_start by blast
    have "parse_members m (members_text a kvs @ CHR ''}'' # r) = Some (kvs, r)"
      using "7.prems" False n by (intro "7.IH") simp_all
    then show ?thesis using "7.prems" t by (simp add: n is_ws_def)
  qed
next
  case (8 a)
  then show ?case by simp
next
  case (9 a v)
  then obtain m where n: "n = Suc m" by (cases n) auto
  have "parse_val m (json_text a v @ CHR '']'' # r) = Some (v, CHR '']'' # r)"
    using "9.prems" n by (intro "9.IH") simp_all
  then show ?case by (simp add: n)
next
  case (10 a v w vs)
  then obtain m where n: "n = Suc m" by (cases n) auto
  have l: "1 \<le> length (json_text a v)" using "10.prems" json_text_length [of a v] by simp
  have "parse_val m (json_text a v @ CHR '','' # elems_text a (w # vs) @ CHR '']'' # r) =
      Some (v, CHR '','' # elems_text a (w # vs) @ CHR '']'' # r)"
    using "10.prems" n by (intro "10.IH"(1)) simp_all
  moreover have "parse_elems m (elems_text a (w # vs) @ CHR '']'' # r) = Some (w # vs, r)"
    using "10.prems" n l by (intro "10.IH"(2)) simp_all
  moreover have "value_start (elems_text a (w # vs))"
    using "10.prems" by (intro value_start_elems) simp_all
  ultimately show ?case by (simp add: n skip_ws_start)
next
  case (11 a)
  then show ?case by simp
next
  case (12 a k v)
  then obtain m where n: "n = Suc m" by (cases n) auto
  have "parse_val m (json_text a v @ CHR ''}'' # r) = Some (v, CHR ''}'' # r)"
    using "12.prems" n by (intro "12.IH") (simp_all add: str_text_def)
  moreover have "scan_str (str_body a k @ dquote # CHR '':'' # json_text a v @ CHR ''}'' # r) =
      Some (k, CHR '':'' # json_text a v @ CHR ''}'' # r)"
    using "12.prems" by (intro scan_str_body) simp
  moreover have "value_start (json_text a v)" using "12.prems" by (simp add: value_start_text)
  ultimately show ?case by (simp add: n str_text_def skip_ws_start)
next
  case (13 a k v x kvs)
  then obtain m where n: "n = Suc m" by (cases n) auto
  obtain t where t: "members_text a (x # kvs) = dquote # t" using members_text_start by blast
  let ?r = "CHR '','' # members_text a (x # kvs) @ CHR ''}'' # r"
  have "parse_val m (json_text a v @ ?r) = Some (v, ?r)"
    using "13.prems" n by (intro "13.IH"(1)) (simp_all add: str_text_def)
  moreover have "parse_members m (members_text a (x # kvs) @ CHR ''}'' # r) = Some (x # kvs, r)"
    using "13.prems" n by (intro "13.IH"(2)) (simp_all add: str_text_def)
  moreover have "scan_str (str_body a k @ dquote # CHR '':'' # json_text a v @ ?r) =
      Some (k, CHR '':'' # json_text a v @ ?r)"
    using "13.prems" by (intro scan_str_body) simp
  moreover have "value_start (json_text a v)" using "13.prems" by (simp add: value_start_text)
  ultimately show ?case using t by (simp add: n str_text_def skip_ws_start)
qed

text \<open>Reading the written text of a value, with the line end the code appends or without.\<close>

theorem strict_parse_text:
  assumes "json_rt a v" and "r = [] \<or> r = [newline]"
  shows "strict_parse (json_text a v @ r) = Some v"
proof -
  have s: "skip_ws (json_text a v @ r) = json_text a v @ r"
    using assms(1) by (intro skip_ws_start value_start_text)
  have "parse_val (2 * length (json_text a v @ r) + 1) (json_text a v @ r) = Some (v, r)"
    using assms by (intro parse_text(1)) auto
  moreover have "skip_ws r = []" using assms(2) by (auto simp: is_ws_def)
  ultimately show ?thesis by (simp add: strict_parse_def s)
qed

section \<open>The fuel is enough\<close>

text \<open>
  Every reader consumes at least one character, and with fuel above twice the length of its
  input more fuel changes nothing: the fuel \<open>strict_parse\<close> gives never decides an answer.
\<close>

lemma int_part_length: "int_part s = Some (ip, r) \<Longrightarrow> length r < length s"
  by (auto simp: int_part_def le_imp_less_Suc length_dropWhile_le split: list.splits if_splits)

lemma frac_part_length: "length (snd (frac_part s)) \<le> length s"
  by (auto simp: frac_part_def length_dropWhile_le le_SucI split: list.splits)

lemma exp_sign_length: "length (snd (exp_sign s)) \<le> length s"
  by (auto simp: exp_sign_def split: list.splits)

lemma exp_part_length: "length (snd (exp_part s)) \<le> length s"
proof (cases s)
  case (Cons c r)
  obtain b t where e: "exp_sign r = (b, t)" by (cases "exp_sign r")
  have "length (dropWhile is_digit t) \<le> length r"
    using length_dropWhile_le [of is_digit t] exp_sign_length [of r] e by simp
  then show ?thesis using Cons e by (simp add: exp_part_def Let_def)
qed (simp add: exp_part_def)

lemma parse_number_length:
  assumes "parse_number s = Some (v, r)"
  shows "length r < length s"
proof -
  let ?s = "if s \<noteq> [] \<and> hd s = CHR ''-'' then tl s else s"
  obtain ip s1 fp s2 ep where "int_part ?s = Some (ip, s1)" "frac_part s1 = (fp, s2)"
      "exp_part s2 = (ep, r)"
    using assms by (auto simp: parse_number_def Let_def split: option.splits prod.splits)
  then have "length s1 < length ?s" "length s2 \<le> length s1" "length r \<le> length s2"
    using int_part_length frac_part_length [of s1] exp_part_length [of s2] by auto
  moreover have "length ?s \<le> length s" by simp
  ultimately show ?thesis by linarith
qed

lemma skip_ws_length: "skip_ws r = c # t \<Longrightarrow> length t < length r"
  by (metis length_dropWhile_le length_Cons Suc_le_eq)

lemma length_tl_skip: "length (tl (skip_ws r)) \<le> length r"
  using length_dropWhile_le [of is_ws r] by simp

lemma parse_length:
  "parse_val n s = Some (v, r) \<Longrightarrow> length r < length s"
  "parse_elems n s = Some (vs, r) \<Longrightarrow> length r < length s"
  "parse_members n s = Some (kvs, r) \<Longrightarrow> length r < length s"
proof (induction n s and n s and n s arbitrary: v r and vs r and kvs r
    rule: parse_val_parse_elems_parse_members.induct)
  case (2 n s)
  show ?case
  proof (cases s)
    case (Cons c t)
    have l: "length (skip_ws t) \<le> length t" by (rule length_dropWhile_le)
    have d: "length (drop 3 t) < length s" "length (drop 4 t) < length s" using Cons by auto
    show ?thesis
    proof (cases "c = dquote \<or> c = CHR ''{'' \<or> c = CHR ''[''")
      case True
      then consider "c = dquote" | "c = CHR ''{''" | "c = CHR ''[''" by blast
      then show ?thesis
      proof cases
        case 1
        then show ?thesis using "2.prems" Cons by (auto dest!: scan_str_length)
      next
        case c: 2
        show ?thesis
          using "2.prems" Cons c l "2.IH"(1) [OF Cons]
          by (auto simp: Let_def split: if_splits option.splits dest!: "2.IH"(1))
      next
        case c: 3
        show ?thesis
          using "2.prems" Cons c l
          by (auto simp: Let_def split: if_splits option.splits dest!: "2.IH"(2))
      qed
    next
      case False
      then show ?thesis using "2.prems" Cons d parse_number_length [of s v r]
        by (auto split: if_splits)
    qed
  qed (use 2 in simp)
next
  case (4 n s)
  obtain v r1 where v: "parse_val n s = Some (v, r1)"
    using "4.prems" by (auto split: option.splits)
  have l: "length r1 < length s" using "4.IH"(1) [OF v] .
  obtain c r2 where c: "skip_ws r1 = c # r2"
    using "4.prems" v by (auto split: list.splits)
  have l2: "length r2 < length r1" using skip_ws_length [OF c] .
  have l3: "length (skip_ws r2) \<le> length r2" by (rule length_dropWhile_le)
  have "length r < length (skip_ws r2)" if "c \<noteq> CHR '']''"
    using "4.prems" v c that "4.IH"(2) [OF v refl c that]
    by (auto split: if_splits)
  then show ?case using "4.prems" v c l l2 l3 by (auto split: if_splits)
next
  case (6 n s)
  obtain s1 where s: "s = dquote # s1" using "6.prems" by (auto split: list.splits if_splits)
  obtain k r0 where k: "scan_str s1 = Some (k, r0)"
    using "6.prems" s by (auto split: option.splits)
  obtain r1 where c: "skip_ws r0 = CHR '':'' # r1"
    using "6.prems" s k by (auto split: list.splits if_splits)
  obtain v r2 where v: "parse_val n (skip_ws r1) = Some (v, r2)"
    using "6.prems" s k c by (auto split: option.splits)
  obtain d r3 where d: "skip_ws r2 = d # r3"
    using "6.prems" s k c v by (auto split: list.splits)
  note lens = scan_str_length [OF k] skip_ws_length [OF c] skip_ws_length [OF d]
    length_dropWhile_le [of is_ws r1] length_dropWhile_le [of is_ws r3]
  have lv: "length r2 < length (skip_ws r1)"
    using "6.IH"(1) [OF s _ k refl c _ v] by simp
  have "d = CHR ''}'' \<or> d = CHR '',''"
    using "6.prems" s k c v d by (auto split: if_splits)
  then show ?case
  proof
    assume "d = CHR ''}''"
    then show ?thesis using "6.prems" s k c v d lens lv by auto
  next
    assume e: "d = CHR '',''"
    obtain kvs' where "parse_members n (skip_ws r3) = Some (kvs', r)"
      using "6.prems" s k c v d e by auto
    then have "length r < length (skip_ws r3)"
      using "6.IH"(2) [OF s _ k refl c _ v refl d _ e] e by simp
    then show ?thesis using s lens lv by simp
  qed
qed simp_all

lemma parse_fuel_Suc:
  "2 * length s < n \<Longrightarrow> parse_val (Suc n) s = parse_val n s"
  "2 * length s + 1 < n \<Longrightarrow> parse_elems (Suc n) s = parse_elems n s"
  "2 * length s + 1 < n \<Longrightarrow> parse_members (Suc n) s = parse_members n s"
proof (induction n s and n s and n s rule: parse_val_parse_elems_parse_members.induct)
  case (2 n s)
  show ?case
  proof (cases s)
    case (Cons c t)
    have l: "length (skip_ws t) \<le> length t" by (rule length_dropWhile_le)
    have "parse_members (Suc n) (skip_ws t) = parse_members n (skip_ws t)"
      if "c = CHR ''{''" "\<not> (skip_ws t \<noteq> [] \<and> hd (skip_ws t) = CHR ''}'')"
      using "2.IH"(1) [OF Cons _ that(1) refl that(2)] "2.prems" that(1) l Cons by simp
    moreover have "parse_elems (Suc n) (skip_ws t) = parse_elems n (skip_ws t)"
      if "c = CHR ''[''" "\<not> (skip_ws t \<noteq> [] \<and> hd (skip_ws t) = CHR '']'')"
      using "2.IH"(2) [OF Cons _ _ that(1) refl that(2)] "2.prems" that(1) l Cons by simp
    ultimately show ?thesis
      unfolding parse_val.simps(2) [of "Suc n" s] parse_val.simps(2) [of n s]
      by (simp add: Cons Let_def del: parse_members.simps parse_elems.simps)
  qed simp
next
  case (4 n s)
  have v: "parse_val (Suc n) s = parse_val n s" using "4.IH"(1) "4.prems" by simp
  have t: "parse_elems (Suc n) (skip_ws r1) = parse_elems n (skip_ws r1)"
    if "parse_val n s = Some (v, r)" "skip_ws r = CHR '','' # r1" for v r r1
    using "4.IH"(2) [OF that(1) refl that(2)] "4.prems" parse_length(1) [OF that(1)]
      skip_ws_length [OF that(2)] length_dropWhile_le [of is_ws r1] by simp
  show ?case
    unfolding parse_elems.simps(2) [of "Suc n" s] parse_elems.simps(2) [of n s] v
    by (auto simp: t simp del: parse_elems.simps parse_val.simps dropWhile_eq_Nil_conv split: option.splits list.splits)
next
  case (6 n s)
  have b: "2 * length (skip_ws r1) < n \<and> 2 * length (skip_ws r1) + 3 \<le> n"
    if "s = dquote # s1" "scan_str s1 = Some (k, r)" "skip_ws r = CHR '':'' # r1" for s1 k r r1
    using scan_str_length [OF that(2)] skip_ws_length [OF that(3)] that(1) "6.prems"
      length_dropWhile_le [of is_ws r1] by simp
  have v: "parse_val (Suc n) (skip_ws r1) = parse_val n (skip_ws r1)"
    if "s = dquote # s1" "scan_str s1 = Some (k, r)" "skip_ws r = CHR '':'' # r1" for s1 k r r1
    using "6.IH"(1) [OF that(1) _ that(2) refl that(3)] b [OF that] by simp
  have m: "parse_members (Suc n) (skip_ws r3) = parse_members n (skip_ws r3)"
    if "s = dquote # s1" "scan_str s1 = Some (k, r)" "skip_ws r = CHR '':'' # r1"
      "parse_val n (skip_ws r1) = Some (v, r2)" "skip_ws r2 = CHR '','' # r3" for s1 k r r1 v r2 r3
    using "6.IH"(2) [OF that(1) _ that(2) refl that(3) _ that(4) refl that(5)] b [OF that(1-3)]
      parse_length(1) [OF that(4)] skip_ws_length [OF that(5)] length_dropWhile_le [of is_ws r3]
    by simp
  show ?case
    unfolding parse_members.simps(2) [of "Suc n" s] parse_members.simps(2) [of n s]
    by (auto simp: v m simp del: parse_members.simps parse_val.simps dropWhile_eq_Nil_conv
        split: option.splits list.splits)
qed simp_all

lemma parse_fuel_enough: "2 * length s < n \<Longrightarrow> parse_val n s = parse_val (2 * length s + 1) s"
proof (induction n)
  case (Suc n)
  then show ?case using parse_fuel_Suc(1) [of s n] by (cases "n = 2 * length s") auto
qed simp

end
