(* ===== verification/Types.thy ===== *)
theory Types
  imports JsonRoundtrip "HOL-Library.Multiset"
begin

text \<open>
  The data of \<^verbatim>\<open>src/src/edgeai/types.py\<close>: slots, deployment statuses, model metrics, the
  signed artifact manifest and the deployment state, with \<^verbatim>\<open>to_dict\<close> as the JSON value each
  one is written as. A field the code keeps as an int or a float is a \<open>pynum\<close>, and the free
  \<^verbatim>\<open>metadata\<close> object is its association list.
\<close>

section \<open>Enumerations\<close>

datatype slot = SlotA | SlotB

definition slot_name :: "slot \<Rightarrow> pystr" where
  "slot_name s = (case s of SlotA \<Rightarrow> ''A'' | SlotB \<Rightarrow> ''B'')"

definition slot_of_name :: "pystr \<Rightarrow> slot option" where
  "slot_of_name t = (if t = ''A'' then Some SlotA else if t = ''B'' then Some SlotB else None)"

lemma slot_of_name_name [simp]: "slot_of_name (slot_name s) = Some s"
  by (cases s) (simp_all add: slot_of_name_def slot_name_def)

lemma slot_of_name_Some_iff: "slot_of_name t = Some s \<longleftrightarrow> t = slot_name s"
  by (cases s) (auto simp: slot_of_name_def slot_name_def)

lemma slot_name_inject [simp]: "slot_name s = slot_name t \<longleftrightarrow> s = t"
  by (cases s; cases t) (simp_all add: slot_name_def)

lemma slot_exhaust2: "s \<noteq> t \<Longrightarrow> u = s \<or> u = (t :: slot)"
  by (cases s; cases t; cases u) auto

instantiation slot :: linorder
begin

definition less_eq_slot :: "slot \<Rightarrow> slot \<Rightarrow> bool" where
  "less_eq_slot s t \<longleftrightarrow> s = SlotA \<or> t = SlotB"

definition less_slot :: "slot \<Rightarrow> slot \<Rightarrow> bool" where
  "less_slot s t \<longleftrightarrow> s = SlotA \<and> t = SlotB"

instance
proof
  fix s t u :: slot
  show "(s < t) = (s \<le> t \<and> \<not> t \<le> s)" by (cases s; cases t) (auto simp: less_slot_def less_eq_slot_def)
  show "s \<le> s" by (cases s) (auto simp: less_eq_slot_def)
  show "s \<le> t \<Longrightarrow> t \<le> u \<Longrightarrow> s \<le> u" by (cases s; cases t; cases u) (auto simp: less_eq_slot_def)
  show "s \<le> t \<Longrightarrow> t \<le> s \<Longrightarrow> s = t" by (cases s; cases t) (auto simp: less_eq_slot_def)
  show "s \<le> t \<or> t \<le> s" by (cases s; cases t) (auto simp: less_eq_slot_def)
qed

end

instantiation slot :: enum
begin

definition enum_slot :: "slot list" where
  "enum_slot = [SlotA, SlotB]"

definition enum_all_slot :: "(slot \<Rightarrow> bool) \<Rightarrow> bool" where
  "enum_all_slot P \<longleftrightarrow> P SlotA \<and> P SlotB"

definition enum_ex_slot :: "(slot \<Rightarrow> bool) \<Rightarrow> bool" where
  "enum_ex_slot P \<longleftrightarrow> P SlotA \<or> P SlotB"

instance
proof
  show "(UNIV :: slot set) = set enum_class.enum"
    by (auto simp: enum_slot_def) (metis slot.exhaust)
  show "distinct (enum_class.enum :: slot list)" by (simp add: enum_slot_def)
  show "enum_class.enum_all P = Ball UNIV P" for P :: "slot \<Rightarrow> bool"
    unfolding enum_all_slot_def by (metis slot.exhaust UNIV_I)
  show "enum_class.enum_ex P = Bex UNIV P" for P :: "slot \<Rightarrow> bool"
    unfolding enum_ex_slot_def by (metis slot.exhaust UNIV_I)
qed

end

datatype deployment_status = Status_EMPTY | Status_STAGED | Status_ACTIVE | Status_FAILED | Status_ROLLED_BACK

definition status_value :: "deployment_status \<Rightarrow> pystr" where
  "status_value s =
     (case s of Status_EMPTY \<Rightarrow> ''empty'' | Status_STAGED \<Rightarrow> ''staged'' | Status_ACTIVE \<Rightarrow> ''active''
      | Status_FAILED \<Rightarrow> ''failed'' | Status_ROLLED_BACK \<Rightarrow> ''rolled_back'')"

definition all_statuses :: "deployment_status list" where
  "all_statuses = [Status_EMPTY, Status_STAGED, Status_ACTIVE, Status_FAILED, Status_ROLLED_BACK]"

definition status_of_value :: "pystr \<Rightarrow> deployment_status option" where
  "status_of_value t = List.find (\<lambda>s. status_value s = t) all_statuses"

lemma status_of_value_value [simp]: "status_of_value (status_value s) = Some s"
  by (cases s) (simp_all add: status_of_value_def all_statuses_def status_value_def)

lemma status_of_value_Some: "status_of_value t = Some s \<Longrightarrow> t = status_value s"
  by (auto simp: status_of_value_def find_Some_iff)

section \<open>Metrics\<close>

record model_metrics =
  accuracy :: pynum
  ece :: pynum
  p95_latency_ms :: pynum
  max_rss_mb :: pynum

text \<open>\<^verbatim>\<open>all(math.isfinite(v) for v in values)\<close>: stops at the first value that is not finite.\<close>

fun all_finite :: "pynum list \<Rightarrow> bool res" where
  "all_finite [] = Inr True"
| "all_finite (v # vs) =
     rbind (math_isfinite v) (\<lambda>b. if b then all_finite vs else Inr False)"

definition metrics_validate :: "model_metrics \<Rightarrow> unit res" where
  "metrics_validate m =
     rbind (all_finite [accuracy m, ece m, p95_latency_ms m, max_rss_mb m]) (\<lambda>finite.
     rbind (guard_r finite (Exc ValueError ''model metrics must be finite'')) (\<lambda>_.
     rbind (guard_r (num_le (NFloat (Fin 0)) (accuracy m) \<and> num_le (accuracy m) (NFloat (Fin 1)))
       (Exc ValueError ''accuracy outside [0,1]'')) (\<lambda>_.
     rbind (guard_r (num_le (NFloat (Fin 0)) (ece m) \<and> num_le (ece m) (NFloat (Fin 1)))
       (Exc ValueError ''ece outside [0,1]'')) (\<lambda>_.
     guard_r (\<not> (num_lt (p95_latency_ms m) (NInt 0) \<or> num_lt (max_rss_mb m) (NInt 0)))
       (Exc ValueError ''latency/memory must be non-negative'')))))"

text \<open>The rational a finite number is.\<close>

definition num_rat :: "pynum \<Rightarrow> rat" where
  "num_rat v = fin_val (num_val v)"

definition num_finite :: "pynum \<Rightarrow> bool" where
  "num_finite v \<longleftrightarrow> is_finite (num_val v)"

lemma float_le_finite:
  "is_finite x \<Longrightarrow> is_finite y \<Longrightarrow> float_le x y \<longleftrightarrow> fin_val x \<le> fin_val y"
  by (cases x; cases y) (simp_all)

lemma float_lt_finite:
  "is_finite x \<Longrightarrow> is_finite y \<Longrightarrow> float_lt x y \<longleftrightarrow> fin_val x < fin_val y"
  by (cases x; cases y) (simp_all)

lemma math_isfinite_small_int: "\<bar>i\<bar> < 2 ^ 53 \<Longrightarrow> math_isfinite (NInt i) = Inr True"
  by (simp add: math_isfinite_def int_to_float_def float_of_small_int)

lemma math_isfinite_True: "math_isfinite v = Inr True \<Longrightarrow> num_finite v"
  by (cases v) (auto simp: math_isfinite_def num_finite_def rbind_Inr_iff)

lemma all_finite_True: "all_finite vs = Inr True \<Longrightarrow> v \<in> set vs \<Longrightarrow> num_finite v"
  by (induction vs)
     (auto simp: rbind_Inr_iff split: if_splits intro: math_isfinite_True)

lemma metrics_validate_ranges:
  assumes "metrics_validate m = Inr ()"
  shows "num_finite (accuracy m)" "num_finite (ece m)"
    "num_finite (p95_latency_ms m)" "num_finite (max_rss_mb m)"
    "0 \<le> num_rat (accuracy m)" "num_rat (accuracy m) \<le> 1"
    "0 \<le> num_rat (ece m)" "num_rat (ece m) \<le> 1"
    "0 \<le> num_rat (p95_latency_ms m)" "0 \<le> num_rat (max_rss_mb m)"
proof -
  have f: "all_finite [accuracy m, ece m, p95_latency_ms m, max_rss_mb m] = Inr True"
    and g: "num_le (NFloat (Fin 0)) (accuracy m)" "num_le (accuracy m) (NFloat (Fin 1))"
      "num_le (NFloat (Fin 0)) (ece m)" "num_le (ece m) (NFloat (Fin 1))"
      "\<not> num_lt (p95_latency_ms m) (NInt 0)" "\<not> num_lt (max_rss_mb m) (NInt 0)"
    using assms by (auto simp: metrics_validate_def rbind_Inr_iff simp del: all_finite.simps)
  show fin: "num_finite (accuracy m)" "num_finite (ece m)"
    "num_finite (p95_latency_ms m)" "num_finite (max_rss_mb m)"
    by (rule all_finite_True [OF f], simp)+
  have c: "is_finite (Fin q)" for q by simp
  note s = float_le_finite [OF c] float_le_finite [OF _ c] float_lt_finite [OF _ c]
  show "0 \<le> num_rat (accuracy m)" "num_rat (accuracy m) \<le> 1"
    "0 \<le> num_rat (ece m)" "num_rat (ece m) \<le> 1"
    "0 \<le> num_rat (p95_latency_ms m)" "0 \<le> num_rat (max_rss_mb m)"
    using g fin by (simp_all add: num_le_def num_lt_def num_rat_def num_finite_def s not_less)
qed

definition num_json :: "pynum \<Rightarrow> json" where
  "num_json v = (case v of NInt i \<Rightarrow> JInt i | NFloat x \<Rightarrow> JFloat x)"

definition metrics_to_dict :: "model_metrics \<Rightarrow> json" where
  "metrics_to_dict m =
     JObj [(''accuracy'', num_json (accuracy m)), (''ece'', num_json (ece m)),
           (''p95_latency_ms'', num_json (p95_latency_ms m)), (''max_rss_mb'', num_json (max_rss_mb m))]"

section \<open>The artifact manifest\<close>

record artifact_manifest =
  schema_version :: int
  release_sequence :: int
  version :: pystr
  model_kind :: pystr
  runtime_abi :: pystr
  model_sha256 :: pystr
  model_bytes :: int
  metrics :: model_metrics
  created_utc :: pystr
  metadata :: "(pystr \<times> json) list"

definition manifest_to_dict :: "artifact_manifest \<Rightarrow> json" where
  "manifest_to_dict m =
     JObj [(''schema_version'', JInt (schema_version m)),
           (''release_sequence'', JInt (release_sequence m)),
           (''version'', JStr (version m)),
           (''model_kind'', JStr (model_kind m)),
           (''runtime_abi'', JStr (runtime_abi m)),
           (''model_sha256'', JStr (model_sha256 m)),
           (''model_bytes'', JInt (model_bytes m)),
           (''metrics'', metrics_to_dict (metrics m)),
           (''created_utc'', JStr (created_utc m)),
           (''metadata'', JObj (metadata m))]"

section \<open>The deployment state\<close>

text \<open>The \<^verbatim>\<open>slots\<close> dict has exactly the keys A and B: a function of the slot.\<close>

record deployment_state =
  generation :: int
  active_slot :: "slot option"
  previous_slot :: "slot option"
  slots :: "slot \<Rightarrow> pystr option"
  highest_release_sequence :: int
  status :: deployment_status
  last_error :: "pystr option"

definition initial_state :: deployment_state where
  "initial_state =
     \<lparr>generation = 0, active_slot = None, previous_slot = None, slots = (\<lambda>_. None),
      highest_release_sequence = -1, status = Status_EMPTY, last_error = None\<rparr>"

definition opt_json :: "pystr option \<Rightarrow> json" where
  "opt_json x = (case x of None \<Rightarrow> JNull | Some t \<Rightarrow> JStr t)"

definition state_to_dict :: "deployment_state \<Rightarrow> json" where
  "state_to_dict s =
     JObj [(''generation'', JInt (generation s)),
           (''active_slot'', opt_json (map_option slot_name (active_slot s))),
           (''previous_slot'', opt_json (map_option slot_name (previous_slot s))),
           (''slots'', JObj [(''A'', opt_json (slots s SlotA)), (''B'', opt_json (slots s SlotB))]),
           (''highest_release_sequence'', JInt (highest_release_sequence s)),
           (''status'', JStr (status_value (status s))),
           (''last_error'', opt_json (last_error s))]"

section \<open>Python equality of JSON data\<close>

text \<open>
  \<^verbatim>\<open>==\<close> on values that \<^verbatim>\<open>json.loads\<close> returns: booleans and numbers compare by value
  (\<^verbatim>\<open>True == 1 == 1.0\<close>), objects without regard to the order of their keys. Both sides are
  brought to one normal form. NaN does not occur in what the strict reader accepts.
\<close>

fun py_norm :: "json \<Rightarrow> json" where
  "py_norm (JBool b) = JInt (if b then 1 else 0)"
| "py_norm (JFloat (Fin q)) = (if q = of_int \<lfloor>q\<rfloor> then JInt \<lfloor>q\<rfloor> else JFloat (Fin q))"
| "py_norm (JFloat NegZero) = JInt 0"
| "py_norm (JList vs) = JList (map py_norm vs)"
| "py_norm (JObj kvs) = JObj (sort_key fst (map (\<lambda>(k, v). (k, py_norm v)) kvs))"
| "py_norm v = v"

definition py_eq :: "json \<Rightarrow> json \<Rightarrow> bool" where
  "py_eq v w \<longleftrightarrow> py_norm v = py_norm w"

lemma py_eq_refl [simp]: "py_eq v v"
  by (simp add: py_eq_def)

lemma py_eq_sym: "py_eq v w \<Longrightarrow> py_eq w v"
  by (simp add: py_eq_def)

lemma py_eq_trans: "py_eq u v \<Longrightarrow> py_eq v w \<Longrightarrow> py_eq u w"
  by (simp add: py_eq_def)

text \<open>
  \<^verbatim>\<open>==\<close> on manifests, as the data class defines it: field by field. Through \<^verbatim>\<open>to_dict\<close>
  that is equality of the two objects.
\<close>

definition manifest_eq :: "artifact_manifest \<Rightarrow> artifact_manifest \<Rightarrow> bool" where
  "manifest_eq m n \<longleftrightarrow> py_eq (manifest_to_dict m) (manifest_to_dict n)"

lemma manifest_eq_refl [simp]: "manifest_eq m m"
  by (simp add: manifest_eq_def)

lemma manifest_eq_sym: "manifest_eq m n \<Longrightarrow> manifest_eq n m"
  by (simp add: manifest_eq_def py_eq_sym)

lemma manifest_eq_trans: "manifest_eq l m \<Longrightarrow> manifest_eq m n \<Longrightarrow> manifest_eq l n"
  by (auto simp: manifest_eq_def intro: py_eq_trans)

lemma map_of_sort_key:
  assumes "distinct (map fst kvs)"
  shows "map_of (sort_key fst kvs) = map_of kvs"
proof -
  have "mset (map fst (sort_key fst kvs)) = mset (map fst kvs)" by simp
  then have "distinct (map fst (sort_key fst kvs))"
    using assms by (metis mset_eq_imp_distinct_iff)
  then show ?thesis using assms by (subst map_of_inject_set) auto
qed

lemma map_of_py_norm:
  "map_of (map (\<lambda>(k, v). (k, py_norm v)) kvs) k = map_option py_norm (map_of kvs k)"
  by (induction kvs) auto

lemma py_eq_lookup:
  assumes "py_eq (JObj kvs) (JObj kvs')" "distinct (map fst kvs)" "distinct (map fst kvs')"
  shows "map_option py_norm (map_of kvs k) = map_option py_norm (map_of kvs' k)"
proof -
  let ?n = "\<lambda>kvs. map (\<lambda>(k, v). (k, py_norm v)) kvs"
  have d: "map fst (?n kvs) = map fst kvs" for kvs by (induction kvs) auto
  have "map_of (sort_key fst (?n kvs)) = map_of (sort_key fst (?n kvs'))"
    using assms(1) by (simp add: py_eq_def)
  then have "map_of (?n kvs) = map_of (?n kvs')"
    using assms(2,3) by (simp only: map_of_sort_key d)
  then show ?thesis by (metis map_of_py_norm)
qed

lemma manifest_eq_fields:
  assumes "manifest_eq m n"
  shows "release_sequence m = release_sequence n" "version m = version n"
    "model_sha256 m = model_sha256 n" "model_bytes m = model_bytes n"
    "model_kind m = model_kind n" "runtime_abi m = runtime_abi n"
proof -
  let ?kvs = "\<lambda>m. (case manifest_to_dict m of JObj kvs \<Rightarrow> kvs)"
  have d: "distinct (map fst (?kvs m))" for m by (simp add: manifest_to_dict_def)
  have "py_eq (JObj (?kvs m)) (JObj (?kvs n))"
    using assms by (simp add: manifest_eq_def manifest_to_dict_def)
  note l = py_eq_lookup [OF this d d]
  show "release_sequence m = release_sequence n"
    using l [of "''release_sequence''"] by (simp add: manifest_to_dict_def)
  show "version m = version n"
    using l [of "''version''"] by (simp add: manifest_to_dict_def)
  show "model_sha256 m = model_sha256 n"
    using l [of "''model_sha256''"] by (simp add: manifest_to_dict_def)
  show "model_bytes m = model_bytes n"
    using l [of "''model_bytes''"] by (simp add: manifest_to_dict_def)
  show "model_kind m = model_kind n"
    using l [of "''model_kind''"] by (simp add: manifest_to_dict_def)
  show "runtime_abi m = runtime_abi n"
    using l [of "''runtime_abi''"] by (simp add: manifest_to_dict_def)
qed

end
