(* ===== verification/Util.thy ===== *)
theory Util
  imports Types
begin

text \<open>
  \<^verbatim>\<open>src/src/edgeai/util.py\<close>: canonical JSON bytes, the strict reader, and the version
  syntax with the path component it makes. The regular expression is matched over code
  points; \<^verbatim>\<open>\d\<close> is every decimal digit of Unicode 14 (category Nd), which comes in blocks of ten.
\<close>

section \<open>Versions\<close>

definition nd_zeros :: "nat list" where
  "nd_zeros =
     [48, 1632, 1776, 1984, 2406, 2534, 2662, 2790, 2918, 3046, 3174, 3302, 3430, 3558, 3664, 3792,
      3872, 4160, 4240, 6112, 6160, 6470, 6608, 6784, 6800, 6992, 7088, 7232, 7248, 42528, 43216,
      43264, 43472, 43504, 43600, 44016, 65296, 66720, 68912, 69734, 69872, 69942, 70096, 70384,
      70736, 70864, 71248, 71360, 71472, 71904, 72016, 72784, 73040, 73120, 92768, 92864, 93008,
      120782, 120792, 120802, 120812, 120822, 123200, 123632, 125264, 130032]"

definition is_nd :: "nat \<Rightarrow> bool" where
  "is_nd n \<longleftrightarrow> (\<exists>z \<in> set nd_zeros. z \<le> n \<and> n < z + 10)"

text \<open>\<^verbatim>\<open>[0-9A-Za-z.-]\<close>.\<close>

definition is_suffix_cp :: "nat \<Rightarrow> bool" where
  "is_suffix_cp n \<longleftrightarrow>
     48 \<le> n \<and> n \<le> 57 \<or> 65 \<le> n \<and> n \<le> 90 \<or> 97 \<le> n \<and> n \<le> 122 \<or> n = 46 \<or> n = 45"

text \<open>\<^verbatim>\<open>(0|[1-9]\d*)\<close>: what is left after it.\<close>

definition semver_number :: "nat list \<Rightarrow> nat list option" where
  "semver_number cs =
     (case cs of
        [] \<Rightarrow> None
      | c # r \<Rightarrow> if c = 48 then Some r
                else if 49 \<le> c \<and> c \<le> 57 then Some (dropWhile is_nd r) else None)"

definition semver_dot :: "nat list \<Rightarrow> nat list option" where
  "semver_dot cs = (case cs of [] \<Rightarrow> None | c # r \<Rightarrow> if c = 46 then Some r else None)"

text \<open>\<^verbatim>\<open>$\<close> holds at the end and before a final line feed.\<close>

definition at_dollar :: "nat list \<Rightarrow> bool" where
  "at_dollar cs \<longleftrightarrow> cs = [] \<or> cs = [10]"

definition semver_suffix :: "nat list \<Rightarrow> bool" where
  "semver_suffix cs \<longleftrightarrow>
     at_dollar cs \<or>
     (case cs of
        [] \<Rightarrow> False
      | c # r \<Rightarrow> (c = 45 \<or> c = 43) \<and> takeWhile is_suffix_cp r \<noteq> [] \<and> at_dollar (dropWhile is_suffix_cp r))"

definition semver_match :: "pystr \<Rightarrow> bool" where
  "semver_match v =
     (case Option.bind (semver_number (code_points v)) (\<lambda>a.
           Option.bind (semver_dot a) (\<lambda>b.
           Option.bind (semver_number b) (\<lambda>c.
           Option.bind (semver_dot c) semver_number))) of
        None \<Rightarrow> False
      | Some r \<Rightarrow> semver_suffix r)"

definition validate_semver :: "pystr \<Rightarrow> unit res" where
  "validate_semver v = guard_r (semver_match v) (Exc ValueError ''invalid semantic version'')"

definition safe_version :: "pystr \<Rightarrow> pystr res" where
  "safe_version v = rbind (validate_semver v) (\<lambda>_. Inr v)"

text \<open>The same checks on a value of unknown type.\<close>

definition safe_version_json :: "json \<Rightarrow> pystr res" where
  "safe_version_json v =
     (case v of JStr t \<Rightarrow> safe_version t | _ \<Rightarrow> Inl (Exc ValueError ''invalid semantic version''))"

definition max_release_sequence :: int where
  "max_release_sequence = 2 ^ 63 - 1"

lemma safe_version_Inr: "safe_version v = Inr w \<longleftrightarrow> semver_match v \<and> w = v"
  by (auto simp: safe_version_def validate_semver_def rbind_Inr_iff)

lemma safe_version_json_Inr: "safe_version_json j = Inr w \<longleftrightarrow> j = JStr w \<and> semver_match w"
  by (cases j) (auto simp: safe_version_json_def safe_version_Inr)

subsection \<open>A version is one path component\<close>

definition semver_cp :: "nat \<Rightarrow> bool" where
  "semver_cp n \<longleftrightarrow> is_nd n \<or> is_suffix_cp n \<or> n = 43 \<or> n = 10"

lemma is_nd_ascii: "48 \<le> n \<Longrightarrow> n \<le> 57 \<Longrightarrow> is_nd n"
  by (auto simp: is_nd_def nd_zeros_def)

lemma set_dropWhile_all:
  "(\<forall>x \<in> set (dropWhile P xs). Q x) \<Longrightarrow> (\<forall>x. P x \<longrightarrow> Q x) \<Longrightarrow> x \<in> set xs \<Longrightarrow> Q x"
  by (induction xs) (auto split: if_splits)

lemma semver_number_all:
  assumes "semver_number cs = Some r" and "\<forall>n \<in> set r. semver_cp n"
  shows "\<forall>n \<in> set cs. semver_cp n"
  using assms set_dropWhile_all [of is_nd _ semver_cp]
  by (auto simp: semver_number_def semver_cp_def is_nd_ascii split: list.splits if_splits)

lemma semver_dot_all:
  assumes "semver_dot cs = Some r" and "\<forall>n \<in> set r. semver_cp n"
  shows "\<forall>n \<in> set cs. semver_cp n"
  using assms by (auto simp: semver_dot_def semver_cp_def is_suffix_cp_def split: list.splits if_splits)

lemma semver_suffix_all:
  assumes "semver_suffix cs"
  shows "\<forall>n \<in> set cs. semver_cp n"
proof -
  have d: "\<forall>n \<in> set r. semver_cp n" if "at_dollar r" for r
    using that by (auto simp: at_dollar_def semver_cp_def)
  show ?thesis
  proof (cases "at_dollar cs")
    case False
    then obtain c r where c: "cs = c # r" "c = 45 \<or> c = 43" "at_dollar (dropWhile is_suffix_cp r)"
      using assms by (auto simp: semver_suffix_def split: list.splits)
    have "semver_cp n" if "n \<in> set r" for n
      using set_dropWhile_all [OF d [OF c(3)] _ that] by (simp add: semver_cp_def)
    moreover have "semver_cp c" using c(2) by (auto simp: semver_cp_def is_suffix_cp_def)
    ultimately show ?thesis using c(1) by simp
  qed (rule d)
qed

lemma semver_match_cps:
  assumes "semver_match v"
  shows "\<forall>n \<in> set (code_points v). semver_cp n" and "code_points v \<noteq> []"
    and "hd (code_points v) \<in> {48..57}"
proof -
  from assms obtain a b c d r where
    a: "semver_number (code_points v) = Some a" and b: "semver_dot a = Some b"
    and c: "semver_number b = Some c" and d: "semver_dot c = Some d"
    and r: "semver_number d = Some r" "semver_suffix r"
    by (auto simp: semver_match_def bind_eq_Some_conv split: option.splits)
  show "\<forall>n \<in> set (code_points v). semver_cp n"
    by (intro semver_number_all [OF a] semver_dot_all [OF b] semver_number_all [OF c]
        semver_dot_all [OF d] semver_number_all [OF r(1)] semver_suffix_all [OF r(2)])
  show "code_points v \<noteq> []" "hd (code_points v) \<in> {48..57}"
    using a by (auto simp: semver_number_def split: list.splits if_splits)
qed

lemma semver_match_chars:
  assumes "semver_match v"
  shows "v \<noteq> []" "is_digit (hd v)" "c \<in> set v \<Longrightarrow> c \<noteq> CHR ''/'' \<and> c \<noteq> CHR 0x00"
proof -
  note m = semver_match_cps [OF assms]
  obtain cs where cs: "utf8_decode True (map byte_of v) = Some cs" "code_points v = cs"
    using m(2) by (auto simp: code_points_def split: option.splits)
  have v: "v = concat (map chr_str cs)"
    using chr_str_code_points [of v] cs by (simp add: str_ok_def)
  have low: "chr_str n = [char_of n]" if "n < 128" for n
    using that by (simp add: chr_str_def utf8_encode_cp_def)
  obtain k ks where ks: "cs = k # ks" "48 \<le> k" "k \<le> 57"
    using m(2,3) cs(2) by (cases cs) auto
  show "v \<noteq> []" "is_digit (hd v)"
    using ks by (auto simp: v low is_digit_def)
  show "c \<noteq> CHR ''/'' \<and> c \<noteq> CHR 0x00" if "c \<in> set v"
  proof -
    obtain n where n: "n \<in> set cs" "c \<in> set (chr_str n)" using \<open>c \<in> set v\<close> by (auto simp: v)
    have ok: "semver_cp n" "n < 1114112" using n m(1) cs utf8_decode_less [OF cs(1)] by auto
    show ?thesis
    proof (cases "n < 128")
      case True
      then have c: "byte_of c = n" using n low by simp
      have "n \<noteq> 47 \<and> n \<noteq> 0"
        using ok(1) by (auto simp: semver_cp_def is_nd_def nd_zeros_def is_suffix_cp_def)
      then show ?thesis using c by (auto simp: byte_of_def)
    next
      case False
      then have "128 \<le> byte_of c" using chr_str_high [of n c] n ok by simp
      then show ?thesis by (auto simp: byte_of_def)
    qed
  qed
qed

section \<open>Canonical JSON\<close>

definition canonical_json_bytes :: "json \<Rightarrow> bytes res" where
  "canonical_json_bytes v =
     rbind (guard_r (json_ok v) (Exc ValueError ''Out of range float values are not JSON compliant'')) (\<lambda>_.
     let t = json_text False (canon v)
     in rbind (guard_r (utf8_ok t) (Exc UnicodeEncodeError ''surrogates not allowed'')) (\<lambda>_. Inr t))"

definition strict_json_loads :: "string \<Rightarrow> json res" where
  "strict_json_loads s = of_opt (Exc ValueError ''invalid JSON'') (strict_parse s)"

text \<open>\<^verbatim>\<open>raw.decode("utf-8")\<close>, and \<^verbatim>\<open>strict_json_loads(raw.decode("utf-8"))\<close>.\<close>

definition decode_utf8 :: "bytes \<Rightarrow> pystr res" where
  "decode_utf8 bs = rbind (guard_r (utf8_ok bs) (Exc UnicodeDecodeError ''invalid utf-8'')) (\<lambda>_. Inr bs)"

definition loads_bytes :: "bytes \<Rightarrow> json res" where
  "loads_bytes bs = rbind (decode_utf8 bs) strict_json_loads"

text \<open>
  Sorting the keys keeps what the reader needs: canonical text is read back as the value
  with its keys sorted, which Python's equality does not distinguish from the value.
\<close>

lemma list_all_sort_key: "list_all P (sort_key f xs) \<longleftrightarrow> list_all P xs"
  by (simp add: list_all_iff)

lemma distinct_fst_sort: "distinct (map fst (sort_key fst kvs)) \<longleftrightarrow> distinct (map fst kvs)"
proof -
  have "mset (map fst (sort_key fst kvs)) = mset (map fst kvs)" by simp
  then show ?thesis by (rule mset_eq_imp_distinct_iff)
qed

lemma fst_map_value [simp]: "fst \<circ> (\<lambda>(k, v). (k, f v)) = fst"
  by auto

lemma json_rt_canon: "json_rt a v \<Longrightarrow> json_rt a (canon v)"
proof (induction v)
  case (JList vs)
  then show ?case by (auto simp: list_all_iff)
next
  case (JObj kvs)
  have "json_rt a (canon v)" if "(k, v) \<in> set kvs" for k v
    using that JObj by (force simp: list_all_iff)
  then show ?case
    using JObj.prems by (auto simp: distinct_fst_sort list_all_iff)
qed auto

lemma sort_key_sorted_id: "sort_key f (sort_key f xs) = sort_key f xs"
  by (simp add: sort_key_id_if_sorted)

lemma map_snd_sort_key:
  fixes kvs :: "(pystr \<times> 'a) list"
  shows "map (\<lambda>(k, v). (k, g v)) (sort_key fst kvs) = sort_key fst (map (\<lambda>(k, v). (k, g v)) kvs)"
proof -
  have ins: "map (\<lambda>(k, v). (k, g v)) (insort_key fst x ys) =
      insort_key fst ((\<lambda>(k, v). (k, g v)) x) (map (\<lambda>(k, v). (k, g v)) ys)"
    for x and ys :: "(pystr \<times> 'a) list"
    by (induction ys) (auto split: prod.splits)
  show ?thesis
    by (induction kvs) (simp_all add: sort_key_def ins)
qed

lemma py_norm_canon: "py_norm (canon v) = py_norm v"
proof (induction v)
  case (JObj kvs)
  have "map (\<lambda>(k, v). (k, py_norm v)) (map (\<lambda>(k, v). (k, canon v)) kvs) = map (\<lambda>(k, v). (k, py_norm v)) kvs"
    using JObj by force
  then show ?case by (simp only: canon.simps py_norm.simps map_snd_sort_key sort_key_sorted_id)
qed auto

lemma canon_idem [simp]: "canon (canon v) = canon v"
proof (induction v)
  case (JObj kvs)
  have "map (\<lambda>(k, v). (k, canon v)) (map (\<lambda>(k, v). (k, canon v)) kvs) = map (\<lambda>(k, v). (k, canon v)) kvs"
    using JObj by force
  then show ?case by (simp only: canon.simps map_snd_sort_key sort_key_sorted_id)
qed auto

lemma json_ok_canon [simp]: "json_ok (canon v) = json_ok v"
proof (induction v)
  case (JObj kvs)
  have "list_all (\<lambda>(k, v). json_ok v) (map (\<lambda>(k, v). (k, canon v)) kvs) = list_all (\<lambda>(k, v). json_ok v) kvs"
    using JObj by (induction kvs) force+
  then show ?case by (simp add: list_all_sort_key del: list_all_iff)
qed (auto simp: list_all_iff)

lemma canonical_json_bytes_canon [simp]: "canonical_json_bytes (canon v) = canonical_json_bytes v"
  by (simp add: canonical_json_bytes_def)

lemma canonical_json_bytes_Inr:
  "canonical_json_bytes v = Inr bs \<longleftrightarrow>
     json_ok v \<and> bs = json_text False (canon v) \<and> utf8_ok bs"
  by (auto simp: canonical_json_bytes_def rbind_Inr_iff Let_def)

lemma newline_utf8: "utf8_ok [newline]"
  by (rule ascii_utf8_ok) (simp add: ascii_def byte_of_def)

theorem loads_canonical:
  assumes "canonical_json_bytes v = Inr bs" and "json_rt False v" and "r = [] \<or> r = [newline]"
  shows "loads_bytes (bs @ r) = Inr (canon v)"
proof -
  have "utf8_ok (bs @ r)"
    using assms(1,3) newline_utf8 by (auto simp: canonical_json_bytes_Inr intro: utf8_ok_append)
  moreover have "strict_parse (bs @ r) = Some (canon v)"
    using strict_parse_text [OF json_rt_canon [OF assms(2)] assms(3)] assms(1)
    by (simp add: canonical_json_bytes_Inr)
  ultimately show ?thesis by (simp add: loads_bytes_def decode_utf8_def strict_json_loads_def)
qed

section \<open>Looking at parsed data\<close>

text \<open>\<^verbatim>\<open>data[k]\<close> where the code has checked the key set, and \<^verbatim>\<open>set(data) == {...}\<close>.\<close>

definition jfield :: "(pystr \<times> json) list \<Rightarrow> pystr \<Rightarrow> json" where
  "jfield kvs k = (case map_of kvs k of Some v \<Rightarrow> v | None \<Rightarrow> JNull)"

definition has_fields :: "(pystr \<times> json) list \<Rightarrow> pystr list \<Rightarrow> bool" where
  "has_fields kvs ks \<longleftrightarrow> set (map fst kvs) = set ks"

definition as_obj :: "json \<Rightarrow> (pystr \<times> json) list option" where
  "as_obj v = (case v of JObj kvs \<Rightarrow> Some kvs | _ \<Rightarrow> None)"

text \<open>\<^verbatim>\<open>not isinstance(v, bool) and isinstance(v, int)\<close>.\<close>

definition as_int :: "json \<Rightarrow> int option" where
  "as_int v = (case v of JInt i \<Rightarrow> Some i | _ \<Rightarrow> None)"

definition as_num :: "json \<Rightarrow> pynum option" where
  "as_num v = (case v of JInt i \<Rightarrow> Some (NInt i) | JFloat x \<Rightarrow> Some (NFloat x) | _ \<Rightarrow> None)"

lemma as_num_json [simp]: "as_num (num_json v) = Some v"
  by (cases v) (simp_all add: as_num_def num_json_def)

lemma as_num_Some: "as_num j = Some v \<longleftrightarrow> j = num_json v"
  by (cases j; cases v) (auto simp: as_num_def num_json_def)

definition as_str :: "json \<Rightarrow> pystr option" where
  "as_str v = (case v of JStr t \<Rightarrow> Some t | _ \<Rightarrow> None)"

lemma as_simps [simp]:
  "as_obj (JObj kvs) = Some kvs" "as_int (JInt i) = Some i" "as_str (JStr t) = Some t"
  by (simp_all add: as_obj_def as_int_def as_str_def)

lemma as_Some_iff:
  "as_obj v = Some kvs \<longleftrightarrow> v = JObj kvs"
  "as_int v = Some i \<longleftrightarrow> v = JInt i"
  "as_str v = Some t \<longleftrightarrow> v = JStr t"
  by (cases v; auto simp: as_obj_def as_int_def as_str_def)+

lemma jfield_sort [simp]:
  "distinct (map fst kvs) \<Longrightarrow> jfield (sort_key fst kvs) k = jfield kvs k"
  by (simp add: jfield_def map_of_sort_key)

lemma has_fields_sort [simp]: "has_fields (sort_key fst kvs) ks \<longleftrightarrow> has_fields kvs ks"
  by (simp add: has_fields_def)

lemma jfield_map_value:
  "k \<in> set (map fst kvs) \<Longrightarrow> jfield (map (\<lambda>(k, v). (k, f v)) kvs) k = f (jfield kvs k)"
  by (induction kvs) (auto simp: jfield_def)

lemma has_fields_map_value [simp]:
  "has_fields (map (\<lambda>(k, v). (k, f v)) kvs) ks \<longleftrightarrow> has_fields kvs ks"
  by (simp add: has_fields_def image_comp)

lemma py_eq_int_iff: "py_eq v (JInt i) \<longleftrightarrow> py_norm v = JInt i"
  by (simp add: py_eq_def)

section \<open>The digits of bounded integers\<close>

lemma release_digits:
  assumes "- 1 \<le> i" "i \<le> max_release_sequence"
  shows "length (nat_str (nat \<bar>i\<bar>)) \<le> 19"
proof (rule nat_str_length)
  have "\<bar>i\<bar> < int (10 ^ 19)" using assms by (simp add: max_release_sequence_def)
  then show "nat \<bar>i\<bar> < 10 ^ 19" by linarith
qed simp

lemma int_str_length: "length (int_str i) \<le> Suc (length (nat_str (nat \<bar>i\<bar>)))"
  by (simp add: int_str_def)

lemma int_str_ascii: "ascii (int_str i)"
  using nat_str_ascii by (simp add: int_str_def ascii_def byte_of_def)

lemma nat_str_one: "nat_str (Suc 0) = ''1''"
  by (simp add: nat_str.simps digit_char_def char_of_def bit_0)

lemma int_str_one: "int_str 1 = ''1''"
  by (simp add: int_str_def nat_str_one)

section \<open>Canonical text is UTF-8\<close>

lemma utf8_ok_Nil [simp]: "utf8_ok []"
  by (simp add: utf8_ok_def)

lemma utf8_ok_chr_str: "n < 1114112 \<Longrightarrow> \<not> (55296 \<le> n \<and> n < 57344) \<Longrightarrow> utf8_ok (chr_str n)"
  using decode_encode_cp [of n False "[]"]
  by (auto simp: utf8_ok_def chr_str_def comp_def utf8_encode_cp_def split: if_splits)

lemma utf8_ok_concat: "(\<And>s. s \<in> set ss \<Longrightarrow> utf8_ok s) \<Longrightarrow> utf8_ok (concat ss)"
  by (induction ss) (auto intro: utf8_ok_append)

lemma ascii_append [simp]: "ascii (s @ t) \<longleftrightarrow> ascii s \<and> ascii t"
  by (auto simp: ascii_def)

lemma ascii_Cons [simp]: "ascii (c # s) \<longleftrightarrow> byte_of c < 128 \<and> ascii s"
  by (auto simp: ascii_def)

lemma ascii_Nil [simp]: "ascii []"
  by (simp add: ascii_def)

lemma hex_char_ascii [simp]: "n < 16 \<Longrightarrow> byte_of (hex_char n) < 128"
  by (auto simp: hex_char_def)

lemma byte_of_escapes [simp]:
  "byte_of dquote = 34" "byte_of bslash = 92" "byte_of newline = 10" "byte_of (CHR 0x0D) = 13"
  "byte_of (CHR 0x09) = 9" "byte_of (CHR 0x0C) = 12" "byte_of (CHR 0x08) = 8"
  "byte_of (CHR ''n'') = 110" "byte_of (CHR ''r'') = 114" "byte_of (CHR ''t'') = 116"
  "byte_of (CHR ''f'') = 102" "byte_of (CHR ''b'') = 98" "byte_of (CHR ''u'') = 117"
  "byte_of (CHR '','') = 44" "byte_of (CHR '':'') = 58" "byte_of (CHR ''['') = 91"
  "byte_of (CHR '']'') = 93" "byte_of (CHR ''{'') = 123" "byte_of (CHR ''}'') = 125"
  by (simp_all add: byte_of_def)

lemma u_escape_ascii: "n < 128 \<Longrightarrow> ascii (u_escape n)"
  by (simp add: u_escape_def)

lemma esc_char_ascii: "byte_of c < 128 \<Longrightarrow> ascii (esc_char a c)"
  by (simp add: esc_char_def u_escape_ascii)

lemma byte_of_neq: "byte_of d < 128 \<Longrightarrow> 128 \<le> byte_of c \<Longrightarrow> c \<noteq> d"
  by auto

lemma esc_char_high: "128 \<le> byte_of c \<Longrightarrow> esc_char False c = [c]"
  by (simp add: esc_char_def byte_of_neq)

lemma concat_map_concat: "concat (map f (concat xss)) = concat (map (\<lambda>xs. concat (map f xs)) xss)"
  by (induction xss) auto

lemma utf8_ok_str_body:
  assumes "utf8_ok s"
  shows "utf8_ok (str_body False s)"
proof -
  from assms obtain cs where cs: "utf8_decode False (map byte_of s) = Some cs"
    by (auto simp: utf8_ok_def)
  then have "code_points s = cs" by (simp add: code_points_def utf8_decode_mono)
  then have s: "s = concat (map chr_str cs)"
    using chr_str_code_points [OF utf8_ok_str_ok [OF assms]] by simp
  have body: "str_body False s = concat (map (\<lambda>n. concat (map (esc_char False) (chr_str n))) cs)"
    unfolding str_body_def by (subst s) (simp add: concat_map_concat comp_def)
  have "utf8_ok (concat (map (esc_char False) (chr_str n)))" if n: "n \<in> set cs" for n
  proof (cases "n < 128")
    case True
    then show ?thesis
      by (simp add: chr_str_def utf8_encode_cp_def ascii_utf8_ok esc_char_ascii)
  next
    case False
    have "map (esc_char False) (chr_str n) = map (\<lambda>c. [c]) (chr_str n)"
      using False chr_str_high [of n] utf8_decode_less [OF cs n] by (intro map_cong refl esc_char_high) auto
    then have "concat (map (esc_char False) (chr_str n)) = chr_str n" by (simp only:) simp
    then show ?thesis
      using utf8_ok_chr_str [OF utf8_decode_less [OF cs n] utf8_decode_strict [OF cs n]]
      by simp
  qed
  then show ?thesis unfolding body by (intro utf8_ok_concat) auto
qed

fun json_utf8 :: "json \<Rightarrow> bool" where
  "json_utf8 (JFloat x) = ascii (float_repr x)"
| "json_utf8 (JStr s) = utf8_ok s"
| "json_utf8 (JList vs) = list_all json_utf8 vs"
| "json_utf8 (JObj kvs) = list_all (\<lambda>(k, v). utf8_ok k \<and> json_utf8 v) kvs"
| "json_utf8 v = True"

lemma utf8_ok_str_text: "utf8_ok s \<Longrightarrow> utf8_ok (str_text False s)"
  using utf8_ok_append [OF utf8_ok_append [of "[dquote]" "str_body False s"], of "[dquote]"]
  by (simp add: str_text_def utf8_ok_str_body ascii_utf8_ok byte_of_def)

lemma utf8_ok_Cons: "byte_of c < 128 \<Longrightarrow> utf8_ok s \<Longrightarrow> utf8_ok (c # s)"
  using utf8_ok_append [of "[c]" s] by (simp add: ascii_utf8_ok)

lemma utf8_ok_json_text:
  "json_utf8 v \<Longrightarrow> utf8_ok (json_text False v)"
  "list_all json_utf8 vs \<Longrightarrow> utf8_ok (elems_text False vs)"
  "list_all (\<lambda>(k, v). utf8_ok k \<and> json_utf8 v) kvs \<Longrightarrow> utf8_ok (members_text False kvs)"
proof (induction False v and False vs and False kvs rule: json_text_elems_text_members_text.induct)
qed (auto simp: ascii_utf8_ok int_str_ascii byte_of_def intro!: utf8_ok_append utf8_ok_Cons utf8_ok_str_text)

lemma json_utf8_canon: "json_utf8 v \<Longrightarrow> json_utf8 (canon v)"
proof (induction v)
  case (JList vs)
  then show ?case by (auto simp: list_all_iff)
next
  case (JObj kvs)
  have "json_utf8 (canon v)" if "(k, v) \<in> set kvs" for k v
    using that JObj by (force simp: list_all_iff)
  then show ?case using JObj.prems by (auto simp: list_all_iff)
qed auto

lemma canonical_json_bytes_total:
  "json_ok v \<Longrightarrow> json_utf8 v \<Longrightarrow> canonical_json_bytes v = Inr (json_text False (canon v))"
  by (simp add: canonical_json_bytes_Inr utf8_ok_json_text(1) json_utf8_canon)

lemma nat_str_small: "n < 10 ^ 19 \<Longrightarrow> length (nat_str n) \<le> 4300"
  using nat_str_length [of n 19] by simp

end
