(* ===== verification/FileSys.thy ===== *)
theory FileSys
  imports Util
begin

text \<open>
  What the code asks of the file system, path by path: a path holds nothing, a regular
  file, a directory with its entries, a symbolic link (with what it resolves to, if
  anything) or a device node. \<^verbatim>\<open>Path.exists\<close>, \<^verbatim>\<open>Path.is_dir\<close> and \<^verbatim>\<open>Path.is_file\<close> follow links;
  an \<^verbatim>\<open>os.open\<close> with \<^verbatim>\<open>O_NOFOLLOW\<close> does not. \<open>write_node\<close> is the visible effect of
  \<^verbatim>\<open>util.atomic_write\<close> on its target, \<open>lock_acquire\<close> that of opening an
  \<^verbatim>\<open>InterProcessFileLock\<close>.
\<close>

datatype fsnode =
    RegFile bytes | Directory "(string \<times> fsnode) list" | Symlink "fsnode option" | Device

fun resolve :: "fsnode \<Rightarrow> fsnode option" where
  "resolve (Symlink None) = None"
| "resolve (Symlink (Some n)) = resolve n"
| "resolve n = Some n"

definition path_exists :: "fsnode option \<Rightarrow> bool" where
  "path_exists n \<longleftrightarrow> Option.bind n resolve \<noteq> None"

definition is_symlink :: "fsnode option \<Rightarrow> bool" where
  "is_symlink n = (case n of Some (Symlink _) \<Rightarrow> True | _ \<Rightarrow> False)"

definition is_dir :: "fsnode option \<Rightarrow> bool" where
  "is_dir n = (case Option.bind n resolve of Some (Directory _) \<Rightarrow> True | _ \<Rightarrow> False)"

definition is_file :: "fsnode option \<Rightarrow> bool" where
  "is_file n = (case Option.bind n resolve of Some (RegFile _) \<Rightarrow> True | _ \<Rightarrow> False)"

lemma path_simps [simp]:
  "\<not> path_exists None" "path_exists (Some (RegFile bs))" "path_exists (Some (Directory es))"
  "path_exists (Some Device)"
  "\<not> is_symlink None" "\<not> is_symlink (Some (RegFile bs))" "\<not> is_symlink (Some (Directory es))"
  "\<not> is_symlink (Some Device)" "is_symlink (Some (Symlink t))"
  "\<not> is_dir None" "\<not> is_dir (Some (RegFile bs))" "is_dir (Some (Directory es))"
  "\<not> is_dir (Some Device)"
  "\<not> is_file None" "is_file (Some (RegFile bs))" "\<not> is_file (Some (Directory es))"
  "\<not> is_file (Some Device)"
  by (simp_all add: path_exists_def is_symlink_def is_dir_def is_file_def)

lemma nothing_there: "\<not> path_exists n \<Longrightarrow> \<not> is_symlink n \<Longrightarrow> n = None"
  by (cases n; cases "the n") (auto simp: path_exists_def is_symlink_def)

lemma real_dir: "is_dir n \<Longrightarrow> \<not> is_symlink n \<Longrightarrow> \<exists>es. n = Some (Directory es)"
  by (cases n; cases "the n") (auto simp: is_dir_def is_symlink_def)

lemma is_dir_exists: "is_dir n \<Longrightarrow> path_exists n"
  by (auto simp: is_dir_def path_exists_def split: option.splits)

definition os_error :: "exc" where
  "os_error = Exc OSErr ''''"

text \<open>\<^verbatim>\<open>os.open(path, O_RDONLY | O_NOFOLLOW)\<close>, also relative to a directory descriptor.\<close>

definition open_nofollow :: "fsnode option \<Rightarrow> fsnode res" where
  "open_nofollow n =
     (case n of None \<Rightarrow> Inl os_error | Some (Symlink _) \<Rightarrow> Inl os_error | Some m \<Rightarrow> Inr m)"

text \<open>
  \<^verbatim>\<open>os.fdopen(fd, "rb")\<close> then \<^verbatim>\<open>handle.read(n)\<close>: opening a directory raises
  \<^verbatim>\<open>IsADirectoryError\<close>.
\<close>

definition file_bytes :: "fsnode \<Rightarrow> bytes option" where
  "file_bytes n = (case n of RegFile bs \<Rightarrow> Some bs | _ \<Rightarrow> None)"

lemma file_bytes_Some: "file_bytes n = Some bs \<longleftrightarrow> n = RegFile bs"
  by (cases n) (auto simp: file_bytes_def)

lemma open_nofollow_Inr:
  "open_nofollow n = Inr m \<longleftrightarrow> n = Some m \<and> \<not> is_symlink n"
  by (cases n; cases "the n") (auto simp: open_nofollow_def)

text \<open>
  \<^verbatim>\<open>atomic_write\<close>: the target is replaced by a complete new file in one rename. A link or a
  device node is replaced, not followed; a directory makes the rename fail.
\<close>

definition write_node :: "fsnode option \<Rightarrow> bytes \<Rightarrow> fsnode res" where
  "write_node old bs = (case old of Some (Directory _) \<Rightarrow> Inl os_error | _ \<Rightarrow> Inr (RegFile bs))"

text \<open>\<^verbatim>\<open>path.mkdir(exist_ok=True)\<close> where the parent exists.\<close>

definition mkdir_node :: "fsnode option \<Rightarrow> fsnode res" where
  "mkdir_node n =
     (case n of None \<Rightarrow> Inr (Directory []) | Some m \<Rightarrow> if is_dir n then Inr m else Inl os_error)"

definition lock_acquire :: "fsnode option \<Rightarrow> fsnode res" where
  "lock_acquire n =
     (case n of
        None \<Rightarrow> Inr (RegFile [])
      | Some (RegFile bs) \<Rightarrow> Inr (RegFile bs)
      | Some Device \<Rightarrow> Inl (Exc RuntimeError ''lock path is not a regular file'')
      | _ \<Rightarrow> Inl (Exc RuntimeError ''lock file cannot be opened safely''))"

lemma lock_acquire_Inr: "lock_acquire n = Inr m \<longleftrightarrow> (n = None \<and> m = RegFile []) \<or> (\<exists>bs. n = Some (RegFile bs) \<and> m = RegFile bs)"
  by (auto simp: lock_acquire_def split: option.splits fsnode.splits)

definition dir_entry :: "(string \<times> fsnode) list \<Rightarrow> string \<Rightarrow> fsnode option" where
  "dir_entry es k = map_of es k"

text \<open>
  \<^verbatim>\<open>shutil.copytree\<close> of a directory follows the links in it: each entry is copied as what it
  resolves to, and one that resolves to nothing makes the copy fail. A device entry is an
  error as well (\<^verbatim>\<open>SpecialFileError\<close>).
\<close>

fun resolve_tree :: "fsnode \<Rightarrow> fsnode option" where
  "resolve_tree (RegFile bs) = Some (RegFile bs)"
| "resolve_tree Device = None"
| "resolve_tree (Symlink None) = None"
| "resolve_tree (Symlink (Some n)) = resolve_tree n"
| "resolve_tree (Directory es) =
     (if list_all (\<lambda>(nm, n). resolve_tree n \<noteq> None) es
      then Some (Directory (map (\<lambda>(nm, n). (nm, the (resolve_tree n))) es)) else None)"

end
