(* ===== verification/Artifact.thy ===== *)
theory Artifact
  imports FileSys
begin

text \<open>
  \<^verbatim>\<open>src/src/edgeai/artifact.py\<close>: building, validating, signing and verifying manifests. What
  the code takes from \<^verbatim>\<open>cryptography\<close>, \<^verbatim>\<open>hashlib\<close>, \<^verbatim>\<open>base64\<close> and \<^verbatim>\<open>datetime\<close> is the parameter
  \<open>ext\<close>, one field per function; \<open>signatures\<close> is the locale of what signing and checking
  promise to each other. A manifest of unknown field types is a \<open>raw_manifest\<close>.
\<close>

section \<open>External functions\<close>

text \<open>\<^verbatim>\<open>datetime.fromisoformat\<close>: an error, a time without a zone, or its UTC offset in microseconds.\<close>

datatype iso_time = IsoInvalid | IsoNaive | IsoOffset int

record ext =
  sha256_hex :: "bytes \<Rightarrow> pystr"
  ed_public_ok :: "bytes \<Rightarrow> bool"
  ed_verify :: "bytes \<Rightarrow> bytes \<Rightarrow> bytes \<Rightarrow> bool"
  ed_private :: "bytes \<Rightarrow> (bytes \<Rightarrow> bytes) option"
  b64_decode :: "pystr \<Rightarrow> bytes option"
  b64_encode :: "bytes \<Rightarrow> pystr"
  iso_parse :: "pystr \<Rightarrow> iso_time"

section \<open>Hashing\<close>

text \<open>\<^verbatim>\<open>fileobj.read(chunk)\<close> until it returns nothing.\<close>

fun read_blocks :: "nat \<Rightarrow> bytes \<Rightarrow> bytes list" where
  "read_blocks chunk bs =
     (if chunk = 0 \<or> bs = [] then [] else take chunk bs # read_blocks chunk (drop chunk bs))"

declare read_blocks.simps [simp del]

definition sha256_stream :: "ext \<Rightarrow> bytes \<Rightarrow> pystr" where
  "sha256_stream x bs = sha256_hex x (concat (read_blocks (1024 * 1024) bs))"

lemma concat_read_blocks: "0 < chunk \<Longrightarrow> concat (read_blocks chunk bs) = bs"
proof (induction chunk bs rule: read_blocks.induct)
  case (1 chunk bs)
  then show ?case by (subst read_blocks.simps) simp
qed

lemma sha256_stream_eq [simp]: "sha256_stream x bs = sha256_hex x bs"
  by (simp add: sha256_stream_def concat_read_blocks)

definition public_key_id :: "ext \<Rightarrow> bytes \<Rightarrow> pystr" where
  "public_key_id x key = take 16 (sha256_hex x key)"

section \<open>Validation\<close>

record raw_manifest =
  r_schema_version :: json
  r_release_sequence :: json
  r_version :: json
  r_model_kind :: json
  r_runtime_abi :: json
  r_model_sha256 :: json
  r_model_bytes :: json
  r_accuracy :: json
  r_ece :: json
  r_p95_latency_ms :: json
  r_max_rss_mb :: json
  r_created_utc :: json
  r_metadata :: json

definition VE :: "string \<Rightarrow> exc" where
  "VE t = Exc ValidationError t"

definition check_int :: "(int \<Rightarrow> bool) \<Rightarrow> string \<Rightarrow> json \<Rightarrow> int res" where
  "check_int P msg v =
     (case as_int v of None \<Rightarrow> Inl (VE msg) | Some i \<Rightarrow> if P i then Inr i else Inl (VE msg))"

definition check_str :: "string \<Rightarrow> json \<Rightarrow> pystr res" where
  "check_str name v = of_opt (VE (name @ '' must be a string'')) (as_str v)"

definition check_num :: "string \<Rightarrow> json \<Rightarrow> pynum res" where
  "check_num name v = of_opt (VE (''metrics.'' @ name @ '' must be numeric'')) (as_num v)"

lemma check_Inr:
  "check_int P msg v = Inr i \<longleftrightarrow> v = JInt i \<and> P i"
  "check_str name v = Inr t \<longleftrightarrow> v = JStr t"
  "check_num name v = Inr q \<longleftrightarrow> v = num_json q"
  by (auto simp: check_int_def check_str_def check_num_def as_Some_iff as_num_Some split: option.splits)

definition is_lower_hex :: "char \<Rightarrow> bool" where
  "is_lower_hex c \<longleftrightarrow> is_digit c \<or> 97 \<le> byte_of c \<and> byte_of c \<le> 102"

definition sha256_re_fullmatch :: "pystr \<Rightarrow> bool" where
  "sha256_re_fullmatch t \<longleftrightarrow> length t = 64 \<and> list_all is_lower_hex t"

definition replace_z :: "pystr \<Rightarrow> pystr" where
  "replace_z t = concat (map (\<lambda>c. if c = CHR ''Z'' then ''+00:00'' else [c]) t)"

definition validate_created_utc :: "ext \<Rightarrow> pystr \<Rightarrow> unit res" where
  "validate_created_utc x t =
     (case iso_parse x (replace_z t) of
        IsoInvalid \<Rightarrow> Inl (VE ''created_utc must be an ISO-8601 timestamp'')
      | IsoNaive \<Rightarrow> Inl (VE ''created_utc must include a timezone'')
      | IsoOffset d \<Rightarrow> guard_r (d = 0) (VE ''created_utc must be normalized to UTC''))"

definition max_metadata_bytes :: nat where
  "max_metadata_bytes = 16 * 1024"

definition validate_metadata :: "(pystr \<times> json) list \<Rightarrow> unit res" where
  "validate_metadata kvs =
     rbind (except_r [TypeError, ValueError] (\<lambda>e. VE ''metadata must be finite canonical-JSON data'')
       (canonical_json_bytes (JObj kvs))) (\<lambda>encoded.
     guard_r (\<not> length encoded > max_metadata_bytes) (VE ''metadata exceeds 16384 bytes''))"

text \<open>
  \<^verbatim>\<open>_validate_manifest\<close>: the type checks in the code's order, then the value checks. What it
  returns is the same manifest with its types known. \<^verbatim>\<open>OverflowError\<close>, which
  \<^verbatim>\<open>math.isfinite\<close> raises for an integer no float holds, is not caught.
\<close>

definition validate_types :: "raw_manifest \<Rightarrow> artifact_manifest res" where
  "validate_types r =
     rbind (check_int (\<lambda>_. True) ''schema_version must be an integer'' (r_schema_version r)) (\<lambda>sv.
     rbind (check_int (\<lambda>i. 0 \<le> i \<and> i \<le> max_release_sequence)
       ''release_sequence must be an integer in the supported range'' (r_release_sequence r)) (\<lambda>rs.
     rbind (check_int (\<lambda>i. \<not> i < 1) ''model_bytes must be a positive integer'' (r_model_bytes r)) (\<lambda>mb.
     rbind (check_str ''version'' (r_version r)) (\<lambda>ve.
     rbind (check_str ''model_kind'' (r_model_kind r)) (\<lambda>mk.
     rbind (check_str ''runtime_abi'' (r_runtime_abi r)) (\<lambda>ra.
     rbind (check_str ''model_sha256'' (r_model_sha256 r)) (\<lambda>sh.
     rbind (check_str ''created_utc'' (r_created_utc r)) (\<lambda>cu.
     rbind (check_num ''accuracy'' (r_accuracy r)) (\<lambda>ac.
     rbind (check_num ''ece'' (r_ece r)) (\<lambda>ec.
     rbind (check_num ''p95_latency_ms'' (r_p95_latency_ms r)) (\<lambda>pl.
     rbind (check_num ''max_rss_mb'' (r_max_rss_mb r)) (\<lambda>rm.
     rbind (of_opt (VE ''metadata must be a JSON object'') (as_obj (r_metadata r))) (\<lambda>md.
     Inr \<lparr>schema_version = sv, release_sequence = rs, version = ve, model_kind = mk,
          runtime_abi = ra, model_sha256 = sh, model_bytes = mb,
          metrics = \<lparr>accuracy = ac, ece = ec, p95_latency_ms = pl, max_rss_mb = rm\<rparr>,
          created_utc = cu, metadata = md\<rparr>)))))))))))))"

definition validate_values :: "ext \<Rightarrow> artifact_manifest \<Rightarrow> unit res" where
  "validate_values x m =
     rbind (except_r [TypeError, ValueError] (\<lambda>e. VE (exc_msg e))
       (rbind (validate_semver (version m)) (\<lambda>_. metrics_validate (metrics m)))) (\<lambda>_.
     rbind (guard_r (schema_version m = 1) (VE ''unsupported manifest schema'')) (\<lambda>_.
     rbind (guard_r (model_kind m \<noteq> [] \<and> runtime_abi m \<noteq> [])
       (VE ''model_kind and runtime_abi are required'')) (\<lambda>_.
     rbind (guard_r (sha256_re_fullmatch (model_sha256 m)) (VE ''invalid SHA-256'')) (\<lambda>_.
     rbind (validate_created_utc x (created_utc m)) (\<lambda>_.
     validate_metadata (metadata m))))))"

definition validate_raw :: "ext \<Rightarrow> raw_manifest \<Rightarrow> artifact_manifest res" where
  "validate_raw x r = rbind (validate_types r) (\<lambda>m. rbind (validate_values x m) (\<lambda>_. Inr m))"

definition to_raw :: "artifact_manifest \<Rightarrow> raw_manifest" where
  "to_raw m =
     \<lparr>r_schema_version = JInt (schema_version m), r_release_sequence = JInt (release_sequence m),
      r_version = JStr (version m), r_model_kind = JStr (model_kind m),
      r_runtime_abi = JStr (runtime_abi m), r_model_sha256 = JStr (model_sha256 m),
      r_model_bytes = JInt (model_bytes m), r_accuracy = num_json (accuracy (metrics m)),
      r_ece = num_json (ece (metrics m)), r_p95_latency_ms = num_json (p95_latency_ms (metrics m)),
      r_max_rss_mb = num_json (max_rss_mb (metrics m)), r_created_utc = JStr (created_utc m),
      r_metadata = JObj (metadata m)\<rparr>"

definition validate_manifest :: "ext \<Rightarrow> artifact_manifest \<Rightarrow> unit res" where
  "validate_manifest x m = rbind (validate_raw x (to_raw m)) (\<lambda>_. Inr ())"

text \<open>What a valid manifest is.\<close>

definition manifest_valid :: "ext \<Rightarrow> artifact_manifest \<Rightarrow> bool" where
  "manifest_valid x m \<longleftrightarrow>
     0 \<le> release_sequence m \<and> release_sequence m \<le> max_release_sequence \<and> 1 \<le> model_bytes m \<and>
     validate_values x m = Inr ()"

lemma validate_types_Inr:
  "validate_types r = Inr m \<longleftrightarrow>
     r = to_raw m \<and> 0 \<le> release_sequence m \<and> release_sequence m \<le> max_release_sequence \<and>
     1 \<le> model_bytes m"
  by (cases r; cases m; cases "metrics m")
     (auto simp: validate_types_def to_raw_def rbind_Inr_iff check_Inr as_Some_iff)

lemma validate_raw_Inr: "validate_raw x r = Inr m \<longleftrightarrow> r = to_raw m \<and> manifest_valid x m"
  by (auto simp: validate_raw_def rbind_Inr_iff validate_types_Inr manifest_valid_def)

lemma validate_manifest_Inr: "validate_manifest x m = Inr u \<longleftrightarrow> manifest_valid x m"
proof -
  have "to_raw m = to_raw n \<longleftrightarrow> m = n" for m n :: artifact_manifest
    using validate_types_Inr [of "to_raw m"] 
    by (cases m; cases n; cases "metrics m"; cases "metrics n")
       (auto simp: to_raw_def num_json_def split: pynum.splits)
  then show ?thesis by (auto simp: validate_manifest_def rbind_Inr_iff validate_raw_Inr)
qed

lemma manifest_valid_parts:
  assumes "manifest_valid x m"
  shows "semver_match (version m)" "metrics_validate (metrics m) = Inr ()" "schema_version m = 1"
    "model_kind m \<noteq> []" "runtime_abi m \<noteq> []" "sha256_re_fullmatch (model_sha256 m)"
    "validate_created_utc x (created_utc m) = Inr ()" "validate_metadata (metadata m) = Inr ()"
    "0 \<le> release_sequence m" "release_sequence m \<le> max_release_sequence" "1 \<le> model_bytes m"
  using assms
  by (auto simp: manifest_valid_def validate_values_def rbind_Inr_iff validate_semver_def)

section \<open>From and to JSON\<close>

definition manifest_fields :: "pystr list" where
  "manifest_fields =
     [''schema_version'', ''release_sequence'', ''version'', ''model_kind'', ''runtime_abi'',
      ''model_sha256'', ''model_bytes'', ''metrics'', ''created_utc'', ''metadata'']"

definition metric_fields :: "pystr list" where
  "metric_fields = [''accuracy'', ''ece'', ''p95_latency_ms'', ''max_rss_mb'']"

definition raw_from_dict :: "json \<Rightarrow> raw_manifest res" where
  "raw_from_dict data =
     rbind (of_opt (Exc TypeError ''manifest must be an object'') (as_obj data)) (\<lambda>kvs.
     rbind (guard_r (has_fields kvs manifest_fields) (Exc ValueError ''manifest fields mismatch'')) (\<lambda>_.
     rbind (of_opt (Exc ValueError ''metrics fields mismatch'') (as_obj (jfield kvs ''metrics''))) (\<lambda>ms.
     rbind (guard_r (has_fields ms metric_fields) (Exc ValueError ''metrics fields mismatch'')) (\<lambda>_.
     Inr \<lparr>r_schema_version = jfield kvs ''schema_version'',
          r_release_sequence = jfield kvs ''release_sequence'',
          r_version = jfield kvs ''version'', r_model_kind = jfield kvs ''model_kind'',
          r_runtime_abi = jfield kvs ''runtime_abi'', r_model_sha256 = jfield kvs ''model_sha256'',
          r_model_bytes = jfield kvs ''model_bytes'', r_accuracy = jfield ms ''accuracy'',
          r_ece = jfield ms ''ece'', r_p95_latency_ms = jfield ms ''p95_latency_ms'',
          r_max_rss_mb = jfield ms ''max_rss_mb'', r_created_utc = jfield kvs ''created_utc'',
          r_metadata = jfield kvs ''metadata''\<rparr>))))"

definition manifest_from_dict :: "ext \<Rightarrow> json \<Rightarrow> artifact_manifest res" where
  "manifest_from_dict x data =
     rbind (recast (\<lambda>e. VE ''invalid manifest'') (raw_from_dict data)) (validate_raw x)"

lemma raw_from_to_dict: "raw_from_dict (manifest_to_dict m) = Inr (to_raw m)"
  by (simp add: raw_from_dict_def manifest_to_dict_def metrics_to_dict_def has_fields_def
      manifest_fields_def metric_fields_def jfield_def to_raw_def)

lemma manifest_from_to_dict: "manifest_valid x m \<Longrightarrow> manifest_from_dict x (manifest_to_dict m) = Inr m"
  by (simp add: manifest_from_dict_def raw_from_to_dict validate_raw_Inr)


text \<open>
  Through bytes: canonical JSON sorts the keys, so the manifest read back may have its
  metadata in another order. \<open>canon_manifest\<close> is that manifest: equal in Python's sense,
  and with the same canonical bytes, so that a signature of one is a signature of the other.
\<close>

definition canon_manifest :: "artifact_manifest \<Rightarrow> artifact_manifest" where
  "canon_manifest m = m\<lparr>metadata := sort_key fst (map (\<lambda>(k, v). (k, canon v)) (metadata m))\<rparr>"

lemma canon_obj: "canon (JObj kvs) = JObj (sort_key fst (map (\<lambda>(k, v). (k, canon v)) kvs))"
  by simp

lemma canon_metadata: "JObj (metadata (canon_manifest m)) = canon (JObj (metadata m))"
  by (simp add: canon_manifest_def)

lemma canon_num_json [simp]: "canon (num_json v) = num_json v"
  by (cases v) (simp_all add: num_json_def)

lemma jfield_canon:
  "distinct (map fst kvs) \<Longrightarrow> k \<in> set (map fst kvs) \<Longrightarrow>
     jfield (sort_key fst (map (\<lambda>(k, v). (k, canon v)) kvs)) k = canon (jfield kvs k)"
  by (simp add: jfield_map_value)

lemma raw_from_canon_dict:
  "raw_from_dict (canon (manifest_to_dict m)) = Inr (to_raw (canon_manifest m))"
  unfolding manifest_to_dict_def metrics_to_dict_def raw_from_dict_def
  by (simp add: has_fields_def manifest_fields_def metric_fields_def sort_key_def
      to_raw_def canon_manifest_def jfield_def insert_commute)

lemma map_canon_canon:
  "map (\<lambda>(k, v). (k, canon v)) (map (\<lambda>(k, v). (k, canon v)) kvs) = map (\<lambda>(k, v). (k, canon v)) kvs"
  by (induction kvs) auto

lemma canon_manifest_dict: "canon (manifest_to_dict (canon_manifest m)) = canon (manifest_to_dict m)"
proof -
  have "canon (JObj (metadata (canon_manifest m))) = canon (JObj (metadata m))"
    by (simp only: canon_metadata canon_idem)
  then show ?thesis by (simp add: manifest_to_dict_def) (simp add: canon_manifest_def)
qed

lemma canon_manifest_bytes:
  "canonical_json_bytes (manifest_to_dict (canon_manifest m)) = canonical_json_bytes (manifest_to_dict m)"
  by (metis canon_manifest_dict canonical_json_bytes_canon)

lemma canon_manifest_eq: "manifest_eq (canon_manifest m) m"
  unfolding manifest_eq_def py_eq_def by (metis canon_manifest_dict py_norm_canon)

lemma canon_manifest_valid: "manifest_valid x (canon_manifest m) = manifest_valid x m"
proof -
  have "validate_metadata (metadata (canon_manifest m)) = validate_metadata (metadata m)"
    by (simp only: validate_metadata_def canon_metadata canonical_json_bytes_canon)
  then show ?thesis by (simp add: manifest_valid_def validate_values_def canon_manifest_def)
qed

text \<open>
  The values canonical JSON writes readably: integers are bounded or have at most 4300
  digits, floats read back. Only metrics and metadata can hold other ones.
\<close>

definition manifest_rt :: "artifact_manifest \<Rightarrow> bool" where
  "manifest_rt m \<longleftrightarrow> json_rt False (manifest_to_dict m)"

theorem manifest_bytes_roundtrip:
  assumes "manifest_valid x m" "manifest_rt m"
    and "canonical_json_bytes (manifest_to_dict m) = Inr bs"
  shows "rbind (loads_bytes (bs @ [newline])) (manifest_from_dict x) = Inr (canon_manifest m)"
proof -
  have "loads_bytes (bs @ [newline]) = Inr (canon (manifest_to_dict m))"
    using assms by (intro loads_canonical) (simp_all add: manifest_rt_def)
  then show ?thesis using assms(1)
    by (simp add: manifest_from_dict_def raw_from_canon_dict validate_raw_Inr canon_manifest_valid)
qed

section \<open>Signing and verifying\<close>

definition sign_manifest :: "ext \<Rightarrow> artifact_manifest \<Rightarrow> bytes \<Rightarrow> pystr res" where
  "sign_manifest x m private_key =
     rbind (validate_manifest x m) (\<lambda>_.
     rbind (of_opt (VE ''invalid Ed25519 private key'') (ed_private x private_key)) (\<lambda>sign.
     rbind (canonical_json_bytes (manifest_to_dict m)) (\<lambda>message.
     Inr (b64_encode x (sign message)))))"

definition signature_failed :: exc where
  "signature_failed = Exc SignatureError ''manifest signature verification failed''"

definition verify_manifest :: "ext \<Rightarrow> artifact_manifest \<Rightarrow> pystr \<Rightarrow> bytes \<Rightarrow> unit res" where
  "verify_manifest x m signature_b64 public_key =
     rbind (validate_manifest x m) (\<lambda>_.
     rbind (of_opt signature_failed (b64_decode x signature_b64)) (\<lambda>sig.
     rbind (guard_r (ed_public_ok x public_key) signature_failed) (\<lambda>_.
     rbind (recast (\<lambda>_. signature_failed) (canonical_json_bytes (manifest_to_dict m))) (\<lambda>message.
     guard_r (ed_verify x public_key sig message) signature_failed))))"

definition verify_artifact :: "ext \<Rightarrow> fsnode option \<Rightarrow> artifact_manifest \<Rightarrow> unit res" where
  "verify_artifact x path m =
     (case Option.bind path resolve of
        Some (RegFile bs) \<Rightarrow>
          if is_symlink path
          then Inl (Exc ArtifactIntegrityError ''model artifact missing or not a regular file'')
          else if int (length bs) \<noteq> model_bytes m
          then Inl (Exc ArtifactIntegrityError ''model size mismatch'')
          else if sha256_stream x bs \<noteq> model_sha256 m
          then Inl (Exc ArtifactIntegrityError ''model checksum mismatch'')
          else Inr ()
      | _ \<Rightarrow> Inl (Exc ArtifactIntegrityError ''model artifact missing or not a regular file''))"

record keyring =
  keys :: "(pystr \<times> bytes) list"
  revoked :: "pystr list"

fun check_keys :: "ext \<Rightarrow> (pystr \<times> bytes) list \<Rightarrow> unit res" where
  "check_keys x [] = Inr ()"
| "check_keys x ((key_id, public_key) # ks) =
     rbind (guard_r (key_id \<noteq> []) (VE ''trusted key IDs must be non-empty strings'')) (\<lambda>_.
     rbind (guard_r (ed_public_ok x public_key) (VE ''invalid Ed25519 public key'')) (\<lambda>_.
     check_keys x ks))"

definition keyring_init :: "ext \<Rightarrow> (pystr \<times> bytes) list \<Rightarrow> pystr list \<Rightarrow> keyring res" where
  "keyring_init x ks revs =
     rbind (guard_r (ks \<noteq> []) (VE ''at least one trusted key required'')) (\<lambda>_.
     rbind (check_keys x ks) (\<lambda>_. Inr \<lparr>keys = ks, revoked = revs\<rparr>))"

definition keyring_verify :: "ext \<Rightarrow> keyring \<Rightarrow> pystr \<Rightarrow> artifact_manifest \<Rightarrow> pystr \<Rightarrow> unit res" where
  "keyring_verify x kr key_id m signature_b64 =
     rbind (guard_r (key_id \<notin> set (revoked kr)) (Exc SignatureError ''signing key revoked'')) (\<lambda>_.
     rbind (of_opt (Exc SignatureError ''unknown signing key'') (map_of (keys kr) key_id)) (\<lambda>key.
     verify_manifest x m signature_b64 key))"

section \<open>Building a manifest\<close>

text \<open>
  \<^verbatim>\<open>build_manifest\<close>: the caller's arguments with their types, but for the release sequence,
  which may be any object; \<open>now\<close> is the clock's answer, used when no time is given.
\<close>

definition build_manifest ::
  "ext \<Rightarrow> pystr \<Rightarrow> fsnode option \<Rightarrow> pystr \<Rightarrow> json \<Rightarrow> pystr \<Rightarrow> pystr \<Rightarrow> model_metrics \<Rightarrow>
     (pystr \<times> json) list option \<Rightarrow> pystr option \<Rightarrow> artifact_manifest res" where
  "build_manifest x now model_path ver rs kind abi ms md created =
     rbind (except_r [TypeError, ValueError] (\<lambda>e. VE (exc_msg e))
       (rbind (validate_semver ver) (\<lambda>_. metrics_validate ms))) (\<lambda>_.
     rbind (check_int (\<lambda>i. 0 \<le> i \<and> i \<le> max_release_sequence)
       ''release_sequence must be an integer in the supported range'' rs) (\<lambda>seq.
     rbind (guard_r (kind \<noteq> [] \<and> abi \<noteq> []) (VE ''model_kind and runtime_abi are required'')) (\<lambda>_.
     case Option.bind model_path resolve of
       Some (RegFile bs) \<Rightarrow>
         (let m = \<lparr>schema_version = 1, release_sequence = seq, version = ver, model_kind = kind,
                   runtime_abi = abi, model_sha256 = sha256_stream x bs, model_bytes = int (length bs),
                   metrics = ms,
                   created_utc = (case created of Some t \<Rightarrow> if t \<noteq> [] then t else now | None \<Rightarrow> now),
                   metadata = (case md of Some kvs \<Rightarrow> kvs | None \<Rightarrow> [])\<rparr>
          in rbind (validate_manifest x m) (\<lambda>_. Inr m))
     | _ \<Rightarrow> Inl (VE ''model artifact does not exist''))))"

section \<open>What signing, keys and checks promise\<close>

text \<open>
  The documented behaviour of Ed25519 and base64 that the code relies on: what a private key
  signs, its public key accepts, and the signature survives its text form.
\<close>

definition signing_law :: "ext \<Rightarrow> bytes \<Rightarrow> bytes \<Rightarrow> bool" where
  "signing_law x private_key public_key \<longleftrightarrow>
     ed_public_ok x public_key \<and>
     (\<exists>sign. ed_private x private_key = Some sign \<and>
        (\<forall>msg. b64_decode x (b64_encode x (sign msg)) = Some (sign msg) \<and>
               ed_verify x public_key (sign msg) msg))"

lemma verify_manifest_Inr:
  "verify_manifest x m signature public_key = Inr u \<longleftrightarrow>
     manifest_valid x m \<and> ed_public_ok x public_key \<and>
     (\<exists>sig bs. b64_decode x signature = Some sig \<and>
        canonical_json_bytes (manifest_to_dict m) = Inr bs \<and> ed_verify x public_key sig bs)"
  by (auto simp: verify_manifest_def rbind_Inr_iff validate_manifest_Inr)

lemma keyring_verify_Inr:
  "keyring_verify x kr key_id m signature = Inr u \<longleftrightarrow>
     key_id \<notin> set (revoked kr) \<and>
     (\<exists>key. map_of (keys kr) key_id = Some key \<and> verify_manifest x m signature key = Inr u)"
  by (auto simp: keyring_verify_def rbind_Inr_iff)

lemma keyring_verify_valid: "keyring_verify x kr k m s = Inr u \<Longrightarrow> manifest_valid x m"
  by (auto simp: keyring_verify_Inr verify_manifest_Inr)

text \<open>A signature of a manifest is one of the manifest read back from its canonical bytes.\<close>

lemma keyring_verify_canon:
  "keyring_verify x kr k (canon_manifest m) s = Inr u \<longleftrightarrow> keyring_verify x kr k m s = Inr u"
  by (simp add: keyring_verify_Inr verify_manifest_Inr canon_manifest_valid canon_manifest_bytes)

definition sample_ext :: ext where
  "sample_ext =
     \<lparr>sha256_hex = (\<lambda>bs. replicate 64 (if length bs = 3 then CHR ''3'' else CHR ''0'')),
      ed_public_ok = (\<lambda>k. k = ''pub''),
      ed_verify = (\<lambda>k sig msg. k = ''pub'' \<and> sig = nat_str (length msg)),
      ed_private = (\<lambda>k. if k = ''priv'' then Some (\<lambda>msg. nat_str (length msg)) else None),
      b64_decode = Some, b64_encode = (\<lambda>bs. bs),
      iso_parse = (\<lambda>t. if t = ''now+00:00'' then IsoOffset 0 else IsoInvalid)\<rparr>"

definition sample_metrics :: model_metrics where
  "sample_metrics = \<lparr>accuracy = NInt 1, ece = NInt 0, p95_latency_ms = NInt 5, max_rss_mb = NInt 64\<rparr>"

definition sample_manifest :: artifact_manifest where
  "sample_manifest =
     \<lparr>schema_version = 1, release_sequence = 4, version = ''1.0.0'', model_kind = ''float32-linear'',
      runtime_abi = ''linear-v1'', model_sha256 = replicate 64 (CHR ''3''), model_bytes = 3,
      metrics = sample_metrics,
      created_utc = ''nowZ'', metadata = [(''source'', JStr ''ci''), (''batch'', JInt 8)]\<rparr>"

lemma sample_signing: "signing_law sample_ext ''priv'' ''pub''"
  by (simp add: signing_law_def sample_ext_def)

lemma is_nd_low: "n < 1632 \<Longrightarrow> is_nd n \<longleftrightarrow> 48 \<le> n \<and> n < 58"
  by (simp add: is_nd_def nd_zeros_def)

lemma sample_semver: "semver_match ''1.0.0''"
  by (simp add: semver_match_def ascii_code_points ascii_def byte_of_def semver_number_def
      semver_dot_def semver_suffix_def at_dollar_def is_nd_low)

lemma sample_metrics_ok: "metrics_validate sample_metrics = Inr ()"
  by (simp add: metrics_validate_def sample_metrics_def math_isfinite_small_int num_le_def num_lt_def)

lemma small_nat_str: "n < 10 \<Longrightarrow> nat_str n = [digit_char n]" 
  by (subst nat_str.simps) simp

lemma sample_bytes: "\<exists>bs. canonical_json_bytes (JObj (metadata sample_manifest)) = Inr bs \<and> length bs \<le> 40"
  by (simp add: sample_manifest_def canonical_json_bytes_def small_nat_str ascii_utf8_ok
      ascii_def byte_of_def str_text_def str_body_def esc_char_def int_str_def digit_char_def
      char_of_def sort_key_def)

lemma sample_valid: "manifest_valid sample_ext sample_manifest"
proof -
  have "validate_metadata (metadata sample_manifest) = Inr ()"
    using sample_bytes by (auto simp: validate_metadata_def max_metadata_bytes_def)
  then show ?thesis using sample_semver sample_metrics_ok
    by (simp add: manifest_valid_def validate_values_def validate_semver_def sample_manifest_def
        sha256_re_fullmatch_def is_lower_hex_def is_digit_def byte_of_def max_release_sequence_def
        validate_created_utc_def replace_z_def sample_ext_def list_all_iff)
qed

lemma sample_ext_simps [simp]:
  "ed_private sample_ext ''priv'' = Some (\<lambda>msg. nat_str (length msg))" "b64_encode sample_ext bs = bs"
  "sha256_hex sample_ext bs = replicate 64 (if length bs = 3 then CHR ''3'' else CHR ''0'')"
  by (simp_all add: sample_ext_def)

lemma sample_validate: "validate_manifest sample_ext sample_manifest = Inr ()"
  using sample_valid by (simp add: validate_manifest_Inr)

lemma ascii_replicate [simp]: "byte_of c < 128 \<Longrightarrow> ascii (replicate n c)"
  by (simp add: ascii_def)

lemma sample_rt: "manifest_rt sample_manifest"
  by (simp add: manifest_rt_def manifest_to_dict_def metrics_to_dict_def sample_manifest_def
      sample_metrics_def num_json_def str_rt_def nat_str_small)

lemma sample_canonical:
  "canonical_json_bytes (manifest_to_dict sample_manifest) =
     Inr (json_text False (canon (manifest_to_dict sample_manifest)))"
  by (rule canonical_json_bytes_total)
     (simp_all add: manifest_to_dict_def metrics_to_dict_def sample_manifest_def sample_metrics_def
       num_json_def nat_str_small ascii_utf8_ok byte_of_def)

definition sample_signature :: pystr where
  "sample_signature = nat_str (length (json_text False (canon (manifest_to_dict sample_manifest))))"

lemma sample_sign: "sign_manifest sample_ext sample_manifest ''priv'' = Inr sample_signature"
  by (simp add: sign_manifest_def sample_canonical sample_validate sample_signature_def)

text \<open>C9: sign, publish, read back, verify. When a manifest is signed, and its canonical bytes with
  the line feed the registry appends are what is later read, then reading gives a manifest
  equal to the signed one, and a keyring that trusts the key and has not revoked it accepts
  the signature for what was read.\<close>

theorem sign_publish_verify:
  assumes "signing_law x private_key public_key"
    and "sign_manifest x m private_key = Inr signature"
    and "manifest_rt m"
    and "map_of (keys kr) key_id = Some public_key" and "key_id \<notin> set (revoked kr)"
  shows "\<exists>bs n. canonical_json_bytes (manifest_to_dict m) = Inr bs \<and>
      rbind (loads_bytes (bs @ [newline])) (manifest_from_dict x) = Inr n \<and>
      manifest_eq n m \<and> keyring_verify x kr key_id n signature = Inr ()"
proof -
  obtain sign bs where s: "manifest_valid x m" "ed_private x private_key = Some sign"
      "canonical_json_bytes (manifest_to_dict m) = Inr bs" "signature = b64_encode x (sign bs)"
    using assms(2) by (auto simp: sign_manifest_def rbind_Inr_iff validate_manifest_Inr)
  have "keyring_verify x kr key_id m signature = Inr ()"
    using assms(1,4,5) s by (auto simp: keyring_verify_Inr verify_manifest_Inr signing_law_def)
  then show ?thesis
    using manifest_bytes_roundtrip [OF s(1) assms(3) s(3)] s(3) canon_manifest_eq
    by (auto simp: keyring_verify_canon)
qed

theorem sign_publish_verify_witness:
  "\<exists>n. keyring_verify sample_ext \<lparr>keys = [(''k1'', ''pub'')], revoked = [''k0'']\<rparr> ''k1'' n sample_signature = Inr () \<and>
     manifest_eq n sample_manifest"
  using sign_publish_verify [OF sample_signing sample_sign sample_rt,
      of "\<lparr>keys = [(''k1'', ''pub'')], revoked = [''k0'']\<rparr>" "''k1''"]
  by auto

lemma all_finite_error: "all_finite vs = Inl e \<Longrightarrow> exc_cls e = OverflowErr"
proof (induction vs)
  case (Cons v vs)
  then show ?case
    by (cases v)
       (auto simp: math_isfinite_def int_to_float_def Let_def rbind_Inl_iff split: if_splits)
qed simp

lemma metrics_validate_error:
  "metrics_validate m = Inl e \<Longrightarrow> exc_cls e \<in> {ValueError, OverflowErr}"
  by (auto simp: metrics_validate_def rbind_Inl_iff simp del: all_finite.simps dest: all_finite_error)

lemma canonical_json_bytes_error:
  "canonical_json_bytes v = Inl e \<Longrightarrow> exc_cls e \<in> {ValueError, UnicodeEncodeError}"
  by (auto simp: canonical_json_bytes_def rbind_Inl_iff Let_def)

lemma validate_types_error: "validate_types r = Inl e \<Longrightarrow> exc_cls e = ValidationError"
  by (auto simp: validate_types_def rbind_Inl_iff check_int_def check_str_def check_num_def VE_def
      split: option.splits if_splits)

lemma validate_values_error:
  assumes "validate_values x m = Inl e"
  shows "exc_cls e \<in> {ValidationError, OverflowErr}"
proof -
  have "exc_cls e' \<in> {ValidationError, OverflowErr}"
    if "except_r [TypeError, ValueError] (\<lambda>e. VE (exc_msg e))
       (rbind (validate_semver (version m)) (\<lambda>_. metrics_validate (metrics m))) = Inl e'" for e'
    using that
    by (auto simp: except_r_def rbind_Inl_iff validate_semver_def VE_def isinstance_def
        dest!: metrics_validate_error split: sum.splits if_splits)
  moreover have "exc_cls e' = ValidationError" if "validate_created_utc x t = Inl e'" for t e'
    using that by (auto simp: validate_created_utc_def VE_def split: iso_time.splits)
  moreover have "exc_cls e' = ValidationError" if "validate_metadata kvs = Inl e'" for kvs e'
    using that
    by (auto simp: validate_metadata_def except_r_def rbind_Inl_iff VE_def isinstance_def
        dest!: canonical_json_bytes_error split: sum.splits if_splits)
  ultimately show ?thesis
    using assms by (auto simp: validate_values_def rbind_Inl_iff VE_def)
qed

lemma validate_raw_error: "validate_raw x r = Inl e \<Longrightarrow> exc_cls e \<in> {ValidationError, OverflowErr}"
  by (auto simp: validate_raw_def rbind_Inl_iff dest!: validate_types_error validate_values_error)

text \<open>C12: \<^verbatim>\<open>TrustedKeyring.verify\<close> accepts exactly when the key is known and not revoked, the
  manifest is valid, the signature is base64, and Ed25519 accepts it for the manifest's
  canonical JSON under that key. Every rejection is a \<^verbatim>\<open>SignatureError\<close>, a
  \<^verbatim>\<open>ValidationError\<close>, or \<^verbatim>\<open>OverflowError\<close> from a metric that no float holds.\<close>

theorem keyring_verify_decides:
  "(keyring_verify x kr key_id m signature = Inr () \<longleftrightarrow>
      key_id \<notin> set (revoked kr) \<and> manifest_valid x m \<and>
      (\<exists>key sig bs. map_of (keys kr) key_id = Some key \<and> ed_public_ok x key \<and>
         b64_decode x signature = Some sig \<and>
         canonical_json_bytes (manifest_to_dict m) = Inr bs \<and> ed_verify x key sig bs)) \<and>
   (case keyring_verify x kr key_id m signature of
      Inl e \<Rightarrow> exc_cls e \<in> {SignatureError, ValidationError, OverflowErr} | Inr _ \<Rightarrow> True)"
proof (intro conjI)
  show "keyring_verify x kr key_id m signature = Inr () \<longleftrightarrow>
      key_id \<notin> set (revoked kr) \<and> manifest_valid x m \<and>
      (\<exists>key sig bs. map_of (keys kr) key_id = Some key \<and> ed_public_ok x key \<and>
         b64_decode x signature = Some sig \<and>
         canonical_json_bytes (manifest_to_dict m) = Inr bs \<and> ed_verify x key sig bs)"
    by (auto simp: keyring_verify_Inr verify_manifest_Inr)
  have "exc_cls e \<in> {SignatureError, ValidationError, OverflowErr}"
    if "keyring_verify x kr key_id m signature = Inl e" for e
    using that validate_raw_error
    by (fastforce simp: keyring_verify_def verify_manifest_def rbind_Inl_iff validate_manifest_def
        signature_failed_def recast_def split: sum.splits)
  then show "case keyring_verify x kr key_id m signature of
      Inl e \<Rightarrow> exc_cls e \<in> {SignatureError, ValidationError, OverflowErr} | Inr _ \<Rightarrow> True"
    by (auto split: sum.splits)
qed



text \<open>The manifest that \<^verbatim>\<open>build_manifest\<close> returns describes the file it was given: it is
  valid, it records that file's size and digest, so \<^verbatim>\<open>verify_artifact\<close> accepts exactly the
  regular files with that size and digest, the given one among them.\<close>

theorem build_manifest_describes:
  assumes "build_manifest x now (Some (RegFile bs)) ver rs kind abi ms md created = Inr m"
  shows "manifest_valid x m \<and> version m = ver \<and> metrics m = ms \<and> rs = JInt (release_sequence m) \<and>
    verify_artifact x (Some (RegFile bs)) m = Inr () \<and>
    (\<forall>p. verify_artifact x p m = Inr () \<longleftrightarrow>
       (\<exists>cs. p = Some (RegFile cs) \<and> length cs = length bs \<and> sha256_hex x cs = sha256_hex x bs))"
proof -
  have m: "manifest_valid x m" "version m = ver" "metrics m = ms" "rs = JInt (release_sequence m)"
      "model_bytes m = int (length bs)" "model_sha256 m = sha256_hex x bs"
    using assms
    by (auto simp: build_manifest_def rbind_Inr_iff validate_manifest_Inr Let_def check_Inr)
  have "verify_artifact x p m = Inr () \<longleftrightarrow>
       (\<exists>cs. p = Some (RegFile cs) \<and> length cs = length bs \<and> sha256_hex x cs = sha256_hex x bs)" for p
  proof (cases "\<exists>n. p = Some n \<and> \<not> is_symlink p")
    case True
    then show ?thesis
      using m(5,6) by (cases "the p") (auto simp: verify_artifact_def split: if_splits)
  next
    case False
    then show ?thesis
      by (cases p; cases "the p")
         (auto simp: verify_artifact_def is_symlink_def split: option.splits fsnode.splits)
  qed
  then show ?thesis using m by auto
qed

theorem build_manifest_describes_witness:
  "verify_artifact sample_ext (Some (RegFile ''npz''))
     (sample_manifest\<lparr>metadata := []\<rparr>) = Inr ()"
proof -
  have e: "canonical_json_bytes (JObj []) = Inr ''{}''"
    by (simp add: canonical_json_bytes_def ascii_utf8_ok sort_key_def)
  have "build_manifest sample_ext ''nowZ'' (Some (RegFile ''npz'')) ''1.0.0'' (JInt 4)
      ''float32-linear'' ''linear-v1'' sample_metrics None None = Inr (sample_manifest\<lparr>metadata := []\<rparr>)"
  proof -
    have "manifest_valid sample_ext (sample_manifest\<lparr>metadata := []\<rparr>)"
      using sample_valid e
      by (simp add: manifest_valid_def validate_values_def validate_metadata_def rbind_Inr_iff
          sample_manifest_def max_metadata_bytes_def)
    then have "validate_manifest sample_ext (sample_manifest\<lparr>metadata := []\<rparr>) = Inr ()"
      by (simp add: validate_manifest_Inr)
    then show ?thesis
      using sample_semver sample_metrics_ok
      by (simp add: build_manifest_def sample_manifest_def check_int_def max_release_sequence_def
          validate_semver_def Let_def)
  qed
  from build_manifest_describes [OF this] show ?thesis by blast
qed

text \<open>Why a \<^verbatim>\<open>ValidationError\<close> is not the only error of \<^verbatim>\<open>manifest_from_dict\<close>. Every error is a
  \<^verbatim>\<open>ValidationError\<close> or the \<^verbatim>\<open>OverflowError\<close> that \<^verbatim>\<open>math.isfinite\<close> raises for an integer metric
  beyond the range of floats, and that one escapes: a manifest that is valid but for an
  accuracy of \<^verbatim>\<open>10**400\<close> raises it.\<close>

theorem manifest_from_dict_errors:
  "(case manifest_from_dict x data of Inl e \<Rightarrow> exc_cls e \<in> {ValidationError, OverflowErr} | Inr _ \<Rightarrow> True) \<and>
   (\<forall>m. manifest_valid x m \<longrightarrow> math_isfinite (NInt i) = Inl e \<longrightarrow>
      manifest_from_dict x (manifest_to_dict (m\<lparr>metrics := (metrics m)\<lparr>accuracy := NInt i\<rparr>\<rparr>)) = Inl e \<and>
      exc_cls e = OverflowErr)"
proof (intro conjI allI impI)
  have "exc_cls e \<in> {ValidationError, OverflowErr}" if "manifest_from_dict x data = Inl e" for e
    using that validate_raw_error
    by (fastforce simp: manifest_from_dict_def rbind_Inl_iff recast_def VE_def split: sum.splits)
  then show "case manifest_from_dict x data of Inl e \<Rightarrow> exc_cls e \<in> {ValidationError, OverflowErr} | Inr _ \<Rightarrow> True"
    by (auto split: sum.splits)
  fix m assume m: "manifest_valid x m" and e: "math_isfinite (NInt i) = Inl e"
  show c: "exc_cls e = OverflowErr"
    using e by (auto simp: math_isfinite_def rbind_Inl_iff int_to_float_def Let_def split: if_splits)
  let ?m = "m\<lparr>metrics := (metrics m)\<lparr>accuracy := NInt i\<rparr>\<rparr>"
  have "validate_types (to_raw ?m) = Inr ?m"
    using manifest_valid_parts(9-11) [OF m] by (simp add: validate_types_Inr)
  moreover have "validate_values x ?m = Inl e"
    using e c manifest_valid_parts(1) [OF m]
    by (simp add: validate_values_def validate_semver_def metrics_validate_def except_r_def isinstance_def)
  ultimately show "manifest_from_dict x (manifest_to_dict ?m) = Inl e"
    by (simp add: manifest_from_dict_def raw_from_to_dict validate_raw_def)
qed

end
