(* ===== verification/Registry.thy ===== *)
theory Registry
  imports Artifact
begin

text \<open>
  \<^verbatim>\<open>src/src/edgeai/registry.py\<close>: the file-backed immutable registry. A registry is the entries
  of its root directory (name and node), its lock and the keyring; opening an entry reads the
  three small files and the model relative to one directory, so an entry is verified on the
  same nodes that are then used. Listing order is the order of the entries.
\<close>

section \<open>State\<close>

record registry =
  reg_entries :: "(string \<times> fsnode) list"
  reg_lock :: "fsnode option"
  reg_keyring :: keyring

definition max_manifest_bytes :: nat where "max_manifest_bytes = 64 * 1024"
definition max_signature_bytes :: nat where "max_signature_bytes = 4096"
definition max_key_id_bytes :: nat where "max_key_id_bytes = 1024"

definition RE :: "string \<Rightarrow> exc" where
  "RE t = Exc RegistryError t"

section \<open>Opening an entry\<close>

definition open_directory :: "fsnode option \<Rightarrow> (string \<times> fsnode) list res" where
  "open_directory d =
     rbind (recast (\<lambda>e. RE ''registry entry cannot be opened safely'') (open_nofollow d)) (\<lambda>n.
     case n of Directory es \<Rightarrow> Inr es
     | _ \<Rightarrow> Inl (RE ''registry entry cannot be opened safely''))"

definition open_regular_at :: "(string \<times> fsnode) list \<Rightarrow> string \<Rightarrow> string \<Rightarrow> bytes res" where
  "open_regular_at es name label =
     rbind (recast (\<lambda>e. RE (label @ '' missing or cannot be opened safely''))
       (open_nofollow (dir_entry es name))) (\<lambda>n.
     of_opt (RE (label @ '' is not a regular file'')) (file_bytes n))"

definition read_small_file_at ::
  "(string \<times> fsnode) list \<Rightarrow> string \<Rightarrow> string \<Rightarrow> nat \<Rightarrow> bytes res" where
  "read_small_file_at es name label limit =
     rbind (open_regular_at es name label) (\<lambda>bs.
     let data = take (limit + 1) bs
     in rbind (guard_r (\<not> length data > limit) (RE (label @ '' exceeds size limit''))) (\<lambda>_. Inr data))"

text \<open>\<^verbatim>\<open>str.strip()\<close>: the white space of \<^verbatim>\<open>str.isspace\<close>, as code points.\<close>

definition is_space_cp :: "nat \<Rightarrow> bool" where
  "is_space_cp n \<longleftrightarrow>
     9 \<le> n \<and> n \<le> 13 \<or> 28 \<le> n \<and> n \<le> 32 \<or> n = 133 \<or> n = 160 \<or> n = 5760 \<or>
     8192 \<le> n \<and> n \<le> 8202 \<or> n = 8232 \<or> n = 8233 \<or> n = 8239 \<or> n = 8287 \<or> n = 12288"

definition py_strip :: "pystr \<Rightarrow> pystr" where
  "py_strip t =
     concat (map chr_str (rev (dropWhile is_space_cp (rev (dropWhile is_space_cp (code_points t))))))"

definition decode_strip :: "bytes \<Rightarrow> pystr res" where
  "decode_strip bs = rbind (decode_utf8 bs) (\<lambda>t. Inr (py_strip t))"

text \<open>
  \<^verbatim>\<open>except RegistryError: raise\<close>, \<^verbatim>\<open>except Exception as e: raise RegistryError(...)\<close>.
\<close>

definition registry_errors :: "'a res \<Rightarrow> 'a res" where
  "registry_errors =
     recast (\<lambda>e. if isinstance e RegistryError then e else RE ''corrupt registry entry'')"

definition read_metadata ::
  "ext \<Rightarrow> (string \<times> fsnode) list \<Rightarrow> (artifact_manifest \<times> pystr \<times> pystr) res" where
  "read_metadata x es =
     registry_errors (
       rbind (read_small_file_at es ''manifest.json'' ''manifest'' max_manifest_bytes) (\<lambda>mraw.
       rbind (read_small_file_at es ''signature.txt'' ''signature'' max_signature_bytes) (\<lambda>sraw.
       rbind (read_small_file_at es ''key_id.txt'' ''key id'' max_key_id_bytes) (\<lambda>kraw.
       rbind (rbind (loads_bytes mraw) (manifest_from_dict x)) (\<lambda>m.
       rbind (decode_strip sraw) (\<lambda>s.
       rbind (decode_strip kraw) (\<lambda>k. Inr (m, s, k))))))))"

text \<open>\<^verbatim>\<open>open_verified_model\<close>: the model's bytes on the verified handle, and the manifest.\<close>

definition open_verified_model ::
  "ext \<Rightarrow> keyring \<Rightarrow> fsnode option \<Rightarrow> pystr option \<Rightarrow> (bytes \<times> artifact_manifest) res" where
  "open_verified_model x kr d expected_version =
     rbind (open_directory d) (\<lambda>es.
     rbind (read_metadata x es) (\<lambda>(m, signature, key_id).
     rbind (guard_r (\<not> (expected_version \<noteq> None \<and> Some (version m) \<noteq> expected_version))
       (RE ''registry path/version does not match signed manifest'')) (\<lambda>_.
     rbind (keyring_verify x kr key_id m signature) (\<lambda>_.
     rbind (open_regular_at es ''model.npz'' ''model artifact'') (\<lambda>bs.
     rbind (guard_r (int (length bs) = model_bytes m)
       (Exc ArtifactIntegrityError ''model size mismatch'')) (\<lambda>_.
     rbind (guard_r (sha256_stream x bs = model_sha256 m)
       (Exc ArtifactIntegrityError ''model checksum mismatch'')) (\<lambda>_.
     Inr (bs, m))))))))"

definition verify_directory ::
  "ext \<Rightarrow> keyring \<Rightarrow> fsnode option \<Rightarrow> pystr option \<Rightarrow> artifact_manifest res" where
  "verify_directory x kr d expected_version =
     rbind (open_verified_model x kr d expected_version) (\<lambda>(bs, m). Inr m)"

section \<open>Operations\<close>

definition hidden_name :: "string \<Rightarrow> bool" where
  "hidden_name nm \<longleftrightarrow> nm \<noteq> [] \<and> hd nm = CHR ''.''"

text \<open>\<^verbatim>\<open>_assert_release_sequence_available\<close>: every published entry, in listing order.\<close>

fun assert_sequence_available ::
  "ext \<Rightarrow> keyring \<Rightarrow> (string \<times> fsnode) list \<Rightarrow> int \<Rightarrow> pystr \<Rightarrow> unit res" where
  "assert_sequence_available x kr [] seq v = Inr ()"
| "assert_sequence_available x kr ((nm, node) # es) seq v =
     (if hidden_name nm then assert_sequence_available x kr es seq v
      else if is_symlink (Some node) \<or> \<not> is_dir (Some node)
      then Inl (RE ''unexpected non-directory entry in registry'')
      else
        rbind (recast (\<lambda>e. RE ''cannot establish release-sequence uniqueness because registry contains an invalid published entry'')
          (verify_directory x kr (Some node) (Some nm))) (\<lambda>existing.
        if release_sequence existing = seq \<and> version existing \<noteq> v
        then Inl (RE ''release_sequence is already assigned'')
        else assert_sequence_available x kr es seq v))"

definition reg_dir :: "registry \<Rightarrow> pystr \<Rightarrow> fsnode option" where
  "reg_dir r v = dir_entry (reg_entries r) v"

text \<open>\<^verbatim>\<open>inspect\<close>: the entry's directory and its manifest.\<close>

definition inspect :: "ext \<Rightarrow> registry \<Rightarrow> pystr \<Rightarrow> (fsnode option \<times> artifact_manifest) res" where
  "inspect x r v =
     rbind (safe_version v) (\<lambda>v.
     rbind (verify_directory x (reg_keyring r) (reg_dir r v) (Some v)) (\<lambda>m.
     Inr (reg_dir r v, m)))"

definition reg_locked :: "(registry, 'a) prog \<Rightarrow> (registry, 'a) prog" where
  "reg_locked p =
     bind_p (lift_r (\<lambda>s. lock_acquire (reg_lock s))) (\<lambda>node.
     bind_p (modify_p (\<lambda>s. s\<lparr>reg_lock := Some node\<rparr>)) (\<lambda>_. p))"

definition assert_release_sequence_identity :: "ext \<Rightarrow> pystr \<Rightarrow> int \<Rightarrow> (registry, unit) prog" where
  "assert_release_sequence_identity x v seq =
     bind_p (lift_r (\<lambda>_. safe_version v)) (\<lambda>_.
     reg_locked (
       bind_p (lift_r (\<lambda>r. inspect x r v)) (\<lambda>(_, target).
       bind_p (guard_p (\<lambda>_. release_sequence target = seq)
         (RE ''version does not match expected release sequence'')) (\<lambda>_.
       lift_r (\<lambda>r. assert_sequence_available x (reg_keyring r) (reg_entries r) seq v)))))"

text \<open>
  \<^verbatim>\<open>add\<close>. The staging directory has a fresh hidden name, chosen by \<^verbatim>\<open>mkdtemp\<close> (\<open>stage\<close>); its
  four files are written, it is verified as an entry, and one rename publishes it. Any
  exception removes the staging directory. The copied model is the file \<open>verify_artifact\<close>
  has accepted.
\<close>

definition stage_files :: "artifact_manifest \<Rightarrow> pystr \<Rightarrow> pystr \<Rightarrow> bytes \<Rightarrow> (string \<times> fsnode) list res" where
  "stage_files m signature key_id model =
     rbind (canonical_json_bytes (manifest_to_dict m)) (\<lambda>mbs.
     rbind (guard_r (utf8_ok (signature @ [newline])) (Exc UnicodeEncodeError ''surrogates not allowed'')) (\<lambda>_.
     rbind (guard_r (utf8_ok (key_id @ [newline])) (Exc UnicodeEncodeError ''surrogates not allowed'')) (\<lambda>_.
     Inr [(''model.npz'', RegFile model), (''manifest.json'', RegFile (mbs @ [newline])),
          (''signature.txt'', RegFile (signature @ [newline])),
          (''key_id.txt'', RegFile (key_id @ [newline]))])))"

definition drop_entry :: "string \<Rightarrow> (string \<times> fsnode) list \<Rightarrow> (string \<times> fsnode) list" where
  "drop_entry nm es = filter (\<lambda>(k, n). k \<noteq> nm) es"

definition add ::
  "ext \<Rightarrow> string \<Rightarrow> fsnode option \<Rightarrow> artifact_manifest \<Rightarrow> pystr \<Rightarrow> pystr \<Rightarrow> (registry, pystr) prog" where
  "add x stage model_path m signature key_id =
     bind_p (lift_r (\<lambda>_. safe_version (version m))) (\<lambda>v.
     bind_p (lift_r (\<lambda>r. keyring_verify x (reg_keyring r) key_id m signature)) (\<lambda>_.
     bind_p (lift_r (\<lambda>_. verify_artifact x model_path m)) (\<lambda>_.
     reg_locked (
       bind_p (guard_p (\<lambda>r. \<not> (path_exists (reg_dir r v) \<or> is_symlink (reg_dir r v)))
         (RE ''registry versions are immutable'')) (\<lambda>_.
       bind_p (lift_r (\<lambda>r. assert_sequence_available x (reg_keyring r) (reg_entries r)
         (release_sequence m) v)) (\<lambda>_.
       bind_p (modify_p (\<lambda>r. r\<lparr>reg_entries := (stage, Directory []) # reg_entries r\<rparr>)) (\<lambda>_.
       catch_p
         (bind_p (lift_r (\<lambda>_. stage_files m signature key_id
            (case model_path of Some (RegFile bs) \<Rightarrow> bs | _ \<Rightarrow> []))) (\<lambda>files.
          bind_p (modify_p (\<lambda>r. r\<lparr>reg_entries := (stage, Directory files) # drop_entry stage (reg_entries r)\<rparr>)) (\<lambda>_.
          bind_p (lift_r (\<lambda>r. verify_directory x (reg_keyring r) (dir_entry (reg_entries r) stage) (Some v))) (\<lambda>_.
          bind_p (modify_p (\<lambda>r. r\<lparr>reg_entries := (v, Directory files) # drop_entry stage (reg_entries r)\<rparr>)) (\<lambda>_.
          ret v)))))
         (\<lambda>e. bind_p (modify_p (\<lambda>r. r\<lparr>reg_entries := drop_entry stage (reg_entries r)\<rparr>)) (\<lambda>_.
              raise_e e)))))))))"

definition versions :: "ext \<Rightarrow> registry \<Rightarrow> pystr list" where
  "versions x r =
     sort (map fst (filter (\<lambda>(nm, n).
       is_dir (Some n) \<and> \<not> hidden_name nm \<and> \<not> is_symlink (Some n) \<and>
       (case inspect x r nm of Inr _ \<Rightarrow> True | Inl _ \<Rightarrow> False)) (reg_entries r)))"

section \<open>Lemmas\<close>

lemma open_directory_Inr: "open_directory d = Inr es \<longleftrightarrow> d = Some (Directory es)"
  by (cases d; cases "the d")
     (auto simp: open_directory_def rbind_Inr_iff open_nofollow_Inr split: fsnode.splits)

lemma open_regular_at_Inr:
  "open_regular_at es name label = Inr bs \<longleftrightarrow> dir_entry es name = Some (RegFile bs)"
  by (auto simp: open_regular_at_def rbind_Inr_iff open_nofollow_Inr file_bytes_Some)

lemma read_small_file_at_Inr:
  "read_small_file_at es name label limit = Inr bs \<longleftrightarrow>
     dir_entry es name = Some (RegFile bs) \<and> length bs \<le> limit"
  by (auto simp: read_small_file_at_def rbind_Inr_iff open_regular_at_Inr Let_def min_def)

lemma read_metadata_Inr:
  "read_metadata x es = Inr (m, s, k) \<longleftrightarrow>
     (\<exists>mraw sraw kraw.
        dir_entry es ''manifest.json'' = Some (RegFile mraw) \<and> length mraw \<le> max_manifest_bytes \<and>
        dir_entry es ''signature.txt'' = Some (RegFile sraw) \<and> length sraw \<le> max_signature_bytes \<and>
        dir_entry es ''key_id.txt'' = Some (RegFile kraw) \<and> length kraw \<le> max_key_id_bytes \<and>
        rbind (loads_bytes mraw) (manifest_from_dict x) = Inr m \<and>
        decode_strip sraw = Inr s \<and> decode_strip kraw = Inr k)"
  by (auto simp: read_metadata_def registry_errors_def rbind_Inr_iff read_small_file_at_Inr)

text \<open>What a verified entry is.\<close>

lemma open_verified_model_Inr:
  "open_verified_model x kr d ev = Inr (bs, m) \<longleftrightarrow>
     (\<exists>es s k. d = Some (Directory es) \<and> read_metadata x es = Inr (m, s, k) \<and>
        (ev = None \<or> ev = Some (version m)) \<and> keyring_verify x kr k m s = Inr () \<and>
        dir_entry es ''model.npz'' = Some (RegFile bs) \<and>
        int (length bs) = model_bytes m \<and> sha256_hex x bs = model_sha256 m)"
  by (auto simp: open_verified_model_def rbind_Inr_iff open_directory_Inr open_regular_at_Inr)

lemma verify_directory_Inr:
  "verify_directory x kr d ev = Inr m \<longleftrightarrow> (\<exists>bs. open_verified_model x kr d ev = Inr (bs, m))"
  by (auto simp: verify_directory_def rbind_Inr_iff)

lemma verify_directory_facts:
  assumes "verify_directory x kr d ev = Inr m"
  shows "\<exists>es. d = Some (Directory es)" "manifest_valid x m" "ev = None \<or> ev = Some (version m)"
  using assms by (auto simp: verify_directory_Inr open_verified_model_Inr dest: keyring_verify_valid)

lemma inspect_Inr:
  "inspect x r v = Inr (d, m) \<longleftrightarrow>
     semver_match v \<and> d = reg_dir r v \<and> verify_directory x (reg_keyring r) d (Some v) = Inr m"
  by (auto simp: inspect_def rbind_Inr_iff safe_version_Inr)

lemma inspect_version: "inspect x r v = Inr (d, m) \<Longrightarrow> version m = v"
  by (auto simp: inspect_Inr dest: verify_directory_facts(3))

lemma assert_sequence_available_Inr:
  "assert_sequence_available x kr es seq v = Inr () \<longleftrightarrow>
     (\<forall>(nm, node) \<in> set es. hidden_name nm \<or>
        (\<exists>m. verify_directory x kr (Some node) (Some nm) = Inr m \<and>
             (release_sequence m = seq \<longrightarrow> version m = v)))"
proof (induction x kr es seq v rule: assert_sequence_available.induct)
  case (2 x kr nm node es seq v)
  have d: "\<not> is_symlink (Some node) \<and> is_dir (Some node)"
    if "verify_directory x kr (Some node) (Some nm) = Inr m" for m
    using verify_directory_facts(1) [OF that] by auto
  show ?case
  proof (cases "verify_directory x kr (Some node) (Some nm)")
    case (Inl e)
    then show ?thesis using 2 by auto
  next
    case (Inr m)
    then show ?thesis using 2 d [OF Inr] by auto
  qed
qed simp

lemma catch_p_Inr:
  "catch_p p h s = (Inr y, t) \<longleftrightarrow>
     p s = (Inr y, t) \<or> (\<exists>e s'. p s = (Inl e, s') \<and> h e s' = (Inr y, t))"
  by (auto simp: catch_p_def split: prod.splits sum.splits)

lemma catch_p_Inl:
  "catch_p p h s = (Inl e, t) \<longleftrightarrow> (\<exists>e' s'. p s = (Inl e', s') \<and> h e' s' = (Inl e, t))"
  by (auto simp: catch_p_def split: prod.splits sum.splits)

lemma drop_entry_fresh: "nm \<notin> fst ` set es \<Longrightarrow> drop_entry nm es = es"
  by (induction es) (auto simp: drop_entry_def)

lemma drop_entry_Cons [simp]: "drop_entry nm ((nm, n) # es) = drop_entry nm es"
  by (simp add: drop_entry_def)

lemma add_published:
  assumes "add x stage p m s k r = (Inr v, t)" and "stage \<notin> fst ` set (reg_entries r)"
  obtains l files n where "v = version m" "semver_match v" "path_exists (reg_dir r v) = False"
    "is_symlink (reg_dir r v) = False"
    "assert_sequence_available x (reg_keyring r) (reg_entries r) (release_sequence m) v = Inr ()"
    "stage_files m s k (case p of Some (RegFile bs) \<Rightarrow> bs | _ \<Rightarrow> []) = Inr files"
    "verify_directory x (reg_keyring r) (Some (Directory files)) (Some v) = Inr n"
    "keyring_verify x (reg_keyring r) k m s = Inr ()" "verify_artifact x p m = Inr ()"
    "t = r\<lparr>reg_lock := Some l, reg_entries := (v, Directory files) # reg_entries r\<rparr>"
  using assms
  by (auto simp: add_def reg_locked_def bind_p_Inr catch_p_Inr prog_simps safe_version_Inr
      reg_dir_def drop_entry_fresh dir_entry_def split: if_splits)

lemma add_rejected:
  assumes "add x stage p m s k r = (Inl e, t)" and "stage \<notin> fst ` set (reg_entries r)"
  shows "t = r\<lparr>reg_lock := reg_lock t\<rparr>"
  using assms
  by (auto simp: add_def reg_locked_def bind_p_Inl bind_p_Inr catch_p_Inl prog_simps
      drop_entry_fresh dir_entry_def split: if_splits)

section \<open>The registry as a store\<close>

text \<open>
  What the deployer relies on: \<open>find\<close> is \<^verbatim>\<open>inspect\<close>. Publishing never changes what is found
  under any other version, and never what is already there.
\<close>

record publication =
  pub_stage :: string
  pub_path :: "fsnode option"
  pub_manifest :: artifact_manifest
  pub_signature :: pystr
  pub_key_id :: pystr

locale artifact_store =
  fixes find :: "'s \<Rightarrow> pystr \<Rightarrow> artifact_manifest option"
    and publish :: "publication \<Rightarrow> ('s, pystr) prog"
    and fresh :: "publication \<Rightarrow> 's \<Rightarrow> bool"
    and consistent :: "'s \<Rightarrow> bool"
  assumes unique: "consistent s \<Longrightarrow> find s v = Some m \<Longrightarrow> find s w = Some n \<Longrightarrow>
      release_sequence m = release_sequence n \<Longrightarrow> v = w"
    and publish_consistent: "consistent s \<Longrightarrow> fresh a s \<Longrightarrow> consistent (snd (publish a s))"
    and publish_keeps: "consistent s \<Longrightarrow> fresh a s \<Longrightarrow> find s v = Some m \<Longrightarrow>
      find (snd (publish a s)) v = Some m"
    and publish_finds: "consistent s \<Longrightarrow> fresh a s \<Longrightarrow> publish a s = (Inr v, t) \<Longrightarrow>
      find s v = None \<and> (\<exists>n. find t v = Some n)"
begin

definition run :: "publication list \<Rightarrow> 's \<Rightarrow> 's" where
  "run as s = foldl (\<lambda>s a. snd (publish a s)) s as"

fun fresh_run :: "publication list \<Rightarrow> 's \<Rightarrow> bool" where
  "fresh_run [] s = True"
| "fresh_run (a # as) s = (fresh a s \<and> fresh_run as (snd (publish a s)))"

lemma run_consistent: "consistent s \<Longrightarrow> fresh_run as s \<Longrightarrow> consistent (run as s)"
  by (induction as arbitrary: s) (simp_all add: run_def publish_consistent)

lemma run_keeps:
  "consistent s \<Longrightarrow> fresh_run as s \<Longrightarrow> find s v = Some m \<Longrightarrow> find (run as s) v = Some m"
  by (induction as arbitrary: s) (simp_all add: run_def publish_consistent publish_keeps)

lemma run_unique:
  assumes "consistent s" "fresh_run as s"
    and "find (run as s) v = Some m" "find (run as s) w = Some n"
    and "release_sequence m = release_sequence n"
  shows "v = w"
  using unique [OF run_consistent [OF assms(1,2)] assms(3-5)] .

text \<open>Publishing a version that is already there fails.\<close>

lemma republish_fails:
  assumes "consistent s" "fresh a s" "find s v = Some m"
  shows "fst (publish a s) \<noteq> Inr v"
proof
  assume "fst (publish a s) = Inr v"
  then have "publish a s = (Inr v, snd (publish a s))" by (simp add: prod_eq_iff)
  from publish_finds [OF assms(1,2) this] show False using assms(3) by simp
qed

end

definition reg_find :: "ext \<Rightarrow> registry \<Rightarrow> pystr \<Rightarrow> artifact_manifest option" where
  "reg_find x r v = (case inspect x r v of Inr (d, m) \<Rightarrow> Some m | Inl e \<Rightarrow> None)"

definition reg_publish :: "ext \<Rightarrow> publication \<Rightarrow> (registry, pystr) prog" where
  "reg_publish x a = add x (pub_stage a) (pub_path a) (pub_manifest a) (pub_signature a) (pub_key_id a)"

text \<open>
  \<^verbatim>\<open>mkdtemp\<close> gives a name that is not in use; the manifest's numbers are written readably.
\<close>

definition stage_fresh :: "publication \<Rightarrow> registry \<Rightarrow> bool" where
  "stage_fresh a r \<longleftrightarrow>
     hidden_name (pub_stage a) \<and> pub_stage a \<notin> fst ` set (reg_entries r) \<and>
     manifest_rt (pub_manifest a)"

text \<open>
  The invariant of the registry directory: names are distinct, and no two verified entries
  carry the same release sequence.
\<close>

definition reg_consistent :: "ext \<Rightarrow> registry \<Rightarrow> bool" where
  "reg_consistent x r \<longleftrightarrow>
     distinct (map fst (reg_entries r)) \<and>
     (\<forall>v w m n. reg_find x r v = Some m \<longrightarrow> reg_find x r w = Some n \<longrightarrow>
        release_sequence m = release_sequence n \<longrightarrow> v = w)"

lemma reg_find_Some:
  "reg_find x r v = Some m \<longleftrightarrow>
     semver_match v \<and> verify_directory x (reg_keyring r) (reg_dir r v) (Some v) = Inr m"
  by (auto simp: reg_find_def inspect_Inr split: sum.splits) (auto simp: inspect_def rbind_def safe_version_def validate_semver_def split: sum.splits)

lemma reg_find_lock [simp]: "reg_find x (r\<lparr>reg_lock := l\<rparr>) v = reg_find x r v"
  by (simp add: reg_find_def inspect_def reg_dir_def)

lemma reg_find_published:
  assumes "reg_dir r w = None"
  shows "reg_find x (r\<lparr>reg_lock := l, reg_entries := (w, d) # reg_entries r\<rparr>) v =
    (if v = w then
       (if semver_match w then (case verify_directory x (reg_keyring r) (Some d) (Some w) of
          Inr m \<Rightarrow> Some m | Inl e \<Rightarrow> None) else None)
     else reg_find x r v)"
  using assms
  by (auto simp: reg_find_def inspect_def reg_dir_def dir_entry_def rbind_def safe_version_def
      validate_semver_def split: sum.splits)

lemma semver_not_hidden: "semver_match v \<Longrightarrow> \<not> hidden_name v"
  using semver_match_chars(2) [of v] by (auto simp: hidden_name_def is_digit_def byte_of_def)

lemma staged_manifest:
  assumes "stage_files m s k bs = Inr files" "manifest_rt m" "manifest_valid x m"
    and "verify_directory x kr (Some (Directory files)) ev = Inr n"
  shows "n = canon_manifest m"
proof -
  obtain mbs where b: "canonical_json_bytes (manifest_to_dict m) = Inr mbs"
    and f: "dir_entry files ''manifest.json'' = Some (RegFile (mbs @ [newline]))"
    using assms(1) by (auto simp: stage_files_def rbind_Inr_iff dir_entry_def)
  have "rbind (loads_bytes (mbs @ [newline])) (manifest_from_dict x) = Inr n"
    using assms(4) f by (auto simp: verify_directory_Inr open_verified_model_Inr read_metadata_Inr)
  then show ?thesis using manifest_bytes_roundtrip [OF assms(3,2) b] by simp
qed

lemma reg_publish_step:
  assumes "reg_publish x a r = (Inr v, t)" "stage_fresh a r"
  obtains l d n where "v = version (pub_manifest a)" "reg_dir r v = None" "semver_match v"
    "verify_directory x (reg_keyring r) (Some d) (Some v) = Inr n"
    "n = canon_manifest (pub_manifest a)"
    "t = r\<lparr>reg_lock := Some l, reg_entries := (v, d) # reg_entries r\<rparr>"
    "\<And>w m. reg_find x r w = Some m \<Longrightarrow> release_sequence m = release_sequence (pub_manifest a) \<Longrightarrow> w = v"
proof -
  obtain l files n where p: "v = version (pub_manifest a)" "semver_match v"
      "path_exists (reg_dir r v) = False" "is_symlink (reg_dir r v) = False"
      "assert_sequence_available x (reg_keyring r) (reg_entries r) (release_sequence (pub_manifest a)) v = Inr ()"
      "verify_directory x (reg_keyring r) (Some (Directory files)) (Some v) = Inr n"
      "t = r\<lparr>reg_lock := Some l, reg_entries := (v, Directory files) # reg_entries r\<rparr>"
      "stage_files (pub_manifest a) (pub_signature a) (pub_key_id a)
         (case pub_path a of Some (RegFile bs) \<Rightarrow> bs | _ \<Rightarrow> []) = Inr files"
      "keyring_verify x (reg_keyring r) (pub_key_id a) (pub_manifest a) (pub_signature a) = Inr ()"
    using assms unfolding reg_publish_def stage_fresh_def by (elim conjE add_published) auto
  have n: "n = canon_manifest (pub_manifest a)"
    using staged_manifest [OF p(8) _ _ p(6)] assms(2) keyring_verify_valid [OF p(9)]
    by (simp add: stage_fresh_def)
  have "w = v" if "reg_find x r w = Some m" "release_sequence m = release_sequence (pub_manifest a)" for w m
  proof -
    have w: "semver_match w" "verify_directory x (reg_keyring r) (reg_dir r w) (Some w) = Inr m"
      using that(1) by (auto simp: reg_find_Some)
    then obtain es where "reg_dir r w = Some (Directory es)" using verify_directory_facts(1) by blast
    then have "(w, Directory es) \<in> set (reg_entries r)" by (auto simp: reg_dir_def dir_entry_def dest: map_of_SomeD)
    then have "\<exists>m'. verify_directory x (reg_keyring r) (Some (Directory es)) (Some w) = Inr m' \<and>
        (release_sequence m' = release_sequence (pub_manifest a) \<longrightarrow> version m' = v)"
      using p(5) semver_not_hidden [OF w(1)] by (auto simp: assert_sequence_available_Inr)
    then have "version m = v" using w(2) that(2) \<open>reg_dir r w = Some (Directory es)\<close> by auto
    then show "w = v" using verify_directory_facts(3) [OF w(2)] by simp
  qed
  then show thesis using that p n nothing_there [of "reg_dir r v"] by simp
qed

lemma canon_manifest_sequence [simp]: "release_sequence (canon_manifest m) = release_sequence m"
  by (simp add: canon_manifest_def)

lemma reg_publish_rejected:
  assumes "reg_publish x a r = (Inl e, t)" "stage_fresh a r"
  shows "t = r\<lparr>reg_lock := reg_lock t\<rparr>"
  using assms add_rejected unfolding reg_publish_def stage_fresh_def by blast

lemma reg_publish_find:
  assumes "reg_publish x a r = (Inr v, t)" "stage_fresh a r"
  shows "reg_find x r v = None"
    and "reg_find x t w = (if w = v then Some (canon_manifest (pub_manifest a)) else reg_find x r w)"
proof -
  obtain l d where s: "reg_dir r v = None" "semver_match v"
      "verify_directory x (reg_keyring r) (Some d) (Some v) = Inr (canon_manifest (pub_manifest a))"
      "t = r\<lparr>reg_lock := Some l, reg_entries := (v, d) # reg_entries r\<rparr>"
    using assms by (elim reg_publish_step) auto
  show "reg_find x r v = None"
    using s(1) verify_directory_facts(1) [of x "reg_keyring r" "reg_dir r v" "Some v"]
    by (cases "reg_find x r v") (auto simp: reg_find_Some)
  show "reg_find x t w = (if w = v then Some (canon_manifest (pub_manifest a)) else reg_find x r w)"
    using s by (simp add: reg_find_published)
qed

interpretation reg: artifact_store "reg_find x" "reg_publish x" stage_fresh "reg_consistent x" for x
proof
  fix r t :: registry and a v w m n
  show "v = w" if "reg_consistent x r" "reg_find x r v = Some m" "reg_find x r w = Some n"
      "release_sequence m = release_sequence n"
    using that by (auto simp: reg_consistent_def)
  assume c: "reg_consistent x r" and f: "stage_fresh a r"
  show "reg_find x r v = None \<and> (\<exists>n. reg_find x t v = Some n)" if "reg_publish x a r = (Inr v, t)"
    using reg_publish_find [OF that f] by simp
  show "reg_find x (snd (reg_publish x a r)) v = Some m" if v: "reg_find x r v = Some m"
  proof (cases "reg_publish x a r")
    case (Pair res t')
    show ?thesis
    proof (cases res)
      case (Inl e)
      then have "t' = r\<lparr>reg_lock := reg_lock t'\<rparr>" using Pair f reg_publish_rejected by simp
      then show ?thesis using Pair v by (metis reg_find_lock snd_conv)
    next
      case (Inr u)
      then show ?thesis using Pair v reg_publish_find [OF _ f, of x u t'] by auto
    qed
  qed
  show "reg_consistent x (snd (reg_publish x a r))"
  proof (cases "reg_publish x a r")
    case (Pair res t')
    show ?thesis
    proof (cases res)
      case (Inl e)
      then have "t' = r\<lparr>reg_lock := reg_lock t'\<rparr>" using Pair f reg_publish_rejected by simp
      then have "reg_consistent x t' = reg_consistent x (r\<lparr>reg_lock := reg_lock t'\<rparr>)" by simp
      then show ?thesis using Pair c by (simp add: reg_consistent_def)
    next
      case (Inr u)
      then have p: "reg_publish x a r = (Inr u, t')" using Pair by simp
      obtain l d where s: "reg_dir r u = None"
          "t' = r\<lparr>reg_lock := Some l, reg_entries := (u, d) # reg_entries r\<rparr>"
          "\<And>w m. reg_find x r w = Some m \<Longrightarrow> release_sequence m = release_sequence (pub_manifest a) \<Longrightarrow> w = u"
        using p f by (elim reg_publish_step) auto
      have "u \<notin> fst ` set (reg_entries r)"
        using s(1) by (simp add: reg_dir_def dir_entry_def map_of_eq_None_iff)
      then have "distinct (map fst (reg_entries t'))" using c s(2) by (simp add: reg_consistent_def)
      moreover have "v = w" if "reg_find x t' v = Some m" "reg_find x t' w = Some n"
          "release_sequence m = release_sequence n" for v w m n
        using that c s(3) reg_publish_find(2) [OF p f]
        by (auto simp: reg_consistent_def split: if_splits)
      ultimately show ?thesis using Pair by (simp add: reg_consistent_def)
    qed
  qed
qed

section \<open>Publishing succeeds\<close>

text \<open>Text that survives the appended line feed and \<^verbatim>\<open>strip()\<close>.\<close>

definition stripped :: "pystr \<Rightarrow> bool" where
  "stripped t \<longleftrightarrow> utf8_ok t \<and> py_strip (t @ [newline]) = t"

lemma dropWhile_none: "(\<forall>y \<in> set ys. \<not> P y) \<Longrightarrow> dropWhile P ys = ys"
  by (cases ys) auto

lemma ascii_stripped:
  assumes "ascii t" "\<forall>c \<in> set t. 32 < byte_of c"
  shows "stripped t"
proof -
  have n: "\<not> is_space_cp (byte_of c)" if "c \<in> set t" for c
    using assms that by (auto simp: is_space_cp_def ascii_def)
  have "dropWhile is_space_cp (map byte_of t @ [10]) = (if t = [] then [] else map byte_of t @ [10])"
    using n by (cases t) (auto simp: is_space_cp_def)
  moreover have "rev (dropWhile is_space_cp (10 # rev (map byte_of t))) = map byte_of t"
    using n dropWhile_none [of "rev (map byte_of t)" is_space_cp] by (simp add: is_space_cp_def)
  moreover have "concat (map (\<lambda>c. chr_str (byte_of c)) t) = t"
    using assms(1) by (induction t) (auto simp: chr_str_def utf8_encode_cp_def)
  ultimately show ?thesis using assms(1)
    by (cases "t = []") (simp_all add: stripped_def py_strip_def ascii_code_points ascii_utf8_ok comp_def is_space_cp_def)
qed

lemma decode_stripped: "stripped t \<Longrightarrow> decode_strip (t @ [newline]) = Inr t"
  by (simp add: stripped_def decode_strip_def decode_utf8_def utf8_ok_append newline_utf8)

text \<open>The files of a publication, read back as an entry.\<close>

lemma staged_verifies:
  assumes "stage_files m s k bs = Inr files" "manifest_rt m"
    and "keyring_verify x kr k m s = Inr ()" "verify_artifact x (Some (RegFile bs)) m = Inr ()"
    and "stripped s" "stripped k" "length s < max_signature_bytes" "length k < max_key_id_bytes"
    and "canonical_json_bytes (manifest_to_dict m) = Inr mbs" "length mbs < max_manifest_bytes"
  shows "open_verified_model x kr (Some (Directory files)) (Some (version m)) =
           Inr (bs, canon_manifest m)"
proof -
  have f: "dir_entry files ''manifest.json'' = Some (RegFile (mbs @ [newline]))"
      "dir_entry files ''signature.txt'' = Some (RegFile (s @ [newline]))"
      "dir_entry files ''key_id.txt'' = Some (RegFile (k @ [newline]))"
      "dir_entry files ''model.npz'' = Some (RegFile bs)"
    using assms(1,9) by (auto simp: stage_files_def rbind_Inr_iff dir_entry_def)
  have r: "rbind (loads_bytes (mbs @ [newline])) (manifest_from_dict x) = Inr (canon_manifest m)"
    using manifest_bytes_roundtrip [OF keyring_verify_valid [OF assms(3)] assms(2,9)] .
  have "read_metadata x files = Inr (canon_manifest m, s, k)"
    using f r assms(5-8,10) by (auto simp: read_metadata_Inr decode_stripped)
  moreover have "int (length bs) = model_bytes m" "sha256_hex x bs = model_sha256 m"
    using assms(4) by (auto simp: verify_artifact_def split: if_splits)
  ultimately show ?thesis using f assms(3)
    by (simp add: open_verified_model_Inr keyring_verify_canon) (simp add: canon_manifest_def)
qed

lemma add_run:
  assumes "hidden_name stage" "stage \<notin> fst ` set (reg_entries r)" "reg_dir r (version m) = None"
    and "lock_acquire (reg_lock r) = Inr l"
    and "keyring_verify x (reg_keyring r) k m s = Inr ()"
    and "verify_artifact x (Some (RegFile bs)) m = Inr ()"
    and "assert_sequence_available x (reg_keyring r) (reg_entries r) (release_sequence m) (version m) = Inr ()"
    and "stage_files m s k bs = Inr files"
    and "verify_directory x (reg_keyring r) (Some (Directory files)) (Some (version m)) = Inr n"
  shows "add x stage (Some (RegFile bs)) m s k r =
    (Inr (version m), r\<lparr>reg_lock := Some l, reg_entries := (version m, Directory files) # reg_entries r\<rparr>)"
proof -
  have v: "semver_match (version m)"
    using manifest_valid_parts(1) [OF keyring_verify_valid [OF assms(5)]] .
  have "stage \<noteq> version m" using assms(1) semver_not_hidden [OF v] by auto
  then show ?thesis
    using assms(2-9) v
    by (simp add: add_def reg_locked_def bind_p_def catch_p_def prog_simps safe_version_Inr [THEN iffD2]
        drop_entry_fresh dir_entry_def reg_dir_def)
qed

lemma stage_files_total:
  "canonical_json_bytes (manifest_to_dict m) = Inr mbs \<Longrightarrow> stripped s \<Longrightarrow> stripped k \<Longrightarrow>
     \<exists>files. stage_files m s k bs = Inr files"
  by (simp add: stage_files_def stripped_def utf8_ok_append newline_utf8)

text \<open>C8: a release that is signed by a trusted key, describes its model file, and whose version
  and sequence are unused, is published: \<^verbatim>\<open>add\<close> returns its version, \<^verbatim>\<open>inspect\<close> then gives
  a manifest equal to the published one, and opening the entry gives the model's bytes.\<close>

theorem add_publishes:
  assumes "hidden_name stage" "stage \<notin> fst ` set (reg_entries r)" "reg_dir r (version m) = None"
    and "lock_acquire (reg_lock r) = Inr l"
    and "keyring_verify x (reg_keyring r) k m s = Inr ()"
    and "verify_artifact x (Some (RegFile bs)) m = Inr ()"
    and "assert_sequence_available x (reg_keyring r) (reg_entries r) (release_sequence m) (version m) = Inr ()"
    and "manifest_rt m" "stripped s" "stripped k"
    and "length s < max_signature_bytes" "length k < max_key_id_bytes"
    and "canonical_json_bytes (manifest_to_dict m) = Inr mbs" "length mbs < max_manifest_bytes"
  shows "\<exists>t n. add x stage (Some (RegFile bs)) m s k r = (Inr (version m), t) \<and>
    inspect x t (version m) = Inr (reg_dir t (version m), n) \<and> manifest_eq n m \<and>
    open_verified_model x (reg_keyring t) (reg_dir t (version m)) (Some (version m)) = Inr (bs, n)"
proof -
  obtain files where f: "stage_files m s k bs = Inr files"
    using stage_files_total assms(9,10,13) by blast
  note o = staged_verifies [OF f assms(8,5,6,9-14)]
  then have d: "verify_directory x (reg_keyring r) (Some (Directory files)) (Some (version m)) = Inr (canon_manifest m)"
    by (simp add: verify_directory_def)
  let ?t = "r\<lparr>reg_lock := Some l, reg_entries := (version m, Directory files) # reg_entries r\<rparr>"
  have "inspect x ?t (version m) = Inr (reg_dir ?t (version m), canon_manifest m)"
    using manifest_valid_parts(1) [OF keyring_verify_valid [OF assms(5)]] d
    by (simp add: inspect_Inr reg_dir_def dir_entry_def)
  moreover have "open_verified_model x (reg_keyring ?t) (reg_dir ?t (version m)) (Some (version m)) =
      Inr (bs, canon_manifest m)"
    using o by (simp add: reg_dir_def dir_entry_def)
  ultimately show ?thesis using add_run [OF assms(1-7) f d] canon_manifest_eq by blast
qed

definition sample_registry :: registry where
  "sample_registry =
     \<lparr>reg_entries = [], reg_lock = None, reg_keyring = \<lparr>keys = [(''k1'', ''pub'')], revoked = []\<rparr>\<rparr>"

lemma sample_text_length: "length (json_text False (canon (manifest_to_dict sample_manifest))) < 1000"
  by (simp add: manifest_to_dict_def metrics_to_dict_def sample_manifest_def sample_metrics_def
      num_json_def sort_key_def str_text_def str_body_def esc_char_def byte_of_def int_str_def
      nat_str.simps)

lemma sample_keyring_verify:
  "keyring_verify sample_ext (reg_keyring sample_registry) ''k1'' sample_manifest sample_signature = Inr ()"
proof -
  have "b64_decode sample_ext = Some" "ed_public_ok sample_ext ''pub''"
      "ed_verify sample_ext ''pub'' = (\<lambda>sig msg. sig = nat_str (length msg))"
    by (simp_all add: sample_ext_def)
  then show ?thesis using sample_valid sample_canonical
    by (simp add: keyring_verify_Inr verify_manifest_Inr sample_registry_def sample_signature_def)
qed

lemma sample_artifact: "verify_artifact sample_ext (Some (RegFile ''npz'')) sample_manifest = Inr ()"
  by (simp add: verify_artifact_def) (simp add: sample_manifest_def)

lemma sample_signature_stripped: "stripped sample_signature"
  unfolding sample_signature_def using nat_str_ascii nat_str_digits
  by (intro ascii_stripped) (fastforce simp: is_digit_def)+

lemma sample_signature_length: "length sample_signature < 4096"
  using nat_str_length [of "length (json_text False (canon (manifest_to_dict sample_manifest)))" 3]
    sample_text_length by (simp add: sample_signature_def)

theorem add_publishes_witness:
  "\<exists>t n. add sample_ext ''.stage-1'' (Some (RegFile ''npz'')) sample_manifest sample_signature ''k1'' sample_registry
      = (Inr ''1.0.0'', t) \<and>
    inspect sample_ext t ''1.0.0'' = Inr (reg_dir t ''1.0.0'', n)"
proof -
  have v: "version sample_manifest = ''1.0.0''" by (simp add: sample_manifest_def)
  have e: "reg_entries sample_registry = []" "reg_lock sample_registry = None"
    by (simp_all add: sample_registry_def)
  have k: "stripped ''k1''" by (rule ascii_stripped) (simp_all add: byte_of_def)
  have h: "hidden_name ''.stage-1''" by (simp add: hidden_name_def)
  show ?thesis
    using add_publishes [OF h _ _ _ sample_keyring_verify sample_artifact _ sample_rt
        sample_signature_stripped k _ _ sample_canonical, of "RegFile []"]
      sample_signature_length sample_text_length
    by (auto simp: v e reg_dir_def dir_entry_def lock_acquire_def max_signature_bytes_def
        max_key_id_bytes_def max_manifest_bytes_def)
qed

section \<open>What the registry promises\<close>

fun fresh_publications :: "ext \<Rightarrow> publication list \<Rightarrow> registry \<Rightarrow> bool" where
  "fresh_publications x [] r = True"
| "fresh_publications x (a # as) r =
     (stage_fresh a r \<and> fresh_publications x as (snd (reg_publish x a r)))"

definition publish_all :: "ext \<Rightarrow> publication list \<Rightarrow> registry \<Rightarrow> registry" where
  "publish_all x as r = foldl (\<lambda>r a. snd (reg_publish x a r)) r as"

lemma publish_all_run: "publish_all x as r = reg.run x as r"
  by (simp add: publish_all_def reg.run_def)

lemma fresh_publications_run: "fresh_publications x as r = reg.fresh_run x as r"
  by (induction as arbitrary: r) simp_all

text \<open>C7: the registry is immutable. After any sequence of attempts to publish, successful or not,
  every version that was there is found with the very manifest it had, and no two versions
  have the same release sequence.\<close>

theorem registry_immutable:
  assumes "reg_consistent x r" "fresh_publications x as r"
  shows "(\<forall>v m. reg_find x r v = Some m \<longrightarrow> reg_find x (publish_all x as r) v = Some m) \<and>
    (\<forall>v w m n. reg_find x (publish_all x as r) v = Some m \<longrightarrow>
       reg_find x (publish_all x as r) w = Some n \<longrightarrow> release_sequence m = release_sequence n \<longrightarrow> v = w)"
  using reg.run_keeps [OF assms(1)] reg.run_unique [OF assms(1)] assms(2)
  unfolding publish_all_run fresh_publications_run by blast

definition sample_publication :: publication where
  "sample_publication =
     \<lparr>pub_stage = ''.stage-1'', pub_path = Some (RegFile ''npz''), pub_manifest = sample_manifest,
      pub_signature = sample_signature, pub_key_id = ''k1''\<rparr>"

lemma sample_reg_consistent: "reg_consistent sample_ext sample_registry"
  by (auto simp: reg_consistent_def reg_find_Some sample_registry_def reg_dir_def dir_entry_def
      verify_directory_Inr open_verified_model_Inr)

lemma sample_stage_fresh: "stage_fresh sample_publication sample_registry"
  using sample_rt by (simp add: stage_fresh_def sample_publication_def sample_registry_def hidden_name_def)

lemma sample_staged:
  "\<exists>files. stage_files sample_manifest sample_signature ''k1'' ''npz'' = Inr files \<and>
     open_verified_model sample_ext (reg_keyring sample_registry) (Some (Directory files)) (Some ''1.0.0'') =
       Inr (''npz'', canon_manifest sample_manifest)"
proof -
  have k: "stripped ''k1''" by (rule ascii_stripped) (simp_all add: byte_of_def)
  obtain files where f: "stage_files sample_manifest sample_signature ''k1'' ''npz'' = Inr files"
    using sample_signature_stripped k sample_canonical
    by (simp add: stage_files_def stripped_def utf8_ok_append newline_utf8)
      (simp add: ascii_utf8_ok byte_of_def)
  have "version sample_manifest = ''1.0.0''" by (simp add: sample_manifest_def)
  then show ?thesis
    using staged_verifies [OF f sample_rt sample_keyring_verify sample_artifact
        sample_signature_stripped k _ _ sample_canonical] f sample_signature_length sample_text_length
    by (simp add: max_signature_bytes_def max_key_id_bytes_def max_manifest_bytes_def)
qed

lemma sample_published:
  "\<exists>files l. reg_publish sample_ext sample_publication sample_registry =
     (Inr ''1.0.0'', sample_registry\<lparr>reg_lock := l, reg_entries := [(''1.0.0'', Directory files)]\<rparr>)"
proof -
  obtain files where f: "stage_files sample_manifest sample_signature ''k1'' ''npz'' = Inr files"
      "open_verified_model sample_ext (reg_keyring sample_registry) (Some (Directory files)) (Some ''1.0.0'') =
       Inr (''npz'', canon_manifest sample_manifest)"
    using sample_staged by blast
  have v: "version sample_manifest = ''1.0.0''" by (simp add: sample_manifest_def)
  have e: "reg_entries sample_registry = []" "reg_lock sample_registry = None"
    by (simp_all add: sample_registry_def)
  have "add sample_ext ''.stage-1'' (Some (RegFile ''npz'')) sample_manifest sample_signature ''k1'' sample_registry =
      (Inr (version sample_manifest), sample_registry\<lparr>reg_lock := Some (RegFile []),
         reg_entries := (version sample_manifest, Directory files) # reg_entries sample_registry\<rparr>)"
    by (rule add_run [OF _ _ _ _ sample_keyring_verify sample_artifact _ f(1), of _ _ "canon_manifest sample_manifest"])
       (simp_all add: hidden_name_def e reg_dir_def dir_entry_def lock_acquire_def verify_directory_def f(2) v)
  then show ?thesis by (auto simp: reg_publish_def sample_publication_def v e)
qed

theorem registry_immutable_witness:
  "reg_find sample_ext (publish_all sample_ext [sample_publication]
     (snd (reg_publish sample_ext sample_publication sample_registry))) ''1.0.0'' =
   Some (canon_manifest sample_manifest)"
proof -
  let ?t = "snd (reg_publish sample_ext sample_publication sample_registry)"
  have t: "reg_publish sample_ext sample_publication sample_registry = (Inr ''1.0.0'', ?t)"
    using sample_published by (auto simp: prod_eq_iff)
  have "reg_consistent sample_ext ?t"
    by (rule reg.publish_consistent [OF sample_reg_consistent sample_stage_fresh])
  moreover have "stage_fresh sample_publication ?t"
    using sample_published sample_stage_fresh by (auto simp: stage_fresh_def sample_publication_def)
  ultimately show ?thesis
    using registry_immutable [of sample_ext ?t "[sample_publication]"]
      reg_publish_find(2) [OF t sample_stage_fresh, of "''1.0.0''"]
    by (simp add: sample_publication_def)
qed

text \<open>C10: nothing unverified comes out of a registry directory. A model that
  \<^verbatim>\<open>open_verified_model\<close> yields lies in a real directory, as a regular file whose size and
  digest are those of a valid manifest, which the keyring accepts under the key id and the
  signature of the same directory, each of them a regular file within its size limit; and
  when a version is expected, it is the manifest's.\<close>

theorem open_verified_model_sound:
  assumes "open_verified_model x kr d expected = Inr (bs, m)"
  shows "manifest_valid x m \<and> int (length bs) = model_bytes m \<and> sha256_hex x bs = model_sha256 m \<and>
    (\<forall>v. expected = Some v \<longrightarrow> version m = v) \<and>
    (\<exists>es mraw sraw kraw key_id signature. d = Some (Directory es) \<and>
       dir_entry es ''model.npz'' = Some (RegFile bs) \<and>
       dir_entry es ''manifest.json'' = Some (RegFile mraw) \<and> length mraw \<le> 65536 \<and>
       dir_entry es ''signature.txt'' = Some (RegFile sraw) \<and> length sraw \<le> 4096 \<and>
       dir_entry es ''key_id.txt'' = Some (RegFile kraw) \<and> length kraw \<le> 1024 \<and>
       decode_strip sraw = Inr signature \<and> decode_strip kraw = Inr key_id \<and>
       key_id \<notin> set (revoked kr) \<and> keyring_verify x kr key_id m signature = Inr ())"
  using assms keyring_verify_valid
  by (fastforce simp: open_verified_model_Inr read_metadata_Inr keyring_verify_Inr
      max_manifest_bytes_def max_signature_bytes_def max_key_id_bytes_def)

theorem open_verified_model_sound_witness:
  "manifest_valid sample_ext (canon_manifest sample_manifest)"
  using sample_staged open_verified_model_sound by blast

end
