(* ===== verification/Health.thy ===== *)
theory Health
  imports Registry
begin

text \<open>
  \<^verbatim>\<open>src/src/edgeai/health.py\<close>: the deployment health gate. Numbers are Python's ints and
  floats, compared exactly and subtracted as Python does. NumPy's \<^verbatim>\<open>isfinite\<close> and the four
  runtimes' \<^verbatim>\<open>load\<close> are parameters; the benchmark itself is measured by the deployer's
  \<open>measure\<close> parameter, and only the batches it takes are modelled.
\<close>

section \<open>The policy\<close>

record health_policy =
  min_accuracy :: pynum
  max_accuracy_drop :: pynum
  max_ece :: pynum
  max_p95_latency_ms :: pynum
  policy_max_rss_mb :: pynum
  require_finite_logits :: bool

definition default_policy :: health_policy where
  "default_policy =
     \<lparr>min_accuracy = NFloat (float_of_decimal False 94 (- 2)),
      max_accuracy_drop = NFloat (float_of_decimal False 2 (- 2)),
      max_ece = NFloat (float_of_decimal False 20 (- 2)),
      max_p95_latency_ms = NFloat (float_of_decimal False 20 0),
      policy_max_rss_mb = NFloat (float_of_decimal False 1024 0),
      require_finite_logits = True\<rparr>"

text \<open>\<^verbatim>\<open>__post_init__\<close>; \<open>np_isfinite\<close> is NumPy's.\<close>

fun all_np_finite :: "(pynum \<Rightarrow> bool res) \<Rightarrow> pynum list \<Rightarrow> bool res" where
  "all_np_finite np [] = Inr True"
| "all_np_finite np (v # vs) = rbind (np v) (\<lambda>b. if b then all_np_finite np vs else Inr False)"

definition policy_check :: "(pynum \<Rightarrow> bool res) \<Rightarrow> health_policy \<Rightarrow> unit res" where
  "policy_check np_isfinite p =
     rbind (all_np_finite np_isfinite
       [min_accuracy p, max_accuracy_drop p, max_ece p, max_p95_latency_ms p, policy_max_rss_mb p]) (\<lambda>fin.
     rbind (guard_r fin (Exc ValueError ''health policy must be finite'')) (\<lambda>_.
     rbind (guard_r (num_le (NInt 0) (min_accuracy p) \<and> num_le (min_accuracy p) (NInt 1))
       (Exc ValueError ''min_accuracy outside [0,1]'')) (\<lambda>_.
     rbind (guard_r (num_le (NInt 0) (max_accuracy_drop p) \<and> num_le (max_accuracy_drop p) (NInt 1))
       (Exc ValueError ''max_accuracy_drop outside [0,1]'')) (\<lambda>_.
     rbind (guard_r (num_le (NInt 0) (max_ece p) \<and> num_le (max_ece p) (NInt 1))
       (Exc ValueError ''max_ece outside [0,1]'')) (\<lambda>_.
     guard_r (\<not> (num_le (max_p95_latency_ms p) (NInt 0) \<or> num_le (policy_max_rss_mb p) (NInt 0)))
       (Exc ValueError ''resource limits must be positive''))))))"

section \<open>Runtimes\<close>

datatype runtime_type = LinearModel | WeightOnlyInt8Model | DynamicInt8Model | OnnxRuntimeCPUModel

definition runtime_types :: "(pystr \<times> runtime_type) list" where
  "runtime_types =
     [(''float32-linear'', LinearModel), (''int8-weight-linear'', WeightOnlyInt8Model),
      (''int8-dynamic-linear'', DynamicInt8Model), (''onnxruntime-cpu'', OnnxRuntimeCPUModel)]"

definition type_abi :: "runtime_type \<Rightarrow> pystr" where
  "type_abi t =
     (case t of LinearModel \<Rightarrow> ''linear-v1'' | WeightOnlyInt8Model \<Rightarrow> ''linear-int8-weight-v1''
      | DynamicInt8Model \<Rightarrow> ''linear-int8-dynamic-v1'' | OnnxRuntimeCPUModel \<Rightarrow> ''onnxruntime-cpu-v1'')"

definition HGE :: "string \<Rightarrow> exc" where
  "HGE t = Exc HealthGateError t"

definition expected_runtime_abi :: "pystr \<Rightarrow> pystr res" where
  "expected_runtime_abi kind =
     rbind (of_opt (HGE ''unsupported model kind'') (map_of runtime_types kind)) (\<lambda>t. Inr (type_abi t))"

text \<open>\<open>load t source limit\<close> is the runtime class's \<^verbatim>\<open>load\<close>.\<close>

definition load_runtime ::
  "(runtime_type \<Rightarrow> bytes \<Rightarrow> int \<Rightarrow> 'r res) \<Rightarrow> bytes \<Rightarrow> pystr \<Rightarrow> pystr option \<Rightarrow> int \<Rightarrow> 'r res" where
  "load_runtime load source kind abi max_uncompressed_bytes =
     rbind (of_opt (HGE ''unsupported model kind'') (map_of runtime_types kind)) (\<lambda>t.
     rbind (guard_r (\<not> (abi \<noteq> None \<and> abi \<noteq> Some (type_abi t))) (HGE ''runtime ABI mismatch'')) (\<lambda>_.
     recast (\<lambda>e. if isinstance e HealthGateError then e else HGE ''model load rejected'')
       (load t source max_uncompressed_bytes)))"

text \<open>The first row of batch \<open>i\<close> in \<^verbatim>\<open>benchmark\<close>.\<close>

definition batch_start :: "nat \<Rightarrow> nat \<Rightarrow> nat \<Rightarrow> nat" where
  "batch_start rows batch i = (i * batch) mod (max 1 (rows + 1 - batch))"

lemma batch_in_range: "batch \<le> rows \<Longrightarrow> batch_start rows batch i + batch \<le> rows"
proof -
  assume b: "batch \<le> rows"
  have "(i * batch) mod (max 1 (rows + 1 - batch)) < max 1 (rows + 1 - batch)"
    by (rule mod_less_divisor) simp
  moreover have "max 1 (rows + 1 - batch) = rows + 1 - batch" using b by simp
  ultimately have "batch_start rows batch i < rows + 1 - batch" by (simp only: batch_start_def)
  then show ?thesis using b by linarith
qed

section \<open>The gate\<close>

definition enforce :: "health_policy \<Rightarrow> model_metrics \<Rightarrow> model_metrics option \<Rightarrow> unit res" where
  "enforce p candidate baseline =
     rbind (metrics_validate candidate) (\<lambda>_.
     rbind (guard_r (\<not> num_lt (accuracy candidate) (min_accuracy p)) (HGE ''accuracy below minimum'')) (\<lambda>_.
     rbind (case baseline of
              None \<Rightarrow> Inr ()
            | Some b \<Rightarrow> rbind (num_sub (accuracy b) (accuracy candidate)) (\<lambda>drop.
                guard_r (\<not> num_lt (max_accuracy_drop p) drop) (HGE ''accuracy regression''))) (\<lambda>_.
     rbind (guard_r (\<not> num_lt (max_ece p) (ece candidate)) (HGE ''calibration error above limit'')) (\<lambda>_.
     rbind (guard_r (\<not> num_lt (max_p95_latency_ms p) (p95_latency_ms candidate))
       (HGE ''latency above limit'')) (\<lambda>_.
     guard_r (\<not> num_lt (policy_max_rss_mb p) (max_rss_mb candidate)) (HGE ''memory above limit''))))))"

lemma num_lt_rat:
  "num_finite u \<Longrightarrow> num_finite v \<Longrightarrow> num_lt u v \<longleftrightarrow> num_rat u < num_rat v"
  by (simp add: num_lt_def num_rat_def num_finite_def float_lt_finite)

lemma enforce_Inr:
  "enforce p c b = Inr () \<longleftrightarrow>
     metrics_validate c = Inr () \<and> \<not> num_lt (accuracy c) (min_accuracy p) \<and>
     (\<forall>m. b = Some m \<longrightarrow> (\<exists>d. num_sub (accuracy m) (accuracy c) = Inr d \<and> \<not> num_lt (max_accuracy_drop p) d)) \<and>
     \<not> num_lt (max_ece p) (ece c) \<and> \<not> num_lt (max_p95_latency_ms p) (p95_latency_ms c) \<and>
     \<not> num_lt (policy_max_rss_mb p) (max_rss_mb c)"
  by (auto simp: enforce_def rbind_Inr_iff split: option.splits)

definition policy_finite :: "health_policy \<Rightarrow> bool" where
  "policy_finite p \<longleftrightarrow>
     num_finite (min_accuracy p) \<and> num_finite (max_accuracy_drop p) \<and> num_finite (max_ece p) \<and>
     num_finite (max_p95_latency_ms p) \<and> num_finite (policy_max_rss_mb p)"


definition sample_policy :: health_policy where
  "sample_policy =
     \<lparr>min_accuracy = NFloat (Fin (1 / 2)), max_accuracy_drop = NFloat (Fin (1 / 4)), max_ece = NFloat (Fin (1 / 8)),
      max_p95_latency_ms = NInt 20, policy_max_rss_mb = NInt 1024, require_finite_logits = True\<rparr>"

lemma sample_enforce: "enforce sample_policy sample_metrics (Some sample_metrics) = Inr ()"
  using sample_metrics_ok
  by (simp add: enforce_Inr) (simp add: sample_policy_def sample_metrics_def num_lt_def)


end
