(* ===== verification/RollbackAnchor.thy ===== *)
theory RollbackAnchor
  imports FileSys
begin

text \<open>
  \<^verbatim>\<open>src/src/edgeai/rollback_anchor.py\<close>: the external monotonic floor. \<open>rollback_anchor\<close> is
  the protocol class as a locale: what \<^verbatim>\<open>read_floor\<close> and \<^verbatim>\<open>advance_to\<close> promise to the
  deployer; the two implementations of the file, the one in memory and the one in a JSON
  file, are interpretations of it. The file's path, its parent directory and its lock are
  cells of \<open>file_anchor\<close>.
\<close>

section \<open>The protocol\<close>

locale rollback_anchor =
  fixes read_floor :: "('s, int) prog"
    and advance_to :: "int \<Rightarrow> ('s, int) prog"
    and provisioned :: "'s \<Rightarrow> bool"
    and floor_of :: "'s \<Rightarrow> int"
  assumes floor_range: "provisioned s \<Longrightarrow> - 1 \<le> floor_of s \<and> floor_of s \<le> max_release_sequence"
    and read_law: "provisioned s \<Longrightarrow>
      (\<exists>t. read_floor s = (Inr (floor_of s), t) \<and> provisioned t \<and> floor_of t = floor_of s)"
    and advance_law: "provisioned s \<Longrightarrow> floor_of s \<le> n \<Longrightarrow> n \<le> max_release_sequence \<Longrightarrow>
      (\<exists>t. advance_to n s = (Inr n, t) \<and> provisioned t \<and> floor_of t = n)"
    and reject_law: "provisioned s \<Longrightarrow> n < floor_of s \<or> max_release_sequence < n \<Longrightarrow>
      (\<exists>e t. advance_to n s = (Inl e, t) \<and> provisioned t \<and> floor_of t = floor_of s)"
begin

text \<open>A device's life: requests to advance, in any order, each accepted or refused.\<close>

fun requests :: "int list \<Rightarrow> 's \<Rightarrow> 's" where
  "requests [] s = s"
| "requests (n # ns) s = requests ns (snd (advance_to n s))"

definition accepted :: "int \<Rightarrow> int \<Rightarrow> int" where
  "accepted f n = (if f \<le> n \<and> n \<le> max_release_sequence then n else f)"

lemma advance_accepted:
  assumes "provisioned s"
  shows "provisioned (snd (advance_to n s)) \<and> floor_of (snd (advance_to n s)) = accepted (floor_of s) n"
proof (cases "floor_of s \<le> n \<and> n \<le> max_release_sequence")
  case True
  then show ?thesis using advance_law [OF assms, of n] by (auto simp: accepted_def)
next
  case False
  then have "n < floor_of s \<or> max_release_sequence < n" by auto
  from reject_law [OF assms this] show ?thesis using False by (auto simp: accepted_def)
qed

lemma advance_never_lowers:
  "provisioned s \<Longrightarrow> floor_of s \<le> floor_of (snd (advance_to n s))"
  by (simp add: advance_accepted accepted_def)

lemma requests_floor:
  "provisioned s \<Longrightarrow>
     provisioned (requests ns s) \<and>
     floor_of (requests ns s) = foldl accepted (floor_of s) ns"
proof (induction ns arbitrary: s)
  case (Cons n ns)
  then show ?case using advance_accepted [of s n] by simp
qed simp

text \<open>The floor is the greatest valid request so far.\<close>

lemma foldl_accepted_Max:
  "f \<le> max_release_sequence \<Longrightarrow>
     foldl accepted f ns = fold max (filter (\<lambda>n. n \<le> max_release_sequence) ns) f"
proof (induction ns arbitrary: f)
  case (Cons n ns)
  have "accepted f n \<le> max_release_sequence" using Cons.prems by (simp add: accepted_def)
  then show ?case using Cons.IH by (auto simp: accepted_def max_def)
qed simp

lemma requests_Max:
  assumes "provisioned s"
  shows "floor_of (requests ns s) =
           fold max (filter (\<lambda>n. n \<le> max_release_sequence) ns) (floor_of s)"
  using requests_floor [OF assms] foldl_accepted_Max floor_range [OF assms] by simp

lemma requests_foldl: "requests ns s = foldl (\<lambda>s n. snd (advance_to n s)) s ns"
  by (induction ns arbitrary: s) simp_all

lemma read_after_requests:
  assumes "provisioned s"
  shows "fst (read_floor (foldl (\<lambda>s n. snd (advance_to n s)) s ns)) =
           Inr (fold max (filter (\<lambda>n. n \<le> max_release_sequence) ns) (floor_of s))"
  unfolding requests_foldl [symmetric]
  using read_law [OF conjunct1 [OF requests_floor [OF assms, of ns]]] requests_Max [OF assms, of ns]
  by auto

end

section \<open>Validation\<close>

text \<open>\<^verbatim>\<open>MemoryRollbackAnchor._validate\<close> on any object.\<close>

definition anchor_validate :: "json \<Rightarrow> int res" where
  "anchor_validate v =
     (case as_int v of
        None \<Rightarrow> Inl (Exc ValueError ''rollback anchor value must be an integer in [-1, MAX]'')
      | Some i \<Rightarrow>
          if i < - 1 \<or> i > max_release_sequence
          then Inl (Exc ValueError ''rollback anchor value must be an integer in [-1, MAX]'')
          else Inr i)"

lemma anchor_validate_Inr:
  "anchor_validate v = Inr i \<longleftrightarrow> v = JInt i \<and> - 1 \<le> i \<and> i \<le> max_release_sequence"
  by (auto simp: anchor_validate_def as_Some_iff split: option.splits)

lemma anchor_validate_JInt:
  "- 1 \<le> i \<Longrightarrow> i \<le> max_release_sequence \<Longrightarrow> anchor_validate (JInt i) = Inr i"
  by (simp add: anchor_validate_Inr)

section \<open>The anchor in memory\<close>

record memory_anchor =
  anchor_value :: int

definition memory_anchor_init :: "json \<Rightarrow> memory_anchor res" where
  "memory_anchor_init initial = rbind (anchor_validate initial) (\<lambda>i. Inr \<lparr>anchor_value = i\<rparr>)"

definition memory_read_floor :: "(memory_anchor, int) prog" where
  "memory_read_floor = gets_p anchor_value"

definition memory_advance_to :: "int \<Rightarrow> (memory_anchor, int) prog" where
  "memory_advance_to n =
     bind_p (lift_r (\<lambda>_. anchor_validate (JInt n))) (\<lambda>_.
     bind_p (guard_p (\<lambda>s. \<not> n < anchor_value s)
       (Exc DeploymentError ''rollback anchor cannot decrease'')) (\<lambda>_.
     bind_p (modify_p (\<lambda>s. s\<lparr>anchor_value := n\<rparr>)) (\<lambda>_. gets_p anchor_value)))"

definition memory_ok :: "memory_anchor \<Rightarrow> bool" where
  "memory_ok s \<longleftrightarrow> - 1 \<le> anchor_value s \<and> anchor_value s \<le> max_release_sequence"

lemma memory_init_ok: "memory_anchor_init v = Inr s \<Longrightarrow> memory_ok s"
  by (auto simp: memory_anchor_init_def rbind_Inr_iff anchor_validate_Inr memory_ok_def)

interpretation memory: rollback_anchor memory_read_floor memory_advance_to memory_ok anchor_value
proof
  fix s :: memory_anchor and n :: int
  assume ok: "memory_ok s"
  show "- 1 \<le> anchor_value s \<and> anchor_value s \<le> max_release_sequence"
    using ok by (simp add: memory_ok_def)
  show "\<exists>t. memory_read_floor s = (Inr (anchor_value s), t) \<and> memory_ok t \<and> anchor_value t = anchor_value s"
    using ok by (simp add: memory_read_floor_def prog_simps)
  show "\<exists>t. memory_advance_to n s = (Inr n, t) \<and> memory_ok t \<and> anchor_value t = n"
    if "anchor_value s \<le> n" "n \<le> max_release_sequence"
    using ok that
    by (simp add: memory_advance_to_def memory_ok_def bind_p_def prog_simps anchor_validate_JInt)
  show "\<exists>e t. memory_advance_to n s = (Inl e, t) \<and> memory_ok t \<and> anchor_value t = anchor_value s"
    if "n < anchor_value s \<or> max_release_sequence < n"
    using ok that
    by (auto simp: memory_advance_to_def memory_ok_def bind_p_def prog_simps split: sum.splits)
       (auto simp: anchor_validate_Inr)
qed

section \<open>The anchor in a file\<close>

record file_anchor =
  anchor_parent :: "fsnode option"
  anchor_path :: "fsnode option"
  anchor_lock :: "fsnode option"

definition max_anchor_bytes :: nat where
  "max_anchor_bytes = 4096"

definition anchor_payload :: "int \<Rightarrow> json" where
  "anchor_payload i = JObj [(''schema_version'', JInt 1), (''floor'', JInt i)]"

text \<open>The file's bytes, as \<^verbatim>\<open>_read\<close> parses them.\<close>

definition parse_anchor :: "json \<Rightarrow> int res" where
  "parse_anchor data =
     (case as_obj data of
        None \<Rightarrow> Inl (Exc DeploymentError ''invalid rollback anchor structure'')
      | Some kvs \<Rightarrow>
          rbind (guard_r (has_fields kvs [''floor'', ''schema_version''])
            (Exc DeploymentError ''invalid rollback anchor structure'')) (\<lambda>_.
          rbind (guard_r (py_eq (jfield kvs ''schema_version'') (JInt 1))
            (Exc DeploymentError ''unsupported rollback anchor schema'')) (\<lambda>_.
          recast (\<lambda>e. Exc DeploymentError (exc_msg e)) (anchor_validate (jfield kvs ''floor'')))))"

definition anchor_bytes_read :: "bytes \<Rightarrow> int res" where
  "anchor_bytes_read raw =
     rbind (guard_r (\<not> length raw > max_anchor_bytes)
       (Exc DeploymentError ''rollback anchor exceeds size limit'')) (\<lambda>_.
     rbind (recast (\<lambda>e. Exc DeploymentError ''invalid rollback anchor'') (loads_bytes raw))
       parse_anchor)"

definition anchor_read :: "fsnode option \<Rightarrow> int res" where
  "anchor_read path =
     rbind (guard_r (\<not> is_symlink path)
       (Exc DeploymentError ''rollback anchor path must not be a symlink'')) (\<lambda>_.
     rbind (recast (\<lambda>e. Exc DeploymentError ''rollback anchor cannot be opened safely'')
       (open_nofollow path)) (\<lambda>node.
     rbind (of_opt (Exc DeploymentError ''rollback anchor is not a regular file'')
       (file_bytes node)) (\<lambda>bs.
     anchor_bytes_read (take (max_anchor_bytes + 1) bs))))"

definition file_read :: "(file_anchor, int) prog" where
  "file_read = lift_r (\<lambda>s. anchor_read (anchor_path s))"

definition file_write :: "int \<Rightarrow> (file_anchor, unit) prog" where
  "file_write i =
     bind_p (lift_r (\<lambda>s. rbind (canonical_json_bytes (anchor_payload i)) (\<lambda>bs.
         write_node (anchor_path s) (bs @ [newline])))) (\<lambda>node.
     modify_p (\<lambda>s. s\<lparr>anchor_path := Some node\<rparr>))"

definition file_locked :: "(file_anchor, 'a) prog \<Rightarrow> (file_anchor, 'a) prog" where
  "file_locked p =
     bind_p (lift_r (\<lambda>s. lock_acquire (anchor_lock s))) (\<lambda>node.
     bind_p (modify_p (\<lambda>s. s\<lparr>anchor_lock := Some node\<rparr>)) (\<lambda>_. p))"

definition file_anchor_init :: "json \<Rightarrow> (file_anchor, unit) prog" where
  "file_anchor_init initial =
     bind_p (lift_r (\<lambda>_. anchor_validate initial)) (\<lambda>i.
     bind_p (lift_r (\<lambda>s. mkdir_node (anchor_parent s))) (\<lambda>dir.
     bind_p (modify_p (\<lambda>s. s\<lparr>anchor_parent := Some dir\<rparr>)) (\<lambda>_.
     bind_p (guard_p (\<lambda>s. \<not> (is_symlink (anchor_parent s) \<or> \<not> is_dir (anchor_parent s)))
       (Exc ValueError ''rollback anchor parent must be a regular directory'')) (\<lambda>_.
     file_locked (
       bind_p (gets_p (\<lambda>s. \<not> path_exists (anchor_path s) \<and> \<not> is_symlink (anchor_path s))) (\<lambda>fresh.
       bind_p (if fresh then file_write i else ret ()) (\<lambda>_.
       bind_p file_read (\<lambda>_. ret ()))))))))"

definition file_read_floor :: "(file_anchor, int) prog" where
  "file_read_floor = file_locked file_read"

definition file_advance_to :: "int \<Rightarrow> (file_anchor, int) prog" where
  "file_advance_to n =
     bind_p (lift_r (\<lambda>_. anchor_validate (JInt n))) (\<lambda>_.
     file_locked (
       bind_p file_read (\<lambda>current.
       bind_p (guard_p (\<lambda>_. \<not> n < current)
         (Exc DeploymentError ''rollback anchor cannot decrease'')) (\<lambda>_.
       bind_p (if n > current then file_write n else ret ()) (\<lambda>_. ret n)))))"

subsection \<open>Writing and reading back\<close>

definition anchor_text :: "int \<Rightarrow> string" where
  "anchor_text i =
     CHR ''{'' # dquote # ''floor'' @ dquote # CHR '':'' # int_str i @
     CHR '','' # dquote # ''schema_version'' @ dquote # '':1}''"

lemma anchor_canon: "canon (anchor_payload i) = JObj [(''floor'', JInt i), (''schema_version'', JInt 1)]"
  by (simp add: anchor_payload_def sort_key_def)

lemma anchor_payload_bytes:
  assumes "- 1 \<le> i" "i \<le> max_release_sequence"
  shows "canonical_json_bytes (anchor_payload i) = Inr (anchor_text i)"
proof -
  have "ascii (anchor_text i)"
    using int_str_ascii [of i] by (auto simp: anchor_text_def ascii_def byte_of_def)
  moreover have "json_ok (anchor_payload i)"
    using release_digits [OF assms] by (simp add: anchor_payload_def nat_str_one)
  moreover have "json_text False (canon (anchor_payload i)) = anchor_text i"
    by (simp add: anchor_canon anchor_text_def str_text_def str_body_def esc_char_def byte_of_def int_str_one)
  ultimately show ?thesis
    by (simp add: canonical_json_bytes_Inr ascii_utf8_ok)
qed

lemma anchor_text_length:
  assumes "- 1 \<le> i" "i \<le> max_release_sequence"
  shows "length (anchor_text i) \<le> 60"
  using release_digits [OF assms] int_str_length [of i] by (simp add: anchor_text_def)

lemma anchor_read_written:
  assumes "- 1 \<le> i" "i \<le> max_release_sequence"
  shows "anchor_read (Some (RegFile (anchor_text i @ [newline]))) = Inr i"
proof -
  have "json_rt False (anchor_payload i)"
    using release_digits [OF assms] by (simp add: anchor_payload_def str_rt_def nat_str_one)
  then have l: "loads_bytes (anchor_text i @ [newline]) = Inr (canon (anchor_payload i))"
    by (rule loads_canonical [OF anchor_payload_bytes [OF assms]]) simp
  have "parse_anchor (canon (anchor_payload i)) = Inr i"
    using assms by (simp add: anchor_canon parse_anchor_def has_fields_def jfield_def anchor_validate_JInt insert_commute)
  then show ?thesis using l anchor_text_length [OF assms]
    by (simp add: anchor_read_def open_nofollow_def file_bytes_def anchor_bytes_read_def max_anchor_bytes_def)
qed

text \<open>
  The anchor is provisioned when its lock can be taken and its file reads as a floor.
\<close>

definition file_ok :: "file_anchor \<Rightarrow> bool" where
  "file_ok s \<longleftrightarrow>
     (\<exists>n. lock_acquire (anchor_lock s) = Inr n) \<and> (\<exists>i. anchor_read (anchor_path s) = Inr i)"

definition file_floor :: "file_anchor \<Rightarrow> int" where
  "file_floor s = (case anchor_read (anchor_path s) of Inr i \<Rightarrow> i | Inl _ \<Rightarrow> - 1)"

lemma anchor_read_range: "anchor_read p = Inr i \<Longrightarrow> - 1 \<le> i \<and> i \<le> max_release_sequence"
  by (auto simp: anchor_read_def anchor_bytes_read_def parse_anchor_def rbind_Inr_iff
      anchor_validate_Inr split: option.splits)

lemma anchor_read_regular: "anchor_read p = Inr i \<Longrightarrow> \<exists>bs. p = Some (RegFile bs)"
  by (auto simp: anchor_read_def rbind_Inr_iff open_nofollow_Inr file_bytes_Some)

lemma lock_again: "lock_acquire n = Inr m \<Longrightarrow> lock_acquire (Some m) = Inr m"
  by (auto simp: lock_acquire_Inr)

lemma file_write_run:
  assumes "- 1 \<le> i" "i \<le> max_release_sequence" "\<not> is_dir (anchor_path s) \<or> is_symlink (anchor_path s)"
  shows "file_write i s = (Inr (), s\<lparr>anchor_path := Some (RegFile (anchor_text i @ [newline]))\<rparr>)"
proof -
  have "write_node (anchor_path s) bs = Inr (RegFile bs)" for bs
    using assms(3) by (auto simp: write_node_def split: option.splits fsnode.splits)
  then show ?thesis
    using anchor_payload_bytes [OF assms(1,2)] by (simp add: file_write_def bind_p_def prog_simps)
qed

interpretation filed: rollback_anchor file_read_floor file_advance_to file_ok file_floor
proof
  fix s :: file_anchor and n :: int
  assume ok: "file_ok s"
  then obtain l i where l: "lock_acquire (anchor_lock s) = Inr l" and i: "anchor_read (anchor_path s) = Inr i"
    by (auto simp: file_ok_def)
  obtain bs where bs: "anchor_path s = Some (RegFile bs)" using anchor_read_regular [OF i] by blast
  note range = anchor_read_range [OF i]
  show "- 1 \<le> file_floor s \<and> file_floor s \<le> max_release_sequence"
    using range i by (simp add: file_floor_def)
  show "\<exists>t. file_read_floor s = (Inr (file_floor s), t) \<and> file_ok t \<and> file_floor t = file_floor s"
    using l i lock_again [OF l]
    by (simp add: file_read_floor_def file_locked_def file_read_def bind_p_def prog_simps
        file_ok_def file_floor_def)
  show "\<exists>t. file_advance_to n s = (Inr n, t) \<and> file_ok t \<and> file_floor t = n"
    if n: "file_floor s \<le> n" "n \<le> max_release_sequence"
  proof -
    have "- 1 \<le> n" "i \<le> n" using n(1) range i by (simp_all add: file_floor_def)
    then show ?thesis
      using l i n(2) lock_again [OF l] bs
      by (auto simp: file_advance_to_def file_locked_def file_read_def bind_p_def prog_simps
          anchor_validate_JInt file_write_run file_ok_def file_floor_def anchor_read_written)
  qed
  show "\<exists>e t. file_advance_to n s = (Inl e, t) \<and> file_ok t \<and> file_floor t = file_floor s"
    if n: "n < file_floor s \<or> max_release_sequence < n"
  proof (cases "anchor_validate (JInt n)")
    case (Inl e)
    then show ?thesis using ok by (simp add: file_advance_to_def bind_p_def prog_simps)
  next
    case (Inr k)
    then have "n < i" using n i by (auto simp: anchor_validate_Inr file_floor_def)
    then show ?thesis
      using Inr l i lock_again [OF l]
      by (simp add: file_advance_to_def file_locked_def file_read_def bind_p_def prog_simps
          file_ok_def file_floor_def)
  qed
qed

section \<open>What the file anchor promises\<close>

lemma file_ok_written:
  assumes "- 1 \<le> i" "i \<le> max_release_sequence" "lock_acquire l = Inr m"
  shows "file_ok \<lparr>anchor_parent = p, anchor_path = Some (RegFile (anchor_text i @ [newline])), anchor_lock = l\<rparr>"
    and "file_floor \<lparr>anchor_parent = p, anchor_path = Some (RegFile (anchor_text i @ [newline])), anchor_lock = l\<rparr> = i"
  using anchor_read_written [OF assms(1,2)] assms(3) by (simp_all add: file_ok_def file_floor_def)

text \<open>C11: the file anchor is a monotonic counter. After any sequence of requests to advance, valid
  or not, in any order, \<^verbatim>\<open>read_floor\<close> returns the greatest valid request made so far, or the
  floor it started with when that is greater.\<close>

theorem file_anchor_monotonic:
  assumes "file_ok s"
  shows "fst (file_read_floor (foldl (\<lambda>s n. snd (file_advance_to n s)) s ns)) =
           Inr (fold max (filter (\<lambda>n. n \<le> max_release_sequence) ns) (file_floor s))"
  by (rule filed.read_after_requests [OF assms])

definition sample_anchor :: file_anchor where
  "sample_anchor =
     \<lparr>anchor_parent = Some (Directory []), anchor_path = Some (RegFile (anchor_text 3 @ [newline])),
      anchor_lock = None\<rparr>"

lemma sample_anchor_ok: "file_ok sample_anchor" "file_floor sample_anchor = 3"
  using file_ok_written [of 3 None] by (simp_all add: sample_anchor_def max_release_sequence_def lock_acquire_def)

theorem file_anchor_monotonic_witness:
  "fst (file_read_floor (foldl (\<lambda>s n. snd (file_advance_to n s)) sample_anchor [5, 2, 9, - 7, 2 ^ 63])) = Inr 9"
  using file_anchor_monotonic [OF sample_anchor_ok(1), of "[5, 2, 9, - 7, 2 ^ 63]"]
  by (simp add: sample_anchor_ok(2) max_release_sequence_def)

text \<open>Opening a file anchor. The constructor returns only with an anchor that can be read, a
  path that held nothing then holds the initial floor, and an anchor that was readable keeps
  its floor, whatever initial value the caller passes.\<close>

theorem file_anchor_opens:
  assumes "file_anchor_init (JInt i) s = (Inr (), t)"
  shows "file_ok t \<and>
    (anchor_path s = None \<longrightarrow> file_floor t = i) \<and>
    (\<forall>k. anchor_read (anchor_path s) = Inr k \<longrightarrow> file_floor t = k)"
proof -
  obtain d l k where l: "lock_acquire (anchor_lock s) = Inr l"
    and r: "- 1 \<le> i" "i \<le> max_release_sequence"
    and step: "(if \<not> path_exists (anchor_path s) \<and> \<not> is_symlink (anchor_path s) then file_write i else ret ())
        (s\<lparr>anchor_parent := Some d, anchor_lock := Some l\<rparr>) = (Inr (), t)"
    and k: "anchor_read (anchor_path t) = Inr k"
    using assms
    by (auto simp: file_anchor_init_def file_locked_def file_read_def bind_p_Inr prog_simps
        anchor_validate_Inr)
  show ?thesis
  proof (cases "anchor_path s = None")
    case True
    then have "t = s\<lparr>anchor_parent := Some d, anchor_lock := Some l,
        anchor_path := Some (RegFile (anchor_text i @ [newline]))\<rparr>"
      using step r by (simp add: file_write_run)
    then show ?thesis using lock_again [OF l] True anchor_read_written [OF r]
      by (simp add: file_ok_def file_floor_def anchor_read_def open_nofollow_def)
  next
    case False
    then have "t = s\<lparr>anchor_parent := Some d, anchor_lock := Some l\<rparr>"
      using step nothing_there [of "anchor_path s"] by (auto simp: prog_simps split: if_splits)
    then show ?thesis using lock_again [OF l] False k by (auto simp: file_ok_def file_floor_def)
  qed
qed

theorem file_anchor_opens_witness:
  "file_floor (snd (file_anchor_init (JInt 7) \<lparr>anchor_parent = None, anchor_path = None, anchor_lock = None\<rparr>)) = 7"
proof -
  let ?s = "\<lparr>anchor_parent = None, anchor_path = None, anchor_lock = None\<rparr> :: file_anchor"
  have "fst (file_anchor_init (JInt 7) ?s) = Inr ()"
    by (simp add: file_anchor_init_def file_locked_def file_read_def bind_p_def prog_simps
        anchor_validate_JInt max_release_sequence_def mkdir_node_def lock_acquire_def
        file_write_run anchor_read_written)
  then have "file_anchor_init (JInt 7) ?s = (Inr (), snd (file_anchor_init (JInt 7) ?s))"
    by (simp add: prod_eq_iff)
  from file_anchor_opens [OF this] show ?thesis by simp
qed

end
