(* ===== verification/DeployState.thy ===== *)
theory DeployState
  imports Health RollbackAnchor
begin

text \<open>
  The records of \<^verbatim>\<open>src/src/edgeai/deploy.py\<close> as JSON: \<^verbatim>\<open>state.json\<close> (\<^verbatim>\<open>_parse_state\<close>) and
  the anchor journal \<^verbatim>\<open>.pending-anchor-commit.json\<close> (\<^verbatim>\<open>_parse_pending_anchor\<close>), with every
  check in the code's order, what a valid state is, and the round trips through bytes.
\<close>

section \<open>Parsing the state\<close>

definition DE :: "string \<Rightarrow> exc" where
  "DE t = Exc DeploymentError t"

definition unhashable :: exc where
  "unhashable = Exc TypeError ''unhashable type''"

text \<open>\<^verbatim>\<open>v in _VALID_SLOTS\<close> and \<^verbatim>\<open>v in _VALID_STATUSES\<close> on any value: a list or an object raises.\<close>

definition check_slot :: "string \<Rightarrow> json \<Rightarrow> slot res" where
  "check_slot msg v =
     (case v of
        JStr t \<Rightarrow> of_opt (DE msg) (slot_of_name t)
      | JList _ \<Rightarrow> Inl unhashable
      | JObj _ \<Rightarrow> Inl unhashable
      | _ \<Rightarrow> Inl (DE msg))"

definition check_slot_opt :: "string \<Rightarrow> json \<Rightarrow> slot option res" where
  "check_slot_opt msg v =
     (case v of JNull \<Rightarrow> Inr None | _ \<Rightarrow> rbind (check_slot msg v) (\<lambda>s. Inr (Some s)))"

definition check_status :: "json \<Rightarrow> deployment_status res" where
  "check_status v =
     (case v of
        JStr t \<Rightarrow> of_opt (DE ''invalid deployment status'') (status_of_value t)
      | JList _ \<Rightarrow> Inl unhashable
      | JObj _ \<Rightarrow> Inl unhashable
      | _ \<Rightarrow> Inl (DE ''invalid deployment status''))"

definition check_version :: "string \<Rightarrow> json \<Rightarrow> pystr option res" where
  "check_version msg v =
     (case v of
        JNull \<Rightarrow> Inr None
      | _ \<Rightarrow> except_r [TypeError, ValueError] (\<lambda>e. DE msg)
               (rbind (safe_version_json v) (\<lambda>t. Inr (Some t))))"

definition check_bounded :: "string \<Rightarrow> (int \<Rightarrow> bool) \<Rightarrow> json \<Rightarrow> int res" where
  "check_bounded msg P v =
     (case as_int v of None \<Rightarrow> Inl (DE msg) | Some i \<Rightarrow> if P i then Inr i else Inl (DE msg))"

definition max_error_chars :: nat where
  "max_error_chars = 4096"

definition check_error :: "json \<Rightarrow> pystr option res" where
  "check_error v =
     (case v of
        JNull \<Rightarrow> Inr None
      | JStr t \<Rightarrow> if py_len t > max_error_chars
                  then Inl (DE ''deployment error field exceeds size limit'') else Inr (Some t)
      | _ \<Rightarrow> Inl (DE ''invalid deployment error field''))"

definition state_fields :: "pystr list" where
  "state_fields =
     [''generation'', ''active_slot'', ''previous_slot'', ''slots'', ''highest_release_sequence'',
      ''status'', ''last_error'']"

definition opt_list :: "'a option \<Rightarrow> 'a list" where
  "opt_list x = (case x of None \<Rightarrow> [] | Some y \<Rightarrow> [y])"

text \<open>\<^verbatim>\<open>{slot for slot, version in slots.items() if version is not None}\<close>.\<close>

definition populated :: "(slot \<Rightarrow> pystr option) \<Rightarrow> slot list" where
  "populated sl = filter (\<lambda>s. sl s \<noteq> None) [SlotA, SlotB]"

definition check_slots :: "slot option \<Rightarrow> slot option \<Rightarrow> (slot \<Rightarrow> pystr option) \<Rightarrow> unit res" where
  "check_slots active previous sl =
     rbind (guard_r (\<not> (\<exists>a \<in> set (opt_list active). sl a = None)) (DE ''active slot has no version'')) (\<lambda>_.
     rbind (guard_r (\<not> (\<exists>p \<in> set (opt_list previous). sl p = None)) (DE ''previous slot has no version'')) (\<lambda>_.
     rbind (guard_r (\<not> (active = None \<and> populated sl \<noteq> []))
       (DE ''deployment state has slot data but no active slot'')) (\<lambda>_.
     guard_r (\<not> (active \<noteq> None \<and> \<not> set (populated sl) \<subseteq> set (opt_list active) \<union> set (opt_list previous)))
       (DE ''populated slot is not active or previous''))))"

definition parse_state :: "json \<Rightarrow> deployment_state res" where
  "parse_state data =
     rbind (of_opt (DE ''deployment state must be a JSON object'') (as_obj data)) (\<lambda>kvs.
     rbind (guard_r (has_fields kvs state_fields)
       (DE ''deployment state has missing or unknown fields'')) (\<lambda>_.
     rbind (check_bounded ''invalid deployment generation'' (\<lambda>i. \<not> i < 0) (jfield kvs ''generation'')) (\<lambda>gen.
     rbind (check_bounded ''invalid anti-rollback floor''
       (\<lambda>i. \<not> (i < - 1 \<or> i > max_release_sequence)) (jfield kvs ''highest_release_sequence'')) (\<lambda>flr.
     rbind (check_slot_opt ''invalid active slot'' (jfield kvs ''active_slot'')) (\<lambda>active.
     rbind (check_slot_opt ''invalid previous slot'' (jfield kvs ''previous_slot'')) (\<lambda>previous.
     rbind (guard_r (\<not> (active \<noteq> None \<and> active = previous))
       (DE ''active and previous slots must differ'')) (\<lambda>_.
     rbind (of_opt (DE ''deployment slots must contain exactly A and B'') (as_obj (jfield kvs ''slots''))) (\<lambda>sl.
     rbind (guard_r (has_fields sl [''A'', ''B''])
       (DE ''deployment slots must contain exactly A and B'')) (\<lambda>_.
     rbind (check_version ''invalid version in slot A'' (jfield sl ''A'')) (\<lambda>va.
     rbind (check_version ''invalid version in slot B'' (jfield sl ''B'')) (\<lambda>vb.
     let slotf = (\<lambda>s. case s of SlotA \<Rightarrow> va | SlotB \<Rightarrow> vb)
     in rbind (check_slots active previous slotf) (\<lambda>_.
     rbind (check_status (jfield kvs ''status'')) (\<lambda>st.
     rbind (check_error (jfield kvs ''last_error'')) (\<lambda>err.
     Inr \<lparr>generation = gen, active_slot = active, previous_slot = previous, slots = slotf,
          highest_release_sequence = flr, status = st, last_error = err\<rparr>))))))))))))))"

section \<open>Valid states\<close>

definition state_valid :: "deployment_state \<Rightarrow> bool" where
  "state_valid s \<longleftrightarrow>
     0 \<le> generation s \<and>
     - 1 \<le> highest_release_sequence s \<and> highest_release_sequence s \<le> max_release_sequence \<and>
     \<not> (active_slot s \<noteq> None \<and> active_slot s = previous_slot s) \<and>
     (\<forall>sl v. slots s sl = Some v \<longrightarrow> semver_match v) \<and>
     (\<forall>a. active_slot s = Some a \<longrightarrow> slots s a \<noteq> None) \<and>
     (\<forall>p. previous_slot s = Some p \<longrightarrow> slots s p \<noteq> None) \<and>
     (active_slot s = None \<longrightarrow> (\<forall>sl. slots s sl = None)) \<and>
     (\<forall>sl. slots s sl \<noteq> None \<longrightarrow> active_slot s = Some sl \<or> previous_slot s = Some sl) \<and>
     (\<forall>e. last_error s = Some e \<longrightarrow> py_len e \<le> max_error_chars)"

lemma check_slot_opt_Inr:
  "check_slot_opt msg v = Inr s \<longleftrightarrow> v = opt_json (map_option slot_name s)"
  by (cases s; cases v)
     (auto simp: check_slot_opt_def check_slot_def opt_json_def rbind_Inr_iff slot_of_name_Some_iff)

lemma check_status_Inr: "check_status v = Inr s \<longleftrightarrow> v = JStr (status_value s)"
  by (cases v) (auto simp: check_status_def dest: status_of_value_Some)

lemma check_version_Inr:
  "check_version msg v = Inr t \<longleftrightarrow> v = opt_json t \<and> (\<forall>w. t = Some w \<longrightarrow> semver_match w)"
  by (cases v; cases t)
     (auto simp: check_version_def opt_json_def rbind_Inr_iff safe_version_json_Inr)

lemma check_bounded_Inr: "check_bounded msg P v = Inr i \<longleftrightarrow> v = JInt i \<and> P i"
  by (auto simp: check_bounded_def as_Some_iff split: option.splits)

lemma check_error_Inr:
  "check_error v = Inr t \<longleftrightarrow> v = opt_json t \<and> (\<forall>e. t = Some e \<longrightarrow> py_len e \<le> max_error_chars)"
  by (cases v; cases t) (auto simp: check_error_def opt_json_def)

lemma set_populated: "set (populated sl) = {s. sl s \<noteq> None}"
proof -
  have "s \<in> set (populated sl) \<longleftrightarrow> sl s \<noteq> None" for s
    by (cases s) (auto simp: populated_def)
  then show ?thesis by blast
qed

lemma populated_empty: "populated sl = [] \<longleftrightarrow> (\<forall>s. sl s = None)"
  using set_populated [of sl] by (metis (mono_tags, lifting) empty_Collect_eq set_empty)

lemma opt_list_iff: "x \<in> set (opt_list y) \<longleftrightarrow> y = Some x"
  by (cases y) (auto simp: opt_list_def)

lemma check_slots_Inr:
  "check_slots a p sl = Inr () \<longleftrightarrow>
     (\<forall>s. a = Some s \<longrightarrow> sl s \<noteq> None) \<and> (\<forall>s. p = Some s \<longrightarrow> sl s \<noteq> None) \<and>
     (a = None \<longrightarrow> (\<forall>s. sl s = None)) \<and> (\<forall>s. sl s \<noteq> None \<longrightarrow> a = Some s \<or> p = Some s)"
proof (cases "a = None")
  case True
  then show ?thesis
    by (auto simp: check_slots_def rbind_Inr_iff populated_empty opt_list_iff Bex_def)
next
  case False
  have "set (populated sl) \<subseteq> set (opt_list a) \<union> set (opt_list p) \<longleftrightarrow>
      (\<forall>s. sl s \<noteq> None \<longrightarrow> a = Some s \<or> p = Some s)"
    unfolding set_populated subset_iff Un_iff opt_list_iff mem_Collect_eq ..
  moreover have "(\<exists>s \<in> set (opt_list q). sl s = None) \<longleftrightarrow> \<not> (\<forall>s. q = Some s \<longrightarrow> sl s \<noteq> None)" for q
    unfolding Bex_def opt_list_iff by (simp only: not_all not_imp not_not)
  ultimately show ?thesis using False
    by (simp only: check_slots_def rbind_Inr_iff guard_r_simps not_not simp_thms ex_simps
        sum.inject old.unit.exhaust)
qed

lemma slots_eta: "(\<lambda>s. case s of SlotA \<Rightarrow> f SlotA | SlotB \<Rightarrow> f SlotB) = f"
  by (rule ext) (simp split: slot.splits)

text \<open>Reading a state object gives valid states only, and gives back every one of them.\<close>

lemma parse_state_parts:
  assumes "parse_state data = Inr s"
  obtains kvs sl where "data = JObj kvs" "has_fields kvs state_fields"
    "jfield kvs ''generation'' = JInt (generation s)"
    "jfield kvs ''highest_release_sequence'' = JInt (highest_release_sequence s)"
    "jfield kvs ''active_slot'' = opt_json (map_option slot_name (active_slot s))"
    "jfield kvs ''previous_slot'' = opt_json (map_option slot_name (previous_slot s))"
    "jfield kvs ''slots'' = JObj sl" "has_fields sl [''A'', ''B'']"
    "jfield sl ''A'' = opt_json (slots s SlotA)" "jfield sl ''B'' = opt_json (slots s SlotB)"
    "jfield kvs ''status'' = JStr (status_value (status s))"
    "jfield kvs ''last_error'' = opt_json (last_error s)"
    "state_valid s"
proof -
  obtain kvs gen flr active previous sl va vb st err where
    k: "data = JObj kvs" "has_fields kvs state_fields"
    and f: "check_bounded ''invalid deployment generation'' (\<lambda>i. \<not> i < 0) (jfield kvs ''generation'') = Inr gen"
      "check_bounded ''invalid anti-rollback floor''
         (\<lambda>i. \<not> (i < - 1 \<or> i > max_release_sequence)) (jfield kvs ''highest_release_sequence'') = Inr flr"
      "check_slot_opt ''invalid active slot'' (jfield kvs ''active_slot'') = Inr active"
      "check_slot_opt ''invalid previous slot'' (jfield kvs ''previous_slot'') = Inr previous"
      "\<not> (active \<noteq> None \<and> active = previous)"
      "jfield kvs ''slots'' = JObj sl" "has_fields sl [''A'', ''B'']"
      "check_version ''invalid version in slot A'' (jfield sl ''A'') = Inr va"
      "check_version ''invalid version in slot B'' (jfield sl ''B'') = Inr vb"
      "check_slots active previous (\<lambda>s. case s of SlotA \<Rightarrow> va | SlotB \<Rightarrow> vb) = Inr ()"
      "check_status (jfield kvs ''status'') = Inr st"
      "check_error (jfield kvs ''last_error'') = Inr err"
    and s: "s = \<lparr>generation = gen, active_slot = active, previous_slot = previous,
        slots = (\<lambda>s. case s of SlotA \<Rightarrow> va | SlotB \<Rightarrow> vb),
        highest_release_sequence = flr, status = st, last_error = err\<rparr>"
    using assms unfolding parse_state_def
    by (elim rbind_InrE) (auto simp: Let_def as_Some_iff elim!: rbind_InrE)
  have "state_valid s"
    using f unfolding s state_valid_def check_slots_Inr
    by (auto simp: check_bounded_Inr check_version_Inr check_error_Inr split: slot.splits)
  then show thesis
    using that [of kvs sl] k f s
    by (simp add: check_bounded_Inr check_slot_opt_Inr check_version_Inr check_status_Inr check_error_Inr)
qed

lemma parse_state_valid: "parse_state data = Inr s \<Longrightarrow> state_valid s"
  by (elim parse_state_parts)

lemma parse_state_fields:
  assumes "has_fields kvs state_fields"
    "jfield kvs ''generation'' = JInt (generation s)"
    "jfield kvs ''highest_release_sequence'' = JInt (highest_release_sequence s)"
    "jfield kvs ''active_slot'' = opt_json (map_option slot_name (active_slot s))"
    "jfield kvs ''previous_slot'' = opt_json (map_option slot_name (previous_slot s))"
    "jfield kvs ''slots'' = JObj sl" "has_fields sl [''A'', ''B'']"
    "jfield sl ''A'' = opt_json (slots s SlotA)" "jfield sl ''B'' = opt_json (slots s SlotB)"
    "jfield kvs ''status'' = JStr (status_value (status s))"
    "jfield kvs ''last_error'' = opt_json (last_error s)"
    "state_valid s"
  shows "parse_state (JObj kvs) = Inr s"
proof -
  note v = assms(12)[unfolded state_valid_def]
  have "check_bounded ''invalid deployment generation'' (\<lambda>i. \<not> i < 0) (jfield kvs ''generation'') = Inr (generation s)"
    using assms v by (simp add: check_bounded_Inr)
  moreover have "check_bounded ''invalid anti-rollback floor''
       (\<lambda>i. \<not> (i < - 1 \<or> i > max_release_sequence)) (jfield kvs ''highest_release_sequence'') =
       Inr (highest_release_sequence s)"
    using assms v by (simp add: check_bounded_Inr)
  moreover have "check_slot_opt msg (jfield kvs ''active_slot'') = Inr (active_slot s)"
      "check_slot_opt msg (jfield kvs ''previous_slot'') = Inr (previous_slot s)" for msg
    using assms by (simp_all add: check_slot_opt_Inr)
  moreover have "check_version msg (jfield sl ''A'') = Inr (slots s SlotA)"
      "check_version msg (jfield sl ''B'') = Inr (slots s SlotB)" for msg
    using assms v by (simp_all add: check_version_Inr)
  moreover have "check_slots (active_slot s) (previous_slot s) (slots s) = Inr ()"
    using v by (simp add: check_slots_Inr)
  moreover have "check_status (jfield kvs ''status'') = Inr (status s)"
    using assms by (simp add: check_status_Inr)
  moreover have "check_error (jfield kvs ''last_error'') = Inr (last_error s)"
    using assms v by (simp add: check_error_Inr)
  ultimately show ?thesis
    using assms(1,6,7) v by (simp add: parse_state_def slots_eta)
qed

lemma parse_state_to_dict: "state_valid s \<Longrightarrow> parse_state (state_to_dict s) = Inr s"
  unfolding state_to_dict_def
  by (rule parse_state_fields [where sl = "[(''A'', opt_json (slots s SlotA)), (''B'', opt_json (slots s SlotB))]"])
     (simp_all add: has_fields_def state_fields_def jfield_def insert_commute)

lemma canon_opt_json [simp]: "canon (opt_json t) = opt_json t"
  by (cases t) (simp_all add: opt_json_def)

lemma parse_state_canon: "state_valid s \<Longrightarrow> parse_state (canon (state_to_dict s)) = Inr s"
  unfolding state_to_dict_def
  by (simp only: canon.simps, rule parse_state_fields [where sl = "[(''A'', opt_json (slots s SlotA)), (''B'', opt_json (slots s SlotB))]"])
     (simp_all add: has_fields_def state_fields_def jfield_def insert_commute sort_key_def)

section \<open>The state through bytes\<close>

definition max_state_bytes :: nat where
  "max_state_bytes = 64 * 1024"

text \<open>What \<^verbatim>\<open>_read\<close> does with the bytes, and what \<^verbatim>\<open>_write\<close> hands to \<^verbatim>\<open>atomic_write\<close>.\<close>

definition deploy_errors :: "string \<Rightarrow> 'a res \<Rightarrow> 'a res" where
  "deploy_errors msg = recast (\<lambda>e. if isinstance e DeploymentError then e else DE msg)"

definition state_from_bytes :: "bytes \<Rightarrow> deployment_state res" where
  "state_from_bytes raw =
     rbind (guard_r (\<not> length raw > max_state_bytes) (DE ''deployment state exceeds size limit'')) (\<lambda>_.
     deploy_errors ''invalid deployment state'' (rbind (loads_bytes raw) parse_state))"

definition state_to_bytes :: "deployment_state \<Rightarrow> bytes res" where
  "state_to_bytes s =
     rbind (parse_state (state_to_dict s)) (\<lambda>_.
     rbind (canonical_json_bytes (state_to_dict s)) (\<lambda>bs. Inr (bs @ [newline])))"

text \<open>
  What a state needs to be written and read: its texts are proper Unicode, its generation
  is below \<open>10 ^ 19\<close>, and the bytes stay within the reader's limit (the versions are the only
  part without a bound of their own).
\<close>

definition state_storable :: "deployment_state \<Rightarrow> bool" where
  "state_storable s \<longleftrightarrow>
     generation s < 10 ^ 19 \<and> (\<forall>e. last_error s = Some e \<longrightarrow> utf8_ok e) \<and>
     length (json_text False (canon (state_to_dict s))) < max_state_bytes"

lemma is_nd_unicode: "is_nd n \<Longrightarrow> n < 1114112 \<and> \<not> (55296 \<le> n \<and> n < 57344)"
  by (auto simp: is_nd_def nd_zeros_def)

lemma semver_utf8:
  assumes "semver_match v"
  shows "utf8_ok v"
proof -
  obtain cs where cs: "utf8_decode True (map byte_of v) = Some cs" "code_points v = cs"
    using semver_match_cps(2) [OF assms] by (auto simp: code_points_def split: option.splits)
  have v: "v = concat (map chr_str cs)"
    using chr_str_code_points [of v] cs by (simp add: str_ok_def)
  have "utf8_ok (chr_str n)" if "n \<in> set cs" for n
  proof -
    have "semver_cp n" using semver_match_cps(1) [OF assms] cs that by simp
    then show ?thesis using is_nd_unicode [of n]
      by (intro utf8_ok_chr_str) (auto simp: semver_cp_def is_suffix_cp_def)
  qed
  then show ?thesis unfolding v by (intro utf8_ok_concat) auto
qed

lemma state_dict_rt:
  assumes "state_valid s" "generation s < 10 ^ 19"
  shows "json_rt False (state_to_dict s)" "json_ok (state_to_dict s)"
proof -
  have "nat \<bar>generation s\<bar> < 10 ^ 19" using assms by (simp add: state_valid_def)
  then have g: "length (nat_str (nat \<bar>generation s\<bar>)) \<le> 4300" by (rule nat_str_small)
  have f: "length (nat_str (nat \<bar>highest_release_sequence s\<bar>)) \<le> 4300"
    using release_digits [of "highest_release_sequence s"] assms(1) by (simp add: state_valid_def)
  show "json_rt False (state_to_dict s)" "json_ok (state_to_dict s)"
    using f g by (simp_all add: state_to_dict_def opt_json_def str_rt_def split: option.splits)
qed

lemma state_dict_utf8:
  assumes "state_valid s" "\<And>e. last_error s = Some e \<Longrightarrow> utf8_ok e"
  shows "json_utf8 (state_to_dict s)"
proof -
  have "utf8_ok t" if "slots s sl = Some t" for sl t
    using assms(1) that semver_utf8 by (auto simp: state_valid_def)
  moreover have "utf8_ok (slot_name sl)" "utf8_ok (status_value st)" for sl st
    by (cases sl; simp add: slot_name_def ascii_utf8_ok byte_of_def)
       (cases st; simp add: status_value_def ascii_utf8_ok byte_of_def)
  ultimately show ?thesis using assms(2)
    by (simp add: state_to_dict_def opt_json_def ascii_utf8_ok byte_of_def split: option.splits)
qed

text \<open>Writing a valid state succeeds, and reading what was written gives the state back.\<close>

lemma state_to_bytes_ok:
  assumes "state_valid s" "state_storable s"
  shows "state_to_bytes s = Inr (json_text False (canon (state_to_dict s)) @ [newline])"
proof -
  have "canonical_json_bytes (state_to_dict s) = Inr (json_text False (canon (state_to_dict s)))"
    using assms state_dict_rt(2) state_dict_utf8
    by (intro canonical_json_bytes_total) (auto simp: state_storable_def)
  then show ?thesis using parse_state_to_dict [OF assms(1)] by (simp add: state_to_bytes_def)
qed

lemma opt_json_inject [simp]: "opt_json t = opt_json u \<longleftrightarrow> t = u"
  by (cases t; cases u) (simp_all add: opt_json_def)

lemma parse_state_to_dict_same:
  assumes "parse_state (state_to_dict s) = Inr s'"
  shows "s' = s"
proof -
  obtain kvs sl where k: "state_to_dict s = JObj kvs"
    "jfield kvs ''generation'' = JInt (generation s')"
    "jfield kvs ''highest_release_sequence'' = JInt (highest_release_sequence s')"
    "jfield kvs ''active_slot'' = opt_json (map_option slot_name (active_slot s'))"
    "jfield kvs ''previous_slot'' = opt_json (map_option slot_name (previous_slot s'))"
    "jfield kvs ''slots'' = JObj sl"
    "jfield sl ''A'' = opt_json (slots s' SlotA)" "jfield sl ''B'' = opt_json (slots s' SlotB)"
    "jfield kvs ''status'' = JStr (status_value (status s'))"
    "jfield kvs ''last_error'' = opt_json (last_error s')"
    using assms by (rule parse_state_parts)
  have inj: "map_option slot_name a = map_option slot_name b \<Longrightarrow> a = b" for a b
    by (cases a; cases b) auto
  have "slots s' x = slots s x" for x
    using k by (cases x) (auto simp: state_to_dict_def jfield_def)
  moreover have "status s' = status s"
  proof -
    have "status_value (status s) = status_value (status s')"
      using k(1,9) by (auto simp: state_to_dict_def jfield_def)
    then show ?thesis by (metis option.inject status_of_value_value)
  qed
  ultimately show ?thesis
    using k inj by (auto simp: state_to_dict_def jfield_def intro!: deployment_state.equality)
qed

lemma state_to_bytes_valid: "state_to_bytes s = Inr bs \<Longrightarrow> state_valid s"
  using parse_state_to_dict_same parse_state_valid by (auto simp: state_to_bytes_def rbind_Inr_iff)

lemma state_from_to_bytes:
  assumes "state_valid s" "state_storable s" "state_to_bytes s = Inr bs"
  shows "state_from_bytes bs = Inr s"
proof -
  let ?t = "json_text False (canon (state_to_dict s))"
  have bs: "bs = ?t @ [newline]" using state_to_bytes_ok [OF assms(1,2)] assms(3) by simp
  have c: "canonical_json_bytes (state_to_dict s) = Inr ?t"
    using assms(3) bs by (auto simp: state_to_bytes_def rbind_Inr_iff)
  have "loads_bytes bs = Inr (canon (state_to_dict s))"
    unfolding bs using assms(1,2) state_dict_rt(1)
    by (intro loads_canonical [OF c]) (auto simp: state_storable_def)
  moreover have "length bs \<le> max_state_bytes"
    using assms(2) by (simp add: bs state_storable_def)
  ultimately show ?thesis
    by (simp add: state_from_bytes_def deploy_errors_def parse_state_canon [OF assms(1)] not_less)
qed

lemma state_from_bytes_valid: "state_from_bytes bs = Inr s \<Longrightarrow> state_valid s"
  by (auto simp: state_from_bytes_def deploy_errors_def rbind_Inr_iff dest: parse_state_valid)

section \<open>The anchor journal\<close>

record pending_commit =
  previous_generation :: int
  previous_floor :: int
  target_slot :: slot
  pending_version :: pystr
  pending_sequence :: int

definition pending_fields :: "pystr list" where
  "pending_fields =
     [''schema_version'', ''previous_generation'', ''previous_floor'', ''target_slot'', ''version'',
      ''release_sequence'']"

definition parse_pending :: "json \<Rightarrow> pending_commit res" where
  "parse_pending data =
     rbind (of_opt (DE ''pending anchor commit must be a JSON object'') (as_obj data)) (\<lambda>kvs.
     rbind (guard_r (has_fields kvs pending_fields \<and> py_eq (jfield kvs ''schema_version'') (JInt 1))
       (DE ''invalid pending anchor commit structure'')) (\<lambda>_.
     rbind (check_bounded ''invalid pending anchor generation'' (\<lambda>i. \<not> i < 0)
       (jfield kvs ''previous_generation'')) (\<lambda>gen.
     rbind (check_bounded ''invalid pending anchor previous floor'' (\<lambda>i. \<not> i < - 1)
       (jfield kvs ''previous_floor'')) (\<lambda>flr.
     rbind (check_slot ''invalid pending anchor target slot'' (jfield kvs ''target_slot'')) (\<lambda>sl.
     rbind (except_r [TypeError, ValueError] (\<lambda>e. DE ''invalid pending anchor version'')
       (safe_version_json (jfield kvs ''version''))) (\<lambda>v.
     rbind (check_bounded ''invalid pending anchor release sequence''
       (\<lambda>i. \<not> (i < 0 \<or> i > max_release_sequence)) (jfield kvs ''release_sequence'')) (\<lambda>seq.
     rbind (guard_r (\<not> seq \<le> flr)
       (DE ''pending anchor commit does not advance rollback floor'')) (\<lambda>_.
     Inr \<lparr>previous_generation = gen, previous_floor = flr, target_slot = sl, pending_version = v,
          pending_sequence = seq\<rparr>))))))))"

definition pending_to_dict :: "pending_commit \<Rightarrow> json" where
  "pending_to_dict p =
     JObj [(''schema_version'', JInt 1), (''previous_generation'', JInt (previous_generation p)),
           (''previous_floor'', JInt (previous_floor p)),
           (''target_slot'', JStr (slot_name (target_slot p))),
           (''version'', JStr (pending_version p)), (''release_sequence'', JInt (pending_sequence p))]"

definition max_pending_bytes :: nat where
  "max_pending_bytes = 16 * 1024"

definition pending_from_bytes :: "bytes \<Rightarrow> pending_commit res" where
  "pending_from_bytes raw =
     rbind (guard_r (\<not> length raw > max_pending_bytes)
       (DE ''pending anchor commit exceeds size limit'')) (\<lambda>_.
     deploy_errors ''invalid pending anchor commit'' (rbind (loads_bytes raw) parse_pending))"

definition pending_to_bytes :: "pending_commit \<Rightarrow> bytes res" where
  "pending_to_bytes p =
     rbind (parse_pending (pending_to_dict p)) (\<lambda>_.
     rbind (canonical_json_bytes (pending_to_dict p)) (\<lambda>bs. Inr (bs @ [newline])))"

definition pending_valid :: "pending_commit \<Rightarrow> bool" where
  "pending_valid p \<longleftrightarrow>
     0 \<le> previous_generation p \<and> - 1 \<le> previous_floor p \<and> semver_match (pending_version p) \<and>
     0 \<le> pending_sequence p \<and> pending_sequence p \<le> max_release_sequence \<and>
     previous_floor p < pending_sequence p"

lemma check_slot_Inr: "check_slot msg v = Inr s \<longleftrightarrow> v = JStr (slot_name s)"
  by (cases v) (auto simp: check_slot_def slot_of_name_Some_iff)

lemma parse_pending_fields:
  assumes "has_fields kvs pending_fields" "jfield kvs ''schema_version'' = JInt 1"
    "jfield kvs ''previous_generation'' = JInt (previous_generation p)"
    "jfield kvs ''previous_floor'' = JInt (previous_floor p)"
    "jfield kvs ''target_slot'' = JStr (slot_name (target_slot p))"
    "jfield kvs ''version'' = JStr (pending_version p)"
    "jfield kvs ''release_sequence'' = JInt (pending_sequence p)"
    "pending_valid p"
  shows "parse_pending (JObj kvs) = Inr p"
proof -
  note v = assms(8)[unfolded pending_valid_def]
  have "check_bounded ''invalid pending anchor generation'' (\<lambda>i. \<not> i < 0) (jfield kvs ''previous_generation'') =
      Inr (previous_generation p)"
    using assms v by (simp add: check_bounded_Inr)
  moreover have "check_bounded ''invalid pending anchor previous floor'' (\<lambda>i. \<not> i < - 1) (jfield kvs ''previous_floor'') =
      Inr (previous_floor p)"
    using assms v by (simp add: check_bounded_Inr)
  moreover have "check_slot msg (jfield kvs ''target_slot'') = Inr (target_slot p)" for msg
    using assms by (simp add: check_slot_Inr)
  moreover have "safe_version_json (jfield kvs ''version'') = Inr (pending_version p)"
    using assms v by (simp add: safe_version_json_Inr)
  moreover have "check_bounded ''invalid pending anchor release sequence''
      (\<lambda>i. \<not> (i < 0 \<or> i > max_release_sequence)) (jfield kvs ''release_sequence'') = Inr (pending_sequence p)"
    using assms v by (simp add: check_bounded_Inr)
  ultimately show ?thesis
    using assms(1,2) v by (simp add: parse_pending_def)
qed

lemma parse_pending_to_dict: "pending_valid p \<Longrightarrow> parse_pending (pending_to_dict p) = Inr p"
  unfolding pending_to_dict_def
  by (rule parse_pending_fields) (simp_all add: has_fields_def pending_fields_def jfield_def)

lemma parse_pending_valid: "parse_pending data = Inr p \<Longrightarrow> pending_valid p"
  unfolding parse_pending_def
  by (elim rbind_InrE)
     (auto simp: pending_valid_def check_bounded_Inr safe_version_json_Inr elim!: rbind_InrE)

lemma pending_from_bytes_valid: "pending_from_bytes bs = Inr p \<Longrightarrow> pending_valid p"
  by (auto simp: pending_from_bytes_def deploy_errors_def rbind_Inr_iff dest: parse_pending_valid)

definition pending_storable :: "pending_commit \<Rightarrow> bool" where
  "pending_storable p \<longleftrightarrow>
     previous_generation p < 10 ^ 19 \<and>
     length (json_text False (canon (pending_to_dict p))) < max_pending_bytes"

lemma pending_roundtrip:
  assumes "pending_valid p" "pending_storable p"
  shows "\<exists>bs. pending_to_bytes p = Inr bs \<and> pending_from_bytes bs = Inr p"
proof -
  let ?t = "json_text False (canon (pending_to_dict p))"
  have "nat \<bar>previous_generation p\<bar> < 10 ^ 19"
    using assms by (simp add: pending_valid_def pending_storable_def nat_less_iff)
  then have g: "length (nat_str (nat \<bar>previous_generation p\<bar>)) \<le> 4300" by (rule nat_str_small)
  have f: "length (nat_str (nat \<bar>previous_floor p\<bar>)) \<le> 4300" "length (nat_str (nat \<bar>pending_sequence p\<bar>)) \<le> 4300"
    using release_digits [of "previous_floor p"] release_digits [of "pending_sequence p"] assms(1)
    by (simp_all add: pending_valid_def)
  have u: "utf8_ok (pending_version p)" using assms(1) semver_utf8 by (simp add: pending_valid_def)
  have s: "utf8_ok (slot_name (target_slot p))"
    by (cases "target_slot p") (simp_all add: slot_name_def ascii_utf8_ok byte_of_def)
  have c: "canonical_json_bytes (pending_to_dict p) = Inr ?t"
    using f g u s nat_str_one
    by (intro canonical_json_bytes_total) (simp_all add: pending_to_dict_def ascii_utf8_ok byte_of_def)
  have b: "pending_to_bytes p = Inr (?t @ [newline])"
    using c parse_pending_to_dict [OF assms(1)] by (simp add: pending_to_bytes_def)
  have "json_rt False (pending_to_dict p)"
    using f g nat_str_one by (simp add: pending_to_dict_def str_rt_def)
  then have "loads_bytes (?t @ [newline]) = Inr (canon (pending_to_dict p))"
    by (intro loads_canonical [OF c]) simp_all
  moreover have "parse_pending (canon (pending_to_dict p)) = Inr p"
    unfolding pending_to_dict_def
    by (simp only: canon.simps, rule parse_pending_fields)
       (simp_all add: has_fields_def pending_fields_def jfield_def insert_commute sort_key_def assms(1))
  moreover have "length (?t @ [newline]) \<le> max_pending_bytes"
    using assms(2) by (simp add: pending_storable_def)
  ultimately have "pending_from_bytes (?t @ [newline]) = Inr p"
    by (simp add: pending_from_bytes_def deploy_errors_def not_less)
  then show ?thesis using b by blast
qed

end
