(* ===== verification/Deploy.thy ===== *)
theory Deploy
  imports DeployState
begin

text \<open>
  \<^verbatim>\<open>ABDeployer\<close> of \<^verbatim>\<open>src/src/edgeai/deploy.py\<close>, method by method, as programs over the
  deployer's record. What survives a crash is the record \<open>durable\<close>: the paths under the
  deployment root (\<open>cell\<close>), the registry and the anchor's store. Every change of it is one
  \<open>step_p\<close>, which appends the new durable state to the ghost field \<open>history\<close>, so \<open>history\<close>
  holds every state a crash can leave; a directory that is removed or copied passes through
  a partial state, which the parameter \<open>torn\<close> chooses. The plan \<open>faults\<close> says which of the
  coming steps fail with \<^verbatim>\<open>OSError\<close>.
\<close>

section \<open>State\<close>

datatype cell =
    RootDir | SlotsRoot | SlotDir slot | StateFile | PendingFile | LockFile
  | Backup slot | Candidate slot

record 'a durable =
  nodes :: "cell \<Rightarrow> fsnode option"
  reg :: registry
  anchor_store :: 'a

record 'a deployer =
  dur :: "'a durable"
  trusted_floor :: "int option"
  recovery_required :: bool
  faults :: "bool list"
  history :: "'a durable list"

text \<open>
  What a deployer is configured with: the external functions, the anchor's two operations
  (any implementation of the protocol, so their results are unchecked objects), the policy
  and limits, the health measurements and the runtime loader. The flag passed to \<open>qualify\<close>
  and \<open>bench\<close> tells the candidate's measurement from the baseline's, which need not agree
  even on equal bytes. \<open>a_first\<close> is the order in which the set of slot names is iterated.
\<close>

record 'a anchor_ops =
  anchor_read_op :: "('a, json) prog"
  anchor_advance_op :: "int \<Rightarrow> ('a, json) prog"

record ('a, 'r) env =
  ext_of :: ext
  anchor_of :: "'a anchor_ops option"
  policy :: health_policy
  max_model_bytes :: int
  isolate_health_gate :: bool
  qualify :: "bool \<Rightarrow> bytes \<Rightarrow> pystr \<Rightarrow> pystr \<Rightarrow> int \<Rightarrow> model_metrics res"
  bench :: "bool \<Rightarrow> 'r \<Rightarrow> model_metrics res"
  loader :: "runtime_type \<Rightarrow> bytes \<Rightarrow> int \<Rightarrow> 'r res"
  torn :: "(string \<times> fsnode) list \<Rightarrow> (string \<times> fsnode) list"
  a_first :: bool

section \<open>Primitives\<close>

definition set_node :: "cell \<Rightarrow> fsnode option \<Rightarrow> 'a durable \<Rightarrow> 'a durable" where
  "set_node c n d = d\<lparr>nodes := (nodes d)(c := n)\<rparr>"

definition commit_durable :: "'a durable \<Rightarrow> 'a deployer \<Rightarrow> 'a deployer" where
  "commit_durable d s = s\<lparr>dur := d, history := d # history s\<rparr>"

definition step_p :: "('a durable \<Rightarrow> 'a durable) \<Rightarrow> ('a deployer, unit) prog" where
  "step_p f s =
     (if faults s \<noteq> [] \<and> hd (faults s) then (Inl os_error, s\<lparr>faults := tl (faults s)\<rparr>)
      else (Inr (), commit_durable (f (dur s)) (s\<lparr>faults := tl (faults s)\<rparr>)))"

definition node_p :: "cell \<Rightarrow> ('a deployer, fsnode option) prog" where
  "node_p c = gets_p (\<lambda>s. nodes (dur s) c)"

definition reg_p :: "(registry, 'b) prog \<Rightarrow> ('a deployer, 'b) prog" where
  "reg_p p s =
     (case p (reg (dur s)) of (r, g) \<Rightarrow> (r, commit_durable ((dur s)\<lparr>reg := g\<rparr>) s))"

definition anchor_p :: "('a, 'b) prog \<Rightarrow> ('a deployer, 'b) prog" where
  "anchor_p p s =
     (case p (anchor_store (dur s)) of (r, a) \<Rightarrow> (r, commit_durable ((dur s)\<lparr>anchor_store := a\<rparr>) s))"

definition write_p :: "cell \<Rightarrow> bytes \<Rightarrow> ('a deployer, unit) prog" where
  "write_p c bs =
     bind_p (lift_r (\<lambda>s. write_node (nodes (dur s) c) bs)) (\<lambda>n. step_p (set_node c (Some n)))"

definition rmtree_p :: "('a, 'r) env \<Rightarrow> cell \<Rightarrow> ('a deployer, unit) prog" where
  "rmtree_p E c =
     bind_p (node_p c) (\<lambda>n.
     case n of
       Some (Directory es) \<Rightarrow>
         bind_p (step_p (set_node c (Some (Directory (torn E es))))) (\<lambda>_. step_p (set_node c None))
     | _ \<Rightarrow> raise_e os_error)"

definition rmtree_ignore_p :: "('a, 'r) env \<Rightarrow> cell \<Rightarrow> ('a deployer, unit) prog" where
  "rmtree_ignore_p E c = catch_p (rmtree_p E c) (\<lambda>e. ret ())"

definition copytree_p :: "('a, 'r) env \<Rightarrow> fsnode option \<Rightarrow> cell \<Rightarrow> ('a deployer, unit) prog" where
  "copytree_p E src c =
     bind_p (node_p c) (\<lambda>n.
     if n \<noteq> None then raise_e os_error
     else case Option.bind src resolve_tree of
       Some (Directory es) \<Rightarrow>
         bind_p (step_p (set_node c (Some (Directory (torn E es))))) (\<lambda>_.
         step_p (set_node c (Some (Directory es))))
     | _ \<Rightarrow> bind_p (step_p (set_node c (Some (Directory [])))) (\<lambda>_. raise_e os_error))"

text \<open>\<^verbatim>\<open>os.replace\<close> of a directory: the target is free or an empty directory.\<close>

definition rename_p :: "cell \<Rightarrow> cell \<Rightarrow> ('a deployer, unit) prog" where
  "rename_p src dst =
     bind_p (node_p src) (\<lambda>n. bind_p (node_p dst) (\<lambda>m.
     if n = None \<or> \<not> (m = None \<or> m = Some (Directory [])) then raise_e os_error
     else step_p (\<lambda>d. set_node dst n (set_node src None d))))"

definition unlink_p :: "cell \<Rightarrow> ('a deployer, unit) prog" where
  "unlink_p c =
     bind_p (node_p c) (\<lambda>n.
     case n of
       None \<Rightarrow> ret ()
     | Some (Directory _) \<Rightarrow> raise_e os_error
     | Some _ \<Rightarrow> step_p (set_node c None))"

fun for_p :: "'b list \<Rightarrow> ('b \<Rightarrow> ('s, unit) prog) \<Rightarrow> ('s, unit) prog" where
  "for_p [] f = ret ()"
| "for_p (x # xs) f = bind_p (f x) (\<lambda>_. for_p xs f)"

definition slot_order :: "('a, 'r) env \<Rightarrow> slot list" where
  "slot_order E = (if a_first E then [SlotA, SlotB] else [SlotB, SlotA])"

definition deploy_locked :: "('a deployer, 'b) prog \<Rightarrow> ('a deployer, 'b) prog" where
  "deploy_locked p =
     bind_p (lift_r (\<lambda>s. lock_acquire (nodes (dur s) LockFile))) (\<lambda>n.
     bind_p (modify_p (\<lambda>s. commit_durable (set_node LockFile (Some n) (dur s)) s)) (\<lambda>_. p))"

section \<open>The external anchor\<close>

definition validate_anchor_floor :: "json \<Rightarrow> int res" where
  "validate_anchor_floor v =
     check_bounded ''rollback anchor returned an invalid floor''
       (\<lambda>i. \<not> (i < - 1 \<or> i > max_release_sequence)) v"

definition anchor_errors :: "string \<Rightarrow> exc \<Rightarrow> exc" where
  "anchor_errors msg e = (if isinstance e DeploymentError then e else DE msg)"

definition read_anchor_floor :: "('a, 'r) env \<Rightarrow> ('a deployer, int) prog" where
  "read_anchor_floor E =
     (case anchor_of E of
        None \<Rightarrow> raise_e (DE ''rollback anchor is not configured'')
      | Some ops \<Rightarrow>
          catch_p (bind_p (anchor_p (anchor_read_op ops)) (\<lambda>v. lift_r (\<lambda>_. validate_anchor_floor v)))
            (\<lambda>e. raise_e (anchor_errors ''rollback anchor read failed'' e)))"

definition advance_anchor :: "('a, 'r) env \<Rightarrow> int \<Rightarrow> ('a deployer, int) prog" where
  "advance_anchor E seq =
     (case anchor_of E of
        None \<Rightarrow> ret seq
      | Some ops \<Rightarrow>
          bind_p (catch_p (bind_p (anchor_p (anchor_advance_op ops seq)) (\<lambda>v.
                    lift_r (\<lambda>_. validate_anchor_floor v)))
                  (\<lambda>e. raise_e (anchor_errors ''rollback anchor advance failed'' e))) (\<lambda>f.
          bind_p (guard_p (\<lambda>_. f = seq)
            (DE ''rollback anchor advanced to an unexpected release sequence'')) (\<lambda>_.
          bind_p (modify_p (\<lambda>s. s\<lparr>trusted_floor := Some f\<rparr>)) (\<lambda>_. ret f))))"

definition validate_state_anchor :: "('a, 'r) env \<Rightarrow> deployment_state \<Rightarrow> ('a deployer, unit) prog" where
  "validate_state_anchor E st =
     bind_p (gets_p trusted_floor) (\<lambda>tf.
     case tf of
       None \<Rightarrow> ret ()
     | Some t \<Rightarrow>
         bind_p (guard_p (\<lambda>s. \<not> recovery_required s)
           (DE ''external rollback anchor transition requires recovery'')) (\<lambda>_.
         bind_p (node_p PendingFile) (\<lambda>pending.
         bind_p (if highest_release_sequence st \<noteq> t \<or> path_exists pending \<or> is_symlink pending
                 then bind_p (read_anchor_floor E) (\<lambda>observed.
                      modify_p (\<lambda>s. s\<lparr>trusted_floor := Some observed\<rparr>))
                 else ret ()) (\<lambda>_.
         guard_p (\<lambda>s. trusted_floor s = Some (highest_release_sequence st))
           (DE ''deployment state anti-rollback floor differs from external rollback anchor'')))))"

section \<open>Reading and writing the state and the journal\<close>

definition read_regular :: "string \<Rightarrow> nat \<Rightarrow> fsnode option \<Rightarrow> bytes res" where
  "read_regular what limit n =
     rbind (recast (\<lambda>e. DE (what @ '' cannot be opened safely'')) (open_nofollow n)) (\<lambda>m.
     case m of
       RegFile bs \<Rightarrow> Inr (take (limit + 1) bs)
     | Device \<Rightarrow> Inl (DE (what @ '' is not a regular file''))
     | _ \<Rightarrow> Inl (DE (what @ '' cannot be opened safely'')))"

definition slot_data_exists :: "'a durable \<Rightarrow> bool" where
  "slot_data_exists d \<longleftrightarrow>
     is_symlink (nodes d SlotsRoot) \<or>
     list_ex (\<lambda>sl. path_exists (nodes d (SlotDir sl)) \<or> is_symlink (nodes d (SlotDir sl))) [SlotA, SlotB]"

definition state_of_node :: "fsnode option \<Rightarrow> deployment_state res" where
  "state_of_node n =
     rbind (guard_r (\<not> is_symlink n) (DE ''deployment state must not be a symlink'')) (\<lambda>_.
     rbind (read_regular ''deployment state'' max_state_bytes n) state_from_bytes)"

definition read_state :: "('a, 'r) env \<Rightarrow> bool \<Rightarrow> ('a deployer, deployment_state) prog" where
  "read_state E validate_anchor =
     bind_p (node_p StateFile) (\<lambda>n.
     if \<not> path_exists n then
       bind_p (guard_p (\<lambda>s. \<not> (is_symlink n \<or> slot_data_exists (dur s)))
         (DE ''deployment state missing while slot data exists'')) (\<lambda>_. ret initial_state)
     else
       bind_p (lift_r (\<lambda>_. state_of_node n)) (\<lambda>st.
       bind_p (if validate_anchor then validate_state_anchor E st else ret ()) (\<lambda>_. ret st)))"

definition write_state :: "deployment_state \<Rightarrow> ('a deployer, unit) prog" where
  "write_state st = bind_p (lift_r (\<lambda>_. state_to_bytes st)) (\<lambda>bs. write_p StateFile bs)"

definition pending_of_node :: "fsnode option \<Rightarrow> pending_commit option res" where
  "pending_of_node n =
     (if is_symlink n then Inl (DE ''pending anchor commit must not be a symlink'')
      else if \<not> path_exists n then Inr None
      else rbind (rbind (read_regular ''pending anchor commit'' max_pending_bytes n) pending_from_bytes)
             (\<lambda>p. Inr (Some p)))"

definition read_pending_anchor :: "('a deployer, pending_commit option) prog" where
  "read_pending_anchor = lift_r (\<lambda>s. pending_of_node (nodes (dur s) PendingFile))"

definition write_pending_anchor :: "deployment_state \<Rightarrow> slot \<Rightarrow> pystr \<Rightarrow> int \<Rightarrow> ('a deployer, unit) prog" where
  "write_pending_anchor st sl v seq =
     bind_p (lift_r (\<lambda>_. pending_to_bytes
       \<lparr>previous_generation = generation st, previous_floor = highest_release_sequence st,
        target_slot = sl, pending_version = v, pending_sequence = seq\<rparr>)) (\<lambda>bs. write_p PendingFile bs)"

definition remove_pending_anchor :: "('a deployer, unit) prog" where
  "remove_pending_anchor = unlink_p PendingFile"

section \<open>Verified slots\<close>

definition canonical_manifest :: "ext \<Rightarrow> registry \<Rightarrow> pystr \<Rightarrow> artifact_manifest res" where
  "canonical_manifest x r v = rbind (inspect x r v) (\<lambda>(d, m). Inr m)"

definition differs :: exc where
  "differs = DE ''slot manifest differs from canonical registry release''"

definition verified_directory_manifest ::
  "ext \<Rightarrow> registry \<Rightarrow> fsnode option \<Rightarrow> pystr \<Rightarrow> artifact_manifest res" where
  "verified_directory_manifest x r n v =
     rbind (canonical_manifest x r v) (\<lambda>c.
     rbind (verify_directory x (reg_keyring r) n (Some v)) (\<lambda>m.
     rbind (guard_r (manifest_eq m c) differs) (\<lambda>_. Inr m)))"

definition verified_slot_runtime ::
  "('a, 'r) env \<Rightarrow> registry \<Rightarrow> fsnode option \<Rightarrow> pystr \<Rightarrow> 'r res" where
  "verified_slot_runtime E r n v =
     rbind (canonical_manifest (ext_of E) r v) (\<lambda>c.
     rbind (open_verified_model (ext_of E) (reg_keyring r) n (Some v)) (\<lambda>(bs, m).
     rbind (guard_r (manifest_eq m c) differs) (\<lambda>_.
     load_runtime (loader E) bs (model_kind m) (Some (runtime_abi m)) (max_model_bytes E))))"

definition verified_slot_artifact ::
  "('a, 'r) env \<Rightarrow> registry \<Rightarrow> fsnode option \<Rightarrow> pystr \<Rightarrow> (bytes \<times> artifact_manifest) res" where
  "verified_slot_artifact E r n v =
     rbind (canonical_manifest (ext_of E) r v) (\<lambda>c.
     rbind (open_verified_model (ext_of E) (reg_keyring r) n (Some v)) (\<lambda>(bs, m).
     rbind (guard_r (manifest_eq m c) differs) (\<lambda>_.
     rbind (guard_r (\<not> model_bytes m > max_model_bytes E)
       (DE ''model artifact exceeds process-transfer size limit'')) (\<lambda>_.
     let raw = take (nat (model_bytes m + 1)) bs
     in rbind (guard_r (int (length raw) = model_bytes m)
          (DE ''model artifact size changed during stable-handle read'')) (\<lambda>_. Inr (raw, m))))))"

text \<open>A computation on the registry and the node of a slot.\<close>

definition on_slot :: "(registry \<Rightarrow> fsnode option \<Rightarrow> 'b res) \<Rightarrow> slot \<Rightarrow> ('a deployer, 'b) prog" where
  "on_slot f sl = lift_r (\<lambda>s. f (reg (dur s)) (nodes (dur s) (SlotDir sl)))"

section \<open>Startup recovery\<close>

definition active_version_is :: "deployment_state \<Rightarrow> slot \<Rightarrow> pystr \<Rightarrow> bool" where
  "active_version_is st sl v \<longleftrightarrow> active_slot st = Some sl \<and> slots st sl = Some v"

text \<open>The state that deploying \<open>v\<close> to slot \<open>sl\<close> commits, also when recovery completes it.\<close>

definition activated :: "deployment_state \<Rightarrow> slot \<Rightarrow> pystr \<Rightarrow> int \<Rightarrow> deployment_state" where
  "activated st sl v new_floor =
     \<lparr>generation = generation st + 1, active_slot = Some sl, previous_slot = active_slot st,
      slots = (slots st)(sl := Some v), highest_release_sequence = new_floor,
      status = Status_ACTIVE, last_error = None\<rparr>"

definition assert_identity_p :: "('a, 'r) env \<Rightarrow> pystr \<Rightarrow> int \<Rightarrow> ('a deployer, unit) prog" where
  "assert_identity_p E v seq = reg_p (assert_release_sequence_identity (ext_of E) v seq)"

text \<open>The commit the journal speaks of is there: check it and drop the journal.\<close>

definition confirm_commit :: "('a, 'r) env \<Rightarrow> deployment_state \<Rightarrow> pending_commit \<Rightarrow> ('a deployer, deployment_state) prog" where
  "confirm_commit E st p =
     bind_p (assert_identity_p E (pending_version p) (pending_sequence p)) (\<lambda>_.
     bind_p (on_slot (\<lambda>r n. verified_directory_manifest (ext_of E) r n (pending_version p)) (target_slot p)) (\<lambda>_.
     bind_p remove_pending_anchor (\<lambda>_. ret st)))"

text \<open>The anchor is ahead by the transition in the journal: complete it.\<close>

definition follow_anchor ::
  "('a, 'r) env \<Rightarrow> deployment_state \<Rightarrow> pending_commit \<Rightarrow> int \<Rightarrow> ('a deployer, deployment_state) prog" where
  "follow_anchor E st p anchor_floor =
     bind_p (assert_identity_p E (pending_version p) anchor_floor) (\<lambda>_.
     bind_p (on_slot (\<lambda>r n. verified_directory_manifest (ext_of E) r n (pending_version p)) (target_slot p)) (\<lambda>m.
     bind_p (guard_p (\<lambda>_. release_sequence m = anchor_floor)
       (DE ''pending slot does not match external rollback anchor'')) (\<lambda>_.
     let recovered = activated st (target_slot p) (pending_version p) anchor_floor
     in bind_p (write_state recovered) (\<lambda>_.
        bind_p remove_pending_anchor (\<lambda>_. ret recovered)))))"

definition recover_anchor_commit ::
  "('a, 'r) env \<Rightarrow> deployment_state \<Rightarrow> pending_commit option \<Rightarrow> ('a deployer, deployment_state) prog" where
  "recover_anchor_commit E st pending =
     bind_p (gets_p trusted_floor) (\<lambda>tf.
     case tf of
       None \<Rightarrow>
         if pending \<noteq> None
         then raise_e (DE ''pending external-anchor commit exists but no rollback anchor is configured'')
         else ret st
     | Some anchor_floor \<Rightarrow>
         if highest_release_sequence st > anchor_floor
         then raise_e (DE ''deployment state anti-rollback floor exceeds external rollback anchor'')
         else if highest_release_sequence st = anchor_floor then
           (case pending of
              None \<Rightarrow> ret st
            | Some p \<Rightarrow>
                if pending_sequence p = anchor_floor \<and> previous_generation p + 1 = generation st \<and>
                   active_version_is st (target_slot p) (pending_version p)
                then
                  confirm_commit E st p
                else if previous_floor p \<noteq> highest_release_sequence st \<or> previous_generation p \<noteq> generation st
                then raise_e (DE ''pending anchor journal conflicts with durable state'')
                else ret st)
         else
           (case pending of
              None \<Rightarrow> raise_e (DE ''external rollback anchor is ahead of deployment state without recovery journal'')
            | Some p \<Rightarrow>
                if previous_floor p \<noteq> highest_release_sequence st \<or> previous_generation p \<noteq> generation st \<or>
                   pending_sequence p \<noteq> anchor_floor
                then raise_e (DE ''external rollback anchor and recovery journal disagree'')
                else
                  follow_anchor E st p anchor_floor))"

definition recover_backup :: "('a, 'r) env \<Rightarrow> deployment_state \<Rightarrow> slot \<Rightarrow> ('a deployer, unit) prog" where
  "recover_backup E st sl =
     bind_p (node_p (Backup sl)) (\<lambda>backup.
     if \<not> path_exists backup \<and> \<not> is_symlink backup then ret ()
     else if is_symlink backup \<or> \<not> is_dir backup then raise_e (DE ''invalid backup for slot'')
     else case slots st sl of
       None \<Rightarrow> raise_e (DE ''unexpected backup exists for empty slot'')
     | Some expected \<Rightarrow>
         bind_p (gets_p (\<lambda>s.
           (let final = nodes (dur s) (SlotDir sl)
            in path_exists final \<and> \<not> is_symlink final \<and>
               (case verified_directory_manifest (ext_of E) (reg (dur s)) final expected of
                  Inr _ \<Rightarrow> True | Inl _ \<Rightarrow> False)))) (\<lambda>final_ok.
         if final_ok then rmtree_p E (Backup sl)
         else
           bind_p (lift_r (\<lambda>s. verified_directory_manifest (ext_of E) (reg (dur s)) backup expected)) (\<lambda>_.
           bind_p (node_p (SlotDir sl)) (\<lambda>final.
           bind_p (if path_exists final \<or> is_symlink final then
                     if is_symlink final \<or> \<not> is_dir final then raise_e (DE ''invalid slot path'')
                     else rmtree_p E (SlotDir sl)
                   else ret ()) (\<lambda>_.
           rename_p (Backup sl) (SlotDir sl)))))) "

definition recover_candidate :: "('a, 'r) env \<Rightarrow> slot \<Rightarrow> ('a deployer, unit) prog" where
  "recover_candidate E sl =
     bind_p (node_p (Candidate sl)) (\<lambda>n.
     if n = None then ret ()
     else if is_symlink n \<or> \<not> is_dir n then raise_e (DE ''invalid candidate path during recovery'')
     else rmtree_p E (Candidate sl))"

definition recover_slot :: "('a, 'r) env \<Rightarrow> deployment_state \<Rightarrow> slot \<Rightarrow> ('a deployer, unit) prog" where
  "recover_slot E st sl =
     (case slots st sl of
        None \<Rightarrow>
          bind_p (node_p (SlotDir sl)) (\<lambda>n.
          if path_exists n \<or> is_symlink n then
            if is_symlink n \<or> \<not> is_dir n then raise_e (DE ''invalid uncommitted slot path'')
            else rmtree_p E (SlotDir sl)
          else ret ())
      | Some v \<Rightarrow>
          bind_p (on_slot (\<lambda>r n. verified_directory_manifest (ext_of E) r n v) sl) (\<lambda>m.
          guard_p (\<lambda>_. \<not> release_sequence m > highest_release_sequence st)
            (DE ''slot release sequence exceeds anti-rollback floor'')))"

definition ensure_slots_root :: "('a deployer, unit) prog" where
  "ensure_slots_root =
     bind_p (node_p SlotsRoot) (\<lambda>n.
     bind_p (guard_p (\<lambda>_. \<not> is_symlink n) (DE ''slots root must not be a symlink'')) (\<lambda>_.
     bind_p (lift_r (\<lambda>_. mkdir_node n)) (\<lambda>m.
     bind_p (if n = None then step_p (set_node SlotsRoot (Some m)) else ret ()) (\<lambda>_.
     guard_p (\<lambda>s. is_dir (nodes (dur s) SlotsRoot)) (DE ''slots root must be a directory'')))))"

definition ensure_state :: "('a deployer, unit) prog" where
  "ensure_state =
     bind_p (node_p StateFile) (\<lambda>n.
     if \<not> path_exists n then
       bind_p (guard_p (\<lambda>s. \<not> (is_symlink n \<or> slot_data_exists (dur s)))
         (DE ''deployment state missing while slot data exists'')) (\<lambda>_. write_state initial_state)
     else ret ())"

definition discard_journal :: "('a deployer, unit) prog" where
  "discard_journal =
     bind_p (node_p PendingFile) (\<lambda>n.
     if path_exists n \<or> is_symlink n then
       if is_symlink n then raise_e (DE ''pending anchor commit must not be a symlink'')
       else remove_pending_anchor
     else ret ())"

definition recover :: "('a, 'r) env \<Rightarrow> ('a deployer, deployment_state) prog" where
  "recover E =
     deploy_locked (
       bind_p ensure_slots_root (\<lambda>_.
       bind_p ensure_state (\<lambda>_.
       bind_p (read_state E False) (\<lambda>st0.
       bind_p read_pending_anchor (\<lambda>pending.
       bind_p (recover_anchor_commit E st0 pending) (\<lambda>st.
       bind_p (for_p (slot_order E) (recover_backup E st)) (\<lambda>_.
       bind_p (for_p (slot_order E) (recover_candidate E)) (\<lambda>_.
       bind_p (for_p [SlotA, SlotB] (recover_slot E st)) (\<lambda>_.
       bind_p discard_journal (\<lambda>_.
       bind_p (validate_state_anchor E st) (\<lambda>_. ret st)))))))))))"

text \<open>
  The constructor: \<open>recover\<close> returns the recovered state for the statements about it, and the
  code drops it.
\<close>

definition deployer_init :: "('a, 'r) env \<Rightarrow> ('a deployer, deployment_state) prog" where
  "deployer_init E =
     bind_p (node_p RootDir) (\<lambda>root.
     bind_p (lift_r (\<lambda>_. mkdir_node root)) (\<lambda>m.
     bind_p (if root = None then step_p (set_node RootDir (Some m)) else ret ()) (\<lambda>_.
     bind_p (guard_p (\<lambda>s. \<not> (is_symlink (nodes (dur s) RootDir) \<or> \<not> is_dir (nodes (dur s) RootDir)))
       (DE ''deployment root must be a regular directory'')) (\<lambda>_.
     bind_p (guard_p (\<lambda>_. \<not> max_model_bytes E < 1024)
       (Exc ValueError ''max_model_uncompressed_bytes must be an integer >= 1024'')) (\<lambda>_.
     bind_p (if anchor_of E \<noteq> None
             then bind_p (read_anchor_floor E) (\<lambda>f. modify_p (\<lambda>s. s\<lparr>trusted_floor := Some f\<rparr>))
             else modify_p (\<lambda>s. s\<lparr>trusted_floor := None\<rparr>)) (\<lambda>_.
     bind_p (modify_p (\<lambda>s. s\<lparr>recovery_required := False\<rparr>)) (\<lambda>_.
     recover E)))))))"

section \<open>Deploying\<close>

definition error_text :: "exc \<Rightarrow> pystr" where
  "error_text e = py_take max_error_chars (class_name (exc_cls e) @ '': '' @ exc_msg e)"

definition health_metrics :: "('a, 'r) env \<Rightarrow> bool \<Rightarrow> bytes \<Rightarrow> artifact_manifest \<Rightarrow> model_metrics res" where
  "health_metrics E is_baseline bs m =
     (if isolate_health_gate E
      then qualify E is_baseline bs (model_kind m) (runtime_abi m) (max_model_bytes E)
      else rbind (load_runtime (loader E) bs (model_kind m) (Some (runtime_abi m)) (max_model_bytes E))
             (bench E is_baseline))"

definition inactive_slot :: "deployment_state \<Rightarrow> slot" where
  "inactive_slot st = (if active_slot st = Some SlotA then SlotB else SlotA)"

definition failed_state :: "deployment_state \<Rightarrow> exc \<Rightarrow> deployment_state" where
  "failed_state st e =
     st\<lparr>generation := generation st + 1, status := Status_FAILED, last_error := Some (error_text e)\<rparr>"

text \<open>The candidate's gate: everything inside the first \<^verbatim>\<open>try\<close>.\<close>

definition gate :: "('a, 'r) env \<Rightarrow> deployment_state \<Rightarrow> slot \<Rightarrow> artifact_manifest \<Rightarrow> pystr \<Rightarrow> ('a deployer, model_metrics) prog" where
  "gate E st inactive manifest v =
     bind_p (lift_r (\<lambda>s. open_verified_model (ext_of E) (reg_keyring (reg (dur s)))
       (nodes (dur s) (Candidate inactive)) (Some v))) (\<lambda>(handle, staged).
     bind_p (guard_p (\<lambda>_. manifest_eq staged manifest)
       (DE ''registry entry changed between inspection and staging'')) (\<lambda>_.
     let candidate_bytes = take (nat (model_bytes staged + 1)) handle
     in bind_p (guard_p (\<lambda>_. int (length candidate_bytes) = model_bytes staged)
          (DE ''candidate artifact size changed during stable-handle read'')) (\<lambda>_.
        bind_p (lift_r (\<lambda>_. health_metrics E False candidate_bytes staged)) (\<lambda>metrics.
        bind_p (case active_slot st of
                  None \<Rightarrow> ret None
                | Some a \<Rightarrow>
                    (case slots st a of
                       None \<Rightarrow> ret None
                     | Some av \<Rightarrow>
                         bind_p (on_slot (\<lambda>r n. verified_slot_artifact E r n av) a) (\<lambda>(bbs, bm).
                         bind_p (lift_r (\<lambda>_. health_metrics E True bbs bm)) (\<lambda>b. ret (Some b))))) (\<lambda>baseline.
        bind_p (lift_r (\<lambda>_. enforce (policy E) metrics baseline)) (\<lambda>_. ret metrics))))))"

text \<open>
  The commit: everything inside the second \<^verbatim>\<open>try\<close>. It returns with the phase reached, so that
  the handler knows \<^verbatim>\<open>anchor_transaction_started\<close> and \<^verbatim>\<open>state_committed\<close>.
\<close>

definition commit_prefix :: "('a, 'r) env \<Rightarrow> deployment_state \<Rightarrow> slot \<Rightarrow> artifact_manifest \<Rightarrow> pystr \<Rightarrow> ('a deployer, unit) prog" where
  "commit_prefix E st inactive manifest v =
     bind_p (rename_p (Candidate inactive) (SlotDir inactive)) (\<lambda>_.
     bind_p (on_slot (\<lambda>r n. verified_slot_artifact E r n v) inactive) (\<lambda>_.
     if anchor_of E \<noteq> None
     then write_pending_anchor st inactive v (release_sequence manifest)
     else write_state (activated st inactive v (max (highest_release_sequence st) (release_sequence manifest)))))"

definition commit_suffix :: "('a, 'r) env \<Rightarrow> deployment_state \<Rightarrow> slot \<Rightarrow> artifact_manifest \<Rightarrow> pystr \<Rightarrow> ('a deployer, unit) prog" where
  "commit_suffix E st inactive manifest v =
     bind_p (if anchor_of E \<noteq> None then
               bind_p (modify_p (\<lambda>s. s\<lparr>recovery_required := True\<rparr>)) (\<lambda>_.
               bind_p (advance_anchor E (release_sequence manifest)) (\<lambda>new_floor.
               bind_p (write_state (activated st inactive v new_floor)) (\<lambda>_.
               bind_p (modify_p (\<lambda>s. s\<lparr>recovery_required := False\<rparr>)) (\<lambda>_.
               remove_pending_anchor))))
             else ret ()) (\<lambda>_.
     rmtree_ignore_p E (Backup inactive))"

definition undo_commit :: "('a, 'r) env \<Rightarrow> slot \<Rightarrow> exc \<Rightarrow> ('a deployer, unit) prog" where
  "undo_commit E inactive e =
     bind_p (node_p (SlotDir inactive)) (\<lambda>final.
     bind_p (if path_exists final \<and> \<not> is_symlink final then rmtree_ignore_p E (SlotDir inactive) else ret ()) (\<lambda>_.
     bind_p (node_p (Backup inactive)) (\<lambda>backup.
     bind_p (if path_exists backup then rename_p (Backup inactive) (SlotDir inactive) else ret ()) (\<lambda>_.
     raise_e e))))"

definition stage_candidate :: "('a, 'r) env \<Rightarrow> slot \<Rightarrow> fsnode option \<Rightarrow> ('a deployer, unit) prog" where
  "stage_candidate E inactive registry_dir =
     bind_p (rmtree_ignore_p E (Candidate inactive)) (\<lambda>_. copytree_p E registry_dir (Candidate inactive))"

definition gate_failed :: "('a, 'r) env \<Rightarrow> deployment_state \<Rightarrow> slot \<Rightarrow> exc \<Rightarrow> ('a deployer, 'b) prog" where
  "gate_failed E st inactive e =
     bind_p (rmtree_ignore_p E (Candidate inactive)) (\<lambda>_.
     bind_p (write_state (failed_state st e)) (\<lambda>_. raise_e e))"

definition set_aside :: "('a, 'r) env \<Rightarrow> slot \<Rightarrow> ('a deployer, unit) prog" where
  "set_aside E inactive =
     bind_p (rmtree_ignore_p E (Backup inactive)) (\<lambda>_.
     bind_p (node_p (SlotDir inactive)) (\<lambda>final.
     if path_exists final \<or> is_symlink final then
       if is_symlink final \<or> \<not> is_dir final
       then raise_e (DE ''inactive slot path is not a regular directory'')
       else rename_p (SlotDir inactive) (Backup inactive)
     else ret ()))"

definition admit :: "('a, 'r) env \<Rightarrow> pystr \<Rightarrow> bool \<Rightarrow> ('a deployer, fsnode option \<times> artifact_manifest \<times> deployment_state) prog" where
  "admit E v allow_downgrade =
     bind_p (lift_r (\<lambda>s. inspect (ext_of E) (reg (dur s)) v)) (\<lambda>(registry_dir, manifest).
     bind_p (assert_identity_p E v (release_sequence manifest)) (\<lambda>_.
     bind_p (read_state E True) (\<lambda>st.
     bind_p (guard_p (\<lambda>_. \<not> (anchor_of E \<noteq> None \<and> release_sequence manifest \<le> highest_release_sequence st))
       (Exc RollbackRejected ''external rollback anchor cannot be bypassed by allow_downgrade'')) (\<lambda>_.
     bind_p (guard_p (\<lambda>_. \<not> (release_sequence manifest \<le> highest_release_sequence st \<and> \<not> allow_downgrade))
       (Exc RollbackRejected ''release sequence is not newer than trusted floor'')) (\<lambda>_.
     ret (registry_dir, manifest, st))))))"

definition deploy :: "('a, 'r) env \<Rightarrow> pystr \<Rightarrow> bool \<Rightarrow> ('a deployer, model_metrics) prog" where
  "deploy E v allow_downgrade =
     deploy_locked (
       bind_p (admit E v allow_downgrade) (\<lambda>(registry_dir, manifest, st).
       let inactive = inactive_slot st
       in bind_p (stage_candidate E inactive registry_dir) (\<lambda>_.
          bind_p (catch_p (gate E st inactive manifest v) (gate_failed E st inactive)) (\<lambda>metrics.
          bind_p (set_aside E inactive) (\<lambda>_.
          bind_p (catch_p (commit_prefix E st inactive manifest v) (undo_commit E inactive)) (\<lambda>_.
          bind_p (commit_suffix E st inactive manifest v) (\<lambda>_. ret metrics)))))))"

section \<open>Rolling back and reading\<close>

definition rolled_back :: "deployment_state \<Rightarrow> slot \<Rightarrow> deployment_state" where
  "rolled_back st p =
     \<lparr>generation = generation st + 1, active_slot = Some p, previous_slot = active_slot st,
      slots = slots st, highest_release_sequence = highest_release_sequence st,
      status = Status_ROLLED_BACK, last_error = None\<rparr>"

definition rollback :: "('a, 'r) env \<Rightarrow> ('a deployer, bool) prog" where
  "rollback E =
     deploy_locked (
       bind_p (read_state E True) (\<lambda>st.
       case previous_slot st of
         None \<Rightarrow> ret False
       | Some p \<Rightarrow>
           (case slots st p of
              None \<Rightarrow> ret False
            | Some v \<Rightarrow>
                bind_p (on_slot (\<lambda>r n. verified_slot_runtime E r n v) p) (\<lambda>_.
                bind_p (write_state (rolled_back st p)) (\<lambda>_. ret True)))))"

definition active_identity :: "('a, 'r) env \<Rightarrow> ('a deployer, int \<times> pystr option) prog" where
  "active_identity E =
     bind_p (read_state E True) (\<lambda>st.
     ret (generation st, case active_slot st of None \<Rightarrow> None | Some a \<Rightarrow> slots st a))"

definition active_version :: "('a, 'r) env \<Rightarrow> ('a deployer, pystr option) prog" where
  "active_version E = bind_p (active_identity E) (\<lambda>(g, v). ret v)"

definition active_slot_version :: "deployment_state \<Rightarrow> (slot \<times> pystr) res" where
  "active_slot_version st =
     (case active_slot st of
        None \<Rightarrow> Inl (DE ''no active model'')
      | Some a \<Rightarrow> (case slots st a of
           Some v \<Rightarrow> Inr (a, v) | None \<Rightarrow> Inl (Exc ValueError ''invalid semantic version'')))"

definition active_snapshot :: "('a, 'r) env \<Rightarrow> ('a deployer, 'r \<times> pystr \<times> int) prog" where
  "active_snapshot E =
     deploy_locked (
       bind_p (read_state E True) (\<lambda>st.
       bind_p (lift_r (\<lambda>_. active_slot_version st)) (\<lambda>(a, v).
       bind_p (on_slot (\<lambda>r n. verified_slot_runtime E r n v) a) (\<lambda>runtime.
       ret (runtime, v, generation st)))))"

definition active_artifact_snapshot :: "('a, 'r) env \<Rightarrow> ('a deployer, bytes \<times> artifact_manifest \<times> int) prog" where
  "active_artifact_snapshot E =
     deploy_locked (
       bind_p (read_state E True) (\<lambda>st.
       bind_p (lift_r (\<lambda>_. active_slot_version st)) (\<lambda>(a, v).
       bind_p (on_slot (\<lambda>r n. verified_slot_artifact E r n v) a) (\<lambda>(raw, m).
       ret (raw, m, generation st)))))"

end
