(* ===== verification/CrashLogic.thy ===== *)
theory CrashLogic
  imports Deploy
begin

text \<open>
  A Hoare logic for the deployer's programs with a crash condition: \<open>chl K P p Q R\<close> says that
  from a state in \<open>P\<close> the program ends in \<open>Q\<close> or raises in \<open>R\<close>, and that every durable state
  it passes through, which is every state a crash can leave behind, is in \<open>K\<close>. The rules of
  the primitives are collected in \<open>chl\<close>.
\<close>

named_theorems chl_rules \<open>crash Hoare rules\<close>

section \<open>Triples\<close>

definition chl ::
  "('a durable \<Rightarrow> bool) \<Rightarrow> ('a deployer \<Rightarrow> bool) \<Rightarrow> ('a deployer, 'b) prog \<Rightarrow>
     ('b \<Rightarrow> 'a deployer \<Rightarrow> bool) \<Rightarrow> (exc \<Rightarrow> 'a deployer \<Rightarrow> bool) \<Rightarrow> bool" where
  "chl K P p Q R \<longleftrightarrow>
     (\<forall>s. P s \<longrightarrow>
        (\<exists>new. history (snd (p s)) = new @ history s \<and> (\<forall>d \<in> set new. K d)) \<and>
        (case fst (p s) of Inl e \<Rightarrow> R e (snd (p s)) | Inr x \<Rightarrow> Q x (snd (p s))))"

lemma chlI:
  assumes "\<And>s r t. P s \<Longrightarrow> p s = (r, t) \<Longrightarrow>
      (\<exists>new. history t = new @ history s \<and> (\<forall>d \<in> set new. K d)) \<and>
      (case r of Inl e \<Rightarrow> R e t | Inr x \<Rightarrow> Q x t)"
  shows "chl K P p Q R"
  unfolding chl_def using assms by (metis prod.collapse)

lemma chlD:
  assumes "chl K P p Q R" "P s" "p s = (r, t)"
  shows "\<exists>new. history t = new @ history s \<and> (\<forall>d \<in> set new. K d)"
    and "case r of Inl e \<Rightarrow> R e t | Inr x \<Rightarrow> Q x t"
proof -
  have "(\<exists>new. history (snd (p s)) = new @ history s \<and> (\<forall>d \<in> set new. K d)) \<and>
      (case fst (p s) of Inl e \<Rightarrow> R e (snd (p s)) | Inr x \<Rightarrow> Q x (snd (p s)))"
    using assms(1,2) unfolding chl_def by blast
  then show "\<exists>new. history t = new @ history s \<and> (\<forall>d \<in> set new. K d)"
    and "case r of Inl e \<Rightarrow> R e t | Inr x \<Rightarrow> Q x t"
    using assms(3) by (cases r; simp)+
qed

lemma chl_crash:
  assumes "chl K P p Q R" "P s" "p s = (r, t)" "d \<in> set (history t)"
  shows "K d \<or> d \<in> set (history s)"
  using chlD(1) [OF assms(1-3)] assms(4) by auto

lemma chl_Inr: "chl K P p Q R \<Longrightarrow> P s \<Longrightarrow> p s = (Inr x, t) \<Longrightarrow> Q x t"
  using chlD(2) by fastforce

lemma chl_Inl: "chl K P p Q R \<Longrightarrow> P s \<Longrightarrow> p s = (Inl e, t) \<Longrightarrow> R e t"
  using chlD(2) by fastforce

lemma chl_weaken:
  assumes "chl K P p Q R" "\<And>s. P' s \<Longrightarrow> P s" "\<And>x s. Q x s \<Longrightarrow> Q' x s" "\<And>e s. R e s \<Longrightarrow> R' e s"
    and "\<And>d. K d \<Longrightarrow> K' d"
  shows "chl K' P' p Q' R'"
proof (rule chlI)
  fix s r t assume run: "P' s" "p s = (r, t)"
  note d = chlD [OF assms(1) assms(2) [OF run(1)] run(2)]
  have "case r of Inl e \<Rightarrow> R' e t | Inr x \<Rightarrow> Q' x t"
    using d(2) assms(3,4) by (cases r) simp_all
  then show "(\<exists>new. history t = new @ history s \<and> (\<forall>d \<in> set new. K' d)) \<and>
      (case r of Inl e \<Rightarrow> R' e t | Inr x \<Rightarrow> Q' x t)"
    using d(1) assms(5) by blast
qed

lemma chl_pre: "chl K P p Q R \<Longrightarrow> (\<And>s. P' s \<Longrightarrow> P s) \<Longrightarrow> chl K P' p Q R"
  by (rule chl_weaken)

lemma chl_false: "chl K (\<lambda>s. False) p Q R"
  by (simp add: chl_def)

lemma chl_bind:
  assumes "chl K P p M R" "\<And>x. chl K (M x) (f x) Q R"
  shows "chl K P (bind_p p f) Q R"
proof (rule chlI)
  fix s r t assume P: "P s" and run: "bind_p p f s = (r, t)"
  obtain r1 s1 where p: "p s = (r1, s1)" by (cases "p s")
  note one = chlD [OF assms(1) P p]
  show "(\<exists>new. history t = new @ history s \<and> (\<forall>d \<in> set new. K d)) \<and>
      (case r of Inl e \<Rightarrow> R e t | Inr x \<Rightarrow> Q x t)"
  proof (cases r1)
    case (Inl e)
    then show ?thesis using run p one by (auto simp: bind_p_def)
  next
    case (Inr x)
    then have "f x s1 = (r, t)" using run p by (simp add: bind_p_def)
    moreover have "M x s1" using one(2) Inr by simp
    ultimately have "\<exists>new. history t = new @ history s1 \<and> (\<forall>d \<in> set new. K d)"
        "case r of Inl e \<Rightarrow> R e t | Inr x \<Rightarrow> Q x t"
      using chlD [OF assms(2)] by blast+
    then show ?thesis using one(1) by (metis Un_iff append_assoc set_append)
  qed
qed

lemma chl_catch:
  assumes "chl K P p Q M" "\<And>e. chl K (M e) (h e) Q R"
  shows "chl K P (catch_p p h) Q R"
proof (rule chlI)
  fix s r t assume P: "P s" and run: "catch_p p h s = (r, t)"
  obtain r1 s1 where p: "p s = (r1, s1)" by (cases "p s")
  note one = chlD [OF assms(1) P p]
  show "(\<exists>new. history t = new @ history s \<and> (\<forall>d \<in> set new. K d)) \<and>
      (case r of Inl e \<Rightarrow> R e t | Inr x \<Rightarrow> Q x t)"
  proof (cases r1)
    case (Inr x)
    then show ?thesis using run p one by (auto simp: catch_p_def)
  next
    case (Inl e)
    then have "h e s1 = (r, t)" using run p by (simp add: catch_p_def)
    moreover have "M e s1" using one(2) Inl by simp
    ultimately have "\<exists>new. history t = new @ history s1 \<and> (\<forall>d \<in> set new. K d)"
        "case r of Inl e \<Rightarrow> R e t | Inr x \<Rightarrow> Q x t"
      using chlD [OF assms(2)] by blast+
    then show ?thesis using one(1) by (metis Un_iff append_assoc set_append)
  qed
qed

lemma chl_if:
  assumes "b \<Longrightarrow> chl K P p Q R" "\<not> b \<Longrightarrow> chl K P q Q R"
  shows "chl K P (if b then p else q) Q R"
  using assms by simp

lemma chl_ret [chl_rules]: "(\<And>s. P s \<Longrightarrow> Q x s) \<Longrightarrow> chl K P (ret x) Q R"
  by (simp add: chl_def prog_run)

lemma chl_raise [chl_rules]: "(\<And>s. P s \<Longrightarrow> R e s) \<Longrightarrow> chl K P (raise_e e) Q R"
  by (simp add: chl_def prog_run)

lemma chl_gets [chl_rules]: "(\<And>s. P s \<Longrightarrow> Q (f s) s) \<Longrightarrow> chl K P (gets_p f) Q R"
  by (simp add: chl_def prog_run)

lemma chl_node [chl_rules]: "(\<And>s. P s \<Longrightarrow> Q (nodes (dur s) c) s) \<Longrightarrow> chl K P (node_p c) Q R"
  unfolding node_p_def by (rule chl_gets)

lemma chl_lift [chl_rules]:
  "(\<And>s x. P s \<Longrightarrow> f s = Inr x \<Longrightarrow> Q x s) \<Longrightarrow> (\<And>s e. P s \<Longrightarrow> f s = Inl e \<Longrightarrow> R e s) \<Longrightarrow>
     chl K P (lift_r f) Q R"
  by (auto simp: chl_def prog_run split: sum.splits)

lemma chl_guard [chl_rules]:
  "(\<And>s. P s \<Longrightarrow> b s \<Longrightarrow> Q () s) \<Longrightarrow> (\<And>s. P s \<Longrightarrow> \<not> b s \<Longrightarrow> R e s) \<Longrightarrow> chl K P (guard_p b e) Q R"
  by (auto simp: chl_def prog_run)

lemma chl_modify:
  "(\<And>s. P s \<Longrightarrow> Q () (f s) \<and> history (f s) = history s) \<Longrightarrow> chl K P (modify_p f) Q R"
  by (simp add: chl_def prog_run)

lemma chl_step:
  assumes "\<And>s. P s \<Longrightarrow> K (f (dur s))"
    and "\<And>s fs. P s \<Longrightarrow> Q () (commit_durable (f (dur s)) (s\<lparr>faults := fs\<rparr>))"
    and "\<And>s fs. P s \<Longrightarrow> faults s \<noteq> [] \<Longrightarrow> R os_error (s\<lparr>faults := fs\<rparr>)"
  shows "chl K P (step_p f) Q R"
  using assms by (auto simp: chl_def step_p_def commit_durable_def)

lemma chl_modify_durable:
  assumes "\<And>s. P s \<Longrightarrow> K (f (dur s)) \<and> Q () (commit_durable (f (dur s)) s)"
  shows "chl K P (modify_p (\<lambda>s. commit_durable (f (dur s)) s)) Q R"
  using assms by (auto simp: chl_def prog_run commit_durable_def)

lemma chl_reg:
  assumes "\<And>s r g. P s \<Longrightarrow> p (reg (dur s)) = (r, g) \<Longrightarrow>
      K ((dur s)\<lparr>reg := g\<rparr>) \<and>
      (case r of Inl e \<Rightarrow> R e (commit_durable ((dur s)\<lparr>reg := g\<rparr>) s)
       | Inr x \<Rightarrow> Q x (commit_durable ((dur s)\<lparr>reg := g\<rparr>) s))"
  shows "chl K P (reg_p p) Q R"
proof (rule chlI)
  fix s r t assume P: "P s" and run: "reg_p p s = (r, t)"
  obtain r' g where "p (reg (dur s)) = (r', g)" by (cases "p (reg (dur s))")
  with run have "r' = r" "t = commit_durable ((dur s)\<lparr>reg := g\<rparr>) s" "p (reg (dur s)) = (r, g)"
    by (simp_all add: reg_p_def)
  then show "(\<exists>new. history t = new @ history s \<and> (\<forall>d \<in> set new. K d)) \<and>
      (case r of Inl e \<Rightarrow> R e t | Inr x \<Rightarrow> Q x t)"
    using assms [OF P, of r g] by (cases r) (auto simp: commit_durable_def)
qed

lemma chl_anchor:
  assumes "\<And>s r a. P s \<Longrightarrow> p (anchor_store (dur s)) = (r, a) \<Longrightarrow>
      K ((dur s)\<lparr>anchor_store := a\<rparr>) \<and>
      (case r of Inl e \<Rightarrow> R e (commit_durable ((dur s)\<lparr>anchor_store := a\<rparr>) s)
       | Inr x \<Rightarrow> Q x (commit_durable ((dur s)\<lparr>anchor_store := a\<rparr>) s))"
  shows "chl K P (anchor_p p) Q R"
proof (rule chlI)
  fix s r t assume P: "P s" and run: "anchor_p p s = (r, t)"
  obtain r' a where "p (anchor_store (dur s)) = (r', a)" by (cases "p (anchor_store (dur s))")
  with run have "t = commit_durable ((dur s)\<lparr>anchor_store := a\<rparr>) s" "p (anchor_store (dur s)) = (r, a)"
    by (simp_all add: anchor_p_def)
  then show "(\<exists>new. history t = new @ history s \<and> (\<forall>d \<in> set new. K d)) \<and>
      (case r of Inl e \<Rightarrow> R e t | Inr x \<Rightarrow> Q x t)"
    using assms [OF P, of r a] by (cases r) (auto simp: commit_durable_def)
qed

section \<open>Assertions on the durable state\<close>

text \<open>
  Most assertions look at the durable state only. \<open>on_disk nf V A\<close> holds in the states whose
  durable part satisfies \<open>A\<close>, whose trusted floor and recovery flag satisfy \<open>V\<close>, and, when
  \<open>nf\<close>, whose plan holds no fault. \<open>dtrip nf V K A p B C\<close> is the triple over such
  assertions; \<open>B\<close> and \<open>C\<close> may depend on the value and on the exception.
\<close>

definition on_disk ::
  "bool \<Rightarrow> (int option \<Rightarrow> bool \<Rightarrow> bool) \<Rightarrow> ('a durable \<Rightarrow> bool) \<Rightarrow> 'a deployer \<Rightarrow> bool" where
  "on_disk nf V A s \<longleftrightarrow>
     A (dur s) \<and> V (trusted_floor s) (recovery_required s) \<and> (nf \<longrightarrow> faults s = [])"

definition dtrip ::
  "bool \<Rightarrow> (int option \<Rightarrow> bool \<Rightarrow> bool) \<Rightarrow> ('a durable \<Rightarrow> bool) \<Rightarrow> ('a durable \<Rightarrow> bool) \<Rightarrow>
     ('a deployer, 'b) prog \<Rightarrow> ('b \<Rightarrow> 'a durable \<Rightarrow> bool) \<Rightarrow> (exc \<Rightarrow> 'a durable \<Rightarrow> bool) \<Rightarrow> bool" where
  "dtrip nf V K A p B C \<longleftrightarrow>
     chl K (on_disk nf V A) p (\<lambda>x. on_disk nf V (B x)) (\<lambda>e. on_disk nf V (C e))"

lemma dtrip_bind:
  "dtrip nf V K A p M C \<Longrightarrow> (\<And>x. dtrip nf V K (M x) (f x) B C) \<Longrightarrow> dtrip nf V K A (bind_p p f) B C"
  unfolding dtrip_def by (rule chl_bind)

lemma dtrip_catch:
  "dtrip nf V K A p B M \<Longrightarrow> (\<And>e. dtrip nf V K (M e) (h e) B C) \<Longrightarrow> dtrip nf V K A (catch_p p h) B C"
  unfolding dtrip_def by (rule chl_catch)

lemma dtrip_weaken:
  assumes "dtrip nf V K A p B C" "\<And>d. A' d \<Longrightarrow> A d" "\<And>x d. B x d \<Longrightarrow> B' x d" "\<And>e d. C e d \<Longrightarrow> C' e d"
  shows "dtrip nf V K A' p B' C'"
  unfolding dtrip_def
  by (rule chl_weaken [OF assms(1) [unfolded dtrip_def]]) (auto simp: on_disk_def assms(2-4))

lemma dtrip_pre: "dtrip nf V K A p B C \<Longrightarrow> (\<And>d. A' d \<Longrightarrow> A d) \<Longrightarrow> dtrip nf V K A' p B C"
  by (rule dtrip_weaken)

lemma dtrip_crash_weaken:
  assumes "dtrip nf V K A p B C" "\<And>d. K d \<Longrightarrow> K' d"
  shows "dtrip nf V K' A p B C"
  unfolding dtrip_def
  by (rule chl_weaken [OF assms(1) [unfolded dtrip_def]]) (auto simp: assms(2))

text \<open>A fact the precondition gives once for all.\<close>

lemma dtrip_fact:
  assumes "\<And>d. A d \<Longrightarrow> F" "F \<Longrightarrow> dtrip nf V K A p B C"
  shows "dtrip nf V K A p B C"
  using assms unfolding dtrip_def chl_def on_disk_def by blast

lemma dtrip_exI: "(\<And>y. dtrip nf V K (A y) p B C) \<Longrightarrow> dtrip nf V K (\<lambda>d. \<exists>y. A y d) p B C"
  unfolding dtrip_def chl_def on_disk_def by blast

lemma dtrip_cases:
  assumes "dtrip nf V K (\<lambda>d. A d \<and> F d) p B C" "dtrip nf V K (\<lambda>d. A d \<and> \<not> F d) p B C"
  shows "dtrip nf V K A p B C"
  using assms unfolding dtrip_def chl_def on_disk_def by blast

lemma dtrip_false: "dtrip nf V K (\<lambda>d. False) p B C"
  by (simp add: dtrip_def chl_def on_disk_def)

lemma dtrip_if:
  "(b \<Longrightarrow> dtrip nf V K A p B C) \<Longrightarrow> (\<not> b \<Longrightarrow> dtrip nf V K A q B C) \<Longrightarrow> dtrip nf V K A (if b then p else q) B C"
  by simp

lemma dtrip_ret: "(\<And>d. A d \<Longrightarrow> B x d) \<Longrightarrow> dtrip nf V K A (ret x) B C"
  unfolding dtrip_def by (rule chl_ret) (simp add: on_disk_def)

lemma dtrip_raise: "(\<And>d. A d \<Longrightarrow> C e d) \<Longrightarrow> dtrip nf V K A (raise_e e) B C"
  unfolding dtrip_def by (rule chl_raise) (simp add: on_disk_def)

lemma dtrip_node: "(\<And>d. A d \<Longrightarrow> B (nodes d c) d) \<Longrightarrow> dtrip nf V K A (node_p c) B C"
  unfolding dtrip_def by (rule chl_node) (simp add: on_disk_def)

text \<open>Reading a node, with its value known afterwards.\<close>

lemma dtrip_node_bind:
  "(\<And>n. dtrip nf V K (\<lambda>d. A d \<and> nodes d c = n) (f n) B C) \<Longrightarrow> dtrip nf V K A (bind_p (node_p c) f) B C"
  by (rule dtrip_bind [where M = "\<lambda>n d. A d \<and> nodes d c = n"]) (auto intro: dtrip_node)

lemma dtrip_lift:
  "(\<And>d x. A d \<Longrightarrow> f d = Inr x \<Longrightarrow> B x d) \<Longrightarrow> (\<And>d e. A d \<Longrightarrow> f d = Inl e \<Longrightarrow> C e d) \<Longrightarrow>
     dtrip nf V K A (lift_r (\<lambda>s. f (dur s))) B C"
  unfolding dtrip_def by (rule chl_lift) (auto simp: on_disk_def)

lemma dtrip_lift_const:
  "(\<And>d x. A d \<Longrightarrow> r = Inr x \<Longrightarrow> B x d) \<Longrightarrow> (\<And>d e. A d \<Longrightarrow> r = Inl e \<Longrightarrow> C e d) \<Longrightarrow>
     dtrip nf V K A (lift_r (\<lambda>s. r)) B C"
  by (rule dtrip_lift)

lemma dtrip_gets: "(\<And>d. A d \<Longrightarrow> B (f d) d) \<Longrightarrow> dtrip nf V K A (gets_p (\<lambda>s. f (dur s))) B C"
  unfolding dtrip_def by (rule chl_gets) (simp add: on_disk_def)

lemma dtrip_guard:
  "(\<And>d. A d \<Longrightarrow> b d \<Longrightarrow> B () d) \<Longrightarrow> (\<And>d. A d \<Longrightarrow> \<not> b d \<Longrightarrow> C e d) \<Longrightarrow>
     dtrip nf V K A (guard_p (\<lambda>s. b (dur s)) e) B C"
  unfolding dtrip_def by (rule chl_guard) (auto simp: on_disk_def)

lemma dtrip_guard_const:
  "(\<And>d. A d \<Longrightarrow> b \<Longrightarrow> B () d) \<Longrightarrow> (\<And>d. A d \<Longrightarrow> \<not> b \<Longrightarrow> C e d) \<Longrightarrow>
     dtrip nf V K A (guard_p (\<lambda>s. b) e) B C"
  by (rule dtrip_guard)

lemma dtrip_step:
  assumes "\<And>d. A d \<Longrightarrow> K (f d)" "\<And>d. A d \<Longrightarrow> B () (f d)" "\<And>d. \<not> nf \<Longrightarrow> A d \<Longrightarrow> C os_error d"
  shows "dtrip nf V K A (step_p f) B C"
  using assms by (auto simp: dtrip_def chl_def step_p_def commit_durable_def on_disk_def)

lemma dtrip_trusted:
  assumes "\<And>d tf rq. A d \<Longrightarrow> V tf rq \<Longrightarrow> B tf d"
  shows "dtrip nf V K A (gets_p trusted_floor) B C"
  unfolding dtrip_def by (rule chl_gets) (use assms in \<open>auto simp: on_disk_def\<close>)

lemma dtrip_set_trusted:
  assumes "\<And>d rq tf. A d \<Longrightarrow> V tf rq \<Longrightarrow> V f rq \<and> B () d"
  shows "dtrip nf V K A (modify_p (\<lambda>s. s\<lparr>trusted_floor := f\<rparr>)) B C"
  unfolding dtrip_def by (rule chl_modify) (use assms in \<open>auto simp: on_disk_def\<close>)

lemma dtrip_set_recovery:
  assumes "\<And>d rq tf. A d \<Longrightarrow> V tf rq \<Longrightarrow> V tf f \<and> B () d"
  shows "dtrip nf V K A (modify_p (\<lambda>s. s\<lparr>recovery_required := f\<rparr>)) B C"
  unfolding dtrip_def by (rule chl_modify) (use assms in \<open>auto simp: on_disk_def\<close>)

lemma dtrip_reg:
  assumes "\<And>d r g. A d \<Longrightarrow> p (reg d) = (r, g) \<Longrightarrow>
      K (d\<lparr>reg := g\<rparr>) \<and> (case r of Inl e \<Rightarrow> C e (d\<lparr>reg := g\<rparr>) | Inr x \<Rightarrow> B x (d\<lparr>reg := g\<rparr>))"
  shows "dtrip nf V K A (reg_p p) B C"
  unfolding dtrip_def
proof (rule chl_reg)
  fix s r g assume "on_disk nf V A s" "p (reg (dur s)) = (r, g)"
  then show "K ((dur s)\<lparr>reg := g\<rparr>) \<and>
      (case r of Inl e \<Rightarrow> on_disk nf V (C e) (commit_durable ((dur s)\<lparr>reg := g\<rparr>) s)
       | Inr x \<Rightarrow> on_disk nf V (B x) (commit_durable ((dur s)\<lparr>reg := g\<rparr>) s))"
    using assms [of "dur s" r g] by (cases r) (auto simp: on_disk_def commit_durable_def)
qed

lemma dtrip_anchor:
  assumes "\<And>d r a. A d \<Longrightarrow> p (anchor_store d) = (r, a) \<Longrightarrow>
      K (d\<lparr>anchor_store := a\<rparr>) \<and>
      (case r of Inl e \<Rightarrow> C e (d\<lparr>anchor_store := a\<rparr>) | Inr x \<Rightarrow> B x (d\<lparr>anchor_store := a\<rparr>))"
  shows "dtrip nf V K A (anchor_p p) B C"
  unfolding dtrip_def
proof (rule chl_anchor)
  fix s r a assume "on_disk nf V A s" "p (anchor_store (dur s)) = (r, a)"
  then show "K ((dur s)\<lparr>anchor_store := a\<rparr>) \<and>
      (case r of Inl e \<Rightarrow> on_disk nf V (C e) (commit_durable ((dur s)\<lparr>anchor_store := a\<rparr>) s)
       | Inr x \<Rightarrow> on_disk nf V (B x) (commit_durable ((dur s)\<lparr>anchor_store := a\<rparr>) s))"
    using assms [of "dur s" r a] by (cases r) (auto simp: on_disk_def commit_durable_def)
qed

section \<open>Rules of the path operations\<close>

lemma dtrip_locked:
  assumes "\<And>d. A d \<Longrightarrow> \<exists>n. lock_acquire (nodes d LockFile) = Inr n"
    and "\<And>d n. A d \<Longrightarrow> lock_acquire (nodes d LockFile) = Inr n \<Longrightarrow>
           K (set_node LockFile (Some n) d) \<and> M (set_node LockFile (Some n) d)"
    and "dtrip nf V K M p B C"
  shows "dtrip nf V K A (deploy_locked p) B C"
  unfolding deploy_locked_def
proof (rule dtrip_bind [where M = "\<lambda>n d. A d \<and> lock_acquire (nodes d LockFile) = Inr n"])
  show "dtrip nf V K A (lift_r (\<lambda>s. lock_acquire (nodes (dur s) LockFile)))
      (\<lambda>n d. A d \<and> lock_acquire (nodes d LockFile) = Inr n) C"
    by (rule dtrip_lift) (use assms(1) in fastforce)+
  fix n
  show "dtrip nf V K (\<lambda>d. A d \<and> lock_acquire (nodes d LockFile) = Inr n)
      (bind_p (modify_p (\<lambda>s. commit_durable (set_node LockFile (Some n) (dur s)) s)) (\<lambda>_. p)) B C"
  proof (rule dtrip_bind [where M = "\<lambda>_. M"])
    show "dtrip nf V K (\<lambda>d. A d \<and> lock_acquire (nodes d LockFile) = Inr n)
        (modify_p (\<lambda>s. commit_durable (set_node LockFile (Some n) (dur s)) s)) (\<lambda>_. M) C"
      using assms(2) by (auto simp: dtrip_def chl_def prog_run commit_durable_def on_disk_def)
  qed (rule assms(3))
qed

lemma dtrip_write:
  assumes "\<And>d. A d \<Longrightarrow> \<not> is_dir (nodes d c) \<or> is_symlink (nodes d c)"
    and "\<And>d. A d \<Longrightarrow> K (set_node c (Some (RegFile bs)) d) \<and> B () (set_node c (Some (RegFile bs)) d)"
    and "\<And>d. \<not> nf \<Longrightarrow> A d \<Longrightarrow> C os_error d"
  shows "dtrip nf V K A (write_p c bs) B C"
  unfolding write_p_def
proof (rule dtrip_bind [where M = "\<lambda>n d. A d \<and> n = RegFile bs"])
  have "write_node (nodes d c) bs = Inr (RegFile bs)" if "A d" for d
    using assms(1) [OF that] by (auto simp: write_node_def split: option.splits fsnode.splits)
  then show "dtrip nf V K A (lift_r (\<lambda>s. write_node (nodes (dur s) c) bs)) (\<lambda>n d. A d \<and> n = RegFile bs) C"
    by (intro dtrip_lift) auto
qed (rule dtrip_step; use assms in auto)

lemma dtrip_rmtree:
  assumes "\<And>d. A d \<Longrightarrow> \<exists>es. nodes d c = Some (Directory es)"
    and "\<And>d es. A d \<Longrightarrow> K (set_node c (Some (Directory es)) d) \<and> T (set_node c (Some (Directory es)) d)"
    and "\<And>d. T d \<Longrightarrow> K (set_node c None d) \<and> B () (set_node c None d)"
    and "\<And>d. \<not> nf \<Longrightarrow> A d \<or> T d \<Longrightarrow> C os_error d"
  shows "dtrip nf V K A (rmtree_p E c) B C"
  unfolding rmtree_p_def
proof (rule dtrip_node_bind)
  fix n
  show "dtrip nf V K (\<lambda>d. A d \<and> nodes d c = n)
      (case n of Some (Directory es) \<Rightarrow>
         bind_p (step_p (set_node c (Some (Directory (torn E es))))) (\<lambda>_. step_p (set_node c None))
       | _ \<Rightarrow> raise_e os_error) B C"
  proof (cases "\<exists>es. n = Some (Directory es)")
    case True
    then obtain es where n: "n = Some (Directory es)" by blast
    have "dtrip nf V K (\<lambda>d. A d \<and> nodes d c = n)
        (bind_p (step_p (set_node c (Some (Directory (torn E es))))) (\<lambda>_. step_p (set_node c None))) B C"
      by (rule dtrip_bind [where M = "\<lambda>_. T"]; rule dtrip_step) (use assms in auto)
    then show ?thesis by (simp add: n)
  next
    case False
    then show ?thesis
      by (intro dtrip_pre [OF dtrip_false]) (use assms(1) in blast)
  qed
qed

text \<open>\<^verbatim>\<open>ignore_errors=True\<close> on anything that is a directory or absent.\<close>

lemma dtrip_rmtree_ignore:
  assumes "\<And>d. A d \<Longrightarrow> B () d"
    and "\<And>d es. A d \<Longrightarrow> nodes d c \<noteq> None \<Longrightarrow>
           K (set_node c (Some (Directory es)) d) \<and> A (set_node c (Some (Directory es)) d)"
    and "\<And>d. A d \<Longrightarrow> nodes d c \<noteq> None \<Longrightarrow> K (set_node c None d) \<and> B () (set_node c None d)"
  shows "dtrip nf V K A (rmtree_ignore_p E c) B C"
  unfolding rmtree_ignore_p_def
proof (rule dtrip_catch [where M = "\<lambda>_. A"])
  show "dtrip nf V K A (rmtree_p E c) B (\<lambda>_. A)"
    unfolding rmtree_p_def
  proof (rule dtrip_node_bind)
    fix n
    show "dtrip nf V K (\<lambda>d. A d \<and> nodes d c = n)
        (case n of Some (Directory es) \<Rightarrow>
           bind_p (step_p (set_node c (Some (Directory (torn E es))))) (\<lambda>_. step_p (set_node c None))
         | _ \<Rightarrow> raise_e os_error) B (\<lambda>_. A)"
    proof (cases "\<exists>es. n = Some (Directory es)")
      case True
      then obtain es where n: "n = Some (Directory es)" by blast
      have "dtrip nf V K (\<lambda>d. A d \<and> nodes d c = n)
          (bind_p (step_p (set_node c (Some (Directory (torn E es))))) (\<lambda>_. step_p (set_node c None))) B (\<lambda>_. A)"
        by (rule dtrip_bind [where M = "\<lambda>_ d. A d \<and> nodes d c \<noteq> None"]; rule dtrip_step)
           (use assms in \<open>auto simp: n set_node_def\<close>)
      then show ?thesis by (simp add: n)
    next
      case False
      have "dtrip nf V K (\<lambda>d. A d \<and> nodes d c = n) (raise_e os_error) B (\<lambda>_. A)"
        by (rule dtrip_raise) simp
      then show ?thesis using False by (auto split: option.splits fsnode.splits)
    qed
  qed
  show "dtrip nf V K A (ret ()) B C" for e
    by (rule dtrip_ret) (rule assms(1))
qed

lemma dtrip_rename:
  assumes "\<And>d. A d \<Longrightarrow> nf \<Longrightarrow> nodes d src \<noteq> None \<and> nodes d dst \<in> {None, Some (Directory [])}"
    and "\<And>d. A d \<Longrightarrow> nodes d src \<noteq> None \<Longrightarrow> nodes d dst \<in> {None, Some (Directory [])} \<Longrightarrow>
      K (set_node dst (nodes d src) (set_node src None d)) \<and>
      B () (set_node dst (nodes d src) (set_node src None d))"
    and "\<And>d. \<not> nf \<Longrightarrow> A d \<Longrightarrow> C os_error d"
  shows "dtrip nf V K A (rename_p src dst) B C"
  unfolding rename_p_def
proof (rule dtrip_node_bind, rule dtrip_node_bind)
  fix n m
  show "dtrip nf V K (\<lambda>d. (A d \<and> nodes d src = n) \<and> nodes d dst = m)
      (if n = None \<or> \<not> (m = None \<or> m = Some (Directory [])) then raise_e os_error
       else step_p (\<lambda>d. set_node dst n (set_node src None d))) B C"
  proof (rule dtrip_if)
    assume "n = None \<or> \<not> (m = None \<or> m = Some (Directory []))"
    then show "dtrip nf V K (\<lambda>d. (A d \<and> nodes d src = n) \<and> nodes d dst = m) (raise_e os_error) B C"
    proof (intro dtrip_raise)
      fix d assume d: "(A d \<and> nodes d src = n) \<and> nodes d dst = m"
      have "\<not> nf"
      proof
        assume nf
        with d assms(1) [of d] show False
          using \<open>n = None \<or> \<not> (m = None \<or> m = Some (Directory []))\<close> by auto
      qed
      with d assms(3) show "C os_error d" by blast
    qed
  next
    assume nm: "\<not> (n = None \<or> \<not> (m = None \<or> m = Some (Directory [])))"
    show "dtrip nf V K (\<lambda>d. (A d \<and> nodes d src = n) \<and> nodes d dst = m)
        (step_p (\<lambda>d. set_node dst n (set_node src None d))) B C"
    proof -
      have "K (set_node dst n (set_node src None d)) \<and> B () (set_node dst n (set_node src None d))"
        if d: "(A d \<and> nodes d src = n) \<and> nodes d dst = m" for d
      proof -
        have "nodes d src \<noteq> None" "nodes d dst \<in> {None, Some (Directory [])}" using nm d by auto
        then show ?thesis using assms(2) [of d] d by simp
      qed
      then show ?thesis by (intro dtrip_step) (use assms(3) in blast)+
    qed
  qed
qed

lemma nodes_set_node [simp]: "nodes (set_node c n d) = (nodes d)(c := n)"
  by (simp add: set_node_def)

lemma set_node_other [simp]:
  "reg (set_node c n d) = reg d" "anchor_store (set_node c n d) = anchor_store d"
  by (simp_all add: set_node_def)

lemma dtrip_unlink:
  assumes "\<And>d. A d \<Longrightarrow> nodes d c = None \<Longrightarrow> B () d"
    and "\<And>d bs. A d \<Longrightarrow> nodes d c = Some (RegFile bs) \<Longrightarrow> K (set_node c None d) \<and> B () (set_node c None d)"
    and "\<And>d. A d \<Longrightarrow> nodes d c = None \<or> (\<exists>bs. nodes d c = Some (RegFile bs))"
    and "\<And>d. \<not> nf \<Longrightarrow> A d \<Longrightarrow> C os_error d"
  shows "dtrip nf V K A (unlink_p c) B C"
  unfolding unlink_p_def
proof (rule dtrip_node_bind)
  fix n
  show "dtrip nf V K (\<lambda>d. A d \<and> nodes d c = n)
      (case n of None \<Rightarrow> ret () | Some (Directory _) \<Rightarrow> raise_e os_error | Some _ \<Rightarrow> step_p (set_node c None)) B C"
  proof (cases n)
    case None
    then show ?thesis by (auto intro!: dtrip_ret assms(1))
  next
    case (Some m)
    show ?thesis
    proof (cases m)
      case (RegFile bs)
      have "dtrip nf V K (\<lambda>d. A d \<and> nodes d c = n) (step_p (set_node c None)) B C"
        by (rule dtrip_step) (use assms(2,4) Some RegFile in auto)
      then show ?thesis by (simp add: Some RegFile)
    qed (intro dtrip_pre [OF dtrip_false]; use assms(3) Some in fastforce)+
  qed
qed

lemma dtrip_for:
  assumes "\<And>x ys. dtrip nf V K (I (x # ys)) (f x) (\<lambda>_. I ys) C"
  shows "dtrip nf V K (I xs) (for_p xs f) (\<lambda>_. I []) C"
proof (induction xs)
  case Nil
  show ?case by (simp add: dtrip_ret)
next
  case (Cons x xs)
  show ?case unfolding for_p.simps by (rule dtrip_bind [OF assms Cons])
qed

end
