(* ===== verification/RecoverySteps.thy ===== *)
theory RecoverySteps
  imports CrashLogic
begin

text \<open>
  Startup recovery: which durable states \<^verbatim>\<open>ABDeployer\<close> recovers from, and to what.
  \<open>rec_now st\<close> holds of the states whose \<open>state.json\<close> is \<open>st\<close> and where every slot that \<open>st\<close>
  names can be found, in place or in its backup; \<open>rec_ahead st\<close> of those where the anchor has
  moved on and the journal says how to follow it. Recovery from either ends in a \<open>live\<close> state,
  and every state it passes through is again one of them, so it may itself be interrupted.
\<close>

section \<open>The environment\<close>

text \<open>The anchor's operations as the deployer calls them: its results are unchecked objects.\<close>

definition anchor_ops_of :: "('a, int) prog \<Rightarrow> (int \<Rightarrow> ('a, int) prog) \<Rightarrow> 'a anchor_ops" where
  "anchor_ops_of rd adv =
     \<lparr>anchor_read_op = bind_p rd (\<lambda>i. ret (JInt i)),
      anchor_advance_op = (\<lambda>n. bind_p (adv n) (\<lambda>i. ret (JInt i)))\<rparr>"

text \<open>The deployer has no anchor, or one that keeps the protocol.\<close>

definition anchored :: "('a, 'r) env \<Rightarrow> ('a \<Rightarrow> bool) \<Rightarrow> ('a \<Rightarrow> int) \<Rightarrow> bool" where
  "anchored E ok lvl \<longleftrightarrow>
     (case anchor_of E of None \<Rightarrow> True
      | Some ops \<Rightarrow> \<exists>rd adv. rollback_anchor rd adv ok lvl \<and> ops = anchor_ops_of rd adv)"

definition floor_is :: "('a, 'r) env \<Rightarrow> ('a \<Rightarrow> bool) \<Rightarrow> ('a \<Rightarrow> int) \<Rightarrow> int \<Rightarrow> 'a durable \<Rightarrow> bool" where
  "floor_is E ok lvl f d \<longleftrightarrow> (anchor_of E \<noteq> None \<longrightarrow> ok (anchor_store d) \<and> lvl (anchor_store d) = f)"

lemma anchor_reads:
  assumes "anchored E ok lvl" "anchor_of E = Some ops" "ok a"
  shows "\<exists>b. anchor_read_op ops a = (Inr (JInt (lvl a)), b) \<and> ok b \<and> lvl b = lvl a"
proof -
  obtain rd adv where r: "rollback_anchor rd adv ok lvl" and o: "ops = anchor_ops_of rd adv"
    using assms(1,2) by (auto simp: anchored_def)
  show ?thesis using rollback_anchor.read_law [OF r assms(3)]
    by (auto simp: o anchor_ops_of_def bind_p_def prog_simps)
qed

lemma anchor_advances:
  assumes "anchored E ok lvl" "anchor_of E = Some ops" "ok a" "lvl a \<le> n" "n \<le> max_release_sequence"
  shows "\<exists>b. anchor_advance_op ops n a = (Inr (JInt n), b) \<and> ok b \<and> lvl b = n"
proof -
  obtain rd adv where r: "rollback_anchor rd adv ok lvl" and o: "ops = anchor_ops_of rd adv"
    using assms(1,2) by (auto simp: anchored_def)
  show ?thesis using rollback_anchor.advance_law [OF r assms(3-5)]
    by (auto simp: o anchor_ops_of_def bind_p_def prog_simps)
qed

lemma anchor_range:
  assumes "anchored E ok lvl" "anchor_of E \<noteq> None" "ok a"
  shows "- 1 \<le> lvl a \<and> lvl a \<le> max_release_sequence"
proof -
  obtain rd adv where "rollback_anchor rd adv ok lvl" using assms(1,2) by (auto simp: anchored_def)
  then show ?thesis using assms(3) by (rule rollback_anchor.floor_range)
qed

text \<open>The registry is shared: only its lock file may change under the deployer's calls.\<close>

definition reg_like :: "registry \<Rightarrow> registry \<Rightarrow> bool" where
  "reg_like r r' \<longleftrightarrow>
     reg_entries r' = reg_entries r \<and> reg_keyring r' = reg_keyring r \<and>
     (\<exists>l. lock_acquire (reg_lock r') = Inr l)"

lemma reg_like_inspect: "reg_like r r' \<Longrightarrow> inspect x r' v = inspect x r v"
  by (simp add: inspect_def reg_like_def reg_dir_def)

lemma reg_like_verified:
  "reg_like r r' \<Longrightarrow> verified_directory_manifest x r' n v = verified_directory_manifest x r n v"
  by (simp add: verified_directory_manifest_def canonical_manifest_def reg_like_inspect)
     (simp add: reg_like_def)

definition identity_ok :: "ext \<Rightarrow> registry \<Rightarrow> pystr \<Rightarrow> int \<Rightarrow> bool" where
  "identity_ok x r v seq \<longleftrightarrow>
     (\<exists>d m. inspect x r v = Inr (d, m) \<and> release_sequence m = seq) \<and>
     assert_sequence_available x (reg_keyring r) (reg_entries r) seq v = Inr ()"

lemma identity_run:
  assumes "reg_like r r'" "assert_release_sequence_identity x v seq r' = (res, g)"
  shows "reg_like r g" "res = Inr () \<longleftrightarrow> identity_ok x r v seq"
proof -
  obtain l where l: "lock_acquire (reg_lock r') = Inr l" using assms(1) by (auto simp: reg_like_def)
  have lock: "lock_acquire (Some l) = Inr l" using l by (auto simp: lock_acquire_Inr)
  have i: "inspect x (r'\<lparr>reg_lock := k\<rparr>) v = inspect x r v" for k
    using assms(1) by (simp add: inspect_def reg_like_def reg_dir_def)
  have s: "safe_version v = Inr v" if "inspect x r v = Inr p" for p
    using that by (cases p) (simp add: inspect_Inr safe_version_Inr)
  show "reg_like r g"
    using assms(2) l lock assms(1)
    by (auto simp: assert_release_sequence_identity_def reg_locked_def bind_p_def prog_simps i
        reg_like_def split: sum.splits prod.splits if_splits)
  show "res = Inr () \<longleftrightarrow> identity_ok x r v seq"
    using assms l s
    by (cases "safe_version v"; cases "inspect x r v")
       (auto simp: assert_release_sequence_identity_def reg_locked_def bind_p_def prog_simps i
        reg_like_def identity_ok_def split: sum.splits prod.splits if_splits)
qed

section \<open>Assertions\<close>

definition removable :: "fsnode option \<Rightarrow> bool" where
  "removable n \<longleftrightarrow> n = None \<or> (\<exists>es. n = Some (Directory es))"

lemma removable_simps [simp]: "removable None" "removable (Some (Directory es))"
  by (simp_all add: removable_def)

lemma removable_not_link [simp]: "removable n \<Longrightarrow> \<not> is_symlink n"
  by (auto simp: removable_def)

lemma removable_exists: "removable n \<Longrightarrow> path_exists n \<longleftrightarrow> n \<noteq> None"
  by (auto simp: removable_def)

lemma removable_dir: "removable n \<Longrightarrow> n \<noteq> None \<Longrightarrow> is_dir n \<and> (\<exists>es. n = Some (Directory es))"
  by (auto simp: removable_def)

text \<open>A directory that verifies as a published version within the floor.\<close>

definition good :: "ext \<Rightarrow> registry \<Rightarrow> int \<Rightarrow> fsnode option \<Rightarrow> pystr \<Rightarrow> bool" where
  "good x r f n v \<longleftrightarrow>
     (\<exists>m. verified_directory_manifest x r n v = Inr m \<and> release_sequence m \<le> f)"

lemma verified_is_dir:
  "verified_directory_manifest x r n v = Inr m \<Longrightarrow> \<exists>es. n = Some (Directory es)"
  by (auto simp: verified_directory_manifest_def rbind_Inr_iff dest: verify_directory_facts(1))

lemma good_removable: "good x r f n v \<Longrightarrow> removable n"
  by (auto simp: good_def removable_def dest: verified_is_dir)

lemma good_some: "good x r f n v \<Longrightarrow> \<exists>es. n = Some (Directory es)"
  by (auto simp: good_def dest: verified_is_dir)

lemma good_mono: "good x r f n v \<Longrightarrow> f \<le> g \<Longrightarrow> good x r g n v"
  by (auto simp: good_def)

text \<open>
  One slot of state \<open>st\<close> on disk: \<open>slot_ok\<close> says that its version can be found in place or in
  the backup, \<open>slot_live\<close> that it is in place.
\<close>

definition slot_ok :: "ext \<Rightarrow> registry \<Rightarrow> deployment_state \<Rightarrow> 'a durable \<Rightarrow> slot \<Rightarrow> bool" where
  "slot_ok x r st d sl \<longleftrightarrow>
     removable (nodes d (Backup sl)) \<and> removable (nodes d (SlotDir sl)) \<and>
     (case slots st sl of
        None \<Rightarrow> nodes d (Backup sl) = None
      | Some v \<Rightarrow> good x r (highest_release_sequence st) (nodes d (SlotDir sl)) v \<or>
          good x r (highest_release_sequence st) (nodes d (Backup sl)) v)"

definition slot_live :: "ext \<Rightarrow> registry \<Rightarrow> deployment_state \<Rightarrow> 'a durable \<Rightarrow> slot \<Rightarrow> bool" where
  "slot_live x r st d sl \<longleftrightarrow>
     removable (nodes d (Backup sl)) \<and>
     (case slots st sl of
        None \<Rightarrow> nodes d (Backup sl) = None \<and> nodes d (SlotDir sl) = None
      | Some v \<Rightarrow> good x r (highest_release_sequence st) (nodes d (SlotDir sl)) v)"

lemma slot_live_ok: "slot_live x r st d sl \<Longrightarrow> slot_ok x r st d sl"
  by (auto simp: slot_live_def slot_ok_def good_removable split: option.splits)

lemma slot_okD:
  assumes "slot_ok x r st d sl"
  shows "removable (nodes d (Backup sl))" "removable (nodes d (SlotDir sl))"
    "slots st sl = None \<Longrightarrow> nodes d (Backup sl) = None"
    "slots st sl = Some v \<Longrightarrow> good x r (highest_release_sequence st) (nodes d (SlotDir sl)) v \<or>
       good x r (highest_release_sequence st) (nodes d (Backup sl)) v"
  using assms by (auto simp: slot_ok_def)

text \<open>The journal on disk, and the two journals that recovery clears in passing.\<close>

definition journal_is :: "pending_commit \<Rightarrow> fsnode option \<Rightarrow> bool" where
  "journal_is p n \<longleftrightarrow>
     pending_storable p \<and> (\<exists>bs. pending_to_bytes p = Inr bs \<and> n = Some (RegFile bs))"

definition abandoned :: "deployment_state \<Rightarrow> pending_commit \<Rightarrow> bool" where
  "abandoned st p \<longleftrightarrow>
     previous_floor p = highest_release_sequence st \<and> previous_generation p = generation st"

definition completed :: "ext \<Rightarrow> registry \<Rightarrow> deployment_state \<Rightarrow> 'a durable \<Rightarrow> pending_commit \<Rightarrow> bool" where
  "completed x r st d p \<longleftrightarrow>
     pending_sequence p = highest_release_sequence st \<and> previous_generation p + 1 = generation st \<and>
     active_version_is st (target_slot p) (pending_version p) \<and>
     identity_ok x r (pending_version p) (pending_sequence p) \<and>
     good x r (highest_release_sequence st) (nodes d (SlotDir (target_slot p))) (pending_version p)"

definition journal_ok ::
  "('a, 'r) env \<Rightarrow> registry \<Rightarrow> deployment_state \<Rightarrow> 'a durable \<Rightarrow> bool" where
  "journal_ok E r st d \<longleftrightarrow>
     nodes d PendingFile = None \<or>
     anchor_of E \<noteq> None \<and>
     (\<exists>p. journal_is p (nodes d PendingFile) \<and> (abandoned st p \<or> completed (ext_of E) r st d p))"

text \<open>What every durable state of a deployer at rest or under way has.\<close>

definition base ::
  "('a, 'r) env \<Rightarrow> ('a \<Rightarrow> bool) \<Rightarrow> ('a \<Rightarrow> int) \<Rightarrow> registry \<Rightarrow> deployment_state \<Rightarrow> int \<Rightarrow> 'a durable \<Rightarrow> bool" where
  "base E ok lvl r st f d \<longleftrightarrow>
     (\<exists>es. nodes d RootDir = Some (Directory es)) \<and> (\<exists>es. nodes d SlotsRoot = Some (Directory es)) \<and>
     (\<exists>l. lock_acquire (nodes d LockFile) = Inr l) \<and>
     (\<exists>bs. state_to_bytes st = Inr bs \<and> nodes d StateFile = Some (RegFile bs)) \<and>
     reg_like r (reg d) \<and> floor_is E ok lvl f d \<and> (\<forall>sl. removable (nodes d (Candidate sl)))"

lemma base_simps [simp]:
  "base E ok lvl r st f (set_node (SlotDir sl) n d) = base E ok lvl r st f d"
  "base E ok lvl r st f (set_node (Backup sl) n d) = base E ok lvl r st f d"
  "base E ok lvl r st f (set_node PendingFile n d) = base E ok lvl r st f d"
  by (simp_all add: base_def floor_is_def)

lemma base_candidate: "base E ok lvl r st f d \<Longrightarrow> removable n \<Longrightarrow> base E ok lvl r st f (set_node (Candidate sl) n d)"
  by (simp add: base_def floor_is_def)

lemma base_lock:
  "base E ok lvl r st f d \<Longrightarrow> lock_acquire (nodes d LockFile) = Inr l \<Longrightarrow>
     base E ok lvl r st f (set_node LockFile (Some l) d)"
  by (auto simp: base_def floor_is_def lock_acquire_Inr)

lemma base_state:
  "base E ok lvl r st f d \<Longrightarrow> state_to_bytes st' = Inr bs \<Longrightarrow>
     base E ok lvl r st' f (set_node StateFile (Some (RegFile bs)) d)"
  by (simp add: base_def floor_is_def)

lemma base_reg: "base E ok lvl r st f d \<Longrightarrow> reg_like r g \<Longrightarrow> base E ok lvl r st f (d\<lparr>reg := g\<rparr>)"
  by (simp add: base_def floor_is_def)

lemma base_anchor:
  "base E ok lvl r st f d \<Longrightarrow> ok a \<Longrightarrow> lvl a = g \<Longrightarrow> base E ok lvl r st g (d\<lparr>anchor_store := a\<rparr>)"
  by (simp add: base_def floor_is_def)

lemma base_valid: "base E ok lvl r st f d \<Longrightarrow> state_valid st"
  by (auto simp: base_def dest: state_to_bytes_valid)

lemma read_regular_whole:
  "length bs \<le> limit \<Longrightarrow> read_regular what limit (Some (RegFile bs)) = Inr bs"
  by (simp add: read_regular_def open_nofollow_def)

lemma state_node_reads:
  "state_from_bytes bs = Inr st \<Longrightarrow> state_of_node (Some (RegFile bs)) = Inr st"
  by (auto simp: state_of_node_def read_regular_whole state_from_bytes_def not_less rbind_Inr_iff)

lemma base_reads:
  assumes "base E ok lvl r st f d" "state_storable st"
  shows "state_of_node (nodes d StateFile) = Inr st"
proof -
  obtain bs where bs: "state_to_bytes st = Inr bs" "nodes d StateFile = Some (RegFile bs)"
    using assms(1) by (auto simp: base_def)
  from state_from_to_bytes [OF base_valid [OF assms(1)] assms(2) bs(1)]
  show ?thesis unfolding bs(2) by (rule state_node_reads)
qed

lemma journal_reads:
  assumes "journal_is p n"
  shows "pending_of_node n = Inr (Some p)" "pending_valid p"
proof -
  obtain bs where bs: "pending_storable p" "pending_to_bytes p = Inr bs" "n = Some (RegFile bs)"
    using assms by (auto simp: journal_is_def)
  obtain q where q: "parse_pending (pending_to_dict p) = Inr q"
    using bs(2) by (auto simp: pending_to_bytes_def rbind_Inr_iff)
  have "q = p"
    using q by (auto simp: parse_pending_def pending_to_dict_def rbind_Inr_iff check_bounded_Inr
        check_slot_Inr safe_version_json_Inr jfield_def slot_name_inject)
  then show v: "pending_valid p" using parse_pending_valid [OF q] by simp
  obtain bs' where "pending_to_bytes p = Inr bs'" "pending_from_bytes bs' = Inr p"
    using pending_roundtrip [OF v bs(1)] by blast
  then have f: "pending_from_bytes bs = Inr p" using bs(2) by simp
  then have "length bs \<le> max_pending_bytes" by (auto simp: pending_from_bytes_def rbind_Inr_iff)
  then show "pending_of_node n = Inr (Some p)"
    using f by (simp add: bs(3) pending_of_node_def read_regular_whole)
qed

lemma frame_simps [simp]:
  "slot_ok x r st (d\<lparr>reg := g\<rparr>) sl = slot_ok x r st d sl"
  "slot_ok x r st (d\<lparr>anchor_store := a\<rparr>) sl = slot_ok x r st d sl"
  "slot_ok x r st (set_node StateFile n d) sl = slot_ok x r st d sl"
  "slot_ok x r st (set_node PendingFile n d) sl = slot_ok x r st d sl"
  "slot_ok x r st (set_node LockFile n d) sl = slot_ok x r st d sl"
  "slot_ok x r st (set_node (Candidate s) n d) sl = slot_ok x r st d sl"
  "s \<noteq> sl \<Longrightarrow> slot_ok x r st (set_node (SlotDir s) n d) sl = slot_ok x r st d sl"
  "s \<noteq> sl \<Longrightarrow> slot_ok x r st (set_node (Backup s) n d) sl = slot_ok x r st d sl"
  "slot_live x r st (d\<lparr>reg := g\<rparr>) sl = slot_live x r st d sl"
  "slot_live x r st (d\<lparr>anchor_store := a\<rparr>) sl = slot_live x r st d sl"
  "slot_live x r st (set_node StateFile n d) sl = slot_live x r st d sl"
  "slot_live x r st (set_node PendingFile n d) sl = slot_live x r st d sl"
  "slot_live x r st (set_node LockFile n d) sl = slot_live x r st d sl"
  "slot_live x r st (set_node (Candidate s) n d) sl = slot_live x r st d sl"
  "s \<noteq> sl \<Longrightarrow> slot_live x r st (set_node (SlotDir s) n d) sl = slot_live x r st d sl"
  "s \<noteq> sl \<Longrightarrow> slot_live x r st (set_node (Backup s) n d) sl = slot_live x r st d sl"
  "journal_ok E r st (d\<lparr>reg := g\<rparr>) = journal_ok E r st d"
  "journal_ok E r st (d\<lparr>anchor_store := a\<rparr>) = journal_ok E r st d"
  "journal_ok E r st (set_node LockFile n d) = journal_ok E r st d"
  "journal_ok E r st (set_node (Candidate s) n d) = journal_ok E r st d"
  "completed x r st (d\<lparr>reg := g\<rparr>) p = completed x r st d p"
  by (simp_all add: slot_ok_def slot_live_def journal_ok_def completed_def cong: option.case_cong)

section \<open>Recoverable states\<close>

text \<open>A journal that does not speak of a committed state: recovery drops it at the end.\<close>

definition no_commit :: "('a, 'r) env \<Rightarrow> deployment_state \<Rightarrow> 'a durable \<Rightarrow> bool" where
  "no_commit E st d \<longleftrightarrow>
     nodes d PendingFile = None \<or>
     anchor_of E \<noteq> None \<and> (\<exists>p. journal_is p (nodes d PendingFile) \<and> abandoned st p)"

definition rec_now ::
  "('a, 'r) env \<Rightarrow> ('a \<Rightarrow> bool) \<Rightarrow> ('a \<Rightarrow> int) \<Rightarrow> registry \<Rightarrow> deployment_state \<Rightarrow> 'a durable \<Rightarrow> bool" where
  "rec_now E ok lvl r st d \<longleftrightarrow>
     base E ok lvl r st (highest_release_sequence st) d \<and> (\<forall>sl. slot_ok (ext_of E) r st d sl) \<and>
     journal_ok E r st d"

definition rec_clear ::
  "('a, 'r) env \<Rightarrow> ('a \<Rightarrow> bool) \<Rightarrow> ('a \<Rightarrow> int) \<Rightarrow> registry \<Rightarrow> deployment_state \<Rightarrow> 'a durable \<Rightarrow> bool" where
  "rec_clear E ok lvl r st d \<longleftrightarrow>
     base E ok lvl r st (highest_release_sequence st) d \<and> (\<forall>sl. slot_ok (ext_of E) r st d sl) \<and>
     no_commit E st d"

definition deploy_journal :: "deployment_state \<Rightarrow> slot \<Rightarrow> pystr \<Rightarrow> int \<Rightarrow> pending_commit" where
  "deploy_journal st sl v seq =
     \<lparr>previous_generation = generation st, previous_floor = highest_release_sequence st,
      target_slot = sl, pending_version = v, pending_sequence = seq\<rparr>"

definition rec_ahead ::
  "('a, 'r) env \<Rightarrow> ('a \<Rightarrow> bool) \<Rightarrow> ('a \<Rightarrow> int) \<Rightarrow> registry \<Rightarrow> deployment_state \<Rightarrow> slot \<Rightarrow> pystr \<Rightarrow> int \<Rightarrow>
     'a durable \<Rightarrow> bool" where
  "rec_ahead E ok lvl r st sl v f d \<longleftrightarrow>
     anchor_of E \<noteq> None \<and> base E ok lvl r st f d \<and> state_storable st \<and>
     highest_release_sequence st < f \<and> f \<le> max_release_sequence \<and> sl = inactive_slot st \<and>
     journal_is (deploy_journal st sl v f) (nodes d PendingFile) \<and> identity_ok (ext_of E) r v f \<and>
     (\<exists>m. verified_directory_manifest (ext_of E) r (nodes d (SlotDir sl)) v = Inr m \<and> release_sequence m = f) \<and>
     removable (nodes d (Backup sl)) \<and> (\<forall>sl'. sl' \<noteq> sl \<longrightarrow> slot_ok (ext_of E) r st d sl')"

definition recoverable ::
  "('a, 'r) env \<Rightarrow> ('a \<Rightarrow> bool) \<Rightarrow> ('a \<Rightarrow> int) \<Rightarrow> registry \<Rightarrow> deployment_state \<Rightarrow> 'a durable \<Rightarrow> bool" where
  "recoverable E ok lvl r st d \<longleftrightarrow>
     rec_now E ok lvl r st d \<or>
     (\<exists>st0 sl v f. rec_ahead E ok lvl r st0 sl v f d \<and> st = activated st0 sl v f)"

text \<open>A deployer at rest: every slot in place, no journal.\<close>

definition live ::
  "('a, 'r) env \<Rightarrow> ('a \<Rightarrow> bool) \<Rightarrow> ('a \<Rightarrow> int) \<Rightarrow> registry \<Rightarrow> deployment_state \<Rightarrow> 'a durable \<Rightarrow> bool" where
  "live E ok lvl r st d \<longleftrightarrow>
     base E ok lvl r st (highest_release_sequence st) d \<and> (\<forall>sl. slot_live (ext_of E) r st d sl) \<and>
     nodes d PendingFile = None"

lemma rec_clear_now: "rec_clear E ok lvl r st d \<Longrightarrow> rec_now E ok lvl r st d"
  by (auto simp: rec_clear_def rec_now_def no_commit_def journal_ok_def)

lemma live_clear: "live E ok lvl r st d \<Longrightarrow> rec_clear E ok lvl r st d"
  by (simp add: live_def rec_clear_def slot_live_ok no_commit_def)

lemma rec_now_recoverable: "rec_now E ok lvl r st d \<Longrightarrow> recoverable E ok lvl r st d"
  by (simp add: recoverable_def)

lemma activated_simps [simp]:
  "generation (activated st sl v f) = generation st + 1"
  "active_slot (activated st sl v f) = Some sl"
  "previous_slot (activated st sl v f) = active_slot st"
  "slots (activated st sl v f) = (slots st)(sl := Some v)"
  "highest_release_sequence (activated st sl v f) = f"
  "status (activated st sl v f) = Status_ACTIVE"
  "last_error (activated st sl v f) = None"
  by (simp_all add: activated_def)

lemma inactive_neq: "active_slot st = Some a \<Longrightarrow> inactive_slot st \<noteq> a"
  by (auto simp: inactive_slot_def)

lemma two_slots: "(s :: slot) \<noteq> a \<Longrightarrow> t \<noteq> a \<Longrightarrow> s = t"
  by (cases s; cases t; cases a) auto

lemma activated_valid:
  assumes "state_valid st" "semver_match v" "- 1 \<le> f" "f \<le> max_release_sequence"
  shows "state_valid (activated st (inactive_slot st) v f)"
proof -
  have a: "slots st a \<noteq> None" if "active_slot st = Some a" for a
    using assms(1) that by (simp add: state_valid_def)
  have s: "active_slot st = Some sl" if "slots st sl \<noteq> None" "sl \<noteq> inactive_slot st" for sl
  proof (cases "active_slot st")
    case None
    then show ?thesis using assms(1) that(1) by (simp add: state_valid_def)
  next
    case (Some a)
    then have "sl = a" using that(2) inactive_neq [OF Some] two_slots by metis
    then show ?thesis using Some by simp
  qed
  have n: "active_slot st \<noteq> Some (inactive_slot st)" using inactive_neq by metis
  have p: "((slots st)(inactive_slot st := Some v)) q \<noteq> None" if "active_slot st = Some q" for q
    using a [OF that] by simp
  have w: "semver_match u" if "((slots st)(inactive_slot st := Some v)) sl = Some u" for sl u
    using that assms(1,2) by (auto simp: state_valid_def split: if_splits)
  have g: "0 \<le> generation st" using assms(1) by (simp add: state_valid_def)
  show ?thesis
    unfolding state_valid_def activated_simps using g n p w s assms(3,4) by auto
qed

lemma slot_ok_activated:
  assumes "slot_ok x r st d sl'" "sl' \<noteq> sl" "highest_release_sequence st \<le> f"
  shows "slot_ok x r (activated st sl v f) d sl'"
  using assms good_mono [OF _ assms(3)] by (auto simp: slot_ok_def split: option.splits)

text \<open>Recovery's own commit: the state file follows the anchor.\<close>

lemma rec_ahead_commit:
  assumes a: "rec_ahead E ok lvl r st sl v f d" and b: "state_to_bytes (activated st sl v f) = Inr bs"
  shows "rec_now E ok lvl r (activated st sl v f) (set_node StateFile (Some (RegFile bs)) d)"
    and "completed (ext_of E) r (activated st sl v f) (set_node StateFile (Some (RegFile bs)) d) (deploy_journal st sl v f)"
proof -
  let ?s = "activated st sl v f" and ?d = "set_node StateFile (Some (RegFile bs)) d"
  obtain m where m: "verified_directory_manifest (ext_of E) r (nodes d (SlotDir sl)) v = Inr m"
      "release_sequence m = f"
    and facts: "anchor_of E \<noteq> None" "base E ok lvl r st f d" "highest_release_sequence st < f"
      "journal_is (deploy_journal st sl v f) (nodes d PendingFile)" "identity_ok (ext_of E) r v f"
      "removable (nodes d (Backup sl))" "\<And>sl'. sl' \<noteq> sl \<Longrightarrow> slot_ok (ext_of E) r st d sl'"
    using a unfolding rec_ahead_def by blast
  have g: "good (ext_of E) r f (nodes d (SlotDir sl)) v" using m by (auto simp: good_def)
  have "slot_ok (ext_of E) r ?s d sl'" for sl'
  proof (cases "sl' = sl")
    case True
    then show ?thesis using g facts(6) by (simp add: slot_ok_def good_removable)
  next
    case False
    then show ?thesis using facts(3) by (intro slot_ok_activated facts(7)) simp_all
  qed
  moreover show c: "completed (ext_of E) r ?s ?d (deploy_journal st sl v f)"
    using g facts(5) by (simp add: completed_def deploy_journal_def active_version_is_def)
  ultimately show "rec_now E ok lvl r ?s ?d"
    using base_state [OF facts(2) b] facts(1,4) unfolding rec_now_def journal_ok_def by auto
qed

section \<open>Steps of recovery\<close>

definition trusts :: "('a, 'r) env \<Rightarrow> int \<Rightarrow> int option \<Rightarrow> bool \<Rightarrow> bool" where
  "trusts E f tf rq \<longleftrightarrow> tf = (if anchor_of E = None then None else Some f) \<and> \<not> rq"

lemma state_node_exists: "state_of_node n = Inr st \<Longrightarrow> path_exists n"
  by (cases n; cases "the n")
     (auto simp: state_of_node_def read_regular_def open_nofollow_def rbind_Inr_iff)

lemma dtrip_read_state:
  assumes "\<And>d. A d \<Longrightarrow> state_of_node (nodes d StateFile) = Inr st"
  shows "dtrip nf V K A (read_state E False) (\<lambda>s d. s = st \<and> A d) C"
  unfolding read_state_def
proof (rule dtrip_node_bind)
  fix n
  have n: "state_of_node n = Inr st \<and> path_exists n" if "A d \<and> nodes d StateFile = n" for d
    using assms that state_node_exists by blast
  show "dtrip nf V K (\<lambda>d. A d \<and> nodes d StateFile = n)
     (if \<not> path_exists n then
       bind_p (guard_p (\<lambda>s. \<not> (is_symlink n \<or> slot_data_exists (dur s)))
         (DE ''deployment state missing while slot data exists'')) (\<lambda>_. ret initial_state)
      else bind_p (lift_r (\<lambda>_. state_of_node n)) (\<lambda>st.
        bind_p (if False then validate_state_anchor E st else ret ()) (\<lambda>_. ret st)))
     (\<lambda>s d. s = st \<and> A d) C"
  proof (rule dtrip_if)
    assume "\<not> path_exists n"
    then show "dtrip nf V K (\<lambda>d. A d \<and> nodes d StateFile = n)
        (bind_p (guard_p (\<lambda>s. \<not> (is_symlink n \<or> slot_data_exists (dur s)))
         (DE ''deployment state missing while slot data exists'')) (\<lambda>_. ret initial_state)) (\<lambda>s d. s = st \<and> A d) C"
      by (intro dtrip_pre [OF dtrip_false]) (use n in blast)
  next
    show "dtrip nf V K (\<lambda>d. A d \<and> nodes d StateFile = n)
        (bind_p (lift_r (\<lambda>_. state_of_node n)) (\<lambda>st.
        bind_p (if False then validate_state_anchor E st else ret ()) (\<lambda>_. ret st))) (\<lambda>s d. s = st \<and> A d) C"
    proof (rule dtrip_bind [where M = "\<lambda>s d. s = st \<and> A d"])
      show "dtrip nf V K (\<lambda>d. A d \<and> nodes d StateFile = n) (lift_r (\<lambda>_. state_of_node n)) (\<lambda>s d. s = st \<and> A d) C"
        by (rule dtrip_lift_const; frule n; simp)
    qed (simp add: dtrip_ret)
  qed
qed

lemma rec_clear_slot:
  assumes "rec_clear E ok lvl r st d" "slot_ok (ext_of E) r st d' sl"
    and "d' = set_node (SlotDir sl) n d \<or> d' = set_node (Backup sl) n d \<or>
         d' = set_node (SlotDir sl) n (set_node (Backup sl) m d) \<or>
         d' = set_node (Backup sl) n (set_node (SlotDir sl) m d)"
  shows "rec_clear E ok lvl r st d'"
proof -
  have "slot_ok (ext_of E) r st d' sl'" for sl'
    using assms unfolding rec_clear_def by (cases "sl' = sl") auto
  then show ?thesis using assms(1,3) unfolding rec_clear_def no_commit_def by auto
qed

lemma rec_clear_set:
  assumes "rec_clear E ok lvl r st d"
  shows "slot_ok (ext_of E) r st (set_node (SlotDir sl) n d) sl \<Longrightarrow> rec_clear E ok lvl r st (set_node (SlotDir sl) n d)"
    and "slot_ok (ext_of E) r st (set_node (Backup sl) n d) sl \<Longrightarrow> rec_clear E ok lvl r st (set_node (Backup sl) n d)"
    and "slot_ok (ext_of E) r st (set_node (SlotDir sl) n (set_node (Backup sl) m d)) sl \<Longrightarrow>
      rec_clear E ok lvl r st (set_node (SlotDir sl) n (set_node (Backup sl) m d))"
    and "slot_ok (ext_of E) r st (set_node (Backup sl) n (set_node (SlotDir sl) m d)) sl \<Longrightarrow>
      rec_clear E ok lvl r st (set_node (Backup sl) n (set_node (SlotDir sl) m d))"
  using rec_clear_slot [OF assms] by blast+

text \<open>Replacing one of the two copies of a slot while the other one is good.\<close>

lemma slot_ok_set:
  assumes "slot_ok x r st d sl" "removable n"
  shows "slots st sl = None \<Longrightarrow> slot_ok x r st (set_node (SlotDir sl) n d) sl"
    and "slots st sl = Some v \<Longrightarrow> good x r (highest_release_sequence st) (nodes d (Backup sl)) v \<Longrightarrow>
      slot_ok x r st (set_node (SlotDir sl) n d) sl"
    and "slots st sl = Some v \<Longrightarrow> good x r (highest_release_sequence st) (nodes d (SlotDir sl)) v \<Longrightarrow>
      slot_ok x r st (set_node (Backup sl) n d) sl"
    and "slots st sl = Some v \<Longrightarrow> good x r (highest_release_sequence st) (nodes d (Backup sl)) v \<Longrightarrow>
      slot_ok x r st (set_node (SlotDir sl) (nodes d (Backup sl)) (set_node (Backup sl) None d)) sl"
    and "slots st sl = Some v \<Longrightarrow> good x r (highest_release_sequence st) (nodes d (SlotDir sl)) v \<Longrightarrow>
      slot_ok x r st (set_node (Backup sl) (nodes d (SlotDir sl)) (set_node (SlotDir sl) None d)) sl"
  using assms by (auto simp: slot_ok_def)

definition backups_done ::
  "('a, 'r) env \<Rightarrow> ('a \<Rightarrow> bool) \<Rightarrow> ('a \<Rightarrow> int) \<Rightarrow> registry \<Rightarrow> deployment_state \<Rightarrow> slot list \<Rightarrow> 'a durable \<Rightarrow> bool" where
  "backups_done E ok lvl r st todo d \<longleftrightarrow>
     rec_clear E ok lvl r st d \<and> (\<forall>sl. sl \<notin> set todo \<longrightarrow> nodes d (Backup sl) = None)"

lemma backups_done_set:
  assumes "backups_done E ok lvl r st (sl # ys) d"
  shows "slot_ok (ext_of E) r st (set_node (SlotDir sl) n d) sl \<Longrightarrow>
      backups_done E ok lvl r st (sl # ys) (set_node (SlotDir sl) n d)"
    and "slot_ok (ext_of E) r st (set_node (Backup sl) n d) sl \<Longrightarrow>
      backups_done E ok lvl r st (sl # ys) (set_node (Backup sl) n d)"
    and "slot_ok (ext_of E) r st (set_node (SlotDir sl) n (set_node (Backup sl) m d)) sl \<Longrightarrow>
      backups_done E ok lvl r st (sl # ys) (set_node (SlotDir sl) n (set_node (Backup sl) m d))"
  using assms rec_clear_set [of E ok lvl r st d sl] unfolding backups_done_def by simp_all

lemma backups_done_next:
  "backups_done E ok lvl r st (sl # ys) d \<Longrightarrow> nodes d (Backup sl) = None \<Longrightarrow> backups_done E ok lvl r st ys d"
  unfolding backups_done_def by (metis set_ConsD)

lemma backups_doneD:
  assumes "backups_done E ok lvl r st todo d"
  shows "reg_like r (reg d)" "slot_ok (ext_of E) r st d sl" "recoverable E ok lvl r st d"
  using assms rec_clear_now rec_now_recoverable unfolding backups_done_def rec_clear_def base_def by blast+

lemma good_same:
  assumes "verified_directory_manifest x r n v = Inr m" "good x r f n' v"
  shows "good x r f n v"
proof -
  obtain m' where "verified_directory_manifest x r n' v = Inr m'" "release_sequence m' \<le> f"
    using assms(2) by (auto simp: good_def)
  then have "release_sequence m \<le> f"
    using assms(1) manifest_eq_fields(1) by (auto simp: verified_directory_manifest_def rbind_Inr_iff)
  then show ?thesis using assms(1) by (auto simp: good_def)
qed

text \<open>The four ways through \<open>recover_backup\<close>, for a slot with version \<open>v\<close>.\<close>

abbreviation copy_good where
  "copy_good E r st v c d \<equiv> good (ext_of E) r (highest_release_sequence st) (nodes d c) v"

lemma recover_drop:
  assumes v: "slots st sl = Some v"
  shows "dtrip nf V (recoverable E ok lvl r st)
    (\<lambda>d. backups_done E ok lvl r st (sl # ys) d \<and> copy_good E r st v (SlotDir sl) d \<and> nodes d (Backup sl) \<noteq> None)
    (rmtree_p E (Backup sl)) (\<lambda>_. backups_done E ok lvl r st ys) (\<lambda>_ _. \<not> nf)"
  (is "dtrip nf V ?K (\<lambda>d. ?A d \<and> ?G d \<and> _ d) _ ?B ?C")
proof (rule dtrip_rmtree [where T = "\<lambda>d. ?A d \<and> ?G d"])
  fix d es assume a: "?A d \<and> ?G d \<and> nodes d (Backup sl) \<noteq> None"
  then show "\<exists>es. nodes d (Backup sl) = Some (Directory es)"
    using slot_okD(1) [OF backups_doneD(2)] removable_dir by blast
  have "?A (set_node (Backup sl) (Some (Directory es)) d)"
    using a v by (intro backups_done_set(2) slot_ok_set(3)) (auto dest: backups_doneD(2))
  then show "?K (set_node (Backup sl) (Some (Directory es)) d) \<and> ?A (set_node (Backup sl) (Some (Directory es)) d) \<and>
      ?G (set_node (Backup sl) (Some (Directory es)) d)"
    using a backups_doneD(3) by auto
next
  fix d assume a: "?A d \<and> ?G d"
  then have "?A (set_node (Backup sl) None d)"
    using v by (intro backups_done_set(2) slot_ok_set(3)) (auto dest: backups_doneD(2))
  then show "?K (set_node (Backup sl) None d) \<and> ?B () (set_node (Backup sl) None d)"
    using backups_doneD(3) backups_done_next by fastforce
qed simp

lemma recover_clear:
  assumes v: "slots st sl = Some v"
  shows "dtrip nf V (recoverable E ok lvl r st)
    (\<lambda>d. backups_done E ok lvl r st (sl # ys) d \<and> copy_good E r st v (Backup sl) d \<and> nodes d (SlotDir sl) \<noteq> None)
    (rmtree_p E (SlotDir sl))
    (\<lambda>_ d. backups_done E ok lvl r st (sl # ys) d \<and> copy_good E r st v (Backup sl) d \<and> nodes d (SlotDir sl) = None)
    (\<lambda>_ _. \<not> nf)"
  (is "dtrip nf V ?K (\<lambda>d. ?A d \<and> ?G d \<and> _ d) _ ?B ?C")
proof (rule dtrip_rmtree [where T = "\<lambda>d. ?A d \<and> ?G d"])
  fix d es assume a: "?A d \<and> ?G d \<and> nodes d (SlotDir sl) \<noteq> None"
  then show "\<exists>es. nodes d (SlotDir sl) = Some (Directory es)"
    using slot_okD(2) [OF backups_doneD(2)] removable_dir by blast
  have "?A (set_node (SlotDir sl) (Some (Directory es)) d)"
    using a v by (intro backups_done_set(1) slot_ok_set(2)) (auto dest: backups_doneD(2))
  then show "?K (set_node (SlotDir sl) (Some (Directory es)) d) \<and> ?A (set_node (SlotDir sl) (Some (Directory es)) d) \<and>
      ?G (set_node (SlotDir sl) (Some (Directory es)) d)"
    using a backups_doneD(3) by auto
next
  fix d assume a: "?A d \<and> ?G d"
  then have "?A (set_node (SlotDir sl) None d)"
    using v by (intro backups_done_set(1) slot_ok_set(2)) (auto dest: backups_doneD(2))
  then show "?K (set_node (SlotDir sl) None d) \<and> ?A (set_node (SlotDir sl) None d) \<and>
      ?G (set_node (SlotDir sl) None d) \<and> nodes (set_node (SlotDir sl) None d) (SlotDir sl) = None"
    using a backups_doneD(3) by auto
qed simp

lemma recover_restore:
  assumes v: "slots st sl = Some v"
  shows "dtrip nf V (recoverable E ok lvl r st)
    (\<lambda>d. backups_done E ok lvl r st (sl # ys) d \<and> copy_good E r st v (Backup sl) d \<and> nodes d (SlotDir sl) = None)
    (rename_p (Backup sl) (SlotDir sl)) (\<lambda>_. backups_done E ok lvl r st ys) (\<lambda>_ _. \<not> nf)"
  (is "dtrip nf V ?K (\<lambda>d. ?A d \<and> ?G d \<and> _ d) _ ?B ?C")
proof (rule dtrip_rename)
  fix d assume a: "?A d \<and> ?G d \<and> nodes d (SlotDir sl) = None"
  then show "nodes d (Backup sl) \<noteq> None \<and> nodes d (SlotDir sl) \<in> {None, Some (Directory [])}"
    using good_some by fastforce
  have "?A (set_node (SlotDir sl) (nodes d (Backup sl)) (set_node (Backup sl) None d))"
    using a v by (intro backups_done_set(3) slot_ok_set(4) [OF _ removable_simps(1)]) (auto dest: backups_doneD(2))
  then show "?K (set_node (SlotDir sl) (nodes d (Backup sl)) (set_node (Backup sl) None d)) \<and>
      ?B () (set_node (SlotDir sl) (nodes d (Backup sl)) (set_node (Backup sl) None d))"
    using backups_doneD(3) backups_done_next by fastforce
qed simp

lemma dtrip_removable_bind:
  assumes "\<And>d. A d \<Longrightarrow> removable (nodes d c)"
    and "dtrip nf V K (\<lambda>d. A d \<and> nodes d c = None) p B C"
    and "\<And>es. dtrip nf V K (\<lambda>d. A d \<and> nodes d c = Some (Directory es)) q B C"
    and "f None = p" "\<And>es. f (Some (Directory es)) = q"
  shows "dtrip nf V K A (bind_p (node_p c) f) B C"
proof (rule dtrip_node_bind, rule dtrip_fact)
  fix n
  show "removable n" if "A d \<and> nodes d c = n" for d using that assms(1) by blast
  assume "removable n"
  then consider "n = None" | es where "n = Some (Directory es)" by (auto simp: removable_def)
  then show "dtrip nf V K (\<lambda>d. A d \<and> nodes d c = n) (f n) B C"
    using assms(2-5) by cases simp_all
qed

lemma recover_from_backup:
  assumes v: "slots st sl = Some v"
  shows "dtrip nf V (recoverable E ok lvl r st)
    (\<lambda>d. backups_done E ok lvl r st (sl # ys) d \<and> copy_good E r st v (Backup sl) d)
    (bind_p (node_p (SlotDir sl)) (\<lambda>final.
       bind_p (if path_exists final \<or> is_symlink final then
                 if is_symlink final \<or> \<not> is_dir final then raise_e (DE ''invalid slot path'')
                 else rmtree_p E (SlotDir sl)
               else ret ()) (\<lambda>_. rename_p (Backup sl) (SlotDir sl))))
    (\<lambda>_. backups_done E ok lvl r st ys) (\<lambda>_ _. \<not> nf)"
proof (rule dtrip_removable_bind [where p = "rename_p (Backup sl) (SlotDir sl)"
      and q = "bind_p (rmtree_p E (SlotDir sl)) (\<lambda>_. rename_p (Backup sl) (SlotDir sl))"])
  show "removable (nodes d (SlotDir sl))"
    if "backups_done E ok lvl r st (sl # ys) d \<and> copy_good E r st v (Backup sl) d" for d
    using that backups_doneD(2) slot_okD(2) by blast
  show "dtrip nf V (recoverable E ok lvl r st)
      (\<lambda>d. (backups_done E ok lvl r st (sl # ys) d \<and> copy_good E r st v (Backup sl) d) \<and> nodes d (SlotDir sl) = None)
      (rename_p (Backup sl) (SlotDir sl)) (\<lambda>_. backups_done E ok lvl r st ys) (\<lambda>_ _. \<not> nf)"
    by (rule dtrip_pre [OF recover_restore [OF v]]) simp
  show "dtrip nf V (recoverable E ok lvl r st)
      (\<lambda>d. (backups_done E ok lvl r st (sl # ys) d \<and> copy_good E r st v (Backup sl) d) \<and> nodes d (SlotDir sl) = Some (Directory es))
      (bind_p (rmtree_p E (SlotDir sl)) (\<lambda>_. rename_p (Backup sl) (SlotDir sl)))
      (\<lambda>_. backups_done E ok lvl r st ys) (\<lambda>_ _. \<not> nf)" for es
    by (rule dtrip_bind [OF dtrip_pre [OF recover_clear [OF v]] recover_restore [OF v]]) simp
qed simp_all

lemma dtrip_node_known:
  assumes "\<And>d. A d \<Longrightarrow> nodes d c = n" "dtrip nf V K A (f n) B C"
  shows "dtrip nf V K A (bind_p (node_p c) f) B C"
  by (rule dtrip_bind [where M = "\<lambda>m d. A d \<and> m = n"])
     (use assms in \<open>auto intro!: dtrip_node intro: dtrip_fact [of _ "_ = n"] dtrip_pre [OF assms(2)]\<close>)

text \<open>The test on the copy in place decides which of the two copies is good.\<close>

definition final_ok :: "('a, 'r) env \<Rightarrow> slot \<Rightarrow> pystr \<Rightarrow> 'a durable \<Rightarrow> bool" where
  "final_ok E sl v d =
     (let final = nodes d (SlotDir sl)
      in path_exists final \<and> \<not> is_symlink final \<and>
         (case verified_directory_manifest (ext_of E) (reg d) final v of Inr _ \<Rightarrow> True | Inl _ \<Rightarrow> False))"

lemma final_ok_decides:
  assumes a: "backups_done E ok lvl r st ys d" and v: "slots st sl = Some v"
  shows "if final_ok E sl v d then copy_good E r st v (SlotDir sl) d else copy_good E r st v (Backup sl) d"
proof -
  let ?n = "nodes d (SlotDir sl)" and ?f = "highest_release_sequence st"
  have l: "verified_directory_manifest (ext_of E) (reg d) n v = verified_directory_manifest (ext_of E) r n v" for n
    by (rule reg_like_verified [OF backups_doneD(1) [OF a]])
  have g: "copy_good E r st v (SlotDir sl) d \<or> copy_good E r st v (Backup sl) d"
    using slot_okD(4) [OF backups_doneD(2) [OF a] v] .
  show ?thesis
  proof (cases "verified_directory_manifest (ext_of E) r ?n v")
    case (Inl e)
    then show ?thesis using g by (auto simp: final_ok_def l good_def)
  next
    case (Inr m)
    then have "copy_good E r st v (SlotDir sl) d" using g good_same by metis
    moreover have "final_ok E sl v d" using verified_is_dir [OF Inr] by (auto simp: final_ok_def l Inr)
    ultimately show ?thesis by simp
  qed
qed

lemma recover_chosen:
  assumes v: "slots st sl = Some v"
  shows "dtrip nf V (recoverable E ok lvl r st)
    (\<lambda>d. backups_done E ok lvl r st (sl # ys) d \<and> nodes d (Backup sl) = Some (Directory es))
    (recover_backup E st sl) (\<lambda>_. backups_done E ok lvl r st ys) (\<lambda>_ _. \<not> nf)"
  unfolding recover_backup_def
  apply (rule dtrip_node_known [where n = "Some (Directory es)"], simp)
  apply (simp add: v final_ok_def [symmetric])
  apply (rule dtrip_bind [where M = "\<lambda>fo d. backups_done E ok lvl r st (sl # ys) d \<and>
      nodes d (Backup sl) = Some (Directory es) \<and>
      (if fo then copy_good E r st v (SlotDir sl) d else copy_good E r st v (Backup sl) d)"])
   apply (rule dtrip_gets, use final_ok_decides v in blast)
  apply (rule dtrip_if)
   apply (rule dtrip_pre [OF recover_drop [OF v]], simp)
  apply (rule dtrip_bind [OF _ recover_from_backup [OF v]])
  apply (rule dtrip_lift, simp)
  apply (auto simp: good_def reg_like_verified [OF backups_doneD(1)])
  done

lemma recover_backup_step:
  "dtrip nf V (recoverable E ok lvl r st) (backups_done E ok lvl r st (sl # ys))
     (recover_backup E st sl) (\<lambda>_. backups_done E ok lvl r st ys) (\<lambda>_ _. \<not> nf)"
  (is "dtrip nf V ?K ?A _ ?B ?C")
proof (rule dtrip_cases [where F = "\<lambda>d. nodes d (Backup sl) = None"])
  show "dtrip nf V ?K (\<lambda>d. ?A d \<and> nodes d (Backup sl) = None) (recover_backup E st sl) ?B ?C"
    unfolding recover_backup_def
    by (rule dtrip_node_known [where n = None], simp, simp, rule dtrip_ret, erule conjE,
        erule backups_done_next, assumption)
  have some: "\<exists>es. nodes d (Backup sl) = Some (Directory es)" if "?A d \<and> nodes d (Backup sl) \<noteq> None" for d
    using that slot_okD(1) [OF backups_doneD(2)] removable_dir by blast
  show "dtrip nf V ?K (\<lambda>d. ?A d \<and> nodes d (Backup sl) \<noteq> None) (recover_backup E st sl) ?B ?C"
  proof (cases "slots st sl")
    case None
    then show ?thesis
      by (intro dtrip_pre [OF dtrip_false]) (use slot_okD(3) [OF backups_doneD(2)] in metis)
  next
    case (Some v)
    have "dtrip nf V ?K (\<lambda>d. \<exists>es. ?A d \<and> nodes d (Backup sl) = Some (Directory es)) (recover_backup E st sl) ?B ?C"
      by (rule dtrip_exI, rule recover_chosen [OF Some])
    then show ?thesis by (rule dtrip_pre) (use some in blast)
  qed
qed

text \<open>Candidates are dropped; slots that the state does not name are dropped, the others verified.\<close>

lemma backups_done_candidate:
  assumes "backups_done E ok lvl r st ys d" "removable n"
  shows "backups_done E ok lvl r st ys (set_node (Candidate sl) n d)"
  using assms base_candidate unfolding backups_done_def rec_clear_def no_commit_def by auto

lemma recover_candidate_step:
  "dtrip nf V (recoverable E ok lvl r st) (backups_done E ok lvl r st [])
     (recover_candidate E sl) (\<lambda>_. backups_done E ok lvl r st []) (\<lambda>_ _. \<not> nf)"
  unfolding recover_candidate_def
proof (rule dtrip_removable_bind [where p = "ret ()" and q = "rmtree_p E (Candidate sl)"])
  show "removable (nodes d (Candidate sl))" if "backups_done E ok lvl r st [] d" for d
    using that by (simp add: backups_done_def rec_clear_def base_def)
  show "dtrip nf V (recoverable E ok lvl r st)
      (\<lambda>d. backups_done E ok lvl r st [] d \<and> nodes d (Candidate sl) = None) (ret ())
      (\<lambda>_. backups_done E ok lvl r st []) (\<lambda>_ _. \<not> nf)"
    by (rule dtrip_ret) simp
  show "dtrip nf V (recoverable E ok lvl r st)
      (\<lambda>d. backups_done E ok lvl r st [] d \<and> nodes d (Candidate sl) = Some (Directory es))
      (rmtree_p E (Candidate sl)) (\<lambda>_. backups_done E ok lvl r st []) (\<lambda>_ _. \<not> nf)" for es
    by (rule dtrip_rmtree [where T = "backups_done E ok lvl r st []"])
       (auto intro: backups_done_candidate backups_doneD(3) [OF backups_done_candidate])
qed simp_all

definition slots_done ::
  "('a, 'r) env \<Rightarrow> ('a \<Rightarrow> bool) \<Rightarrow> ('a \<Rightarrow> int) \<Rightarrow> registry \<Rightarrow> deployment_state \<Rightarrow> slot list \<Rightarrow> 'a durable \<Rightarrow> bool" where
  "slots_done E ok lvl r st todo d \<longleftrightarrow>
     backups_done E ok lvl r st [] d \<and>
     (\<forall>sl. sl \<notin> set todo \<longrightarrow> slots st sl = None \<longrightarrow> nodes d (SlotDir sl) = None)"

lemma slots_done_set:
  assumes "slots_done E ok lvl r st (sl # ys) d" "slots st sl = None" "removable n"
  shows "slots_done E ok lvl r st (sl # ys) (set_node (SlotDir sl) n d)"
    and "recoverable E ok lvl r st (set_node (SlotDir sl) n d)"
    and "n = None \<Longrightarrow> slots_done E ok lvl r st ys (set_node (SlotDir sl) n d)"
proof -
  have b: "backups_done E ok lvl r st [] (set_node (SlotDir sl) n d)"
  proof -
    have c: "rec_clear E ok lvl r st d" and e: "\<forall>sl. nodes d (Backup sl) = None"
      using assms(1) by (simp_all add: slots_done_def backups_done_def)
    have "slot_ok (ext_of E) r st d sl" using c by (simp add: rec_clear_def)
    then show ?thesis using rec_clear_set(1) [OF c slot_ok_set(1)] assms(2,3) e
      by (simp add: backups_done_def)
  qed
  show "slots_done E ok lvl r st (sl # ys) (set_node (SlotDir sl) n d)"
    using b assms(1) unfolding slots_done_def by simp
  show "recoverable E ok lvl r st (set_node (SlotDir sl) n d)"
    using b by (rule backups_doneD(3))
  show "slots_done E ok lvl r st ys (set_node (SlotDir sl) n d)" if "n = None"
    using b assms(1) that unfolding slots_done_def by simp
qed

lemma slots_doneD:
  assumes "slots_done E ok lvl r st ys d"
  shows "reg_like r (reg d)" "removable (nodes d (SlotDir sl))"
    "slots st sl = Some v \<Longrightarrow> copy_good E r st v (SlotDir sl) d"
proof -
  have b: "backups_done E ok lvl r st [] d" using assms by (simp add: slots_done_def)
  show "reg_like r (reg d)" "removable (nodes d (SlotDir sl))"
    using backups_doneD [OF b] slot_okD(2) by blast+
  show "copy_good E r st v (SlotDir sl) d" if "slots st sl = Some v"
    using slot_okD(4) [OF backups_doneD(2) [OF b] that] b good_some unfolding backups_done_def by fastforce
qed

lemma slots_done_next:
  "slots_done E ok lvl r st (sl # ys) d \<Longrightarrow> slots st sl \<noteq> None \<or> nodes d (SlotDir sl) = None \<Longrightarrow>
     slots_done E ok lvl r st ys d"
  unfolding slots_done_def by (metis set_ConsD)

lemma recover_slot_step:
  "dtrip nf V (recoverable E ok lvl r st) (slots_done E ok lvl r st (sl # ys))
     (recover_slot E st sl) (\<lambda>_. slots_done E ok lvl r st ys) (\<lambda>_ _. \<not> nf)"
proof (cases "slots st sl")
  case None
  show ?thesis
    unfolding recover_slot_def None option.case
  proof (rule dtrip_removable_bind [where p = "ret ()" and q = "rmtree_p E (SlotDir sl)"])
    show "removable (nodes d (SlotDir sl))" if "slots_done E ok lvl r st (sl # ys) d" for d
      using slots_doneD(2) [OF that] .
    show "dtrip nf V (recoverable E ok lvl r st)
        (\<lambda>d. slots_done E ok lvl r st (sl # ys) d \<and> nodes d (SlotDir sl) = None) (ret ())
        (\<lambda>_. slots_done E ok lvl r st ys) (\<lambda>_ _. \<not> nf)"
      by (rule dtrip_ret, erule conjE, erule slots_done_next) simp
    show "dtrip nf V (recoverable E ok lvl r st)
        (\<lambda>d. slots_done E ok lvl r st (sl # ys) d \<and> nodes d (SlotDir sl) = Some (Directory es))
        (rmtree_p E (SlotDir sl)) (\<lambda>_. slots_done E ok lvl r st ys) (\<lambda>_ _. \<not> nf)" for es
      by (rule dtrip_rmtree [where T = "slots_done E ok lvl r st (sl # ys)"])
         (auto intro: slots_done_set [OF _ None])
  qed simp_all
next
  case (Some v)
  have l: "\<exists>m. verified_directory_manifest (ext_of E) (reg d) (nodes d (SlotDir sl)) v = Inr m \<and>
      release_sequence m \<le> highest_release_sequence st"
    if "slots_done E ok lvl r st (sl # ys) d" for d
    using slots_doneD(3) [OF that Some] reg_like_verified [OF slots_doneD(1) [OF that]]
    by (simp add: good_def)
  show ?thesis
    unfolding recover_slot_def Some option.case on_slot_def
  proof (rule dtrip_bind [where M = "\<lambda>m d. slots_done E ok lvl r st (sl # ys) d \<and>
        release_sequence m \<le> highest_release_sequence st"])
    show "dtrip nf V (recoverable E ok lvl r st) (slots_done E ok lvl r st (sl # ys))
       (lift_r (\<lambda>s. verified_directory_manifest (ext_of E) (reg (dur s)) (nodes (dur s) (SlotDir sl)) v))
       (\<lambda>m d. slots_done E ok lvl r st (sl # ys) d \<and> release_sequence m \<le> highest_release_sequence st) (\<lambda>_ _. \<not> nf)"
      by (rule dtrip_lift) (use l in fastforce)+
    show "dtrip nf V (recoverable E ok lvl r st)
       (\<lambda>d. slots_done E ok lvl r st (sl # ys) d \<and> release_sequence m \<le> highest_release_sequence st)
       (guard_p (\<lambda>_. \<not> highest_release_sequence st < release_sequence m)
         (DE ''slot release sequence exceeds anti-rollback floor'')) (\<lambda>_. slots_done E ok lvl r st ys) (\<lambda>_ _. \<not> nf)" for m
      by (rule dtrip_guard_const, erule conjE, erule slots_done_next) (simp_all add: Some)
  qed
qed

section \<open>Following the anchor\<close>

lemma remove_journal:
  assumes "\<And>d. A d \<Longrightarrow> \<exists>p. journal_is p (nodes d PendingFile)"
    and "\<And>d. A d \<Longrightarrow> K (set_node PendingFile None d) \<and> B () (set_node PendingFile None d)"
  shows "dtrip nf V K A remove_pending_anchor B (\<lambda>_ _. \<not> nf)"
  unfolding remove_pending_anchor_def
  by (rule dtrip_unlink) (use assms in \<open>fastforce simp: journal_is_def\<close>)+

lemma rec_now_pending:
  assumes "rec_now E ok lvl r st d" "pending_of_node (nodes d PendingFile) = Inr pend"
  shows "pend = None \<and> rec_clear E ok lvl r st d \<or>
    (\<exists>p. pend = Some p \<and> anchor_of E \<noteq> None \<and> journal_is p (nodes d PendingFile) \<and>
         (abandoned st p \<or> completed (ext_of E) r st d p))"
proof (cases "nodes d PendingFile = None")
  case True
  then show ?thesis using assms by (simp add: pending_of_node_def rec_now_def rec_clear_def no_commit_def)
next
  case False
  then obtain p where p: "anchor_of E \<noteq> None" "journal_is p (nodes d PendingFile)"
      "abandoned st p \<or> completed (ext_of E) r st d p"
    using assms(1) unfolding rec_now_def journal_ok_def by metis
  then show ?thesis using journal_reads(1) [OF p(2)] assms(2) by auto
qed

lemma journal_removed:
  assumes "rec_now E ok lvl r st d"
  shows "rec_clear E ok lvl r st (set_node PendingFile None d)"
  using assms by (simp add: rec_now_def rec_clear_def no_commit_def)

text \<open>Confirming a commit that the journal still speaks of.\<close>

lemma assert_identity_trip:
  assumes "\<And>d. A d \<Longrightarrow> reg_like r (reg d) \<and> identity_ok (ext_of E) r v seq"
    and "\<And>d g. A d \<Longrightarrow> reg_like r g \<Longrightarrow> K (d\<lparr>reg := g\<rparr>) \<and> A (d\<lparr>reg := g\<rparr>)"
  shows "dtrip nf V K A (assert_identity_p E v seq) (\<lambda>_. A) C"
  unfolding assert_identity_p_def
proof (rule dtrip_reg)
  fix d res g
  assume a: "A d" and i: "assert_release_sequence_identity (ext_of E) v seq (reg d) = (res, g)"
  note run = identity_run [OF conjunct1 [OF assms(1) [OF a]] i]
  show "K (d\<lparr>reg := g\<rparr>) \<and> (case res of Inl e \<Rightarrow> C e (d\<lparr>reg := g\<rparr>) | Inr x \<Rightarrow> A (d\<lparr>reg := g\<rparr>))"
    using run assms(1) [OF a] assms(2) [OF a run(1)] by simp
qed

lemma on_slot_verified:
  assumes "\<And>d. A d \<Longrightarrow> reg_like r (reg d)"
    and "\<And>d. A d \<Longrightarrow> \<exists>m. verified_directory_manifest (ext_of E) r (nodes d (SlotDir sl)) v = Inr m \<and> P m"
  shows "dtrip nf V K A (on_slot (\<lambda>r n. verified_directory_manifest (ext_of E) r n v) sl)
    (\<lambda>m d. A d \<and> P m) C"
  unfolding on_slot_def
proof (rule dtrip_lift)
  fix d assume a: "A d"
  have e: "verified_directory_manifest (ext_of E) (reg d) n v = verified_directory_manifest (ext_of E) r n v" for n
    by (rule reg_like_verified [OF assms(1) [OF a]])
  show "A d \<and> P m" if "verified_directory_manifest (ext_of E) (reg d) (nodes d (SlotDir sl)) v = Inr m" for m
    using assms(2) [OF a] that a by (auto simp: e)
  show "C x d" if "verified_directory_manifest (ext_of E) (reg d) (nodes d (SlotDir sl)) v = Inl x" for x
    using assms(2) [OF a] that by (auto simp: e)
qed

lemma rec_now_reg: "rec_now E ok lvl r st d \<Longrightarrow> reg_like r g \<Longrightarrow> rec_now E ok lvl r st (d\<lparr>reg := g\<rparr>)"
  by (simp add: rec_now_def base_reg)

lemma confirm_commit_trip:
  "dtrip nf V (recoverable E ok lvl r st)
     (\<lambda>d. rec_now E ok lvl r st d \<and> journal_is p (nodes d PendingFile) \<and> completed (ext_of E) r st d p)
     (confirm_commit E st p) (\<lambda>s d. s = st \<and> rec_clear E ok lvl r st d) (\<lambda>_ _. \<not> nf)"
  (is "dtrip nf V ?K ?A _ ?B ?C")
  unfolding confirm_commit_def
proof (rule dtrip_bind, rule assert_identity_trip [where r = r])
  fix d g assume a: "?A d"
  show "reg_like r (reg d) \<and> identity_ok (ext_of E) r (pending_version p) (pending_sequence p)"
    using a unfolding rec_now_def base_def completed_def by blast
  show "?K (d\<lparr>reg := g\<rparr>) \<and> ?A (d\<lparr>reg := g\<rparr>)" if "reg_like r g"
    using a rec_now_reg [OF _ that] rec_now_recoverable by fastforce
next
  fix u :: unit
  show "dtrip nf V ?K ?A (bind_p (on_slot (\<lambda>r n. verified_directory_manifest (ext_of E) r n (pending_version p))
      (target_slot p)) (\<lambda>_. bind_p remove_pending_anchor (\<lambda>_. ret st))) ?B ?C"
  proof (rule dtrip_bind, rule on_slot_verified [where P = "\<lambda>_. True"])
    show "reg_like r (reg d)" if "?A d" for d
      using that by (simp add: rec_now_def base_def)
    show "\<exists>m. verified_directory_manifest (ext_of E) r (nodes d (SlotDir (target_slot p))) (pending_version p) = Inr m \<and> True"
      if "?A d" for d using that by (auto simp: completed_def good_def)
    show "dtrip nf V ?K (\<lambda>d. ?A d \<and> True) (bind_p remove_pending_anchor (\<lambda>_. ret st)) ?B ?C" for m
      by (rule dtrip_bind [where M = "\<lambda>_. rec_clear E ok lvl r st"], rule remove_journal)
         (auto intro: journal_removed rec_now_recoverable [OF rec_clear_now [OF journal_removed]] dtrip_ret)
  qed
qed

lemma dtrip_trusted_known:
  assumes "\<And>tf rq. V tf rq \<Longrightarrow> tf = t" "dtrip nf V K A (f t) B C"
  shows "dtrip nf V K A (bind_p (gets_p trusted_floor) f) B C"
  by (rule dtrip_bind [where M = "\<lambda>tf d. A d \<and> tf = t"])
     (use assms in \<open>auto intro!: dtrip_trusted intro: dtrip_fact [of _ "_ = t"] dtrip_pre [OF assms(2)]\<close>)

lemma commit_now:
  "dtrip nf (trusts E (highest_release_sequence st)) (recoverable E ok lvl r st)
     (\<lambda>d. rec_now E ok lvl r st d \<and> pending_of_node (nodes d PendingFile) = Inr pend)
     (recover_anchor_commit E st pend) (\<lambda>s d. s = st \<and> rec_clear E ok lvl r st d) (\<lambda>_ _. \<not> nf)"
  (is "dtrip nf ?V ?K ?A _ ?B ?C")
  unfolding recover_anchor_commit_def
proof (rule dtrip_trusted_known [where t = "if anchor_of E = None then None else Some (highest_release_sequence st)"],
    (simp add: trusts_def; fail), rule dtrip_fact)
  let ?F = "pend = None \<or> (\<exists>p. pend = Some p \<and> anchor_of E \<noteq> None \<and>
      (abandoned st p \<or> pending_sequence p = highest_release_sequence st \<and>
        previous_generation p + 1 = generation st \<and>
        active_version_is st (target_slot p) (pending_version p)))"
  show ?F if "?A d" for d
    using that rec_now_pending unfolding completed_def by blast
  have none: "dtrip nf ?V ?K ?A (ret st) ?B ?C" if "pend = None"
    by (rule dtrip_ret) (use rec_now_pending that in blast)
  have ab: "dtrip nf ?V ?K ?A (ret st) ?B ?C" if "pend = Some p" "abandoned st p" for p
  proof (rule dtrip_ret)
    fix d assume a: "?A d"
    then have "anchor_of E \<noteq> None \<and> journal_is p (nodes d PendingFile)"
      using rec_now_pending that(1) by blast
    then show "st = st \<and> rec_clear E ok lvl r st d"
      using a that(2) unfolding rec_now_def rec_clear_def no_commit_def by blast
  qed
  have co: "dtrip nf ?V ?K ?A (confirm_commit E st p) ?B ?C"
    if "pend = Some p" "previous_generation p + 1 = generation st" for p
  proof (rule dtrip_pre [OF confirm_commit_trip])
    fix d assume a: "?A d"
    then have "journal_is p (nodes d PendingFile) \<and> (abandoned st p \<or> completed (ext_of E) r st d p)"
      using rec_now_pending that(1) by blast
    then show "rec_now E ok lvl r st d \<and> journal_is p (nodes d PendingFile) \<and> completed (ext_of E) r st d p"
      using a that(2) by (auto simp: abandoned_def)
  qed
  assume ?F
  then show "dtrip nf ?V ?K ?A
    (case if anchor_of E = None then None else Some (highest_release_sequence st) of
       None \<Rightarrow> if pend \<noteq> None
         then raise_e (DE ''pending external-anchor commit exists but no rollback anchor is configured'')
         else ret st
     | Some anchor_floor \<Rightarrow>
         if highest_release_sequence st > anchor_floor
         then raise_e (DE ''deployment state anti-rollback floor exceeds external rollback anchor'')
         else if highest_release_sequence st = anchor_floor then
           (case pend of
              None \<Rightarrow> ret st
            | Some p \<Rightarrow>
                if pending_sequence p = anchor_floor \<and> previous_generation p + 1 = generation st \<and>
                   active_version_is st (target_slot p) (pending_version p)
                then confirm_commit E st p
                else if previous_floor p \<noteq> highest_release_sequence st \<or> previous_generation p \<noteq> generation st
                then raise_e (DE ''pending anchor journal conflicts with durable state'')
                else ret st)
         else
           (case pend of
              None \<Rightarrow> raise_e (DE ''external rollback anchor is ahead of deployment state without recovery journal'')
            | Some p \<Rightarrow>
                if previous_floor p \<noteq> highest_release_sequence st \<or> previous_generation p \<noteq> generation st \<or>
                   pending_sequence p \<noteq> anchor_floor
                then raise_e (DE ''external rollback anchor and recovery journal disagree'')
                else follow_anchor E st p anchor_floor)) ?B ?C"
    using none ab co by (auto simp: abandoned_def)
qed

lemma write_state_trip:
  assumes "\<And>d. A d \<Longrightarrow> \<exists>bs. nodes d StateFile = Some (RegFile bs)"
    and "\<And>bs d. A d \<Longrightarrow> state_to_bytes st = Inr bs \<Longrightarrow>
      K (set_node StateFile (Some (RegFile bs)) d) \<and> B () (set_node StateFile (Some (RegFile bs)) d)"
    and "\<And>e d. A d \<Longrightarrow> state_to_bytes st = Inl e \<Longrightarrow> C e d"
    and "\<And>d. \<not> nf \<Longrightarrow> A d \<Longrightarrow> C os_error d"
  shows "dtrip nf V K A (write_state st) B C"
  unfolding write_state_def
proof (rule dtrip_bind [where M = "\<lambda>bs d. A d \<and> state_to_bytes st = Inr bs"])
  show "dtrip nf V K A (lift_r (\<lambda>_. state_to_bytes st)) (\<lambda>bs d. A d \<and> state_to_bytes st = Inr bs) C"
    by (rule dtrip_lift_const) (use assms(3) in auto)
  show "dtrip nf V K (\<lambda>d. A d \<and> state_to_bytes st = Inr bs) (write_p StateFile bs) B C" for bs
    by (rule dtrip_write) (use assms in fastforce)+
qed

lemma rec_ahead_reg: "rec_ahead E ok lvl r st sl v f d \<Longrightarrow> reg_like r g \<Longrightarrow> rec_ahead E ok lvl r st sl v f (d\<lparr>reg := g\<rparr>)"
  using base_reg unfolding rec_ahead_def by fastforce

lemma rec_ahead_valid:
  assumes "rec_ahead E ok lvl r st sl v f d"
  shows "state_valid (activated st sl v f)"
proof -
  have "pending_valid (deploy_journal st sl v f)" "state_valid st" "sl = inactive_slot st"
    using assms journal_reads(2) base_valid unfolding rec_ahead_def by blast+
  then show ?thesis using activated_valid by (simp add: pending_valid_def deploy_journal_def)
qed

lemma follow_anchor_trip:
  assumes storable: "state_storable (activated st sl v f)"
  shows "dtrip nf V (recoverable E ok lvl r (activated st sl v f)) (rec_ahead E ok lvl r st sl v f)
     (follow_anchor E st (deploy_journal st sl v f) f)
     (\<lambda>s d. s = activated st sl v f \<and> rec_clear E ok lvl r (activated st sl v f) d) (\<lambda>_ _. \<not> nf)"
  (is "dtrip nf V ?K ?A _ ?B ?C")
  unfolding follow_anchor_def deploy_journal_def pending_commit.simps
proof (rule dtrip_bind, rule assert_identity_trip [where r = r])
  fix d g assume a: "?A d"
  show "reg_like r (reg d) \<and> identity_ok (ext_of E) r v f"
    using a unfolding rec_ahead_def base_def by blast
  show "?K (d\<lparr>reg := g\<rparr>) \<and> ?A (d\<lparr>reg := g\<rparr>)" if "reg_like r g"
    using rec_ahead_reg [OF a that] unfolding recoverable_def by blast
next
  fix u :: unit
  let ?rec = "activated st sl v f"
  show "dtrip nf V ?K ?A (bind_p (on_slot (\<lambda>r n. verified_directory_manifest (ext_of E) r n v) sl) (\<lambda>m.
     bind_p (guard_p (\<lambda>_. release_sequence m = f) (DE ''pending slot does not match external rollback anchor'')) (\<lambda>_.
     let recovered = ?rec in bind_p (write_state recovered) (\<lambda>_. bind_p remove_pending_anchor (\<lambda>_. ret recovered))))) ?B ?C"
  proof (rule dtrip_bind, rule on_slot_verified [where P = "\<lambda>m. release_sequence m = f"])
    show "reg_like r (reg d)" if "?A d" for d
      using that by (simp add: rec_ahead_def base_def)
    show "\<exists>m. verified_directory_manifest (ext_of E) r (nodes d (SlotDir sl)) v = Inr m \<and> release_sequence m = f"
      if "?A d" for d using that unfolding rec_ahead_def by blast
    fix m
    let ?M = "\<lambda>d. rec_now E ok lvl r ?rec d \<and> journal_is (deploy_journal st sl v f) (nodes d PendingFile)"
    have w: "dtrip nf V ?K ?A (write_state ?rec) (\<lambda>_. ?M) ?C"
    proof (rule write_state_trip)
      show "\<exists>bs. nodes d StateFile = Some (RegFile bs)" if "?A d" for d
        using that by (auto simp: rec_ahead_def base_def)
      show "?K (set_node StateFile (Some (RegFile bs)) d) \<and> ?M (set_node StateFile (Some (RegFile bs)) d)"
        if "?A d" "state_to_bytes ?rec = Inr bs" for bs d
      proof -
        have "journal_is (deploy_journal st sl v f) (nodes d PendingFile)"
          using that(1) unfolding rec_ahead_def by blast
        then show ?thesis using rec_ahead_commit(1) [OF that] by (simp add: recoverable_def)
      qed
      show "\<not> nf" if "?A d" "state_to_bytes ?rec = Inl e" for e d
        using state_to_bytes_ok [OF rec_ahead_valid [OF that(1)] storable] that(2) by simp
    qed
    have r: "dtrip nf V ?K ?M (bind_p remove_pending_anchor (\<lambda>_. ret ?rec)) ?B ?C"
      by (rule dtrip_bind [where M = "\<lambda>_. rec_clear E ok lvl r ?rec"], rule remove_journal)
         (auto intro: journal_removed rec_now_recoverable [OF rec_clear_now [OF journal_removed]] dtrip_ret)
    show "dtrip nf V ?K (\<lambda>d. ?A d \<and> release_sequence m = f)
      (bind_p (guard_p (\<lambda>_. release_sequence m = f) (DE ''pending slot does not match external rollback anchor'')) (\<lambda>_.
       let recovered = ?rec in bind_p (write_state recovered) (\<lambda>_. bind_p remove_pending_anchor (\<lambda>_. ret recovered)))) ?B ?C"
      unfolding Let_def
      by (rule dtrip_bind [OF dtrip_guard_const [where B = "\<lambda>_. ?A"] dtrip_bind [OF w r]]) simp_all
  qed
qed

lemma commit_ahead:
  assumes "state_storable (activated st sl v f)"
  shows "dtrip nf (trusts E f) (recoverable E ok lvl r (activated st sl v f))
     (\<lambda>d. rec_ahead E ok lvl r st sl v f d \<and> pending_of_node (nodes d PendingFile) = Inr pend)
     (recover_anchor_commit E st pend)
     (\<lambda>s d. s = activated st sl v f \<and> rec_clear E ok lvl r (activated st sl v f) d) (\<lambda>_ _. \<not> nf)"
  (is "dtrip nf ?V ?K ?A _ ?B ?C")
proof (rule dtrip_fact)
  let ?F = "pend = Some (deploy_journal st sl v f) \<and> anchor_of E \<noteq> None \<and> highest_release_sequence st < f"
  show ?F if "?A d" for d
    using that journal_reads(1) unfolding rec_ahead_def by fastforce
  assume ?F
  then show "dtrip nf ?V ?K ?A (recover_anchor_commit E st pend) ?B ?C"
    unfolding recover_anchor_commit_def
    by (intro dtrip_trusted_known [where t = "Some f"])
       (auto simp: trusts_def deploy_journal_def [symmetric] intro!: dtrip_pre [OF follow_anchor_trip [OF assms]],
        auto simp: deploy_journal_def)
qed

end
