(* ===== verification/StateBounds.thy ===== *)
theory StateBounds
  imports DeployState
begin

text \<open>
  The size of what the deployer writes. A code point takes at most six bytes in canonical
  JSON, so a state whose versions fit in a file name stays below the 64 KiB that \<^verbatim>\<open>_read\<close>
  accepts, and its journal below 16 KiB: the deployer can always read what it has written.
\<close>

lemma u_escape_length: "length (u_escape n) = 6"
  by (simp add: u_escape_def)

lemma esc_char_length: "length (esc_char False c) \<le> 6"
  by (simp add: esc_char_def u_escape_length)

lemma esc_chr_str_length:
  assumes "n < 1114112"
  shows "length (concat (map (esc_char False) (chr_str n))) \<le> 6"
proof (cases "n < 128")
  case True
  then have "chr_str n = [char_of n]" by (simp add: chr_str_def utf8_encode_cp_def)
  then show ?thesis using esc_char_length by simp
next
  case False
  have e: "esc_char False c = [c]" if "c \<in> set (chr_str n)" for c
    using esc_char_high chr_str_high [OF _ assms that] False by simp
  have "length (concat (map (esc_char False) (chr_str n))) = length (chr_str n)"
    using e by (subst length_concat_map_const [where n = 1]) auto
  also have "\<dots> \<le> 4" by (simp add: chr_str_def utf8_encode_cp_def)
  finally show ?thesis by simp
qed

lemma str_text_length:
  assumes "utf8_ok s"
  shows "length (str_text False s) \<le> 6 * py_len s + 2"
proof -
  obtain cs where cs: "utf8_decode True (map byte_of s) = Some cs" "code_points s = cs"
    using utf8_ok_str_ok [OF assms] by (auto simp: str_ok_def code_points_def split: option.splits)
  have s: "s = concat (map chr_str cs)"
    using chr_str_code_points [of s] utf8_ok_str_ok [OF assms] cs by simp
  have l: "length (concat (map (esc_char False) (concat (map chr_str ds)))) \<le> 6 * length ds"
    if "\<forall>n \<in> set ds. n < 1114112" for ds
    using that
  proof (induction ds)
    case (Cons n ds)
    then show ?case using esc_chr_str_length [of n] by auto
  qed simp
  have "\<forall>n \<in> set cs. n < 1114112" using utf8_decode_less [OF cs(1)] by blast
  from l [OF this] show ?thesis
    by (simp add: str_text_def str_body_def py_len_def cs(2) flip: s)
qed

lemma opt_text_length:
  assumes "\<And>t. x = Some t \<Longrightarrow> utf8_ok t \<and> py_len t \<le> k"
  shows "length (json_text False (opt_json x)) \<le> 6 * k + 4"
  using assms str_text_length by (cases x) (fastforce simp: opt_json_def)+

lemma state_canon:
  "canon (state_to_dict s) =
     JObj [(''active_slot'', opt_json (map_option slot_name (active_slot s))),
           (''generation'', JInt (generation s)),
           (''highest_release_sequence'', JInt (highest_release_sequence s)),
           (''last_error'', opt_json (last_error s)),
           (''previous_slot'', opt_json (map_option slot_name (previous_slot s))),
           (''slots'', JObj [(''A'', opt_json (slots s SlotA)), (''B'', opt_json (slots s SlotB))]),
           (''status'', JStr (status_value (status s)))]"
  by (simp add: state_to_dict_def sort_key_def)

text \<open>A version that is the name of a directory has at most 255 bytes, hence code points.\<close>

definition state_fits :: "deployment_state \<Rightarrow> bool" where
  "state_fits s \<longleftrightarrow>
     generation s < 10 ^ 19 \<and> (\<forall>sl v. slots s sl = Some v \<longrightarrow> py_len v \<le> 255) \<and>
     (\<forall>e. last_error s = Some e \<longrightarrow> utf8_ok e)"

lemma key_text: "ascii k \<Longrightarrow> length (str_text False k) \<le> 6 * length k + 2"
  using str_text_length [OF ascii_utf8_ok] ascii_py_len by fastforce

lemma slot_text: "length (json_text False (opt_json (map_option slot_name a))) \<le> 10"
  by (cases a; cases "the a") (auto simp: opt_json_def slot_name_def str_text_def str_body_def esc_char_def byte_of_def)

lemma status_text: "length (str_text False (status_value st)) \<le> 122"
  by (cases st) (simp_all add: status_value_def str_text_def str_body_def esc_char_def byte_of_def)

lemma state_storable_fits:
  assumes "state_valid s" "state_fits s"
  shows "state_storable s"
proof -
  have g: "length (int_str (generation s)) \<le> 20"
    using nat_str_length [of "nat \<bar>generation s\<bar>" 19] int_str_length [of "generation s"] assms
    by (simp add: state_fits_def state_valid_def nat_less_iff)
  have f: "length (int_str (highest_release_sequence s)) \<le> 20"
    using release_digits [of "highest_release_sequence s"] int_str_length [of "highest_release_sequence s"] assms(1)
    by (simp add: state_valid_def)
  have v: "length (json_text False (opt_json (slots s sl))) \<le> 6 * 255 + 4" for sl
    using assms semver_utf8 by (intro opt_text_length) (auto simp: state_valid_def state_fits_def)
  have e: "length (json_text False (opt_json (last_error s))) \<le> 6 * 4096 + 4"
    using assms by (intro opt_text_length) (auto simp: state_valid_def state_fits_def max_error_chars_def)
  have "length (json_text False (canon (state_to_dict s))) < max_state_bytes"
    using g f v [of SlotA] v [of SlotB] e slot_text [of "active_slot s"] slot_text [of "previous_slot s"]
      status_text [of "status s"]
    by (simp add: state_canon max_state_bytes_def str_text_def str_body_def esc_char_def byte_of_def)
  then show ?thesis using assms(2) by (simp add: state_storable_def state_fits_def)
qed

lemma pending_canon:
  "canon (pending_to_dict p) =
     JObj [(''previous_floor'', JInt (previous_floor p)),
           (''previous_generation'', JInt (previous_generation p)),
           (''release_sequence'', JInt (pending_sequence p)), (''schema_version'', JInt 1),
           (''target_slot'', JStr (slot_name (target_slot p))),
           (''version'', JStr (pending_version p))]"
  by (simp add: pending_to_dict_def sort_key_def)

lemma pending_storable_fits:
  assumes "pending_valid p" "previous_generation p < 10 ^ 19" "py_len (pending_version p) \<le> 255"
  shows "pending_storable p"
proof -
  have g: "length (int_str (previous_generation p)) \<le> 20"
    using nat_str_length [of "nat \<bar>previous_generation p\<bar>" 19] int_str_length [of "previous_generation p"] assms
    by (simp add: pending_valid_def nat_less_iff)
  have f: "length (int_str (previous_floor p)) \<le> 20" "length (int_str (pending_sequence p)) \<le> 20"
    using release_digits [of "previous_floor p"] int_str_length [of "previous_floor p"]
      release_digits [of "pending_sequence p"] int_str_length [of "pending_sequence p"] assms(1)
    by (simp_all add: pending_valid_def)
  have v: "length (str_text False (pending_version p)) \<le> 6 * 255 + 2"
    using str_text_length [OF semver_utf8] assms by (fastforce simp: pending_valid_def)
  have s: "length (str_text False (slot_name (target_slot p))) \<le> 3"
    by (cases "target_slot p") (simp_all add: slot_name_def str_text_def str_body_def esc_char_def byte_of_def)
  have "length (json_text False (canon (pending_to_dict p))) < max_pending_bytes"
    using g f v s
    by (simp add: pending_canon max_pending_bytes_def str_text_def str_body_def esc_char_def byte_of_def int_str_one)
  then show ?thesis using assms(2) by (simp add: pending_storable_def)
qed


definition sample_state :: deployment_state where
  "sample_state =
     \<lparr>generation = 3, active_slot = Some SlotA, previous_slot = None, slots = (\<lambda>_. None)(SlotA := Some ''1.0.0''),
      highest_release_sequence = 4, status = Status_ACTIVE, last_error = None\<rparr>"

definition sample_pending :: pending_commit where
  "sample_pending =
     \<lparr>previous_generation = 2, previous_floor = - 1, target_slot = SlotA, pending_version = ''1.0.0'',
      pending_sequence = 4\<rparr>"

lemma sample_py_len: "py_len ''1.0.0'' = 5"
  by (subst ascii_py_len) (simp_all add: ascii_def byte_of_def)

lemma sample_state_ok: "state_valid sample_state" "state_fits sample_state"
  using sample_semver
  by (simp_all add: sample_state_def state_valid_def state_fits_def max_release_sequence_def sample_py_len)

lemma sample_pending_ok: "pending_valid sample_pending"
  using sample_semver by (simp add: sample_pending_def pending_valid_def max_release_sequence_def)


end
