(* ===== verification/Recovery.thy ===== *)
theory Recovery
  imports RecoverySteps StateBounds
begin

text \<open>
  Recovery as a whole: from every recoverable state it returns the state it recovers to and
  ends live, and the states it passes through are recoverable to the same.
\<close>

section \<open>The whole of recovery\<close>

lemma slots_done_live:
  assumes "slots_done E ok lvl r st [] d"
  shows "live E ok lvl r st (set_node PendingFile None d)"
proof -
  have b: "backups_done E ok lvl r st [] d" using assms by (simp add: slots_done_def)
  have "slot_live (ext_of E) r st d sl" for sl
    using b assms slots_doneD(3) [OF assms, of sl]
    by (cases "slots st sl") (auto simp: slot_live_def slots_done_def backups_done_def)
  then show ?thesis using b by (simp add: live_def backups_done_def rec_clear_def)
qed

lemma live_same: "live E ok lvl r st (set_node PendingFile None d) \<Longrightarrow> nodes d PendingFile = None \<Longrightarrow> live E ok lvl r st d"
  by (simp add: live_def)

lemma discard_trip:
  "dtrip nf V (recoverable E ok lvl r st) (slots_done E ok lvl r st []) discard_journal
     (\<lambda>_. live E ok lvl r st) (\<lambda>_ _. \<not> nf)"
  (is "dtrip nf V ?K ?A _ ?B ?C")
proof (rule dtrip_cases [where F = "\<lambda>d. nodes d PendingFile = None"])
  show "dtrip nf V ?K (\<lambda>d. ?A d \<and> nodes d PendingFile = None) discard_journal ?B ?C"
    unfolding discard_journal_def
    by (rule dtrip_node_known [where n = None], simp, simp, rule dtrip_ret, erule conjE,
        erule live_same [OF slots_done_live], assumption)
  have j: "\<exists>p. journal_is p (nodes d PendingFile)" if "?A d \<and> nodes d PendingFile \<noteq> None" for d
    using that by (auto simp: slots_done_def backups_done_def rec_clear_def no_commit_def)
  have "dtrip nf V ?K (\<lambda>d. ?A d \<and> nodes d PendingFile = Some (RegFile bs)) discard_journal ?B ?C" for bs
    unfolding discard_journal_def
  proof (rule dtrip_node_known [where n = "Some (RegFile bs)"], simp, simp, rule remove_journal)
    fix d assume a: "?A d \<and> nodes d PendingFile = Some (RegFile bs)"
    then show "\<exists>p. journal_is p (nodes d PendingFile)" using j [of d] by simp
    have l: "live E ok lvl r st (set_node PendingFile None d)" using a by (intro slots_done_live) simp
    then show "?K (set_node PendingFile None d) \<and> ?B () (set_node PendingFile None d)"
      by (intro conjI rec_now_recoverable rec_clear_now live_clear)
  qed
  then have "dtrip nf V ?K (\<lambda>d. \<exists>bs. ?A d \<and> nodes d PendingFile = Some (RegFile bs)) discard_journal ?B ?C"
    by (rule dtrip_exI)
  then show "dtrip nf V ?K (\<lambda>d. ?A d \<and> nodes d PendingFile \<noteq> None) discard_journal ?B ?C"
  proof (rule dtrip_pre)
    fix d assume a: "?A d \<and> nodes d PendingFile \<noteq> None"
    from j [OF this] show "\<exists>bs. ?A d \<and> nodes d PendingFile = Some (RegFile bs)"
      using a by (auto simp: journal_is_def)
  qed
qed

lemma dtrip_guard_vol:
  "(\<And>s. V (trusted_floor s) (recovery_required s) \<Longrightarrow> b s) \<Longrightarrow> dtrip nf V K A (guard_p b e) (\<lambda>_. A) C"
  unfolding dtrip_def by (rule chl_guard) (auto simp: on_disk_def)

lemma validate_trip:
  "dtrip nf (trusts E (highest_release_sequence st)) (recoverable E ok lvl r st) (live E ok lvl r st)
     (validate_state_anchor E st) (\<lambda>_. live E ok lvl r st) C"
  unfolding validate_state_anchor_def
proof (rule dtrip_trusted_known [where t = "if anchor_of E = None then None else Some (highest_release_sequence st)"])
  let ?A = "live E ok lvl r st" and ?V = "trusts E (highest_release_sequence st)"
  have "dtrip nf ?V (recoverable E ok lvl r st) ?A
    (bind_p (guard_p (\<lambda>s. \<not> recovery_required s) (DE ''external rollback anchor transition requires recovery'')) (\<lambda>_.
     bind_p (node_p PendingFile) (\<lambda>pending.
     bind_p (if highest_release_sequence st \<noteq> highest_release_sequence st \<or> path_exists pending \<or> is_symlink pending
             then bind_p (read_anchor_floor E) (\<lambda>observed. modify_p (\<lambda>s. s\<lparr>trusted_floor := Some observed\<rparr>))
             else ret ()) (\<lambda>_.
     guard_p (\<lambda>s. trusted_floor s = Some (highest_release_sequence st))
       (DE ''deployment state anti-rollback floor differs from external rollback anchor''))))) (\<lambda>_. ?A) C"
    if "anchor_of E \<noteq> None"
    by (rule dtrip_bind [OF dtrip_guard_vol], simp add: trusts_def, rule dtrip_node_known [where n = None],
        simp add: live_def, simp, rule dtrip_guard_vol, simp add: trusts_def that)
  then show "dtrip nf ?V (recoverable E ok lvl r st) ?A
    (case if anchor_of E = None then None else Some (highest_release_sequence st) of None \<Rightarrow> ret ()
     | Some t \<Rightarrow>
         bind_p (guard_p (\<lambda>s. \<not> recovery_required s) (DE ''external rollback anchor transition requires recovery'')) (\<lambda>_.
         bind_p (node_p PendingFile) (\<lambda>pending.
         bind_p (if highest_release_sequence st \<noteq> t \<or> path_exists pending \<or> is_symlink pending
                 then bind_p (read_anchor_floor E) (\<lambda>observed. modify_p (\<lambda>s. s\<lparr>trusted_floor := Some observed\<rparr>))
                 else ret ()) (\<lambda>_.
         guard_p (\<lambda>s. trusted_floor s = Some (highest_release_sequence st))
           (DE ''deployment state anti-rollback floor differs from external rollback anchor''))))) (\<lambda>_. ?A) C"
    by (auto simp: dtrip_ret)
qed (simp add: trusts_def)

lemma recover_tail:
  "dtrip nf (trusts E (highest_release_sequence st)) (recoverable E ok lvl r st) (rec_clear E ok lvl r st)
     (bind_p (for_p (slot_order E) (recover_backup E st)) (\<lambda>_.
      bind_p (for_p (slot_order E) (recover_candidate E)) (\<lambda>_.
      bind_p (for_p [SlotA, SlotB] (recover_slot E st)) (\<lambda>_.
      bind_p discard_journal (\<lambda>_.
      bind_p (validate_state_anchor E st) (\<lambda>_. ret st))))))
     (\<lambda>s d. s = st \<and> live E ok lvl r st d) (\<lambda>_ _. \<not> nf)"
  (is "dtrip nf ?V ?K ?A _ ?B ?C")
proof (rule dtrip_bind [where M = "\<lambda>_. backups_done E ok lvl r st []"])
  have o: "sl \<in> set (slot_order E)" for sl by (cases sl) (auto simp: slot_order_def)
  show "dtrip nf ?V ?K ?A (for_p (slot_order E) (recover_backup E st)) (\<lambda>_. backups_done E ok lvl r st []) ?C"
    by (rule dtrip_pre [OF dtrip_for [where I = "backups_done E ok lvl r st"]], rule recover_backup_step)
       (simp add: backups_done_def o)
  show "dtrip nf ?V ?K (backups_done E ok lvl r st [])
    (bind_p (for_p (slot_order E) (recover_candidate E)) (\<lambda>_.
      bind_p (for_p [SlotA, SlotB] (recover_slot E st)) (\<lambda>_.
      bind_p discard_journal (\<lambda>_.
      bind_p (validate_state_anchor E st) (\<lambda>_. ret st))))) ?B ?C" for u
  proof (rule dtrip_bind [where M = "\<lambda>_. slots_done E ok lvl r st [SlotA, SlotB]"])
    have ab: "sl \<in> {SlotA, SlotB}" for sl by (cases sl) auto
    show "dtrip nf ?V ?K (backups_done E ok lvl r st []) (for_p (slot_order E) (recover_candidate E))
        (\<lambda>_. slots_done E ok lvl r st [SlotA, SlotB]) ?C"
      by (rule dtrip_weaken [OF dtrip_for [where I = "\<lambda>_. backups_done E ok lvl r st []"]], rule recover_candidate_step)
         (use ab in \<open>auto simp: slots_done_def\<close>)
    show "dtrip nf ?V ?K (slots_done E ok lvl r st [SlotA, SlotB])
      (bind_p (for_p [SlotA, SlotB] (recover_slot E st)) (\<lambda>_.
       bind_p discard_journal (\<lambda>_. bind_p (validate_state_anchor E st) (\<lambda>_. ret st)))) ?B ?C" for u
    proof (rule dtrip_bind [OF dtrip_for [where I = "slots_done E ok lvl r st"]], rule recover_slot_step)
      show "dtrip nf ?V ?K (slots_done E ok lvl r st [])
        (bind_p discard_journal (\<lambda>_. bind_p (validate_state_anchor E st) (\<lambda>_. ret st))) ?B ?C" for u
        by (rule dtrip_bind [OF discard_trip dtrip_bind [OF validate_trip]]) (simp add: dtrip_ret)
    qed
  qed
qed

lemma ensure_slots_root_trip:
  assumes "\<And>d. A d \<Longrightarrow> \<exists>es. nodes d SlotsRoot = Some (Directory es)"
  shows "dtrip nf V K A ensure_slots_root (\<lambda>_. A) C"
proof -
  have "dtrip nf V K (\<lambda>d. A d \<and> nodes d SlotsRoot = Some (Directory es)) ensure_slots_root (\<lambda>_. A) C" for es
    unfolding ensure_slots_root_def
    apply (rule dtrip_node_known [where n = "Some (Directory es)"], simp)
    apply (rule dtrip_bind [OF dtrip_guard_const [where B = "\<lambda>_ d. A d \<and> nodes d SlotsRoot = Some (Directory es)"]], simp, simp)
    apply (rule dtrip_bind [OF dtrip_lift_const [where B = "\<lambda>_ d. A d \<and> nodes d SlotsRoot = Some (Directory es)"]], simp)
     apply (simp add: mkdir_node_def)
    apply simp
    apply (rule dtrip_guard, simp, simp)
    done
  then have "dtrip nf V K (\<lambda>d. \<exists>es. A d \<and> nodes d SlotsRoot = Some (Directory es)) ensure_slots_root (\<lambda>_. A) C"
    by (rule dtrip_exI)
  then show ?thesis by (rule dtrip_pre) (use assms in blast)
qed

lemma ensure_state_trip:
  assumes "\<And>d. A d \<Longrightarrow> path_exists (nodes d StateFile)"
  shows "dtrip nf V K A ensure_state (\<lambda>_. A) C"
  unfolding ensure_state_def
proof (rule dtrip_node_bind, rule dtrip_fact)
  fix n
  show "path_exists n" if "A d \<and> nodes d StateFile = n" for d using assms that by blast
  assume "path_exists n"
  then show "dtrip nf V K (\<lambda>d. A d \<and> nodes d StateFile = n)
    (if \<not> path_exists n then
       bind_p (guard_p (\<lambda>s. \<not> (is_symlink n \<or> slot_data_exists (dur s)))
         (DE ''deployment state missing while slot data exists'')) (\<lambda>_. write_state initial_state)
     else ret ()) (\<lambda>_. A) C"
    by simp (rule dtrip_ret, simp)
qed

lemma dtrip_known:
  assumes "dtrip nf V K A p (\<lambda>x d. x = y \<and> M d) C" "dtrip nf V K M (f y) B C"
  shows "dtrip nf V K A (bind_p p f) B C"
proof (rule dtrip_bind [OF assms(1)])
  show "dtrip nf V K (\<lambda>d. x = y \<and> M d) (f x) B C" for x
    by (rule dtrip_fact [where F = "x = y"], simp) (use assms(2) in simp)
qed

lemma recover_with:
  assumes base: "\<And>d. A d \<Longrightarrow> \<exists>f. base E ok lvl r st0 f d" and s: "state_storable st0"
    and lock: "\<And>d l. A d \<Longrightarrow> lock_acquire (nodes d LockFile) = Inr l \<Longrightarrow>
      A (set_node LockFile (Some l) d) \<and> recoverable E ok lvl r st (set_node LockFile (Some l) d)"
    and pend: "\<And>d. A d \<Longrightarrow> \<exists>p. pending_of_node (nodes d PendingFile) = Inr p"
    and commit: "\<And>p. dtrip nf (trusts E (highest_release_sequence st)) (recoverable E ok lvl r st)
      (\<lambda>d. A d \<and> pending_of_node (nodes d PendingFile) = Inr p) (recover_anchor_commit E st0 p)
      (\<lambda>s d. s = st \<and> rec_clear E ok lvl r st d) (\<lambda>_ _. \<not> nf)"
  shows "dtrip nf (trusts E (highest_release_sequence st)) (recoverable E ok lvl r st) A (recover E)
    (\<lambda>s d. s = st \<and> live E ok lvl r st d) (\<lambda>_ _. \<not> nf)"
  (is "dtrip nf ?V ?K A _ ?B ?C")
  unfolding recover_def
proof (rule dtrip_locked [where M = A])
  show "\<exists>n. lock_acquire (nodes d LockFile) = Inr n" if "A d" for d
    using base [OF that] by (auto simp: base_def)
  show "?K (set_node LockFile (Some n) d) \<and> A (set_node LockFile (Some n) d)"
    if "A d" "lock_acquire (nodes d LockFile) = Inr n" for d n using lock [OF that] by simp
  have root: "dtrip nf ?V ?K A ensure_slots_root (\<lambda>_. A) ?C"
    by (rule ensure_slots_root_trip, drule base) (auto simp: base_def)
  have st: "dtrip nf ?V ?K A ensure_state (\<lambda>_. A) ?C"
    by (rule ensure_state_trip, drule base) (auto simp: base_def)
  have rd: "dtrip nf ?V ?K A (read_state E False) (\<lambda>s d. s = st0 \<and> A d) ?C"
    by (rule dtrip_read_state) (use base base_reads [OF _ s] in blast)
  have jr: "dtrip nf ?V ?K A read_pending_anchor (\<lambda>p d. A d \<and> pending_of_node (nodes d PendingFile) = Inr p) ?C"
    unfolding read_pending_anchor_def by (rule dtrip_lift) (use pend in fastforce)+
  show "dtrip nf ?V ?K A
     (bind_p ensure_slots_root (\<lambda>_. bind_p ensure_state (\<lambda>_. bind_p (read_state E False) (\<lambda>st0.
      bind_p read_pending_anchor (\<lambda>pending. bind_p (recover_anchor_commit E st0 pending) (\<lambda>st.
      bind_p (for_p (slot_order E) (recover_backup E st)) (\<lambda>_.
      bind_p (for_p (slot_order E) (recover_candidate E)) (\<lambda>_.
      bind_p (for_p [SlotA, SlotB] (recover_slot E st)) (\<lambda>_.
      bind_p discard_journal (\<lambda>_. bind_p (validate_state_anchor E st) (\<lambda>_. ret st))))))))))) ?B ?C"
    by (rule dtrip_bind [OF root], rule dtrip_bind [OF st], rule dtrip_known [OF rd],
        rule dtrip_bind [OF jr], rule dtrip_known [OF commit], rule recover_tail)
qed

lemma recover_now_trip:
  assumes "state_storable st"
  shows "dtrip nf (trusts E (highest_release_sequence st)) (recoverable E ok lvl r st) (rec_now E ok lvl r st) (recover E)
    (\<lambda>s d. s = st \<and> live E ok lvl r st d) (\<lambda>_ _. \<not> nf)"
proof (rule recover_with [OF _ assms _ _ commit_now])
  fix d assume a: "rec_now E ok lvl r st d"
  show "\<exists>f. base E ok lvl r st f d" using a by (auto simp: rec_now_def)
  show "rec_now E ok lvl r st (set_node LockFile (Some l) d) \<and> recoverable E ok lvl r st (set_node LockFile (Some l) d)"
    if "lock_acquire (nodes d LockFile) = Inr l" for l
    using a base_lock [of E ok lvl r st "highest_release_sequence st" d l] that
    by (simp add: rec_now_def recoverable_def)
  show "\<exists>p. pending_of_node (nodes d PendingFile) = Inr p"
  proof (cases "nodes d PendingFile = None")
    case True
    then show ?thesis by (simp add: pending_of_node_def)
  next
    case False
    then show ?thesis using a journal_reads(1) unfolding rec_now_def journal_ok_def by metis
  qed
qed

lemma recover_ahead_trip:
  assumes s: "state_storable (activated st sl v f)"
  shows "dtrip nf (trusts E f) (recoverable E ok lvl r (activated st sl v f)) (rec_ahead E ok lvl r st sl v f) (recover E)
    (\<lambda>s d. s = activated st sl v f \<and> live E ok lvl r (activated st sl v f) d) (\<lambda>_ _. \<not> nf)"
proof (cases "state_storable st")
  case False
  then show ?thesis by (intro dtrip_pre [OF dtrip_false]) (simp add: rec_ahead_def)
next
  case True
  have "dtrip nf (trusts E (highest_release_sequence (activated st sl v f))) (recoverable E ok lvl r (activated st sl v f))
      (rec_ahead E ok lvl r st sl v f) (recover E)
      (\<lambda>s d. s = activated st sl v f \<and> live E ok lvl r (activated st sl v f) d) (\<lambda>_ _. \<not> nf)"
  proof (rule recover_with [OF _ True])
    fix d assume a: "rec_ahead E ok lvl r st sl v f d"
    show "\<exists>f. base E ok lvl r st f d" using a unfolding rec_ahead_def by blast
    show "rec_ahead E ok lvl r st sl v f (set_node LockFile (Some l) d) \<and>
        recoverable E ok lvl r (activated st sl v f) (set_node LockFile (Some l) d)"
      if "lock_acquire (nodes d LockFile) = Inr l" for l
    proof -
      have "rec_ahead E ok lvl r st sl v f (set_node LockFile (Some l) d)"
        using a base_lock [of E ok lvl r st f d l] that unfolding rec_ahead_def
        by (elim conjE, intro conjI) simp_all
      then show ?thesis unfolding recoverable_def by blast
    qed
    show "\<exists>p. pending_of_node (nodes d PendingFile) = Inr p"
      using a journal_reads(1) unfolding rec_ahead_def by blast
  qed (simp add: commit_ahead [OF s])
  then show ?thesis by simp
qed

lemma dtrip_disj:
  "dtrip nf V K A p B C \<Longrightarrow> dtrip nf V K A' p B C \<Longrightarrow> dtrip nf V K (\<lambda>d. A d \<or> A' d) p B C"
  unfolding dtrip_def chl_def on_disk_def by blast

lemma recover_trip:
  assumes s: "state_storable st"
  shows "dtrip nf (trusts E (highest_release_sequence st)) (recoverable E ok lvl r st) (recoverable E ok lvl r st)
    (recover E) (\<lambda>s d. s = st \<and> live E ok lvl r st d) (\<lambda>_ _. \<not> nf)"
  unfolding recoverable_def [of E ok lvl r st, abs_def]
proof (rule dtrip_disj; (rule dtrip_exI)?)
  show "dtrip nf (trusts E (highest_release_sequence st))
      (\<lambda>d. rec_now E ok lvl r st d \<or> (\<exists>st0 sl v f. rec_ahead E ok lvl r st0 sl v f d \<and> st = activated st0 sl v f))
      (rec_now E ok lvl r st) (recover E) (\<lambda>s d. s = st \<and> live E ok lvl r st d) (\<lambda>_ _. \<not> nf)"
    using recover_now_trip [OF s] by (simp add: recoverable_def [abs_def])
  fix st0
  show "dtrip nf (trusts E (highest_release_sequence st))
      (\<lambda>d. rec_now E ok lvl r st d \<or> (\<exists>st0 sl v f. rec_ahead E ok lvl r st0 sl v f d \<and> st = activated st0 sl v f))
      (\<lambda>d. \<exists>sl v f. rec_ahead E ok lvl r st0 sl v f d \<and> st = activated st0 sl v f) (recover E)
      (\<lambda>s d. s = st \<and> live E ok lvl r st d) (\<lambda>_ _. \<not> nf)"
  proof (intro dtrip_exI)
    fix sl v f
    show "dtrip nf (trusts E (highest_release_sequence st))
        (\<lambda>d. rec_now E ok lvl r st d \<or> (\<exists>st0 sl v f. rec_ahead E ok lvl r st0 sl v f d \<and> st = activated st0 sl v f))
        (\<lambda>d. rec_ahead E ok lvl r st0 sl v f d \<and> st = activated st0 sl v f) (recover E)
        (\<lambda>s d. s = st \<and> live E ok lvl r st d) (\<lambda>_ _. \<not> nf)"
    proof (rule dtrip_fact [where F = "st = activated st0 sl v f"], simp)
      assume st: "st = activated st0 sl v f"
      have "state_storable (activated st0 sl v f)" using s st by simp
      from recover_ahead_trip [OF this]
      show "dtrip nf (trusts E (highest_release_sequence st))
        (\<lambda>d. rec_now E ok lvl r st d \<or> (\<exists>st0 sl v f. rec_ahead E ok lvl r st0 sl v f d \<and> st = activated st0 sl v f))
        (\<lambda>d. rec_ahead E ok lvl r st0 sl v f d \<and> st = activated st0 sl v f) (recover E)
        (\<lambda>s d. s = st \<and> live E ok lvl r st d) (\<lambda>_ _. \<not> nf)"
        unfolding st by (auto simp: recoverable_def [abs_def] elim: dtrip_pre)
    qed
  qed
qed

lemma recoverable_base:
  "recoverable E ok lvl r st d \<Longrightarrow>
     (\<exists>es. nodes d RootDir = Some (Directory es)) \<and> floor_is E ok lvl (highest_release_sequence st) d"
  by (auto simp: recoverable_def rec_now_def rec_ahead_def base_def)

lemma recoverable_anchor:
  assumes "recoverable E ok lvl r st d" "ok a" "lvl a = highest_release_sequence st"
  shows "recoverable E ok lvl r st (d\<lparr>anchor_store := a\<rparr>)"
  using assms(1) unfolding recoverable_def
proof
  assume "rec_now E ok lvl r st d"
  then have "rec_now E ok lvl r st (d\<lparr>anchor_store := a\<rparr>)"
    using base_anchor [of E ok lvl r st _ d a "highest_release_sequence st"] assms(2,3)
    by (auto simp: rec_now_def)
  then show "rec_now E ok lvl r st (d\<lparr>anchor_store := a\<rparr>) \<or>
      (\<exists>st0 sl v f. rec_ahead E ok lvl r st0 sl v f (d\<lparr>anchor_store := a\<rparr>) \<and> st = activated st0 sl v f)"
    by (rule disjI1)
next
  assume "\<exists>st0 sl v f. rec_ahead E ok lvl r st0 sl v f d \<and> st = activated st0 sl v f"
  then obtain st0 sl v f where a: "rec_ahead E ok lvl r st0 sl v f d" and st: "st = activated st0 sl v f" by blast
  have "rec_ahead E ok lvl r st0 sl v f (d\<lparr>anchor_store := a\<rparr>)"
    using a base_anchor [of E ok lvl r st0 f d a f] assms(2,3) st unfolding rec_ahead_def
    by (elim conjE, intro conjI) simp_all
  then show "rec_now E ok lvl r st (d\<lparr>anchor_store := a\<rparr>) \<or>
      (\<exists>st0 sl v f. rec_ahead E ok lvl r st0 sl v f (d\<lparr>anchor_store := a\<rparr>) \<and> st = activated st0 sl v f)"
    using st by blast
qed

text \<open>Reading the anchor, for assertions that a protocol-keeping read preserves.\<close>

lemma read_floor_trip:
  assumes "anchored E ok lvl" "anchor_of E \<noteq> None"
    and "\<And>d. A d \<Longrightarrow> ok (anchor_store d) \<and> lvl (anchor_store d) = f"
    and "\<And>d a. A d \<Longrightarrow> ok a \<Longrightarrow> lvl a = f \<Longrightarrow> K (d\<lparr>anchor_store := a\<rparr>) \<and> A (d\<lparr>anchor_store := a\<rparr>)"
  shows "dtrip nf V K A (read_anchor_floor E) (\<lambda>x d. x = f \<and> A d) C"
proof -
  obtain ops where ops: "anchor_of E = Some ops" using assms(2) by blast
  have rd: "dtrip nf V K A (anchor_p (anchor_read_op ops)) (\<lambda>v d. v = JInt f \<and> A d \<and> ok (anchor_store d)) (\<lambda>_ _. False)"
  proof (rule dtrip_anchor)
    fix d res a assume d: "A d" and run: "anchor_read_op ops (anchor_store d) = (res, a)"
    have "res = Inr (JInt f) \<and> ok a \<and> lvl a = f"
      using anchor_reads [OF assms(1) ops, of "anchor_store d"] assms(3) [OF d] run by auto
    then show "K (d\<lparr>anchor_store := a\<rparr>) \<and> (case res of Inl e \<Rightarrow> False
        | Inr v \<Rightarrow> v = JInt f \<and> A (d\<lparr>anchor_store := a\<rparr>) \<and> ok (anchor_store (d\<lparr>anchor_store := a\<rparr>)))"
      using assms(4) [OF d] by simp
  qed
  have va: "validate_anchor_floor (JInt f) = Inr f" if "A d" for d
    using anchor_range [OF assms(1,2), of "anchor_store d"] assms(3) [OF that]
    by (simp add: validate_anchor_floor_def check_bounded_Inr)
  have "dtrip nf V K (\<lambda>d. A d \<and> ok (anchor_store d)) (lift_r (\<lambda>_. validate_anchor_floor (JInt f))) (\<lambda>x d. x = f \<and> A d) (\<lambda>_ _. False)"
    by (rule dtrip_lift_const) (use va in fastforce)+
  then have "dtrip nf V K A (bind_p (anchor_p (anchor_read_op ops)) (\<lambda>v. lift_r (\<lambda>_. validate_anchor_floor v)))
      (\<lambda>x d. x = f \<and> A d) (\<lambda>_ _. False)"
    by (rule dtrip_known [OF rd])
  then show ?thesis
    unfolding read_anchor_floor_def ops option.case by (rule dtrip_catch) (rule dtrip_false)
qed

lemma chl_same: "(\<And>s. P s \<Longrightarrow> q s = p s) \<Longrightarrow> chl K P p Q R \<Longrightarrow> chl K P q Q R"
  unfolding chl_def by metis

text \<open>The constructor up to recovery: it reads the anchor and starts from a clean record.\<close>

lemma init_with:
  assumes anch: "anchored E ok lvl" and m: "1024 \<le> max_model_bytes E"
    and root: "\<And>d. A d \<Longrightarrow> \<exists>es. nodes d RootDir = Some (Directory es)"
    and fl: "\<And>d. A d \<Longrightarrow> floor_is E ok lvl f d"
    and anchor: "\<And>d a. A d \<Longrightarrow> ok a \<Longrightarrow> lvl a = f \<Longrightarrow> K (d\<lparr>anchor_store := a\<rparr>) \<and> A (d\<lparr>anchor_store := a\<rparr>)"
    and rec: "dtrip nf (trusts E f) K A (recover E) B C"
  shows "chl K (on_disk nf (\<lambda>_ _. True) A) (deployer_init E) (\<lambda>x. on_disk nf (trusts E f) (B x))
    (\<lambda>e. on_disk nf (trusts E f) (C e))"
proof -
  let ?V = "\<lambda>_ _. True" and ?R = "\<lambda>e. on_disk nf (trusts E f) (C e)"
  have first: "chl K (on_disk nf ?V A)
    (if anchor_of E \<noteq> None then bind_p (read_anchor_floor E) (\<lambda>f. modify_p (\<lambda>s. s\<lparr>trusted_floor := Some f\<rparr>))
     else modify_p (\<lambda>s. s\<lparr>trusted_floor := None\<rparr>))
    (\<lambda>_. on_disk nf (\<lambda>tf _. tf = (if anchor_of E = None then None else Some f)) A) ?R"
  proof (rule chl_if)
    assume an: "anchor_of E \<noteq> None"
    have "dtrip nf ?V K A (read_anchor_floor E) (\<lambda>x d. x = f \<and> A d) (\<lambda>_ _. False)"
      by (rule read_floor_trip [OF anch an]) (use fl anchor an in \<open>auto simp: floor_is_def\<close>)
    then have rd: "chl K (on_disk nf ?V A) (read_anchor_floor E) (\<lambda>x. on_disk nf ?V (\<lambda>d. x = f \<and> A d)) ?R"
      unfolding dtrip_def by (rule chl_weaken) (auto simp: on_disk_def)
    show "chl K (on_disk nf ?V A)
        (bind_p (read_anchor_floor E) (\<lambda>f. modify_p (\<lambda>s. s\<lparr>trusted_floor := Some f\<rparr>)))
        (\<lambda>_. on_disk nf (\<lambda>tf _. tf = (if anchor_of E = None then None else Some f)) A) ?R"
      by (rule chl_bind [OF rd], intro chl_modify) (use an in \<open>auto simp: on_disk_def\<close>)
  next
    assume "\<not> anchor_of E \<noteq> None"
    then show "chl K (on_disk nf ?V A) (modify_p (\<lambda>s. s\<lparr>trusted_floor := None\<rparr>))
        (\<lambda>_. on_disk nf (\<lambda>tf _. tf = (if anchor_of E = None then None else Some f)) A) ?R"
      by (intro chl_modify) (auto simp: on_disk_def)
  qed
  have clear: "chl K (on_disk nf (\<lambda>tf _. tf = (if anchor_of E = None then None else Some f)) A)
      (modify_p (\<lambda>s. s\<lparr>recovery_required := False\<rparr>)) (\<lambda>_. on_disk nf (trusts E f) A) ?R"
    by (rule chl_modify) (auto simp: on_disk_def trusts_def)
  have "deployer_init E s = bind_p (if anchor_of E \<noteq> None
             then bind_p (read_anchor_floor E) (\<lambda>f. modify_p (\<lambda>s. s\<lparr>trusted_floor := Some f\<rparr>))
             else modify_p (\<lambda>s. s\<lparr>trusted_floor := None\<rparr>)) (\<lambda>_.
     bind_p (modify_p (\<lambda>s. s\<lparr>recovery_required := False\<rparr>)) (\<lambda>_. recover E)) s"
    if p: "on_disk nf ?V A s" for s
  proof -
    obtain es where "nodes (dur s) RootDir = Some (Directory es)"
      using root [of "dur s"] p by (auto simp: on_disk_def)
    then show ?thesis using m
      by (simp add: deployer_init_def node_p_def bind_p_def [of "gets_p _"] bind_p_def [of "lift_r _"]
          bind_p_def [of "guard_p _ _"] prog_run mkdir_node_def)
  qed
  then show ?thesis
    by (rule chl_same [where P = "on_disk nf ?V A"])
       (assumption, rule chl_bind [OF first chl_bind [OF clear rec [unfolded dtrip_def]]])
qed

lemma init_trip:
  assumes a: "anchored E ok lvl" and m: "1024 \<le> max_model_bytes E" and s: "state_storable st"
  shows "chl (recoverable E ok lvl r st) (on_disk nf (\<lambda>_ _. True) (recoverable E ok lvl r st)) (deployer_init E)
    (\<lambda>x. on_disk nf (trusts E (highest_release_sequence st)) (\<lambda>d. x = st \<and> live E ok lvl r st d))
    (\<lambda>_. on_disk nf (trusts E (highest_release_sequence st)) (\<lambda>_. \<not> nf))"
  by (rule init_with [OF a m _ _ _ recover_trip [OF s]])
     (use recoverable_base [of E ok lvl r st] recoverable_anchor [of E ok lvl r st] in blast)+

text \<open>C2: a crash is recovered from. Whatever recoverable state the disk is in, every state that
  starting a deployer passes through is recoverable to the same deployment state, even when
  steps fail, so recovery may itself be interrupted; and a start whose steps do not fail
  returns that state, with every slot it names in place and verified, nothing left of an
  abandoned deployment, and the local floor equal to the anchor's.
\<close>

theorem recovery_restores:
  assumes "anchored E ok lvl" "1024 \<le> max_model_bytes E" "state_storable st"
    and "recoverable E ok lvl r st (dur s)" "history s = []" "deployer_init E s = (res, t)"
  shows "(\<forall>d \<in> set (history t). recoverable E ok lvl r st d) \<and>
    (faults s = [] \<longrightarrow> res = Inr st \<and> live E ok lvl r st (dur t) \<and> \<not> recovery_required t)"
proof -
  have c: "recoverable E ok lvl r st d" if "d \<in> set (history t)" for d
  proof -
    have "on_disk False (\<lambda>_ _. True) (recoverable E ok lvl r st) s" using assms(4) by (simp add: on_disk_def)
    from chl_crash [OF init_trip [OF assms(1-3)] this assms(6) that] show ?thesis using assms(5) by simp
  qed
  moreover have "res = Inr st \<and> live E ok lvl r st (dur t) \<and> \<not> recovery_required t" if "faults s = []"
  proof -
    have p: "on_disk True (\<lambda>_ _. True) (recoverable E ok lvl r st) s" using assms(4) that by (simp add: on_disk_def)
    show ?thesis using chlD(2) [OF init_trip [OF assms(1-3)] p assms(6)]
      by (cases res) (auto simp: on_disk_def trusts_def)
  qed
  ultimately show ?thesis by blast
qed

end
