(* ===== verification/SampleDeployer.thy ===== *)
theory SampleDeployer
  imports Recovery
begin

text \<open>
  A concrete deployer for the witnesses: an anchor in memory, a registry with one signed
  release, and the disk as a power failure leaves it between the advance of the anchor and
  the commit of the first deployment.
\<close>

definition sample_files :: "(string \<times> fsnode) list" where
  "sample_files =
     (case stage_files sample_manifest sample_signature ''k1'' ''npz'' of Inr f \<Rightarrow> f | Inl _ \<Rightarrow> [])"

definition sample_store :: registry where
  "sample_store = sample_registry\<lparr>reg_entries := [(''1.0.0'', Directory sample_files)]\<rparr>"

definition sample_env :: "(memory_anchor, unit) env" where
  "sample_env =
     \<lparr>ext_of = sample_ext, anchor_of = Some (anchor_ops_of memory_read_floor memory_advance_to),
      policy = sample_policy, max_model_bytes = 2048, isolate_health_gate = True,
      qualify = (\<lambda>_ _ _ _ _. Inr sample_metrics), bench = (\<lambda>_ _. Inr sample_metrics),
      loader = (\<lambda>_ _ _. Inr ()), torn = (\<lambda>_. []), a_first = True\<rparr>"

definition sample_target :: deployment_state where
  "sample_target = activated initial_state SlotA ''1.0.0'' 4"

definition bytes_of :: "bytes res \<Rightarrow> bytes" where
  "bytes_of r = (case r of Inr bs \<Rightarrow> bs | Inl _ \<Rightarrow> [])"

definition sample_crash :: "memory_anchor durable" where
  "sample_crash =
     \<lparr>nodes = (\<lambda>_. None)(RootDir := Some (Directory []), SlotsRoot := Some (Directory []),
        StateFile := Some (RegFile (bytes_of (state_to_bytes initial_state))),
        PendingFile := Some (RegFile (bytes_of (pending_to_bytes (deploy_journal initial_state SlotA ''1.0.0'' 4)))),
        SlotDir SlotA := Some (Directory sample_files)),
      reg = sample_store, anchor_store = \<lparr>anchor_value = 4\<rparr>\<rparr>"

definition at_start :: "'a durable \<Rightarrow> 'a deployer" where
  "at_start d = \<lparr>dur = d, trusted_floor = None, recovery_required = False, faults = [], history = []\<rparr>"

lemma sample_verified:
  "verify_directory sample_ext (reg_keyring sample_store) (Some (Directory sample_files)) (Some ''1.0.0'') =
     Inr (canon_manifest sample_manifest)"
proof -
  obtain files where f: "stage_files sample_manifest sample_signature ''k1'' ''npz'' = Inr files"
      "open_verified_model sample_ext (reg_keyring sample_registry) (Some (Directory files)) (Some ''1.0.0'') =
       Inr (''npz'', canon_manifest sample_manifest)"
    using sample_staged by blast
  then show ?thesis by (auto simp: verify_directory_Inr sample_files_def sample_store_def)
qed

lemma sample_inspect:
  "inspect sample_ext sample_store ''1.0.0'' = Inr (Some (Directory sample_files), canon_manifest sample_manifest)"
  using sample_semver sample_verified
  by (simp add: inspect_Inr) (simp add: sample_store_def reg_dir_def dir_entry_def)

lemma sample_slot_verified:
  "verified_directory_manifest sample_ext sample_store (Some (Directory sample_files)) ''1.0.0'' =
     Inr (canon_manifest sample_manifest)"
  using sample_inspect sample_verified manifest_eq_refl
  by (simp add: verified_directory_manifest_def canonical_manifest_def)

lemma sample_sequence: "release_sequence sample_manifest = 4" "version sample_manifest = ''1.0.0''"
  by (simp_all add: sample_manifest_def)

lemma sample_identity: "identity_ok sample_ext sample_store ''1.0.0'' 4"
proof -
  have "version (canon_manifest sample_manifest) = ''1.0.0''"
    using inspect_version [OF sample_inspect] .
  then show ?thesis
    using sample_inspect sample_sequence sample_verified
    by (simp add: identity_ok_def assert_sequence_available_Inr)
       (simp add: sample_store_def)
qed

lemma initial_ok: "state_valid initial_state" "state_fits initial_state"
  by (simp_all add: initial_state_def state_valid_def state_fits_def max_release_sequence_def)

lemma sample_target_ok: "state_valid sample_target" "state_fits sample_target"
  using sample_semver
  by (simp_all add: sample_target_def activated_def initial_state_def state_valid_def state_fits_def
      max_release_sequence_def sample_py_len)

lemma sample_journal: "journal_is (deploy_journal initial_state SlotA ''1.0.0'' 4)
    (Some (RegFile (bytes_of (pending_to_bytes (deploy_journal initial_state SlotA ''1.0.0'' 4)))))"
proof -
  let ?p = "deploy_journal initial_state SlotA ''1.0.0'' 4"
  have v: "pending_valid ?p" using sample_semver
    by (simp add: deploy_journal_def pending_valid_def initial_state_def max_release_sequence_def)
  have s: "pending_storable ?p"
    by (rule pending_storable_fits [OF v]) (simp_all add: deploy_journal_def initial_state_def sample_py_len)
  obtain bs where "pending_to_bytes ?p = Inr bs" using pending_roundtrip [OF v s] by blast
  then show ?thesis using s by (simp add: journal_is_def bytes_of_def)
qed

lemma sample_anchored: "anchored sample_env memory_ok anchor_value"
  using memory.rollback_anchor_axioms by (auto simp: anchored_def sample_env_def)

lemma sample_crash_ahead:
  "rec_ahead sample_env memory_ok anchor_value sample_store initial_state SlotA ''1.0.0'' 4 sample_crash"
proof -
  have b: "base sample_env memory_ok anchor_value sample_store initial_state 4 sample_crash"
    using state_to_bytes_ok [OF initial_ok(1) state_storable_fits [OF initial_ok]]
    by (simp add: base_def sample_crash_def bytes_of_def floor_is_def memory_ok_def reg_like_def
        sample_store_def sample_registry_def lock_acquire_def max_release_sequence_def)
  have "slot_ok sample_ext sample_store initial_state sample_crash sl" if "sl \<noteq> SlotA" for sl
    using that by (cases sl) (simp_all add: slot_ok_def initial_state_def sample_crash_def)
  then show ?thesis
    using b sample_journal sample_identity sample_slot_verified sample_sequence
      state_storable_fits [OF initial_ok]
    unfolding rec_ahead_def
    by (simp add: sample_env_def inactive_slot_def max_release_sequence_def)
       (simp add: sample_crash_def initial_state_def)
qed

theorem recovery_restores_witness:
  "fst (deployer_init sample_env (at_start sample_crash)) = Inr sample_target"
proof -
  obtain res t where run: "deployer_init sample_env (at_start sample_crash) = (res, t)"
    by (cases "deployer_init sample_env (at_start sample_crash)")
  have r: "recoverable sample_env memory_ok anchor_value sample_store sample_target (dur (at_start sample_crash))"
    using sample_crash_ahead unfolding recoverable_def sample_target_def at_start_def by auto
  have "res = Inr sample_target"
    using recovery_restores [OF sample_anchored _ state_storable_fits [OF sample_target_ok] r _ run]
    by (simp add: sample_env_def at_start_def)
  then show ?thesis by (simp add: run)
qed

end
