(* ===== verification/DeployCrash.thy ===== *)
theory DeployCrash
  imports SampleDeployer
begin

text \<open>
  \<^verbatim>\<open>ABDeployer.deploy\<close> under crashes and failing steps: from a live deployer, every durable
  state that a deployment passes through is recoverable, to the state before, to that state
  marked failed, or to the new one.
\<close>

section \<open>Admission\<close>

lemma live_recoverable: "live E ok lvl r st d \<Longrightarrow> recoverable E ok lvl r st d"
  by (intro rec_now_recoverable rec_clear_now live_clear)

lemma live_base: "live E ok lvl r st d \<Longrightarrow> base E ok lvl r st (highest_release_sequence st) d"
  by (simp add: live_def)

lemma live_lock:
  "live E ok lvl r st d \<Longrightarrow> lock_acquire (nodes d LockFile) = Inr l \<Longrightarrow> live E ok lvl r st (set_node LockFile (Some l) d)"
  by (auto simp: live_def base_lock)

lemma live_reg: "live E ok lvl r st d \<Longrightarrow> reg_like r g \<Longrightarrow> live E ok lvl r st (d\<lparr>reg := g\<rparr>)"
  by (simp add: live_def base_reg)

lemma live_anchor:
  "live E ok lvl r st d \<Longrightarrow> ok a \<Longrightarrow> lvl a = highest_release_sequence st \<Longrightarrow> live E ok lvl r st (d\<lparr>anchor_store := a\<rparr>)"
  by (auto simp: live_def intro: base_anchor)

lemma live_candidate: "live E ok lvl r st d \<Longrightarrow> removable n \<Longrightarrow> live E ok lvl r st (set_node (Candidate sl) n d)"
  by (simp add: live_def base_candidate)

lemma identity_any_trip:
  assumes "\<And>d. A d \<Longrightarrow> reg_like r (reg d)"
    and "\<And>d g. A d \<Longrightarrow> reg_like r g \<Longrightarrow> K (d\<lparr>reg := g\<rparr>) \<and> A (d\<lparr>reg := g\<rparr>) \<and> C (d\<lparr>reg := g\<rparr>)"
  shows "dtrip nf V K A (assert_identity_p E v seq) (\<lambda>_ d. A d \<and> identity_ok (ext_of E) r v seq) (\<lambda>_. C)"
  unfolding assert_identity_p_def
proof (rule dtrip_reg)
  fix d res g
  assume a: "A d" and i: "assert_release_sequence_identity (ext_of E) v seq (reg d) = (res, g)"
  note run = identity_run [OF assms(1) [OF a] i]
  show "K (d\<lparr>reg := g\<rparr>) \<and> (case res of Inl e \<Rightarrow> C (d\<lparr>reg := g\<rparr>)
      | Inr x \<Rightarrow> A (d\<lparr>reg := g\<rparr>) \<and> identity_ok (ext_of E) r v seq)"
    using run assms(2) [OF a run(1)] by (auto split: sum.splits)
qed

text \<open>\<^verbatim>\<open>_validate_state_anchor\<close> changes no file; it reads the anchor at most.\<close>

lemma validate_any_trip:
  assumes "anchored E ok lvl" "\<And>tf rq f. V tf rq \<Longrightarrow> V f rq"
    and "\<And>d. A d \<Longrightarrow> floor_is E ok lvl f d"
    and "\<And>d a. A d \<Longrightarrow> ok a \<Longrightarrow> lvl a = f \<Longrightarrow> K (d\<lparr>anchor_store := a\<rparr>) \<and> A (d\<lparr>anchor_store := a\<rparr>)"
    and "\<And>d. A d \<Longrightarrow> C d"
  shows "dtrip nf V K A (validate_state_anchor E st) (\<lambda>_. A) (\<lambda>_. C)"
proof -
  have g: "dtrip nf V K A (guard_p b e) (\<lambda>_. A) (\<lambda>_. C)" for b e
    unfolding dtrip_def by (rule chl_guard) (use assms(5) in \<open>auto simp: on_disk_def\<close>)
  have rd: "dtrip nf V K A (bind_p (read_anchor_floor E) (\<lambda>observed. modify_p (\<lambda>s. s\<lparr>trusted_floor := Some observed\<rparr>)))
      (\<lambda>_. A) (\<lambda>_. C)"
  proof (cases "anchor_of E")
    case None
    have "dtrip nf V K A (raise_e (DE ''rollback anchor is not configured'')) (\<lambda>_. A) (\<lambda>_. C)"
      by (rule dtrip_raise) (rule assms(5))
    then show ?thesis by (simp add: read_anchor_floor_def None)
  next
    case (Some ops)
    show ?thesis
    proof (rule dtrip_known [where M = A and y = f])
      show "dtrip nf V K A (read_anchor_floor E) (\<lambda>x d. x = f \<and> A d) (\<lambda>_. C)"
        by (rule read_floor_trip [OF assms(1)])
           (use Some assms(3,4) in \<open>auto simp: floor_is_def\<close>)
      show "dtrip nf V K A (modify_p (\<lambda>s. s\<lparr>trusted_floor := Some f\<rparr>)) (\<lambda>_. A) (\<lambda>_. C)"
        by (rule dtrip_set_trusted) (use assms(2) in blast)
    qed
  qed
  have ret: "dtrip nf V K A (ret ()) (\<lambda>_. A) (\<lambda>_. C)" by (rule dtrip_ret)
  have nb: "dtrip nf V K A (bind_p (node_p PendingFile) F) (\<lambda>_. A) (\<lambda>_. C)"
    if "\<And>n. dtrip nf V K A (F n) (\<lambda>_. A) (\<lambda>_. C)" for F
    by (rule dtrip_node_bind, rule dtrip_pre [OF that]) simp
  have body: "dtrip nf V K A (case tf of None \<Rightarrow> ret ()
     | Some t \<Rightarrow>
         bind_p (guard_p (\<lambda>s. \<not> recovery_required s) (DE ''external rollback anchor transition requires recovery'')) (\<lambda>_.
         bind_p (node_p PendingFile) (\<lambda>pending.
         bind_p (if highest_release_sequence st \<noteq> t \<or> path_exists pending \<or> is_symlink pending
                 then bind_p (read_anchor_floor E) (\<lambda>observed. modify_p (\<lambda>s. s\<lparr>trusted_floor := Some observed\<rparr>))
                 else ret ()) (\<lambda>_.
         guard_p (\<lambda>s. trusted_floor s = Some (highest_release_sequence st))
           (DE ''deployment state anti-rollback floor differs from external rollback anchor'')))))
     (\<lambda>_. A) (\<lambda>_. C)" for tf
  proof (cases tf)
    case None
    then show ?thesis using ret by simp
  next
    case (Some t)
    show ?thesis unfolding Some option.case
      by (intro dtrip_bind [OF g] nb dtrip_bind [OF _ g] dtrip_if rd ret)
  qed
  have "dtrip nf V K A (gets_p trusted_floor) (\<lambda>_. A) (\<lambda>_. C)" by (rule dtrip_trusted)
  then show ?thesis unfolding validate_state_anchor_def by (rule dtrip_bind) (rule body)
qed

lemma read_state_validated:
  assumes "\<And>d. A d \<Longrightarrow> state_of_node (nodes d StateFile) = Inr st"
    and "dtrip nf V K A (validate_state_anchor E st) (\<lambda>_. A) C"
  shows "dtrip nf V K A (read_state E True) (\<lambda>s d. s = st \<and> A d) C"
  unfolding read_state_def
proof (rule dtrip_node_bind, rule dtrip_fact)
  fix n
  show "state_of_node n = Inr st \<and> path_exists n" if "A d \<and> nodes d StateFile = n" for d
    using assms(1) that state_node_exists by blast
  assume n: "state_of_node n = Inr st \<and> path_exists n"
  have "dtrip nf V K (\<lambda>d. A d \<and> nodes d StateFile = n)
    (bind_p (lift_r (\<lambda>_. state_of_node n)) (\<lambda>st. bind_p (validate_state_anchor E st) (\<lambda>_. ret st))) (\<lambda>s d. s = st \<and> A d) C"
  proof (rule dtrip_known [where M = A and y = st])
    show "dtrip nf V K (\<lambda>d. A d \<and> nodes d StateFile = n) (lift_r (\<lambda>_. state_of_node n)) (\<lambda>x d. x = st \<and> A d) C"
      by (rule dtrip_lift_const) (use n in simp_all)
    show "dtrip nf V K A (bind_p (validate_state_anchor E st) (\<lambda>_. ret st)) (\<lambda>s d. s = st \<and> A d) C"
      by (rule dtrip_bind [OF assms(2)]) (simp add: dtrip_ret)
  qed
  then show "dtrip nf V K (\<lambda>d. A d \<and> nodes d StateFile = n)
     (if \<not> path_exists n then
       bind_p (guard_p (\<lambda>s. \<not> (is_symlink n \<or> slot_data_exists (dur s)))
         (DE ''deployment state missing while slot data exists'')) (\<lambda>_. ret initial_state)
      else bind_p (lift_r (\<lambda>_. state_of_node n)) (\<lambda>st.
        bind_p (if True then validate_state_anchor E st else ret ()) (\<lambda>_. ret st))) (\<lambda>s d. s = st \<and> A d) C"
    using n by simp
qed

section \<open>What a crash during a deployment leaves\<close>

definition new_state :: "deployment_state \<Rightarrow> artifact_manifest \<Rightarrow> pystr \<Rightarrow> deployment_state" where
  "new_state st m v = activated st (inactive_slot st) v (max (highest_release_sequence st) (release_sequence m))"

text \<open>What admission establishes about the release.\<close>

definition admitted :: "('a, 'r) env \<Rightarrow> registry \<Rightarrow> deployment_state \<Rightarrow> pystr \<Rightarrow> artifact_manifest \<Rightarrow> bool" where
  "admitted E r st v m \<longleftrightarrow>
     (\<exists>dir. inspect (ext_of E) r v = Inr (dir, m)) \<and> identity_ok (ext_of E) r v (release_sequence m) \<and>
     (anchor_of E \<noteq> None \<longrightarrow> highest_release_sequence st < release_sequence m)"

definition deploy_ok ::
  "('a, 'r) env \<Rightarrow> ('a \<Rightarrow> bool) \<Rightarrow> ('a \<Rightarrow> int) \<Rightarrow> registry \<Rightarrow> deployment_state \<Rightarrow> pystr \<Rightarrow> 'a durable \<Rightarrow> bool" where
  "deploy_ok E ok lvl r st v d \<longleftrightarrow>
     recoverable E ok lvl r st d \<or> (\<exists>e. recoverable E ok lvl r (failed_state st e) d) \<or>
     (\<exists>m. admitted E r st v m \<and> recoverable E ok lvl r (new_state st m v) d)"

lemma live_deploy_ok: "live E ok lvl r st d \<Longrightarrow> deploy_ok E ok lvl r st v d"
  by (simp add: deploy_ok_def live_recoverable)

lemma admit_trip:
  assumes anch: "anchored E ok lvl" and s: "state_storable st" and K: "\<And>d. live E ok lvl r st d \<Longrightarrow> K d"
  shows "dtrip False (\<lambda>_ _. True) K (live E ok lvl r st) (admit E v b)
    (\<lambda>x d. live E ok lvl r st d \<and> (case x of (dir, m, st') \<Rightarrow> st' = st \<and> admitted E r st v m \<and>
       (b \<or> highest_release_sequence st < release_sequence m))) (\<lambda>_ _. True)"
  (is "dtrip _ ?V _ ?A _ ?B ?C")
  unfolding admit_def
proof (rule dtrip_bind [where M = "\<lambda>x d. ?A d \<and> (case x of (dir, m) \<Rightarrow> inspect (ext_of E) r v = Inr (dir, m))"])
  have like: "reg_like r (reg d)" if "?A d" for d using live_base [OF that] by (simp add: base_def)
  show "dtrip False ?V K ?A (lift_r (\<lambda>s. inspect (ext_of E) (reg (dur s)) v))
      (\<lambda>x d. ?A d \<and> (case x of (dir, m) \<Rightarrow> inspect (ext_of E) r v = Inr (dir, m))) ?C"
    by (rule dtrip_lift) (use reg_like_inspect [OF like] in \<open>auto split: prod.splits\<close>)
  have rd: "dtrip False ?V K (\<lambda>d. ?A d \<and> Q) (read_state E True) (\<lambda>s d. s = st \<and> ?A d \<and> Q) ?C" for Q
  proof (rule read_state_validated)
    show "state_of_node (nodes d StateFile) = Inr st" if "?A d \<and> Q" for d
      using base_reads [OF live_base _] that s by blast
    show "dtrip False ?V K (\<lambda>d. ?A d \<and> Q) (validate_state_anchor E st) (\<lambda>_ d. ?A d \<and> Q) ?C"
      by (rule validate_any_trip [OF anch, where f = "highest_release_sequence st"])
         (auto simp: K live_anchor dest: live_base simp: base_def)
  qed
  fix x show "dtrip False ?V K (\<lambda>d. ?A d \<and> (case x of (dir, m) \<Rightarrow> inspect (ext_of E) r v = Inr (dir, m)))
    (case x of (registry_dir, manifest) \<Rightarrow>
     bind_p (assert_identity_p E v (release_sequence manifest)) (\<lambda>_.
     bind_p (read_state E True) (\<lambda>st.
     bind_p (guard_p (\<lambda>_. \<not> (anchor_of E \<noteq> None \<and> release_sequence manifest \<le> highest_release_sequence st))
       (Exc RollbackRejected ''external rollback anchor cannot be bypassed by allow_downgrade'')) (\<lambda>_.
     bind_p (guard_p (\<lambda>_. \<not> (release_sequence manifest \<le> highest_release_sequence st \<and> \<not> b))
       (Exc RollbackRejected ''release sequence is not newer than trusted floor'')) (\<lambda>_.
     ret (registry_dir, manifest, st)))))) ?B ?C"
  proof (cases x)
    case (Pair dir m)
    let ?Q = "inspect (ext_of E) r v = Inr (dir, m)"
    let ?I = "identity_ok (ext_of E) r v (release_sequence m)"
    have i: "dtrip False ?V K (\<lambda>d. ?A d \<and> ?Q) (assert_identity_p E v (release_sequence m)) (\<lambda>_ d. ?A d \<and> ?Q \<and> ?I) ?C"
      by (rule dtrip_weaken [OF identity_any_trip [where A = "\<lambda>d. ?A d \<and> ?Q" and r = r and C = "\<lambda>_. True"]])
         (use like in \<open>auto simp: K live_reg\<close>)
    show ?thesis unfolding Pair prod.case
    proof (rule dtrip_bind [OF i], rule dtrip_known [OF rd], rule dtrip_bind)
      let ?G = "\<not> (anchor_of E \<noteq> None \<and> release_sequence m \<le> highest_release_sequence st)"
      show "dtrip False ?V K (\<lambda>d. ?A d \<and> ?Q \<and> ?I)
         (guard_p (\<lambda>_. ?G) (Exc RollbackRejected ''external rollback anchor cannot be bypassed by allow_downgrade''))
         (\<lambda>_ d. ?A d \<and> ?Q \<and> ?I \<and> ?G) ?C"
        by (rule dtrip_guard_const) simp_all
      let ?L = "\<not> (release_sequence m \<le> highest_release_sequence st \<and> \<not> b)"
      have fin: "?B (dir, m, st) d" if "?A d \<and> ?Q \<and> ?I \<and> ?G \<and> ?L" for d
        using that by (auto simp: admitted_def)
      show "dtrip False ?V K (\<lambda>d. ?A d \<and> ?Q \<and> ?I \<and> ?G)
        (bind_p (guard_p (\<lambda>_. \<not> (release_sequence m \<le> highest_release_sequence st \<and> \<not> b))
          (Exc RollbackRejected ''release sequence is not newer than trusted floor'')) (\<lambda>_. ret (dir, m, st))) ?B ?C"
        by (rule dtrip_bind [OF dtrip_guard_const [where B = "\<lambda>_ d. ?A d \<and> ?Q \<and> ?I \<and> ?G \<and> ?L"]], simp, simp,
            rule dtrip_ret, erule fin)
    qed
  qed
qed

section \<open>Staging and the gate\<close>

lemma stage_trip:
  "dtrip False V (deploy_ok E ok lvl r st v) (live E ok lvl r st) (stage_candidate E sl src)
     (\<lambda>_. live E ok lvl r st) (\<lambda>_. live E ok lvl r st)"
  (is "dtrip False V ?K ?A _ ?B ?C")
  unfolding stage_candidate_def
proof (rule dtrip_bind [where M = ?B])
  have c: "?K (set_node (Candidate sl) n d) \<and> ?A (set_node (Candidate sl) n d)" if "?A d" "removable n" for n d
    using live_candidate [OF that] live_deploy_ok by blast
  show "dtrip False V ?K ?A (rmtree_ignore_p E (Candidate sl)) ?B ?C"
    by (rule dtrip_rmtree_ignore) (use c in auto)
  have step: "dtrip False V ?K ?A (step_p (set_node (Candidate sl) n)) ?B ?C" if "removable n" for n
    by (rule dtrip_step) (use c that in auto)
  show "dtrip False V ?K ?A (copytree_p E src (Candidate sl)) ?B ?C" for u
    unfolding copytree_p_def
  proof (rule dtrip_node_bind)
    fix n
    have p: "dtrip False V ?K (\<lambda>d. ?A d \<and> nodes d (Candidate sl) = n) q ?B ?C" if "dtrip False V ?K ?A q ?B ?C" for q
      by (rule dtrip_pre [OF that]) simp
    have fail: "dtrip False V ?K ?A (raise_e os_error) ?B ?C" by (rule dtrip_raise)
    show "dtrip False V ?K (\<lambda>d. ?A d \<and> nodes d (Candidate sl) = n)
     (if n \<noteq> None then raise_e os_error
      else case Option.bind src resolve_tree of
       Some (Directory es) \<Rightarrow>
         bind_p (step_p (set_node (Candidate sl) (Some (Directory (torn E es))))) (\<lambda>_.
         step_p (set_node (Candidate sl) (Some (Directory es))))
     | _ \<Rightarrow> bind_p (step_p (set_node (Candidate sl) (Some (Directory [])))) (\<lambda>_. raise_e os_error)) ?B ?C"
      by (rule p) (auto intro!: dtrip_bind [OF step] step fail split: option.splits fsnode.splits)
  qed
qed

lemma gate_reads: "snd (gate E st sl m v s) = s"
  unfolding gate_def
  by (auto simp: bind_p_def prog_run on_slot_def Let_def split: sum.splits prod.splits option.splits)

lemma gate_trip:
  assumes "\<And>d. A d \<Longrightarrow> reg_like r (reg d)"
  shows "dtrip nf V K A (gate E st sl m v)
    (\<lambda>_ d. A d \<and> (\<exists>es. nodes d (Candidate sl) = Some (Directory es))) (\<lambda>_. A)"
  unfolding dtrip_def
proof (rule chlI)
  fix s res t assume p: "on_disk nf V A s" and run: "gate E st sl m v s = (res, t)"
  have t: "t = s" using gate_reads [of E st sl m v s] run by simp
  have "\<exists>es. nodes (dur s) (Candidate sl) = Some (Directory es)" if "res = Inr x" for x
    using run that unfolding gate_def
    by (auto simp: bind_p_Inr prog_run open_verified_model_Inr)
  then show "(\<exists>new. history t = new @ history s \<and> (\<forall>d \<in> set new. K d)) \<and>
      (case res of Inl e \<Rightarrow> on_disk nf V A t
       | Inr x \<Rightarrow> on_disk nf V (\<lambda>d. A d \<and> (\<exists>es. nodes d (Candidate sl) = Some (Directory es))) t)"
    using p t by (cases res) (auto simp: on_disk_def)
qed

text \<open>A failed gate: the candidate goes, the failure is recorded, everything else stays.\<close>

lemma failed_live:
  assumes "live E ok lvl r st d" "state_to_bytes (failed_state st e) = Inr bs"
  shows "live E ok lvl r (failed_state st e) (set_node StateFile (Some (RegFile bs)) d)"
proof -
  have "slot_live (ext_of E) r (failed_state st e) d sl" for sl
    using assms(1) by (simp add: live_def slot_live_def failed_state_def cong: option.case_cong)
  moreover have "base E ok lvl r (failed_state st e) (highest_release_sequence (failed_state st e))
      (set_node StateFile (Some (RegFile bs)) d)"
    using base_state [OF live_base [OF assms(1)] assms(2)] by (simp add: failed_state_def)
  ultimately show ?thesis using assms(1) by (simp add: live_def)
qed

lemma gate_failed_trip:
  "dtrip False V (deploy_ok E ok lvl r st v) (live E ok lvl r st) (gate_failed E st sl e) B (\<lambda>_ _. True)"
  (is "dtrip False V ?K ?A _ _ ?C")
  unfolding gate_failed_def
proof (rule dtrip_bind [where M = "\<lambda>_. ?A"])
  show "dtrip False V ?K ?A (rmtree_ignore_p E (Candidate sl)) (\<lambda>_. ?A) ?C"
    by (rule dtrip_rmtree_ignore) (auto intro: live_candidate live_deploy_ok [OF live_candidate])
  have "?K (set_node StateFile (Some (RegFile bs)) d)"
    if "?A d" "state_to_bytes (failed_state st e) = Inr bs" for d bs
    using live_recoverable [OF failed_live [OF that]] unfolding deploy_ok_def by blast
  then have w: "dtrip False V ?K ?A (write_state (failed_state st e)) (\<lambda>_ _. True) ?C"
    by (intro write_state_trip) (auto dest!: live_base simp: base_def)
  show "dtrip False V ?K ?A (bind_p (write_state (failed_state st e)) (\<lambda>_. raise_e e)) B ?C" for u
    by (rule dtrip_bind [OF w]) (simp add: dtrip_raise)
qed

section \<open>The commit\<close>

text \<open>
  The inactive slot is being replaced: what it held, if anything, is good in its backup. The
  other slot is live.
\<close>

definition replacing ::
  "('a, 'r) env \<Rightarrow> ('a \<Rightarrow> bool) \<Rightarrow> ('a \<Rightarrow> int) \<Rightarrow> registry \<Rightarrow> deployment_state \<Rightarrow> slot \<Rightarrow> int \<Rightarrow> 'a durable \<Rightarrow> bool" where
  "replacing E ok lvl r st sl f d \<longleftrightarrow>
     base E ok lvl r st f d \<and> (\<forall>sl'. sl' \<noteq> sl \<longrightarrow> slot_live (ext_of E) r st d sl') \<and>
     removable (nodes d (Backup sl)) \<and> removable (nodes d (SlotDir sl)) \<and>
     (case slots st sl of
        None \<Rightarrow> nodes d (Backup sl) = None
      | Some w \<Rightarrow> good (ext_of E) r (highest_release_sequence st) (nodes d (Backup sl)) w)"

lemma replacing_ok:
  assumes "replacing E ok lvl r st sl f d"
  shows "slot_ok (ext_of E) r st d sl'"
proof (cases "sl' = sl")
  case True
  then show ?thesis using assms by (auto simp: replacing_def slot_ok_def split: option.splits)
next
  case False
  then show ?thesis using assms by (intro slot_live_ok) (simp add: replacing_def)
qed

lemma replacing_clear:
  "replacing E ok lvl r st sl (highest_release_sequence st) d \<Longrightarrow> no_commit E st d \<Longrightarrow> rec_clear E ok lvl r st d"
  unfolding rec_clear_def by (intro conjI allI; (erule replacing_ok | simp add: replacing_def))

lemma replacing_deploy_ok:
  "replacing E ok lvl r st sl (highest_release_sequence st) d \<Longrightarrow> no_commit E st d \<Longrightarrow> deploy_ok E ok lvl r st v d"
  unfolding deploy_ok_def by (intro disjI1 rec_now_recoverable rec_clear_now replacing_clear)

lemma replacing_set:
  assumes "replacing E ok lvl r st sl f d"
  shows "removable n \<Longrightarrow> replacing E ok lvl r st sl f (set_node (SlotDir sl) n d)"
    and "removable n \<Longrightarrow> replacing E ok lvl r st sl f (set_node (Candidate c) n d)"
    and "replacing E ok lvl r st sl f (set_node PendingFile n d)"
  using assms by (auto simp: replacing_def base_candidate cong: option.case_cong)

lemma no_commit_set [simp]:
  "no_commit E st (set_node (SlotDir sl) n d) = no_commit E st d"
  "no_commit E st (set_node (Backup sl) n d) = no_commit E st d"
  "no_commit E st (set_node (Candidate sl) n d) = no_commit E st d"
  by (simp_all add: no_commit_def)

lemma live_no_commit: "live E ok lvl r st d \<Longrightarrow> no_commit E st d"
  by (simp add: live_def no_commit_def)

definition at_rest where
  "at_rest E ok lvl r st sl d \<longleftrightarrow>
     replacing E ok lvl r st sl (highest_release_sequence st) d \<and> nodes d PendingFile = None"

lemma at_rest_deploy_ok: "at_rest E ok lvl r st sl d \<Longrightarrow> deploy_ok E ok lvl r st v d"
  by (rule replacing_deploy_ok [where sl = sl]) (auto simp: at_rest_def no_commit_def)

lemma live_backup:
  assumes "live E ok lvl r st d" "slots st sl \<noteq> None" "removable n"
  shows "live E ok lvl r st (set_node (Backup sl) n d)"
proof -
  have "slot_live (ext_of E) r st (set_node (Backup sl) n d) sl'" for sl'
  proof (cases "sl' = sl")
    case True
    have "slot_live (ext_of E) r st d sl" using assms(1) by (simp add: live_def)
    then show ?thesis using assms(2,3) True by (auto simp: slot_live_def split: option.splits)
  next
    case False
    then show ?thesis using assms(1) by (simp add: live_def)
  qed
  then show ?thesis using assms(1) by (simp add: live_def)
qed

lemma live_empty: "live E ok lvl r st d \<Longrightarrow> slots st sl = None \<Longrightarrow> nodes d (Backup sl) = None \<and> nodes d (SlotDir sl) = None"
  unfolding live_def slot_live_def by (metis option.simps(4))

lemma live_slot: "live E ok lvl r st d \<Longrightarrow> slots st sl = Some w \<Longrightarrow> good (ext_of E) r (highest_release_sequence st) (nodes d (SlotDir sl)) w"
  unfolding live_def slot_live_def by (metis option.simps(5))

lemma live_set_aside:
  assumes "live E ok lvl r st d" "slots st sl = Some w"
  shows "at_rest E ok lvl r st sl (set_node (Backup sl) (nodes d (SlotDir sl)) (set_node (SlotDir sl) None d))"
proof -
  have "good (ext_of E) r (highest_release_sequence st) (nodes d (SlotDir sl)) w" using live_slot [OF assms] .
  moreover have "slot_live (ext_of E) r st d sl'" for sl' using assms(1) by (simp add: live_def)
  ultimately show ?thesis using assms good_removable
    by (simp add: at_rest_def replacing_def live_def)
qed

lemma set_aside_trip:
  "dtrip False V (deploy_ok E ok lvl r st v)
     (\<lambda>d. live E ok lvl r st d \<and> (\<exists>es. nodes d (Candidate sl) = Some (Directory es))) (set_aside E sl)
     (\<lambda>_ d. at_rest E ok lvl r st sl d \<and> nodes d (SlotDir sl) = None \<and> (\<exists>es. nodes d (Candidate sl) = Some (Directory es)))
     (\<lambda>_ _. True)"
  (is "dtrip False V ?K ?A _ ?B ?C")
proof (cases "slots st sl")
  case None
  have "dtrip False V ?K (\<lambda>d. ?A d \<and> nodes d (Backup sl) = None \<and> nodes d (SlotDir sl) = None) (set_aside E sl) ?B ?C"
    unfolding set_aside_def
  proof (rule dtrip_bind [where M = "\<lambda>_ d. ?A d \<and> nodes d (Backup sl) = None \<and> nodes d (SlotDir sl) = None"])
    show "dtrip False V ?K (\<lambda>d. ?A d \<and> nodes d (Backup sl) = None \<and> nodes d (SlotDir sl) = None)
        (rmtree_ignore_p E (Backup sl)) (\<lambda>_ d. ?A d \<and> nodes d (Backup sl) = None \<and> nodes d (SlotDir sl) = None) ?C"
      by (rule dtrip_rmtree_ignore) auto
    show "dtrip False V ?K (\<lambda>d. ?A d \<and> nodes d (Backup sl) = None \<and> nodes d (SlotDir sl) = None)
      (bind_p (node_p (SlotDir sl)) (\<lambda>final.
       if path_exists final \<or> is_symlink final then
         if is_symlink final \<or> \<not> is_dir final
         then raise_e (DE ''inactive slot path is not a regular directory'')
         else rename_p (SlotDir sl) (Backup sl)
       else ret ())) ?B ?C" for u
      by (rule dtrip_node_known [where n = None], simp, simp, rule dtrip_ret)
         (auto simp: at_rest_def replacing_def live_def None)
  qed
  then show ?thesis by (rule dtrip_pre) (auto dest: live_empty [OF _ None])
next
  case (Some w)
  show ?thesis
    unfolding set_aside_def
  proof (rule dtrip_bind [where M = "\<lambda>_. ?A"])
    show "dtrip False V ?K ?A (rmtree_ignore_p E (Backup sl)) (\<lambda>_. ?A) ?C"
      by (rule dtrip_rmtree_ignore)
         (auto simp: Some intro: live_backup live_deploy_ok [OF live_backup])
    have mv: "dtrip False V ?K ?A (rename_p (SlotDir sl) (Backup sl)) ?B ?C"
    proof (rule dtrip_rename)
      fix d assume a: "?A d"
      have "at_rest E ok lvl r st sl (set_node (Backup sl) (nodes d (SlotDir sl)) (set_node (SlotDir sl) None d))"
        using live_set_aside [OF _ Some] a by blast
      then show "?K (set_node (Backup sl) (nodes d (SlotDir sl)) (set_node (SlotDir sl) None d)) \<and>
          ?B () (set_node (Backup sl) (nodes d (SlotDir sl)) (set_node (SlotDir sl) None d))"
        using a at_rest_deploy_ok by auto
    qed simp_all
    have fail: "dtrip False V ?K ?A (raise_e e) ?B ?C" for e by (rule dtrip_raise) simp
    show "dtrip False V ?K ?A
      (bind_p (node_p (SlotDir sl)) (\<lambda>final.
       if path_exists final \<or> is_symlink final then
         if is_symlink final \<or> \<not> is_dir final
         then raise_e (DE ''inactive slot path is not a regular directory'')
         else rename_p (SlotDir sl) (Backup sl)
       else ret ())) ?B ?C" for u
    proof (rule dtrip_node_bind, rule dtrip_fact)
      fix n
      show "path_exists n" if "?A d \<and> nodes d (SlotDir sl) = n" for d
        using that live_slot [OF _ Some] good_some by fastforce
      assume "path_exists n"
      then show "dtrip False V ?K (\<lambda>d. ?A d \<and> nodes d (SlotDir sl) = n)
       (if path_exists n \<or> is_symlink n then
         if is_symlink n \<or> \<not> is_dir n
         then raise_e (DE ''inactive slot path is not a regular directory'')
         else rename_p (SlotDir sl) (Backup sl)
        else ret ()) ?B ?C"
        by (auto intro: dtrip_pre [OF mv] dtrip_pre [OF fail])
    qed
  qed
qed

lemma artifact_verified:
  assumes "verified_slot_artifact E r n v = Inr (raw, m)" "inspect (ext_of E) r v = Inr (dir, c)"
  shows "verified_directory_manifest (ext_of E) r n v = Inr m" "release_sequence m = release_sequence c"
  using assms manifest_eq_fields(1)
  by (auto simp: verified_slot_artifact_def verified_directory_manifest_def canonical_manifest_def
      rbind_Inr_iff verify_directory_def Let_def)

lemma reg_like_artifact: "reg_like r r' \<Longrightarrow> verified_slot_artifact E r' n v = verified_slot_artifact E r n v"
  by (simp add: verified_slot_artifact_def canonical_manifest_def reg_like_inspect) (simp add: reg_like_def)

lemma base_unanchored: "anchor_of E = None \<Longrightarrow> base E ok lvl r st f d \<Longrightarrow> base E ok lvl r st g d"
  by (simp add: base_def floor_is_def)

text \<open>The renamed candidate, verified as the release.\<close>

definition placed :: "('a, 'r) env \<Rightarrow> registry \<Rightarrow> slot \<Rightarrow> pystr \<Rightarrow> int \<Rightarrow> 'a durable \<Rightarrow> bool" where
  "placed E r sl v f d \<longleftrightarrow>
     (\<exists>m. verified_directory_manifest (ext_of E) r (nodes d (SlotDir sl)) v = Inr m \<and> release_sequence m = f)"

definition committed ::
  "('a, 'r) env \<Rightarrow> ('a \<Rightarrow> bool) \<Rightarrow> ('a \<Rightarrow> int) \<Rightarrow> registry \<Rightarrow> deployment_state \<Rightarrow> 'a durable \<Rightarrow> bool" where
  "committed E ok lvl r st d \<longleftrightarrow>
     base E ok lvl r st (highest_release_sequence st) d \<and> (\<forall>sl. slot_live (ext_of E) r st d sl)"

lemma committed_live: "committed E ok lvl r st d \<Longrightarrow> live E ok lvl r st (set_node PendingFile None d)"
  by (simp add: committed_def live_def)

lemma replacing_commit:
  assumes rep: "replacing E ok lvl r st sl f d" and p: "placed E r sl v s d"
    and le: "s \<le> g" "highest_release_sequence st \<le> g" and fg: "anchor_of E \<noteq> None \<Longrightarrow> f = g"
    and bs: "state_to_bytes (activated st sl v g) = Inr bs"
  shows "committed E ok lvl r (activated st sl v g) (set_node StateFile (Some (RegFile bs)) d)"
proof -
  have "base E ok lvl r st g d"
    using rep fg base_unanchored [of E ok lvl r st f d g] unfolding replacing_def
    by (cases "anchor_of E = None") simp_all
  moreover have "slot_live (ext_of E) r (activated st sl v g) d sl'" for sl'
  proof (cases "sl' = sl")
    case True
    then show ?thesis using rep p le by (auto simp: slot_live_def replacing_def placed_def good_def)
  next
    case False
    then have "slot_live (ext_of E) r st d sl'" using rep by (simp add: replacing_def)
    then show ?thesis using False le(2)
      by (auto simp: slot_live_def intro: good_mono split: option.splits)
  qed
  ultimately show ?thesis using base_state [OF _ bs] by (simp add: committed_def)
qed

lemma undo_trip:
  "dtrip False V (deploy_ok E ok lvl r st v) (at_rest E ok lvl r st sl) (undo_commit E sl e) B (\<lambda>_ _. True)"
  (is "dtrip False V ?K ?A _ _ ?C")
  unfolding undo_commit_def
proof (rule dtrip_node_bind, rule dtrip_bind [where M = "\<lambda>_. ?A"])
  fix n
  have rm: "dtrip False V ?K ?A (rmtree_ignore_p E (SlotDir sl)) (\<lambda>_. ?A) ?C"
  proof -
    have "?A (set_node (SlotDir sl) n d)" if "?A d" "removable n" for d n
      using that replacing_set(1) [of E ok lvl r st sl _ d n] by (simp add: at_rest_def)
    then show ?thesis by (intro dtrip_rmtree_ignore) (auto intro: at_rest_deploy_ok [where sl = sl])
  qed
  have id: "dtrip False V ?K ?A (ret ()) (\<lambda>_. ?A) ?C" by (rule dtrip_ret)
  show "dtrip False V ?K (\<lambda>d. ?A d \<and> nodes d (SlotDir sl) = n)
     (if path_exists n \<and> \<not> is_symlink n then rmtree_ignore_p E (SlotDir sl) else ret ()) (\<lambda>_. ?A) ?C"
    by (auto intro: dtrip_pre [OF rm] dtrip_pre [OF id])
  show "dtrip False V ?K ?A (bind_p (node_p (Backup sl)) (\<lambda>backup.
      bind_p (if path_exists backup then rename_p (Backup sl) (SlotDir sl) else ret ()) (\<lambda>_. raise_e e))) B ?C" for u
  proof (rule dtrip_node_bind, rule dtrip_bind [where M = "\<lambda>_ _. True"])
    fix m
    have mv: "dtrip False V ?K ?A (rename_p (Backup sl) (SlotDir sl)) (\<lambda>_ _. True) ?C"
    proof (rule dtrip_rename)
      fix d assume a: "?A d" and b: "nodes d (Backup sl) \<noteq> None"
      have rep: "replacing E ok lvl r st sl (highest_release_sequence st) d" and nc: "no_commit E st d"
        using a by (simp_all add: at_rest_def no_commit_def)
      obtain w where w: "slots st sl = Some w" "copy_good E r st w (Backup sl) d"
        using rep b by (cases "slots st sl") (auto simp: replacing_def)
      have "rec_clear E ok lvl r st (set_node (SlotDir sl) (nodes d (Backup sl)) (set_node (Backup sl) None d))"
        by (rule rec_clear_set(3) [OF replacing_clear [OF rep nc] slot_ok_set(4) [OF replacing_ok [OF rep] removable_simps(1) w]])
      then show "?K (set_node (SlotDir sl) (nodes d (Backup sl)) (set_node (Backup sl) None d)) \<and> True"
        unfolding deploy_ok_def by (intro conjI disjI1 rec_now_recoverable rec_clear_now TrueI)
    qed simp_all
    have id: "dtrip False V ?K ?A (ret ()) (\<lambda>_ _. True) ?C" by (rule dtrip_ret) simp
    show "dtrip False V ?K (\<lambda>d. ?A d \<and> nodes d (Backup sl) = m)
       (if path_exists m then rename_p (Backup sl) (SlotDir sl) else ret ()) (\<lambda>_ _. True) ?C"
      by (auto intro: dtrip_pre [OF mv] dtrip_pre [OF id])
  qed (simp add: dtrip_raise)
qed

text \<open>After the prefix: the journal is written, or, without an anchor, the state is.\<close>

definition prefix_done where
  "prefix_done E ok lvl r st sl v m d \<longleftrightarrow>
     (if anchor_of E \<noteq> None
      then replacing E ok lvl r st sl (highest_release_sequence st) d \<and> placed E r sl v (release_sequence m) d \<and>
        journal_is (deploy_journal st sl v (release_sequence m)) (nodes d PendingFile)
      else live E ok lvl r (new_state st m v) d)"

lemma journal_written:
  assumes "pending_storable p" "pending_to_bytes p = Inr bs"
  shows "journal_is p (Some (RegFile bs))"
  using assms by (simp add: journal_is_def)

lemma replacing_journal:
  assumes "replacing E ok lvl r st sl (highest_release_sequence st) d" "anchor_of E \<noteq> None"
    and "journal_is (deploy_journal st sl v s) (nodes d PendingFile)"
  shows "deploy_ok E ok lvl r st v d"
proof (rule replacing_deploy_ok [OF assms(1)])
  show "no_commit E st d"
    using assms(2,3) unfolding no_commit_def abandoned_def deploy_journal_def by force
qed

lemma prefix_trip:
  assumes adm: "admitted E r st v m" and sl: "sl = inactive_slot st"
    and ps: "anchor_of E \<noteq> None \<Longrightarrow> pending_storable (deploy_journal st sl v (release_sequence m))"
  shows "dtrip False V (deploy_ok E ok lvl r st v)
    (\<lambda>d. at_rest E ok lvl r st sl d \<and> nodes d (SlotDir sl) = None \<and> (\<exists>es. nodes d (Candidate sl) = Some (Directory es)))
    (commit_prefix E st sl m v) (\<lambda>_. prefix_done E ok lvl r st sl v m) (\<lambda>_. at_rest E ok lvl r st sl)"
  (is "dtrip False V ?K ?A _ ?B ?C")
  unfolding commit_prefix_def
proof (rule dtrip_bind [where M = "\<lambda>_. at_rest E ok lvl r st sl"])
  let ?R = "at_rest E ok lvl r st sl" and ?seq = "release_sequence m"
  show "dtrip False V ?K ?A (rename_p (Candidate sl) (SlotDir sl)) (\<lambda>_. ?R) ?C"
  proof (rule dtrip_rename)
    fix d assume a: "?A d"
    then obtain es where c: "nodes d (Candidate sl) = Some (Directory es)" by blast
    have "?R (set_node (SlotDir sl) (Some (Directory es)) (set_node (Candidate sl) None d))"
      using a replacing_set(1) [OF replacing_set(2), of E ok lvl r st sl _ d None "Some (Directory es)" sl]
      by (simp add: at_rest_def)
    then show "?K (set_node (SlotDir sl) (nodes d (Candidate sl)) (set_node (Candidate sl) None d)) \<and>
        ?R (set_node (SlotDir sl) (nodes d (Candidate sl)) (set_node (Candidate sl) None d))"
      using c at_rest_deploy_ok by metis
  qed auto
  obtain dir where dir: "inspect (ext_of E) r v = Inr (dir, m)" using adm by (auto simp: admitted_def)
  have like: "reg_like r (reg d)" if "?R d" for d using that by (simp add: at_rest_def replacing_def base_def)
  show "dtrip False V ?K ?R
    (bind_p (on_slot (\<lambda>r n. verified_slot_artifact E r n v) sl) (\<lambda>_.
     if anchor_of E \<noteq> None then write_pending_anchor st sl v ?seq
     else write_state (activated st sl v (max (highest_release_sequence st) ?seq)))) ?B ?C" for u
  proof (rule dtrip_bind [where M = "\<lambda>_ d. ?R d \<and> placed E r sl v ?seq d"])
    show "dtrip False V ?K ?R (on_slot (\<lambda>r n. verified_slot_artifact E r n v) sl) (\<lambda>_ d. ?R d \<and> placed E r sl v ?seq d) ?C"
      unfolding on_slot_def
    proof (rule dtrip_lift)
      fix d y assume a: "?R d" and e: "verified_slot_artifact E (reg d) (nodes d (SlotDir sl)) v = Inr y"
      have "verified_slot_artifact E (reg d) (nodes d (SlotDir sl)) v = verified_slot_artifact E r (nodes d (SlotDir sl)) v"
        by (rule reg_like_artifact [OF like [OF a]])
      then have "verified_slot_artifact E r (nodes d (SlotDir sl)) v = Inr (fst y, snd y)"
        using e by simp
      from artifact_verified [OF this dir] show "?R d \<and> placed E r sl v ?seq d"
        using a by (auto simp: placed_def)
    qed simp
    have j: "dtrip False V ?K (\<lambda>d. ?R d \<and> placed E r sl v ?seq d) (write_pending_anchor st sl v ?seq) ?B ?C"
      if an: "anchor_of E \<noteq> None"
      unfolding write_pending_anchor_def deploy_journal_def [symmetric]
    proof (rule dtrip_bind [where M = "\<lambda>bs d. (?R d \<and> placed E r sl v ?seq d) \<and>
          pending_to_bytes (deploy_journal st sl v ?seq) = Inr bs"], rule dtrip_lift_const)
      fix bs
      show "dtrip False V ?K (\<lambda>d. (?R d \<and> placed E r sl v ?seq d) \<and> pending_to_bytes (deploy_journal st sl v ?seq) = Inr bs)
          (write_p PendingFile bs) ?B ?C"
      proof (rule dtrip_write)
        fix d assume a: "(?R d \<and> placed E r sl v ?seq d) \<and> pending_to_bytes (deploy_journal st sl v ?seq) = Inr bs"
        let ?d = "set_node PendingFile (Some (RegFile bs)) d"
        have jn: "journal_is (deploy_journal st sl v ?seq) (nodes ?d PendingFile)"
          using journal_written [OF ps [OF an]] a by simp
        have rep: "replacing E ok lvl r st sl (highest_release_sequence st) ?d"
          using a by (intro replacing_set(3)) (simp add: at_rest_def)
        have "?K ?d" by (rule replacing_journal [OF rep an jn])
        then show "?K ?d \<and> ?B () ?d" using rep jn a an by (simp add: prefix_done_def placed_def)
      qed (auto simp: at_rest_def)
    qed auto
    have w: "dtrip False V ?K (\<lambda>d. ?R d \<and> placed E r sl v ?seq d)
        (write_state (activated st sl v (max (highest_release_sequence st) ?seq))) ?B ?C"
      if an: "anchor_of E = None"
    proof (rule write_state_trip)
      show "\<exists>bs. nodes d StateFile = Some (RegFile bs)" if "?R d \<and> placed E r sl v ?seq d" for d
        using that by (auto simp: at_rest_def replacing_def base_def)
      fix bs d assume a: "?R d \<and> placed E r sl v ?seq d"
        and b: "state_to_bytes (activated st sl v (max (highest_release_sequence st) ?seq)) = Inr bs"
      let ?d = "set_node StateFile (Some (RegFile bs)) d"
      have "committed E ok lvl r (new_state st m v) ?d"
        unfolding new_state_def sl [symmetric]
        by (rule replacing_commit [where f = "highest_release_sequence st" and s = ?seq])
           (use a b an in \<open>simp_all add: at_rest_def\<close>)
      then have "live E ok lvl r (new_state st m v) ?d"
        using a by (simp add: committed_def live_def at_rest_def)
      moreover from this have "recoverable E ok lvl r (new_state st m v) ?d" by (rule live_recoverable)
      ultimately show "?K ?d \<and> ?B () ?d"
        using adm an by (auto simp: deploy_ok_def prefix_done_def)
    qed auto
    show "dtrip False V ?K (\<lambda>d. ?R d \<and> placed E r sl v ?seq d)
      (if anchor_of E \<noteq> None then write_pending_anchor st sl v ?seq
       else write_state (activated st sl v (max (highest_release_sequence st) ?seq))) ?B ?C" for x
      using j w by simp
  qed
qed

lemma advance_trip:
  assumes anch: "anchored E ok lvl" and an: "anchor_of E \<noteq> None" and V: "\<And>tf rq g. V tf rq \<Longrightarrow> V g rq"
    and A: "\<And>d. A d \<Longrightarrow> ok (anchor_store d) \<and> lvl (anchor_store d) \<le> n" and n: "0 \<le> n" "n \<le> max_release_sequence"
    and B: "\<And>d a. A d \<Longrightarrow> ok a \<Longrightarrow> lvl a = n \<Longrightarrow> K (d\<lparr>anchor_store := a\<rparr>) \<and> B (d\<lparr>anchor_store := a\<rparr>)"
  shows "dtrip nf V K A (advance_anchor E n) (\<lambda>x d. x = n \<and> B d) C"
proof -
  obtain ops where ops: "anchor_of E = Some ops" using an by blast
  have ad: "dtrip nf V K A (anchor_p (anchor_advance_op ops n)) (\<lambda>v d. v = JInt n \<and> B d) (\<lambda>_ _. False)"
  proof (rule dtrip_anchor)
    fix d res a assume d: "A d" and run: "anchor_advance_op ops n (anchor_store d) = (res, a)"
    have "res = Inr (JInt n) \<and> ok a \<and> lvl a = n"
      using anchor_advances [OF anch ops, of "anchor_store d" n] A [OF d] n run by auto
    then show "K (d\<lparr>anchor_store := a\<rparr>) \<and> (case res of Inl e \<Rightarrow> False
        | Inr v \<Rightarrow> v = JInt n \<and> B (d\<lparr>anchor_store := a\<rparr>))"
      using B [OF d] by simp
  qed
  have va: "validate_anchor_floor (JInt n) = Inr n"
    using n by (simp add: validate_anchor_floor_def check_bounded_Inr)
  have lift: "dtrip nf V K B (lift_r (\<lambda>_. validate_anchor_floor (JInt n))) (\<lambda>x d. x = n \<and> B d) (\<lambda>_ _. False)"
    by (rule dtrip_lift_const) (simp_all add: va)
  have c: "dtrip nf V K A (catch_p (bind_p (anchor_p (anchor_advance_op ops n)) (\<lambda>v. lift_r (\<lambda>_. validate_anchor_floor v)))
      (\<lambda>e. raise_e (anchor_errors ''rollback anchor advance failed'' e))) (\<lambda>x d. x = n \<and> B d) C"
    by (rule dtrip_catch [where M = "\<lambda>_ _. False"], rule dtrip_known, rule ad, rule lift) (rule dtrip_false)
  have t: "dtrip nf V K B (bind_p (guard_p (\<lambda>_. n = n)
            (DE ''rollback anchor advanced to an unexpected release sequence'')) (\<lambda>_.
          bind_p (modify_p (\<lambda>s. s\<lparr>trusted_floor := Some n\<rparr>)) (\<lambda>_. ret n))) (\<lambda>x d. x = n \<and> B d) C"
  proof (rule dtrip_bind [where M = "\<lambda>_. B"])
    show "dtrip nf V K B (guard_p (\<lambda>_. n = n) (DE ''rollback anchor advanced to an unexpected release sequence'')) (\<lambda>_. B) C"
      by (rule dtrip_guard_const) simp_all
    show "dtrip nf V K B (bind_p (modify_p (\<lambda>s. s\<lparr>trusted_floor := Some n\<rparr>)) (\<lambda>_. ret n)) (\<lambda>x d. x = n \<and> B d) C" for u
      by (rule dtrip_bind [OF dtrip_set_trusted [where B = "\<lambda>_. B"]]) (use V in \<open>auto intro: dtrip_ret\<close>)
  qed
  show ?thesis unfolding advance_anchor_def ops option.case by (rule dtrip_known, rule c, rule t)
qed

lemma replacing_ahead:
  assumes rep: "replacing E ok lvl r st sl (highest_release_sequence st) d" and p: "placed E r sl v (release_sequence m) d"
    and j: "journal_is (deploy_journal st sl v (release_sequence m)) (nodes d PendingFile)"
    and adm: "admitted E r st v m" and sl: "sl = inactive_slot st" and an: "anchor_of E \<noteq> None"
    and s: "state_storable st" and a: "ok a" "lvl a = release_sequence m" "release_sequence m \<le> max_release_sequence"
  shows "rec_ahead E ok lvl r st sl v (release_sequence m) (d\<lparr>anchor_store := a\<rparr>)"
proof -
  have b: "base E ok lvl r st (release_sequence m) (d\<lparr>anchor_store := a\<rparr>)"
    using rep a by (intro base_anchor) (auto simp: replacing_def)
  have "slot_ok (ext_of E) r st (d\<lparr>anchor_store := a\<rparr>) sl'" for sl'
    using replacing_ok [OF rep] by simp
  then show ?thesis
    using b p j adm sl an s a(3) rep unfolding rec_ahead_def admitted_def placed_def replacing_def
    by (elim conjE, intro conjI) simp_all
qed

lemma suffix_trip:
  assumes anch: "anchored E ok lvl" and adm: "admitted E r st v m" and sl: "sl = inactive_slot st"
    and s: "state_storable st"
  shows "dtrip False (\<lambda>_ _. True) (deploy_ok E ok lvl r st v) (prefix_done E ok lvl r st sl v m)
    (commit_suffix E st sl m v) (\<lambda>_. live E ok lvl r (new_state st m v)) (\<lambda>_ _. True)"
  (is "dtrip False ?V ?K ?A _ ?B ?C")
  unfolding commit_suffix_def
proof (rule dtrip_bind)
  let ?new = "new_state st m v" and ?seq = "release_sequence m"
  obtain dir where dir: "inspect (ext_of E) r v = Inr (dir, m)" using adm by (auto simp: admitted_def)
  have new_ok: "?K d" if "recoverable E ok lvl r ?new d" for d
    using that adm unfolding deploy_ok_def by blast
  have in_slot: "slots ?new sl \<noteq> None" by (simp add: new_state_def sl)
  show "dtrip False ?V ?K (live E ok lvl r ?new) (rmtree_ignore_p E (Backup sl)) ?B ?C" for u
    by (rule dtrip_rmtree_ignore)
       (auto intro: live_backup [OF _ in_slot] new_ok [OF live_recoverable [OF live_backup [OF _ in_slot]]])
  show "dtrip False ?V ?K ?A
    (if anchor_of E \<noteq> None then
       bind_p (modify_p (\<lambda>s. s\<lparr>recovery_required := True\<rparr>)) (\<lambda>_.
       bind_p (advance_anchor E ?seq) (\<lambda>new_floor.
       bind_p (write_state (activated st sl v new_floor)) (\<lambda>_.
       bind_p (modify_p (\<lambda>s. s\<lparr>recovery_required := False\<rparr>)) (\<lambda>_. remove_pending_anchor))))
     else ret ()) (\<lambda>_. live E ok lvl r ?new) ?C"
  proof (cases "anchor_of E")
    case None
    have "dtrip False ?V ?K ?A (ret ()) (\<lambda>_. live E ok lvl r ?new) ?C"
      by (rule dtrip_ret) (simp add: prefix_done_def None)
    then show ?thesis by (simp add: None)
  next
    case (Some ops)
    then have an: "anchor_of E \<noteq> None" by simp
    have gt: "highest_release_sequence st < ?seq" using adm an by (simp add: admitted_def)
    have new: "?new = activated st sl v ?seq" using gt by (simp add: new_state_def sl)
    have range: "?seq \<le> max_release_sequence \<and> 0 \<le> ?seq" if "?A d" for d
    proof -
      have "journal_is (deploy_journal st sl v ?seq) (nodes d PendingFile)"
        using that an by (simp add: prefix_done_def)
      from journal_reads(2) [OF this] show ?thesis by (simp add: pending_valid_def deploy_journal_def)
    qed
    let ?M = "\<lambda>d. rec_ahead E ok lvl r st sl v ?seq d \<and> replacing E ok lvl r st sl ?seq d \<and> placed E r sl v ?seq d"
    let ?N = "\<lambda>d. committed E ok lvl r ?new d \<and> (\<exists>p. journal_is p (nodes d PendingFile))"
    have fl: "ok (anchor_store d) \<and> lvl (anchor_store d) = highest_release_sequence st" if "?A d" for d
      using that an by (simp add: prefix_done_def replacing_def base_def floor_is_def)
    have adv: "dtrip False ?V ?K ?A (advance_anchor E ?seq) (\<lambda>x d. x = ?seq \<and> ?M d) ?C"
    proof (rule dtrip_fact [where F = "?seq \<le> max_release_sequence \<and> 0 \<le> ?seq"], erule range)
      assume rg: "?seq \<le> max_release_sequence \<and> 0 \<le> ?seq"
      have step: "?K (d\<lparr>anchor_store := a\<rparr>) \<and> ?M (d\<lparr>anchor_store := a\<rparr>)" if "?A d" "ok a" "lvl a = ?seq" for d a
      proof -
        have r: "replacing E ok lvl r st sl (highest_release_sequence st) d" "placed E r sl v ?seq d"
            "journal_is (deploy_journal st sl v ?seq) (nodes d PendingFile)"
          using that(1) an by (simp_all add: prefix_done_def)
        have ah: "rec_ahead E ok lvl r st sl v ?seq (d\<lparr>anchor_store := a\<rparr>)"
          by (rule replacing_ahead [OF r adm sl an s that(2,3)]) (simp add: rg)
        moreover have "replacing E ok lvl r st sl ?seq (d\<lparr>anchor_store := a\<rparr>)"
          using r(1) that(2,3) base_anchor [of E ok lvl r st "highest_release_sequence st" d a ?seq]
          by (simp add: replacing_def cong: option.case_cong)
        moreover have "placed E r sl v ?seq (d\<lparr>anchor_store := a\<rparr>)" using r(2) by (simp add: placed_def)
        moreover have "?K (d\<lparr>anchor_store := a\<rparr>)"
          using ah new by (intro new_ok) (auto simp: recoverable_def)
        ultimately show ?thesis by blast
      qed
      show "dtrip False ?V ?K ?A (advance_anchor E ?seq) (\<lambda>x d. x = ?seq \<and> ?M d) ?C"
        by (rule advance_trip [OF anch an]) (use fl gt rg step in \<open>auto simp: less_imp_le\<close>)
    qed
    have wr: "dtrip False ?V ?K ?M (write_state (activated st sl v ?seq)) (\<lambda>_. ?N) ?C"
    proof (rule write_state_trip)
      show "\<exists>bs. nodes d StateFile = Some (RegFile bs)" if "?M d" for d
        using that by (auto simp: replacing_def base_def)
      fix bs d assume m: "?M d" and b: "state_to_bytes (activated st sl v ?seq) = Inr bs"
      let ?d = "set_node StateFile (Some (RegFile bs)) d"
      have "committed E ok lvl r ?new ?d"
        unfolding new by (rule replacing_commit [OF _ _ _ _ _ b]) (use m gt in auto)
      moreover have "\<exists>p. journal_is p (nodes ?d PendingFile)" using m by (auto simp: rec_ahead_def)
      moreover have "?K ?d"
        using m rec_ahead_commit(1) [OF _ b] unfolding new [symmetric] by (intro new_ok rec_now_recoverable) blast
      ultimately show "?K ?d \<and> ?N ?d" by blast
    qed auto
    have rm: "dtrip False ?V ?K ?N remove_pending_anchor (\<lambda>_. live E ok lvl r ?new) ?C"
      by (rule dtrip_weaken [OF remove_journal [where A = ?N and B = "\<lambda>_. live E ok lvl r ?new"]])
         (auto intro: committed_live new_ok [OF live_recoverable [OF committed_live]])
    have flag: "dtrip False ?V ?K A (modify_p (\<lambda>s. s\<lparr>recovery_required := b\<rparr>)) (\<lambda>_. A) ?C" for A b
      by (rule dtrip_set_recovery) simp
    have "dtrip False ?V ?K ?A
      (bind_p (modify_p (\<lambda>s. s\<lparr>recovery_required := True\<rparr>)) (\<lambda>_.
       bind_p (advance_anchor E ?seq) (\<lambda>new_floor.
       bind_p (write_state (activated st sl v new_floor)) (\<lambda>_.
       bind_p (modify_p (\<lambda>s. s\<lparr>recovery_required := False\<rparr>)) (\<lambda>_. remove_pending_anchor))))) (\<lambda>_. live E ok lvl r ?new) ?C"
      by (rule dtrip_bind, rule flag, rule dtrip_known, rule adv, rule dtrip_bind, rule wr, rule dtrip_bind,
          rule flag, rule rm)
    then show ?thesis by (simp add: Some)
  qed
qed

section \<open>The whole deployment\<close>

lemma deploy_trip:
  assumes anch: "anchored E ok lvl" and s: "state_storable st"
    and ps: "\<forall>m. admitted E r st v m \<longrightarrow> anchor_of E \<noteq> None \<longrightarrow>
      pending_storable (deploy_journal st (inactive_slot st) v (release_sequence m))"
  shows "dtrip False (\<lambda>_ _. True) (deploy_ok E ok lvl r st v) (live E ok lvl r st) (deploy E v b)
    (\<lambda>_ d. \<exists>m. admitted E r st v m \<and> live E ok lvl r (new_state st m v) d) (\<lambda>_ _. True)"
  (is "dtrip False ?V ?K ?A _ ?B ?C")
  unfolding deploy_def
proof (rule dtrip_locked [where M = ?A])
  show "\<exists>n. lock_acquire (nodes d LockFile) = Inr n" if "?A d" for d
    using live_base [OF that] by (auto simp: base_def)
  show "?K (set_node LockFile (Some n) d) \<and> ?A (set_node LockFile (Some n) d)"
    if "?A d" "lock_acquire (nodes d LockFile) = Inr n" for d n
    using live_lock [OF that] live_deploy_ok by blast
  have like: "reg_like r (reg d)" if "?A d" for d using live_base [OF that] by (simp add: base_def)
  let ?sl = "inactive_slot st"
  have body: "dtrip False ?V ?K ?A
    (bind_p (stage_candidate E ?sl dir) (\<lambda>_.
     bind_p (catch_p (gate E st ?sl m v) (gate_failed E st ?sl)) (\<lambda>metrics.
     bind_p (set_aside E ?sl) (\<lambda>_.
     bind_p (catch_p (commit_prefix E st ?sl m v) (undo_commit E ?sl)) (\<lambda>_.
     bind_p (commit_suffix E st ?sl m v) (\<lambda>_. ret metrics)))))) ?B ?C"
    if adm: "admitted E r st v m" for dir m
  proof (rule dtrip_bind [where M = "\<lambda>_. ?A"])
    show "dtrip False ?V ?K ?A (stage_candidate E ?sl dir) (\<lambda>_. ?A) ?C"
      by (rule dtrip_weaken [OF stage_trip]) simp_all
    have fin: "dtrip False ?V ?K (live E ok lvl r (new_state st m v)) (ret metrics) ?B ?C" for metrics
      by (rule dtrip_ret) (use adm in blast)
    show "dtrip False ?V ?K ?A
      (bind_p (catch_p (gate E st ?sl m v) (gate_failed E st ?sl)) (\<lambda>metrics.
       bind_p (set_aside E ?sl) (\<lambda>_.
       bind_p (catch_p (commit_prefix E st ?sl m v) (undo_commit E ?sl)) (\<lambda>_.
       bind_p (commit_suffix E st ?sl m v) (\<lambda>_. ret metrics))))) ?B ?C" for u
      by (rule dtrip_bind, rule dtrip_catch, rule gate_trip, erule like, rule gate_failed_trip,
          rule dtrip_bind, rule set_aside_trip, rule dtrip_bind, rule dtrip_catch,
          rule prefix_trip [OF adm refl], use ps adm in blast, rule undo_trip,
          rule dtrip_bind, rule suffix_trip [OF anch adm refl s], rule fin)
  qed
  show "dtrip False ?V ?K ?A
    (bind_p (admit E v b) (\<lambda>(registry_dir, manifest, st).
       let inactive = inactive_slot st
       in bind_p (stage_candidate E inactive registry_dir) (\<lambda>_.
          bind_p (catch_p (gate E st inactive manifest v) (gate_failed E st inactive)) (\<lambda>metrics.
          bind_p (set_aside E inactive) (\<lambda>_.
          bind_p (catch_p (commit_prefix E st inactive manifest v) (undo_commit E inactive)) (\<lambda>_.
          bind_p (commit_suffix E st inactive manifest v) (\<lambda>_. ret metrics))))))) ?B ?C"
  proof (rule dtrip_bind [OF admit_trip [OF anch s live_deploy_ok]], assumption)
    fix x show "dtrip False ?V ?K (\<lambda>d. ?A d \<and> (case x of (dir, m, st') \<Rightarrow> st' = st \<and> admitted E r st v m \<and>
         (b \<or> highest_release_sequence st < release_sequence m)))
      (case x of (registry_dir, manifest, st) \<Rightarrow>
       let inactive = inactive_slot st
       in bind_p (stage_candidate E inactive registry_dir) (\<lambda>_.
          bind_p (catch_p (gate E st inactive manifest v) (gate_failed E st inactive)) (\<lambda>metrics.
          bind_p (set_aside E inactive) (\<lambda>_.
          bind_p (catch_p (commit_prefix E st inactive manifest v) (undo_commit E inactive)) (\<lambda>_.
          bind_p (commit_suffix E st inactive manifest v) (\<lambda>_. ret metrics)))))) ?B ?C"
    proof (cases x)
      case (fields dir m st')
      show ?thesis unfolding fields prod.case Let_def
        by (rule dtrip_fact [where F = "st' = st \<and> admitted E r st v m"], blast,
            rule dtrip_pre [where A = ?A]) (auto intro: body)
    qed
  qed
qed

lemma deploy_journal_storable:
  assumes "state_valid st" "generation st < 10 ^ 19" "py_len v \<le> 255"
  shows "\<forall>m. admitted E r st v m \<longrightarrow> anchor_of E \<noteq> None \<longrightarrow>
    pending_storable (deploy_journal st (inactive_slot st) v (release_sequence m))"
proof (intro allI impI, rule pending_storable_fits)
  fix m assume adm: "admitted E r st v m" "anchor_of E \<noteq> None"
  obtain dir where i: "inspect (ext_of E) r v = Inr (dir, m)" using adm by (auto simp: admitted_def)
  have "semver_match v" "manifest_valid (ext_of E) m"
    using i verify_directory_facts(2) by (auto simp: inspect_Inr)
  then show "pending_valid (deploy_journal st (inactive_slot st) v (release_sequence m))"
    using assms adm manifest_valid_parts(10) [of "ext_of E" m]
    by (auto simp: pending_valid_def deploy_journal_def admitted_def state_valid_def)
qed (use assms in \<open>simp_all add: deploy_journal_def\<close>)

text \<open>C1: a deployment is crash-consistent. From a live deployer, under any plan of failing
  steps and any in-memory floor, every durable state the deployment passes through, which is
  every state that losing power can leave, is recoverable: to the state before, to that state
  marked as failed, or to the state with the release in the inactive slot. And a deployment
  that returns ends in the last of these, live.
\<close>

theorem deploy_crash_consistent:
  assumes "anchored E ok lvl" "live E ok lvl r st (dur s)" "state_fits st" "py_len v \<le> 255"
    and "history s = []" "deploy E v allow_downgrade s = (res, t)"
  shows "(\<forall>d \<in> set (history t).
      recoverable E ok lvl r st d \<or> (\<exists>e. recoverable E ok lvl r (failed_state st e) d) \<or>
      (\<exists>m. admitted E r st v m \<and> recoverable E ok lvl r (new_state st m v) d)) \<and>
    (\<forall>x. res = Inr x \<longrightarrow> (\<exists>m. admitted E r st v m \<and> live E ok lvl r (new_state st m v) (dur t)))"
proof -
  have v: "state_valid st" using base_valid [OF live_base [OF assms(2)]] .
  have g: "generation st < 10 ^ 19" using assms(3) by (simp add: state_fits_def)
  note tr = deploy_trip [OF assms(1) state_storable_fits [OF v assms(3)] deploy_journal_storable [OF v g assms(4)],
      unfolded dtrip_def, where b = allow_downgrade]
  have p: "on_disk False (\<lambda>_ _. True) (live E ok lvl r st) s" using assms(2) by (simp add: on_disk_def)
  have "deploy_ok E ok lvl r st v d" if "d \<in> set (history t)" for d
    using chl_crash [OF tr p assms(6) that] assms(5) by simp
  moreover have "\<exists>m. admitted E r st v m \<and> live E ok lvl r (new_state st m v) (dur t)"
    if "res = Inr x" for x
    using chlD(2) [OF tr p assms(6)] that by (auto simp: on_disk_def)
  ultimately show ?thesis unfolding deploy_ok_def by blast
qed

definition restarts_as :: "('a, 'r) env \<Rightarrow> 'a durable \<Rightarrow> deployment_state \<Rightarrow> bool" where
  "restarts_as E d st \<longleftrightarrow>
     (case last_error st of None \<Rightarrow> fst (deployer_init E (at_start d)) = Inr st
      | Some e \<Rightarrow> utf8_ok e \<longrightarrow> fst (deployer_init E (at_start d)) = Inr st)"

lemma recoverable_valid: "recoverable E ok lvl r st d \<Longrightarrow> state_valid st"
  unfolding recoverable_def rec_now_def using base_valid rec_ahead_valid by blast

lemma recoverable_restarts:
  assumes "anchored E ok lvl" "1024 \<le> max_model_bytes E" "recoverable E ok lvl r st d"
    and "generation st < 10 ^ 19" "\<And>sl v. slots st sl = Some v \<Longrightarrow> py_len v \<le> 255"
  shows "restarts_as E d st"
proof -
  have "fst (deployer_init E (at_start d)) = Inr st" if "\<And>e. last_error st = Some e \<Longrightarrow> utf8_ok e"
  proof -
    have s: "state_storable st"
      using state_storable_fits [OF recoverable_valid [OF assms(3)]] assms(4,5) that by (simp add: state_fits_def)
    have p: "on_disk True (\<lambda>_ _. True) (recoverable E ok lvl r st) (at_start d)"
      using assms(3) by (simp add: on_disk_def at_start_def)
    obtain res t where run: "deployer_init E (at_start d) = (res, t)" by (cases "deployer_init E (at_start d)")
    show ?thesis using chlD(2) [OF init_trip [OF assms(1,2) s] p run] run
      by (cases res) (auto simp: on_disk_def)
  qed
  then show ?thesis by (auto simp: restarts_as_def split: option.splits)
qed


section \<open>A concrete deployment\<close>

definition sample_rest :: "memory_anchor durable" where
  "sample_rest =
     \<lparr>nodes = (\<lambda>_. None)(RootDir := Some (Directory []), SlotsRoot := Some (Directory []),
        StateFile := Some (RegFile (bytes_of (state_to_bytes initial_state)))),
      reg = sample_store, anchor_store = \<lparr>anchor_value = - 1\<rparr>\<rparr>"

lemma sample_rest_live: "live sample_env memory_ok anchor_value sample_store initial_state sample_rest"
  using state_to_bytes_ok [OF initial_ok(1) state_storable_fits [OF initial_ok]]
  by (simp add: live_def base_def sample_rest_def bytes_of_def floor_is_def memory_ok_def reg_like_def
      sample_store_def sample_registry_def lock_acquire_def max_release_sequence_def slot_live_def initial_state_def)

abbreviation sample_run where
  "sample_run \<equiv> deploy sample_env ''1.0.0'' False (at_start sample_rest)"

theorem deploy_crash_consistent_witness:
  "list_all (deploy_ok sample_env memory_ok anchor_value sample_store initial_state ''1.0.0'') (history (snd sample_run))"
  using deploy_crash_consistent [OF sample_anchored _ initial_ok(2), of sample_store "at_start sample_rest" "''1.0.0''"
      False "fst sample_run" "snd sample_run"] sample_rest_live
  by (simp add: at_start_def sample_py_len list_all_iff deploy_ok_def)


end
