(* ===== verification/DeployProps.thy ===== *)
theory DeployProps
  imports DeployCrash
begin

text \<open>
  What the deployer promises beyond crash consistency: it refuses releases that are not newer,
  rolling back swaps the slots and keeps the floor, and both operations refine an abstract
  manager of a current and a previous version. One journal, however, blocks startup.
\<close>

section \<open>Anti-rollback\<close>

text \<open>C5: no rollback through deployment. A release whose sequence is not above the floor is
  refused, with an anchor whatever the caller allows, and without one unless the caller
  allows a downgrade; and at every moment of the refused call the disk is live in the same
  deployment state.
\<close>

theorem deploy_refuses_old:
  assumes "anchored E ok lvl" "live E ok lvl r st (dur s)" "state_fits st" "history s = []"
    and "inspect (ext_of E) r v = Inr (dir, m)" "release_sequence m \<le> highest_release_sequence st"
    and "anchor_of E \<noteq> None \<or> \<not> allow_downgrade"
  shows "(\<exists>e. fst (deploy E v allow_downgrade s) = Inl e) \<and>
    (\<forall>d \<in> set (history (snd (deploy E v allow_downgrade s))). live E ok lvl r st d)"
proof -
  let ?A = "live E ok lvl r st" and ?V = "\<lambda>_ _. True"
  have st: "state_storable st" using state_storable_fits [OF base_valid [OF live_base [OF assms(2)]] assms(3)] .
  have adm: "dtrip False ?V ?A ?A (admit E v allow_downgrade) (\<lambda>_ _. False) (\<lambda>_ _. True)"
    by (rule dtrip_weaken [OF admit_trip [OF assms(1) st]])
       (use assms(5-7) in \<open>auto simp: admitted_def split: prod.splits\<close>)
  have "dtrip False ?V ?A ?A (deploy E v allow_downgrade) (\<lambda>_ _. False) (\<lambda>_ _. True)"
    unfolding deploy_def
  proof (rule dtrip_locked [where M = ?A])
    show "\<exists>n. lock_acquire (nodes d LockFile) = Inr n" if "?A d" for d
      using live_base [OF that] by (auto simp: base_def)
    show "?A (set_node LockFile (Some n) d) \<and> ?A (set_node LockFile (Some n) d)"
      if "?A d" "lock_acquire (nodes d LockFile) = Inr n" for d n using live_lock [OF that] by simp
  qed (rule dtrip_bind [OF adm], rule dtrip_false)
  note tr = this [unfolded dtrip_def]
  have p: "on_disk False ?V ?A s" using assms(2) by (simp add: on_disk_def)
  obtain res t where run: "deploy E v allow_downgrade s = (res, t)" by (cases "deploy E v allow_downgrade s")
  show ?thesis using chlD(2) [OF tr p run] chl_crash [OF tr p run] assms(4) run
    by (cases res) (auto simp: on_disk_def)
qed

text \<open>A disk at rest with release 1.0.0 in both slots, slot A active.\<close>

definition sample_two :: deployment_state where
  "sample_two =
     \<lparr>generation = 7, active_slot = Some SlotA, previous_slot = Some SlotB, slots = (\<lambda>_. Some ''1.0.0''),
      highest_release_sequence = 4, status = Status_ACTIVE, last_error = None\<rparr>"

definition sample_active :: "memory_anchor durable" where
  "sample_active =
     \<lparr>nodes = (\<lambda>_. None)(RootDir := Some (Directory []), SlotsRoot := Some (Directory []),
        StateFile := Some (RegFile (bytes_of (state_to_bytes sample_two))),
        SlotDir SlotA := Some (Directory sample_files), SlotDir SlotB := Some (Directory sample_files)),
      reg = sample_store, anchor_store = \<lparr>anchor_value = 4\<rparr>\<rparr>"

lemma sample_two_ok: "state_valid sample_two" "state_fits sample_two"
  using sample_semver
  by (auto simp: sample_two_def state_valid_def state_fits_def max_release_sequence_def sample_py_len)
     (metis slot.exhaust)

lemma sample_good: "good sample_ext sample_store 4 (Some (Directory sample_files)) ''1.0.0''"
  using sample_slot_verified sample_sequence by (simp add: good_def)

lemma sample_active_live: "live sample_env memory_ok anchor_value sample_store sample_two sample_active"
proof -
  have "base sample_env memory_ok anchor_value sample_store sample_two 4 sample_active"
    using state_to_bytes_ok [OF sample_two_ok(1) state_storable_fits [OF sample_two_ok]]
    by (simp add: base_def sample_active_def bytes_of_def floor_is_def memory_ok_def reg_like_def
        sample_store_def sample_registry_def lock_acquire_def max_release_sequence_def)
  moreover have "slot_live sample_ext sample_store sample_two sample_active sl" for sl
    using sample_good by (cases sl) (simp_all add: slot_live_def sample_two_def sample_active_def)
  ultimately show ?thesis
    by (simp add: live_def) (simp add: sample_env_def sample_two_def sample_active_def)
qed

theorem deploy_refuses_old_witness:
  "\<exists>e. fst (deploy sample_env ''1.0.0'' True (at_start sample_active)) = Inl e"
proof -
  have i: "inspect (ext_of sample_env) sample_store ''1.0.0'' = Inr (Some (Directory sample_files), canon_manifest sample_manifest)"
    using sample_inspect by (simp add: sample_env_def)
  show ?thesis
    using deploy_refuses_old [OF sample_anchored _ sample_two_ok(2) _ i, of "at_start sample_active" True]
      sample_active_live sample_sequence
    by (simp add: at_start_def sample_two_def sample_env_def)
qed

section \<open>Rolling back\<close>

lemma rolled_live:
  assumes "live E ok lvl r st d" "state_to_bytes (rolled_back st p) = Inr bs"
  shows "live E ok lvl r (rolled_back st p) (set_node StateFile (Some (RegFile bs)) d)"
proof -
  have "slot_live (ext_of E) r (rolled_back st p) d sl" for sl
    using assms(1) by (simp add: live_def slot_live_def rolled_back_def cong: option.case_cong)
  moreover have "base E ok lvl r (rolled_back st p) (highest_release_sequence (rolled_back st p))
      (set_node StateFile (Some (RegFile bs)) d)"
    using base_state [OF live_base [OF assms(1)] assms(2)] by (simp add: rolled_back_def)
  ultimately show ?thesis using assms(1) by (simp add: live_def)
qed

lemma rollback_trip:
  assumes anch: "anchored E ok lvl" and s: "state_storable st"
  shows "dtrip False (\<lambda>_ _. True)
    (\<lambda>d. live E ok lvl r st d \<or> (\<exists>p. previous_slot st = Some p \<and> live E ok lvl r (rolled_back st p) d))
    (live E ok lvl r st) (rollback E)
    (\<lambda>b d. if b then \<exists>p. previous_slot st = Some p \<and> live E ok lvl r (rolled_back st p) d
           else live E ok lvl r st d) (\<lambda>_ _. True)"
  (is "dtrip False ?V ?K ?A _ ?B ?C")
  unfolding rollback_def
proof (rule dtrip_locked [where M = ?A])
  show "\<exists>n. lock_acquire (nodes d LockFile) = Inr n" if "?A d" for d
    using live_base [OF that] by (auto simp: base_def)
  show "?K (set_node LockFile (Some n) d) \<and> ?A (set_node LockFile (Some n) d)"
    if "?A d" "lock_acquire (nodes d LockFile) = Inr n" for d n using live_lock [OF that] by simp
  have rd: "dtrip False ?V ?K ?A (read_state E True) (\<lambda>s d. s = st \<and> ?A d) ?C"
  proof (rule read_state_validated)
    show "state_of_node (nodes d StateFile) = Inr st" if "?A d" for d
      using base_reads [OF live_base [OF that] s] .
    show "dtrip False ?V ?K ?A (validate_state_anchor E st) (\<lambda>_. ?A) ?C"
      by (rule validate_any_trip [OF anch, where f = "highest_release_sequence st"])
         (auto simp: live_anchor dest: live_base simp: base_def)
  qed
  have no: "dtrip False ?V ?K ?A (ret False) ?B ?C" by (rule dtrip_ret) simp
  have load: "dtrip False ?V ?K ?A (on_slot F p) (\<lambda>_. ?A) ?C" for F :: "registry \<Rightarrow> fsnode option \<Rightarrow> 'b res" and p
    unfolding on_slot_def by (rule dtrip_lift) simp_all
  have wr: "dtrip False ?V ?K ?A (bind_p (write_state (rolled_back st p)) (\<lambda>_. ret True)) ?B ?C"
    if "previous_slot st = Some p" for p
  proof (rule dtrip_bind [where M = "\<lambda>_. live E ok lvl r (rolled_back st p)"], rule write_state_trip)
    show "\<exists>bs. nodes d StateFile = Some (RegFile bs)" if "?A d" for d
      using live_base [OF that] by (auto simp: base_def)
    show "?K (set_node StateFile (Some (RegFile bs)) d) \<and> live E ok lvl r (rolled_back st p) (set_node StateFile (Some (RegFile bs)) d)"
      if "?A d" "state_to_bytes (rolled_back st p) = Inr bs" for d bs
      using rolled_live [OF that] \<open>previous_slot st = Some p\<close> by blast
    show "dtrip False ?V ?K (live E ok lvl r (rolled_back st p)) (ret True) ?B ?C" for u
      by (rule dtrip_ret) (use that in simp)
  qed simp_all
  show "dtrip False ?V ?K ?A
    (bind_p (read_state E True) (\<lambda>st. case previous_slot st of None \<Rightarrow> ret False
       | Some p \<Rightarrow> (case slots st p of None \<Rightarrow> ret False
          | Some v \<Rightarrow> bind_p (on_slot (\<lambda>r n. verified_slot_runtime E r n v) p) (\<lambda>_.
                bind_p (write_state (rolled_back st p)) (\<lambda>_. ret True))))) ?B ?C"
  proof (rule dtrip_known [OF rd])
    show "dtrip False ?V ?K ?A (case previous_slot st of None \<Rightarrow> ret False
       | Some p \<Rightarrow> (case slots st p of None \<Rightarrow> ret False
          | Some v \<Rightarrow> bind_p (on_slot (\<lambda>r n. verified_slot_runtime E r n v) p) (\<lambda>_.
                bind_p (write_state (rolled_back st p)) (\<lambda>_. ret True)))) ?B ?C"
    proof (cases "previous_slot st")
      case None
      show ?thesis unfolding None option.case using no unfolding None .
    next
      case (Some p)
      show ?thesis
      proof (cases "slots st p")
        case None
        show ?thesis unfolding Some None option.case using no unfolding Some .
      next
        case v: (Some v)
        show ?thesis unfolding Some v option.case
          using dtrip_bind [OF load wr [OF Some]] unfolding Some .
      qed
    qed
  qed
qed

text \<open>Rolling back. \<^verbatim>\<open>rollback\<close> exchanges the active and the previous slot and keeps the
  versions and the anti-rollback floor; it returns false and changes nothing when there is no
  previous slot. At every moment the disk is live in the state before or in the exchanged one,
  so there is nothing to recover after a crash.
\<close>

theorem rollback_exchanges:
  assumes "anchored E ok lvl" "live E ok lvl r st (dur s)" "state_fits st" "history s = []"
    and "rollback E s = (res, t)"
  shows "(\<forall>d \<in> set (history t). live E ok lvl r st d \<or>
      (\<exists>p. previous_slot st = Some p \<and> live E ok lvl r (rolled_back st p) d)) \<and>
    (res = Inr True \<longrightarrow> (\<exists>p. previous_slot st = Some p \<and> live E ok lvl r (rolled_back st p) (dur t) \<and>
      active_slot (rolled_back st p) = previous_slot st \<and> previous_slot (rolled_back st p) = active_slot st \<and>
      slots (rolled_back st p) = slots st \<and>
      highest_release_sequence (rolled_back st p) = highest_release_sequence st)) \<and>
    (res = Inr False \<longrightarrow> live E ok lvl r st (dur t))"
proof -
  have st: "state_storable st" using state_storable_fits [OF base_valid [OF live_base [OF assms(2)]] assms(3)] .
  note tr = rollback_trip [OF assms(1) st, unfolded dtrip_def]
  have p: "on_disk False (\<lambda>_ _. True) (live E ok lvl r st) s" using assms(2) by (simp add: on_disk_def)
  show ?thesis
    using chlD(2) [OF tr p assms(5)] chl_crash [OF tr p assms(5)] assms(4)
    by (cases res) (auto simp: on_disk_def rolled_back_def split: if_splits)
qed

theorem rollback_exchanges_witness:
  "list_all (\<lambda>d. live sample_env memory_ok anchor_value sample_store sample_two d \<or>
      live sample_env memory_ok anchor_value sample_store (rolled_back sample_two SlotB) d)
    (history (snd (rollback sample_env (at_start sample_active))))"
  using rollback_exchanges [OF sample_anchored _ sample_two_ok(2), of sample_store "at_start sample_active"
      "fst (rollback sample_env (at_start sample_active))" "snd (rollback sample_env (at_start sample_active))"]
    sample_active_live
  by (auto simp: at_start_def list_all_iff sample_two_def)

section \<open>The abstract manager\<close>

text \<open>
  What a client sees: the version in use, the one to go back to, and the floor. \<open>lookup\<close> is the
  registry, \<open>strict\<close> says that an external anchor is configured.
\<close>

record ab_state =
  current_version :: "pystr option"
  former_version :: "pystr option"
  version_floor :: int

datatype ab_op = Op_deploy pystr bool | Op_rollback

inductive ab_step ::
  "(pystr \<Rightarrow> artifact_manifest option) \<Rightarrow> bool \<Rightarrow> ab_state \<Rightarrow> ab_op \<Rightarrow> ab_state \<Rightarrow> bool"
  for lookup :: "pystr \<Rightarrow> artifact_manifest option" and strict :: bool where
  ab_deploy: "lookup v = Some m \<Longrightarrow> (strict \<Longrightarrow> version_floor a < release_sequence m) \<Longrightarrow>
    ab_step lookup strict a (Op_deploy v b)
      \<lparr>current_version = Some v, former_version = current_version a,
       version_floor = max (version_floor a) (release_sequence m)\<rparr>"
| ab_rollback: "former_version a = Some v \<Longrightarrow>
    ab_step lookup strict a Op_rollback
      \<lparr>current_version = Some v, former_version = current_version a, version_floor = version_floor a\<rparr>"

inductive_cases ab_stepE: "ab_step lookup strict a op a'"

lemma ab_floor: "ab_step lookup strict a op a' \<Longrightarrow> version_floor a \<le> version_floor a'"
  by (elim ab_stepE) auto

definition abs_state :: "deployment_state \<Rightarrow> ab_state" where
  "abs_state st =
     \<lparr>current_version = Option.bind (active_slot st) (slots st),
      former_version = Option.bind (previous_slot st) (slots st),
      version_floor = highest_release_sequence st\<rparr>"

definition run_op :: "('a, 'r) env \<Rightarrow> ab_op \<Rightarrow> ('a deployer, bool) prog" where
  "run_op E op =
     (case op of Op_deploy v b \<Rightarrow> bind_p (deploy E v b) (\<lambda>_. ret True) | Op_rollback \<Rightarrow> rollback E)"

lemma abs_failed: "abs_state (failed_state st e) = abs_state st"
  by (simp add: abs_state_def failed_state_def)

lemma abs_new:
  assumes "state_valid st" "admitted E r st v m"
  shows "ab_step (reg_find (ext_of E) r) (anchor_of E \<noteq> None) (abs_state st) (Op_deploy v b) (abs_state (new_state st m v))"
proof -
  have f: "reg_find (ext_of E) r v = Some m" using assms(2) by (auto simp: admitted_def reg_find_def)
  have "abs_state (new_state st m v) =
      \<lparr>current_version = Some v, former_version = current_version (abs_state st),
       version_floor = max (version_floor (abs_state st)) (release_sequence m)\<rparr>"
    using inactive_neq [of st] by (cases "active_slot st") (auto simp: abs_state_def new_state_def)
  then show ?thesis
    using ab_deploy [of "reg_find (ext_of E) r" v m "anchor_of E \<noteq> None" "abs_state st" b] f assms(2)
    by (simp add: admitted_def abs_state_def)
qed

lemma abs_rolled:
  assumes "state_valid st" "previous_slot st = Some p"
  shows "ab_step lookup strict (abs_state st) Op_rollback (abs_state (rolled_back st p))"
proof -
  obtain v where v: "slots st p = Some v" using assms by (auto simp: state_valid_def)
  show ?thesis
    using ab_rollback [of "abs_state st" v lookup strict] v assms(2)
    by (simp add: abs_state_def rolled_back_def)
qed

lemma run_op_trip:
  assumes "anchored E ok lvl" "state_valid st" "state_fits st"
    and "\<And>v b. op = Op_deploy v b \<Longrightarrow> py_len v \<le> 255"
  shows "dtrip False (\<lambda>_ _. True)
    (\<lambda>d. \<exists>st'. recoverable E ok lvl r st' d \<and> (abs_state st' = abs_state st \<or>
       ab_step (reg_find (ext_of E) r) (anchor_of E \<noteq> None) (abs_state st) op (abs_state st')))
    (live E ok lvl r st) (run_op E op)
    (\<lambda>b d. if b then \<exists>st'. live E ok lvl r st' d \<and>
         ab_step (reg_find (ext_of E) r) (anchor_of E \<noteq> None) (abs_state st) op (abs_state st')
       else live E ok lvl r st d) (\<lambda>_ _. True)"
  (is "dtrip _ _ ?K _ _ ?B ?C")
proof (cases op)
  case (Op_deploy v b)
  have g: "generation st < 10 ^ 19" using assms(3) by (simp add: state_fits_def)
  have d: "dtrip False (\<lambda>_ _. True) ?K (live E ok lvl r st) (deploy E v b)
      (\<lambda>_ d. \<exists>m. admitted E r st v m \<and> live E ok lvl r (new_state st m v) d) ?C"
    by (rule dtrip_crash_weaken [OF deploy_trip [OF assms(1) state_storable_fits [OF assms(2,3)]
          deploy_journal_storable [OF assms(2) g assms(4) [OF Op_deploy]]]])
       (use abs_failed abs_new [OF assms(2), of E r v _ b] Op_deploy in \<open>auto simp: deploy_ok_def\<close>)
  show ?thesis unfolding run_op_def Op_deploy ab_op.case
    by (rule dtrip_bind, rule d [unfolded Op_deploy], rule dtrip_ret)
       (use abs_new [OF assms(2), of E r v _ b] in auto)
next
  case Op_rollback
  show ?thesis unfolding run_op_def Op_rollback ab_op.case
    by (rule dtrip_crash_weaken, rule dtrip_weaken [OF rollback_trip [OF assms(1) state_storable_fits [OF assms(2,3)]]])
       (use abs_rolled [OF assms(2)] in \<open>auto intro: live_recoverable split: if_splits\<close>)
qed

text \<open>C4: the deployer refines the abstract manager, atomically. An operation that succeeds is one
  abstract step between live disks. And whatever moment the power fails at, under any plan of
  failing steps, the disk is recoverable to a state that is abstractly the one before or the
  one after that step: an operation takes effect completely or not at all, and the floor never
  falls.
\<close>

theorem deployer_refines:
  assumes "anchored E ok lvl" "live E ok lvl r st (dur s)" "state_fits st" "history s = []"
    and "\<And>v b. op = Op_deploy v b \<Longrightarrow> py_len v \<le> 255" and "run_op E op s = (res, t)"
  shows "(\<forall>d \<in> set (history t). \<exists>st'. recoverable E ok lvl r st' d \<and>
      highest_release_sequence st \<le> highest_release_sequence st' \<and>
      (abs_state st' = abs_state st \<or>
       ab_step (reg_find (ext_of E) r) (anchor_of E \<noteq> None) (abs_state st) op (abs_state st'))) \<and>
    (res = Inr True \<longrightarrow> (\<exists>st'. live E ok lvl r st' (dur t) \<and>
       ab_step (reg_find (ext_of E) r) (anchor_of E \<noteq> None) (abs_state st) op (abs_state st')))"
proof -
  note tr = run_op_trip [OF assms(1) base_valid [OF live_base [OF assms(2)]] assms(3,5), unfolded dtrip_def]
  have p: "on_disk False (\<lambda>_ _. True) (live E ok lvl r st) s" using assms(2) by (simp add: on_disk_def)
  have f: "highest_release_sequence st \<le> highest_release_sequence st'"
    if "abs_state st' = abs_state st \<or> ab_step lookup strict (abs_state st) op (abs_state st')" for st' lookup strict
    using that ab_floor [of lookup strict "abs_state st" op "abs_state st'"] by (auto simp: abs_state_def)
  have "\<exists>st'. recoverable E ok lvl r st' d \<and> (abs_state st' = abs_state st \<or>
       ab_step (reg_find (ext_of E) r) (anchor_of E \<noteq> None) (abs_state st) op (abs_state st'))"
    if "d \<in> set (history t)" for d
    using chl_crash [OF tr p assms(6) that] assms(4) by simp
  moreover have "\<exists>st'. live E ok lvl r st' (dur t) \<and>
       ab_step (reg_find (ext_of E) r) (anchor_of E \<noteq> None) (abs_state st) op (abs_state st')" if "res = Inr True"
    using chlD(2) [OF tr p assms(6)] that by (simp add: on_disk_def)
  ultimately show ?thesis using f by blast
qed

theorem deployer_refines_witness:
  "list_all (\<lambda>d. \<exists>st'. recoverable sample_env memory_ok anchor_value sample_store st' d \<and>
      - 1 \<le> highest_release_sequence st')
    (history (snd (run_op sample_env (Op_deploy ''1.0.0'' False) (at_start sample_rest))))"
  (is "list_all ?P (history (snd ?run))")
proof -
  have l: "live sample_env memory_ok anchor_value sample_store initial_state (dur (at_start sample_rest))"
    using sample_rest_live by (simp add: at_start_def)
  have "\<forall>d \<in> set (history (snd ?run)). ?P d"
    using deployer_refines [OF sample_anchored l initial_ok(2), of "Op_deploy ''1.0.0'' False" "fst ?run" "snd ?run"]
    by (auto simp: at_start_def sample_py_len initial_state_def)
  then show ?thesis by (simp add: list_all_iff)
qed

section \<open>A journal that blocks startup\<close>

lemma conflicting_commit:
  assumes "anchor_of E \<noteq> None" "previous_generation p \<noteq> generation st" "previous_generation p + 1 \<noteq> generation st"
  shows "dtrip True (trusts E (highest_release_sequence st)) K A (recover_anchor_commit E st (Some p))
    (\<lambda>_ _. False) (\<lambda>e d. e = DE ''pending anchor journal conflicts with durable state'')"
  unfolding recover_anchor_commit_def
  by (rule dtrip_trusted_known [where t = "Some (highest_release_sequence st)"])
     (use assms in \<open>auto simp: trusts_def intro: dtrip_raise\<close>)

lemma conflicting_recover:
  assumes an: "anchor_of E \<noteq> None" and s: "state_storable st"
    and p: "previous_generation p \<noteq> generation st" "previous_generation p + 1 \<noteq> generation st"
  shows "dtrip True (trusts E (highest_release_sequence st)) (\<lambda>_. True)
    (\<lambda>d. base E ok lvl r st (highest_release_sequence st) d \<and> journal_is p (nodes d PendingFile)) (recover E)
    (\<lambda>_ _. False) (\<lambda>e d. e = DE ''pending anchor journal conflicts with durable state'')"
  (is "dtrip _ ?V ?K ?A _ ?B ?C")
  unfolding recover_def
proof (rule dtrip_locked [where M = ?A])
  show "\<exists>n. lock_acquire (nodes d LockFile) = Inr n" if "?A d" for d
    using that by (auto simp: base_def)
  show "?K (set_node LockFile (Some n) d) \<and> ?A (set_node LockFile (Some n) d)"
    if "?A d" "lock_acquire (nodes d LockFile) = Inr n" for d n
    using base_lock [of E ok lvl r st _ d n] that by auto
  have root: "dtrip True ?V ?K ?A ensure_slots_root (\<lambda>_. ?A) ?C"
    by (rule ensure_slots_root_trip) (auto simp: base_def)
  have st: "dtrip True ?V ?K ?A ensure_state (\<lambda>_. ?A) ?C"
    by (rule ensure_state_trip) (auto simp: base_def)
  have rd: "dtrip True ?V ?K ?A (read_state E False) (\<lambda>s d. s = st \<and> ?A d) ?C"
    by (rule dtrip_read_state) (use base_reads [of E ok lvl r st _ _] s in blast)
  have jr: "dtrip True ?V ?K ?A read_pending_anchor (\<lambda>x d. x = Some p \<and> ?A d) ?C"
    unfolding read_pending_anchor_def by (rule dtrip_lift) (use journal_reads(1) in fastforce)+
  show "dtrip True ?V ?K ?A
     (bind_p ensure_slots_root (\<lambda>_. bind_p ensure_state (\<lambda>_. bind_p (read_state E False) (\<lambda>st0.
      bind_p read_pending_anchor (\<lambda>pending. bind_p (recover_anchor_commit E st0 pending) (\<lambda>st.
      bind_p (for_p (slot_order E) (recover_backup E st)) (\<lambda>_.
      bind_p (for_p (slot_order E) (recover_candidate E)) (\<lambda>_.
      bind_p (for_p [SlotA, SlotB] (recover_slot E st)) (\<lambda>_.
      bind_p discard_journal (\<lambda>_. bind_p (validate_state_anchor E st) (\<lambda>_. ret st))))))))))) ?B ?C"
    by (rule dtrip_bind [OF root], rule dtrip_bind [OF st], rule dtrip_known [OF rd],
        rule dtrip_known [OF jr], rule dtrip_bind [OF conflicting_commit [OF an p]], rule dtrip_false)
qed

text \<open>C15: what a left-over journal costs. A deployment that has committed its state but failed to
  remove the journal is recoverable as long as nothing else happens; if the same process then
  records a failed deployment, which only raises the generation, the journal no longer
  matches, and every later start refuses, although state, slots and anchor all agree.
\<close>

theorem stale_journal_blocks_start:
  assumes "anchored E ok lvl" "anchor_of E \<noteq> None" "1024 \<le> max_model_bytes E"
    and "rec_now E ok lvl r st d" "journal_is p (nodes d PendingFile)" "completed (ext_of E) r st d p"
    and "state_to_bytes (failed_state st e) = Inr bs" "state_storable (failed_state st e)"
  shows "fst (deployer_init E (at_start (set_node StateFile (Some (RegFile bs)) d))) =
    Inl (DE ''pending anchor journal conflicts with durable state'')"
proof -
  let ?st = "failed_state st e" and ?d = "set_node StateFile (Some (RegFile bs)) d"
  let ?A = "\<lambda>d. base E ok lvl r ?st (highest_release_sequence ?st) d \<and> journal_is p (nodes d PendingFile)"
  have "base E ok lvl r ?st (highest_release_sequence ?st) ?d"
  proof -
    have h: "highest_release_sequence ?st = highest_release_sequence st" by (simp add: failed_state_def)
    show ?thesis unfolding h by (rule base_state [where st = st, OF _ assms(7)]) (use assms(4) in \<open>simp add: rec_now_def\<close>)
  qed
  then have a: "?A ?d" using assms(5) by simp
  have g: "previous_generation p \<noteq> generation ?st" "previous_generation p + 1 \<noteq> generation ?st"
    using assms(6) by (auto simp: completed_def failed_state_def)
  have tr: "chl (\<lambda>_. True) (on_disk True (\<lambda>_ _. True) ?A) (deployer_init E)
      (\<lambda>x. on_disk True (trusts E (highest_release_sequence ?st)) (\<lambda>_. False))
      (\<lambda>e. on_disk True (trusts E (highest_release_sequence ?st))
        (\<lambda>d. e = DE ''pending anchor journal conflicts with durable state''))"
    by (rule init_with [OF assms(1,3) _ _ _ conflicting_recover [OF assms(2,8) g]])
       (auto simp: base_def floor_is_def)
  have p: "on_disk True (\<lambda>_ _. True) ?A (at_start ?d)" using a by (simp add: on_disk_def at_start_def)
  obtain res t where run: "deployer_init E (at_start ?d) = (res, t)" by (cases "deployer_init E (at_start ?d)")
  show ?thesis using chlD(2) [OF tr p run] run by (cases res) (auto simp: on_disk_def)
qed

text \<open>The first deployment's crash state with its commit completed by the state file.\<close>

definition sample_committed :: "memory_anchor durable" where
  "sample_committed = set_node StateFile (Some (RegFile (bytes_of (state_to_bytes sample_target)))) sample_crash"

definition sample_error :: exc where
  "sample_error = Exc HealthGateError ''accuracy below minimum''"

lemma sample_failed_ok: "state_valid (failed_state sample_target sample_error)" "state_fits (failed_state sample_target sample_error)"
proof -
  let ?t = "''HealthGateError: accuracy below minimum''"
  have a: "ascii ?t" by (simp add: ascii_def byte_of_def)
  have "py_take 4096 ?t = ?t"
    using chr_str_code_points [OF utf8_ok_str_ok [OF ascii_utf8_ok [OF a]]] ascii_py_len [OF a]
    by (simp add: py_take_def py_len_def)
  then have "error_text sample_error = ?t" by (simp add: error_text_def sample_error_def max_error_chars_def)
  then show "state_valid (failed_state sample_target sample_error)" "state_fits (failed_state sample_target sample_error)"
    using sample_target_ok ascii_py_len [OF a] ascii_utf8_ok [OF a]
    by (simp_all add: failed_state_def state_valid_def state_fits_def max_error_chars_def sample_target_def initial_state_def)
qed

theorem stale_journal_blocks_start_witness:
  "fst (deployer_init sample_env (at_start (set_node StateFile
     (Some (RegFile (bytes_of (state_to_bytes (failed_state sample_target sample_error))))) sample_committed))) =
   Inl (DE ''pending anchor journal conflicts with durable state'')"
proof -
  obtain bs where b: "state_to_bytes sample_target = Inr bs"
    using state_to_bytes_ok [OF sample_target_ok(1) state_storable_fits [OF sample_target_ok]] by blast
  have c: "sample_committed = set_node StateFile (Some (RegFile bs)) sample_crash"
    by (simp add: sample_committed_def b bytes_of_def)
  note ahead = rec_ahead_commit [OF sample_crash_ahead b [unfolded sample_target_def]]
  have j: "journal_is (deploy_journal initial_state SlotA ''1.0.0'' 4) (nodes sample_committed PendingFile)"
    using sample_crash_ahead by (simp add: c rec_ahead_def)
  have e: "anchor_of sample_env \<noteq> None" "1024 \<le> max_model_bytes sample_env" by (simp_all add: sample_env_def)
  have s: "state_storable (failed_state sample_target sample_error)"
    by (rule state_storable_fits [OF sample_failed_ok])
  have w: "state_to_bytes (failed_state sample_target sample_error) =
      Inr (bytes_of (state_to_bytes (failed_state sample_target sample_error)))"
    using state_to_bytes_ok [OF sample_failed_ok(1) s] by (simp add: bytes_of_def)
  show ?thesis
    by (rule stale_journal_blocks_start [OF sample_anchored e(1,2) _ j _ w s])
       (use ahead in \<open>simp_all add: c sample_target_def\<close>)
qed

end
