(* ===== verification/Wire.thy ===== *)
theory Wire
  imports PyText "HOL-Library.Word"
begin

text \<open>
  Numbers as bytes: the fixed-width integers of \<^verbatim>\<open>struct\<close> and the little-endian arrays
  that \<^verbatim>\<open>ndarray.tobytes\<close> writes and \<^verbatim>\<open>np.frombuffer\<close> reads. A \<^verbatim>\<open>float32\<close> is the
  32-bit word of its IEEE representation and an \<^verbatim>\<open>int64\<close> a 64-bit word, so the wrap-around
  of a conversion and the tests for finite and negative values are the machine's.
\<close>

section \<open>Fixed-width integers\<close>

primrec le_bytes :: "nat \<Rightarrow> nat \<Rightarrow> bytes" where
  "le_bytes 0 n = []"
| "le_bytes (Suc k) n = char_of (n mod 256) # le_bytes k (n div 256)"

primrec le_nat :: "bytes \<Rightarrow> nat" where
  "le_nat [] = 0"
| "le_nat (b # bs) = byte_of b + 256 * le_nat bs"

lemma length_le_bytes [simp]: "length (le_bytes k n) = k"
  by (induction k arbitrary: n) auto

lemma le_nat_le_bytes: "n < 256 ^ k \<Longrightarrow> le_nat (le_bytes k n) = n"
proof (induction k arbitrary: n)
  case (Suc k)
  then have "n div 256 < 256 ^ k" by (simp add: less_mult_imp_div_less mult.commute)
  then show ?case using Suc.IH by (simp add: byte_of_def mod_mult_div_eq)
qed simp

lemma le_nat_less: "le_nat bs < 256 ^ length bs"
proof (induction bs)
  case (Cons b bs)
  then have "le_nat bs + 1 \<le> 256 ^ length bs" by simp
  then have "256 * (le_nat bs + 1) \<le> 256 * 256 ^ length bs" by (rule mult_le_mono2)
  then have "256 * le_nat bs + 256 \<le> 256 * 256 ^ length bs" by (simp add: algebra_simps)
  moreover have "byte_of b < 256" by simp
  ultimately have "byte_of b + 256 * le_nat bs < 256 * 256 ^ length bs" by linarith
  then show ?case by simp
qed simp

lemma le_bytes_le_nat: "le_bytes (length bs) (le_nat bs) = bs"
proof (induction bs)
  case (Cons b bs)
  have "(byte_of b + 256 * le_nat bs) div 256 = le_nat bs" by simp
  then show ?case using Cons by (simp add: mod_less)
qed simp

text \<open>Network order is the reverse.\<close>

definition be_bytes :: "nat \<Rightarrow> nat \<Rightarrow> bytes" where
  "be_bytes k n = rev (le_bytes k n)"

definition be_nat :: "bytes \<Rightarrow> nat" where
  "be_nat bs = le_nat (rev bs)"

lemma length_be_bytes [simp]: "length (be_bytes k n) = k"
  by (simp add: be_bytes_def)

lemma be_nat_be_bytes: "n < 256 ^ k \<Longrightarrow> be_nat (be_bytes k n) = n"
  by (simp add: be_nat_def be_bytes_def le_nat_le_bytes)

section \<open>Arrays\<close>

primrec unpack :: "nat \<Rightarrow> nat \<Rightarrow> bytes \<Rightarrow> bytes list" where
  "unpack k 0 bs = []"
| "unpack k (Suc n) bs = take k bs # unpack k n (drop k bs)"

definition frombuffer :: "nat \<Rightarrow> bytes \<Rightarrow> 'a::len word list" where
  "frombuffer k bs = map (\<lambda>b. of_nat (le_nat b)) (unpack k (length bs div k) bs)"

definition tobytes :: "nat \<Rightarrow> 'a::len word list \<Rightarrow> bytes" where
  "tobytes k ws = concat (map (\<lambda>w. le_bytes k (unat w)) ws)"

lemma length_tobytes [simp]: "length (tobytes k ws) = k * length ws"
  by (simp add: tobytes_def length_concat_map_const)

lemma length_unpack [simp]: "length (unpack k n bs) = n"
  by (induction n arbitrary: bs) auto

lemma length_frombuffer: "length (frombuffer k bs) = length bs div k"
  by (simp add: frombuffer_def)

lemma unpack_tobytes: "unpack k (length ws) (tobytes k ws) = map (\<lambda>w. le_bytes k (unat w)) ws"
  by (induction ws) (simp_all add: tobytes_def)

lemma frombuffer_tobytes:
  fixes ws :: "'a::len word list"
  assumes "0 < k" "LENGTH('a) \<le> 8 * k"
  shows "frombuffer k (tobytes k ws) = ws"
proof -
  have "unat w < 256 ^ k" for w :: "'a word"
  proof -
    have "unat w < 2 ^ LENGTH('a)" by (rule unsigned_less)
    also have "\<dots> \<le> 2 ^ (8 * k)" using assms(2) by (intro power_increasing) auto
    also have "\<dots> = 256 ^ k" by (simp add: power_mult)
    finally show ?thesis .
  qed
  then have "le_nat (le_bytes k (unat w)) = unat w" for w :: "'a word" by (rule le_nat_le_bytes)
  then show ?thesis using assms(1) by (simp add: frombuffer_def unpack_tobytes comp_def)
qed

section \<open>float32 and int64\<close>

text \<open>Finite: the exponent field is not all ones. Negative: the sign bit is set.\<close>

definition f32_finite :: "32 word \<Rightarrow> bool" where
  "f32_finite w \<longleftrightarrow> take_bit 8 (drop_bit 23 w) \<noteq> 255"

definition i64_negative :: "64 word \<Rightarrow> bool" where
  "i64_negative w \<longleftrightarrow> sint w < 0"

text \<open>An array: its shape and its elements in C order.\<close>

record f32_array =
  arr_shape :: "nat list"
  arr_data :: "32 word list"

definition f32_array_ok :: "f32_array \<Rightarrow> bool" where
  "f32_array_ok a \<longleftrightarrow> length (arr_data a) = prod_list (arr_shape a)"

definition all_f32_finite :: "f32_array \<Rightarrow> bool" where
  "all_f32_finite a \<longleftrightarrow> list_all f32_finite (arr_data a)"

definition matrix :: "nat \<Rightarrow> nat \<Rightarrow> 32 word list \<Rightarrow> f32_array" where
  "matrix r c ws = \<lparr>arr_shape = [r, c], arr_data = ws\<rparr>"

lemma matrix_simps [simp]:
  "arr_shape (matrix r c ws) = [r, c]" "arr_data (matrix r c ws) = ws"
  "matrix r c ws = matrix r' c' ws' \<longleftrightarrow> r = r' \<and> c = c' \<and> ws = ws'"
  by (auto simp: matrix_def)

lemma f32_array_matrix: "arr_shape a = [r, c] \<Longrightarrow> a = matrix r c (arr_data a)"
  by (cases a) (simp add: matrix_def)

lemma f32_samples:
  "f32_finite 0" "f32_finite 0x3F800000" "\<not> f32_finite 0x7F800000" "\<not> f32_finite 0xFFC00000"
  by (simp_all add: f32_finite_def)

lemma i64_samples: "i64_negative (- 1)" "\<not> i64_negative 5" "i64_negative (word_of_int (2 ^ 63))"
  by (simp_all add: i64_negative_def)

end
