(* ===== verification/Ipc.thy ===== *)
theory Ipc
  imports Util Wire
begin

text \<open>
  The frames of \<^verbatim>\<open>src/src/edgeai/ipc.py\<close>: a canonical JSON header in ASCII, a line end, and
  a raw payload, with the length prefix the socket transport puts before them. A header field
  is a \<open>json\<close> value, so the checks on its type are the code's; the first rejection of the
  strict JSON reader (syntax, a repeated key, a non-finite constant) is one error here.
  \<open>frame_roundtrip\<close> is the contract between \<open>encode_frame\<close> and \<open>decode_frame\<close>.
\<close>

type_synonym header = "(pystr \<times> json) list"

definition ipc_magic :: pystr where
  "ipc_magic = ''EDGEAI-IPC''"

definition ipc_version :: int where
  "ipc_version = 1"

definition max_header_bytes :: nat where
  "max_header_bytes = 4096"

definition max_error_text_bytes :: nat where
  "max_error_text_bytes = 4096"

definition ipc_err :: "string \<Rightarrow> exc" where
  "ipc_err t = Exc IPCProtocolError t"

lemma exc_cls_ipc_err [simp]: "exc_cls (ipc_err t) = IPCProtocolError"
  by (simp add: ipc_err_def)

section \<open>Checked fields\<close>

definition max_uint :: int where
  "max_uint = 2 ^ 63 - 1"

definition max_int31 :: int where
  "max_int31 = 2 ^ 31 - 1"

definition ipc_uint :: "string \<Rightarrow> json \<Rightarrow> int \<Rightarrow> int res" where
  "ipc_uint name v maximum =
     (case as_int v of
        Some i \<Rightarrow>
          if 0 \<le> i \<and> i \<le> maximum then Inr i
          else Inl (ipc_err (''invalid IPC integer field '' @ name))
      | None \<Rightarrow> Inl (ipc_err (''invalid IPC integer field '' @ name)))"

definition ipc_text :: "string \<Rightarrow> json \<Rightarrow> nat \<Rightarrow> pystr res" where
  "ipc_text name v max_bytes =
     (case as_str v of
        None \<Rightarrow> Inl (ipc_err (''invalid IPC text field '' @ name))
      | Some t \<Rightarrow>
          if t = [] then Inl (ipc_err (''invalid IPC text field '' @ name))
          else if \<not> utf8_ok t then Inl (ipc_err (''invalid UTF-8 IPC field '' @ name))
          else if max_bytes < length t
          then Inl (ipc_err (''IPC text field '' @ name @ '' is too large''))
          else Inr t)"

lemma ipc_uint_Inr: "ipc_uint n v mx = Inr i \<longleftrightarrow> v = JInt i \<and> 0 \<le> i \<and> i \<le> mx"
  by (auto simp: ipc_uint_def as_Some_iff split: option.splits)

lemma ipc_uint_JInt [simp]: "0 \<le> i \<Longrightarrow> i \<le> mx \<Longrightarrow> ipc_uint n (JInt i) mx = Inr i"
  by (simp add: ipc_uint_Inr)

lemma ipc_text_Inr:
  "ipc_text n v mx = Inr t \<longleftrightarrow> v = JStr t \<and> t \<noteq> [] \<and> utf8_ok t \<and> length t \<le> mx"
  by (auto simp: ipc_text_def as_Some_iff split: option.splits)

lemma ipc_field_error:
  "ipc_uint n v mx = Inl e \<Longrightarrow> exc_cls e = IPCProtocolError"
  "ipc_text n v k = Inl e \<Longrightarrow> exc_cls e = IPCProtocolError"
  by (auto simp: ipc_uint_def ipc_text_def split: option.splits if_splits)

section \<open>Encoding a frame\<close>

definition base_header :: "pystr \<Rightarrow> nat \<Rightarrow> header" where
  "base_header op n =
     [(''magic'', JStr ipc_magic), (''op'', JStr op), (''payload_bytes'', JInt (int n)),
      (''v'', JInt ipc_version)]"

fun add_fields :: "header \<Rightarrow> header \<Rightarrow> header res" where
  "add_fields h [] = Inr h"
| "add_fields h ((k, v) # fs) =
     (if k \<in> set (map fst h) then Inl (ipc_err ''reserved IPC header field '')
      else if k = [] then Inl (ipc_err ''IPC header keys must be non-empty strings'')
      else add_fields (h @ [(k, v)]) fs)"

text \<open>\<^verbatim>\<open>json.dumps(..., sort_keys=True, ensure_ascii=True, allow_nan=False)\<close>.\<close>

definition dumps_ascii :: "json \<Rightarrow> bytes res" where
  "dumps_ascii v =
     rbind (guard_r (json_ok v) (ipc_err ''IPC header is not canonical JSON: '')) (\<lambda>_.
     Inr (json_text True (canon v)))"

definition encode_frame :: "pystr \<Rightarrow> header \<Rightarrow> bytes \<Rightarrow> bytes res" where
  "encode_frame op flds payload =
     rbind (guard_r (op \<noteq> []) (ipc_err ''invalid IPC operation'')) (\<lambda>_.
     rbind (guard_r (ascii op) (ipc_err ''invalid IPC operation'')) (\<lambda>_.
     rbind (guard_r (length op \<le> 32) (ipc_err ''invalid IPC operation'')) (\<lambda>_.
     rbind (add_fields (base_header op (length payload)) flds) (\<lambda>header.
     rbind (dumps_ascii (JObj header)) (\<lambda>encoded.
     rbind (guard_r (length encoded \<le> max_header_bytes)
              (ipc_err ''IPC header exceeds configured bound'')) (\<lambda>_.
     Inr (encoded @ newline # payload)))))))"

section \<open>Decoding a frame\<close>

text \<open>\<^verbatim>\<open>frame.find(b"\n", 0, MAX_HEADER_BYTES + 1)\<close>.\<close>

definition find_newline :: "bytes \<Rightarrow> nat option" where
  "find_newline frame =
     (let w = take (max_header_bytes + 1) frame; n = length (takeWhile (\<lambda>c. c \<noteq> newline) w)
      in if n < length w then Some n else None)"

definition loads_header :: "bytes \<Rightarrow> json res" where
  "loads_header bs =
     (if ascii bs then of_opt (ipc_err ''invalid IPC JSON header: '') (strict_parse bs)
      else Inl (ipc_err ''invalid IPC JSON header: ''))"

definition base_fields :: "pystr list" where
  "base_fields = [''magic'', ''op'', ''payload_bytes'', ''v'']"

fun need_fields :: "pystr list \<Rightarrow> header \<Rightarrow> unit res" where
  "need_fields [] h = Inr ()"
| "need_fields (k # ks) h =
     (if k \<in> set (map fst h) then need_fields ks h
      else Inl (ipc_err (''missing IPC header field '' @ k)))"

definition decode_frame :: "bytes \<Rightarrow> int \<Rightarrow> (header \<times> bytes) res" where
  "decode_frame frame max_payload_bytes =
     rbind (guard_r (0 \<le> max_payload_bytes)
              (Exc ValueError ''max_payload_bytes must be a non-negative integer'')) (\<lambda>_.
     rbind (of_opt (ipc_err ''IPC frame missing bounded header terminator'') (find_newline frame)) (\<lambda>nl.
     let header_bytes = take nl frame
     in rbind (guard_r (header_bytes \<noteq> []) (ipc_err ''IPC frame has empty header'')) (\<lambda>_.
     rbind (loads_header header_bytes) (\<lambda>value.
     rbind (of_opt (ipc_err ''IPC header must be an object'') (as_obj value)) (\<lambda>header.
     rbind (need_fields base_fields header) (\<lambda>_.
     rbind (guard_r (py_eq (jfield header ''magic'') (JStr ipc_magic) \<and>
                     py_eq (jfield header ''v'') (JInt ipc_version))
              (ipc_err ''unsupported IPC protocol'')) (\<lambda>_.
     rbind (ipc_text ''op'' (jfield header ''op'') 32) (\<lambda>_.
     rbind (ipc_uint ''payload_bytes'' (jfield header ''payload_bytes'') max_payload_bytes) (\<lambda>payload_bytes.
     let payload = drop (nl + 1) frame
     in rbind (guard_r (int (length payload) = payload_bytes)
                 (ipc_err ''IPC payload length mismatch'')) (\<lambda>_.
        Inr (header, payload)))))))))))"

definition require_fields :: "header \<Rightarrow> pystr list \<Rightarrow> unit res" where
  "require_fields header flds =
     guard_r (has_fields header (base_fields @ flds)) (ipc_err ''IPC fields mismatch'')"

section \<open>Length prefixes\<close>

definition frame_prefix_bytes :: nat where
  "frame_prefix_bytes = 8"

definition frame_length_prefix :: "int \<Rightarrow> bytes res" where
  "frame_length_prefix n =
     rbind (guard_r (0 \<le> n \<and> n \<le> max_uint) (ipc_err ''invalid IPC frame size'')) (\<lambda>_.
     Inr (be_bytes frame_prefix_bytes (nat n)))"

definition parse_frame_length :: "bytes \<Rightarrow> nat res" where
  "parse_frame_length prefix =
     rbind (guard_r (length prefix = frame_prefix_bytes)
              (ipc_err ''invalid IPC frame-length prefix'')) (\<lambda>_.
     Inr (be_nat prefix))"

lemma parse_length_prefix:
  assumes "frame_length_prefix n = Inr p"
  shows "parse_frame_length p = Inr (nat n)" and "length p = frame_prefix_bytes"
proof -
  have "nat n < 256 ^ 8" using assms by (auto simp: frame_length_prefix_def rbind_Inr_iff max_uint_def)
  then show "parse_frame_length p = Inr (nat n)" "length p = frame_prefix_bytes"
    using assms be_nat_be_bytes [of "nat n" 8]
    by (auto simp: frame_length_prefix_def parse_frame_length_def frame_prefix_bytes_def rbind_Inr_iff)
qed

lemma frame_length_prefix_total: "n < 2 ^ 63 \<Longrightarrow> frame_length_prefix (int n) = Inr (be_bytes 8 n)"
  by (simp add: frame_length_prefix_def max_uint_def frame_prefix_bytes_def)

section \<open>The text of a header\<close>

text \<open>Every character is printable ASCII, so the line end that closes the header is the first.\<close>

definition printable :: "string \<Rightarrow> bool" where
  "printable s \<longleftrightarrow> list_all (\<lambda>c. 32 \<le> byte_of c \<and> byte_of c < 127) s"

lemma printable_simps [simp]:
  "printable []" "printable (c # s) \<longleftrightarrow> 32 \<le> byte_of c \<and> byte_of c < 127 \<and> printable s"
  "printable (s @ t) \<longleftrightarrow> printable s \<and> printable t"
  by (auto simp: printable_def)

lemma printable_concat: "(\<And>s. s \<in> set ss \<Longrightarrow> printable s) \<Longrightarrow> printable (concat ss)"
  by (induction ss) auto

lemma printable_sub: "printable s \<Longrightarrow> set t \<subseteq> set s \<Longrightarrow> printable t"
  by (auto simp: printable_def list_all_iff)

lemma printable_ascii: "printable s \<Longrightarrow> ascii s"
  by (fastforce simp: printable_def ascii_def list_all_iff)

lemma printable_no_newline: "printable s \<Longrightarrow> newline \<notin> set s"
  by (auto simp: printable_def list_all_iff byte_of_def)

lemma printable_digits: "(\<And>c. c \<in> set s \<Longrightarrow> is_digit c) \<Longrightarrow> printable s"
  by (fastforce simp: printable_def list_all_iff is_digit_def)

lemma printable_nat_str [simp]: "printable (nat_str n)"
  using nat_str_digits by (intro printable_digits) blast

lemma printable_strip: "printable s \<Longrightarrow> printable (strip_zeros s)"
  by (erule printable_sub) (auto simp: strip_zeros_def dest: set_dropWhileD)

lemma printable_int_str [simp]: "printable (int_str i)"
  by (simp add: int_str_def byte_of_def)

lemma printable_decimal: "printable (decimal_layout m k)"
proof -
  have d: "printable (strip_zeros (nat_str m))" by (rule printable_strip) simp
  have t: "printable (take n (strip_zeros (nat_str m)))" "printable (drop n (strip_zeros (nat_str m)))" for n
    using printable_sub [OF d] set_take_subset set_drop_subset by metis+
  have z: "printable (replicate n (CHR ''0''))" for n by (simp add: printable_def byte_of_def list_all_iff)
  have e: "printable (exp_str x)" for x by (simp add: exp_str_def Let_def byte_of_def)
  show ?thesis using d t z e by (simp add: decimal_layout_def Let_def byte_of_def)
qed

lemma printable_float_repr [simp]: "printable (float_repr x)"
  using printable_decimal by (auto simp: float_repr_def byte_of_def split: pyfloat.splits option.splits)

lemma printable_hex: "n < 16 \<Longrightarrow> 32 \<le> byte_of (hex_char n) \<and> byte_of (hex_char n) < 127"
  by (auto simp: hex_char_def)

lemma printable_u_escape: "n < 65536 \<Longrightarrow> printable (u_escape n)"
  using printable_hex by (simp add: u_escape_def byte_of_def [of bslash] byte_of_def [of "CHR ''u''"])

lemma printable_esc_char: "byte_of c < 128 \<Longrightarrow> printable (esc_char True c)"
  by (auto simp: esc_char_def printable_u_escape byte_of_def [of bslash] byte_of_def [of dquote]
      byte_of_def [of "CHR ''n''"] byte_of_def [of "CHR ''r''"] byte_of_def [of "CHR ''t''"]
      byte_of_def [of "CHR ''f''"] byte_of_def [of "CHR ''b''"])

lemma printable_esc_cp: "n < 1114112 \<Longrightarrow> printable (esc_cp n)"
  by (auto simp: esc_cp_def intro!: printable_esc_char printable_u_escape)

lemma code_points_less: "n \<in> set (code_points s) \<Longrightarrow> n < 1114112"
  by (cases "utf8_decode True (map byte_of s)") (auto simp: code_points_def dest: utf8_decode_less)

lemma printable_str_text: "printable (str_text True s)"
  using printable_esc_cp code_points_less
  by (auto simp: str_text_def str_body_def byte_of_def intro!: printable_concat)

lemma printable_json_text:
  "printable (json_text True v)" "printable (elems_text True vs)" "printable (members_text True kvs)"
proof (induction True v and True vs and True kvs rule: json_text_elems_text_members_text.induct)
qed (auto simp: printable_str_text byte_of_def)

section \<open>Round trip\<close>

lemma add_fields_Inr:
  "add_fields h fs = Inr g \<longleftrightarrow>
     g = h @ fs \<and> distinct (map fst fs) \<and> set (map fst h) \<inter> set (map fst fs) = {} \<and>
     [] \<notin> set (map fst fs)"
proof (induction h fs arbitrary: g rule: add_fields.induct)
  case (2 h k v fs)
  then show ?case by (cases "k \<in> set (map fst h)"; cases "k = []") auto
qed auto

lemma encode_frame_Inr:
  "encode_frame op fs payload = Inr f \<longleftrightarrow>
     op \<noteq> [] \<and> ascii op \<and> length op \<le> 32 \<and> distinct (map fst fs) \<and>
     set base_fields \<inter> set (map fst fs) = {} \<and> [] \<notin> set (map fst fs) \<and>
     json_ok (JObj (base_header op (length payload) @ fs)) \<and>
     (let t = json_text True (canon (JObj (base_header op (length payload) @ fs)))
      in length t \<le> max_header_bytes \<and> f = t @ newline # payload)"
proof -
  have b: "map fst (base_header op n) = base_fields" for n
    by (simp add: base_header_def base_fields_def)
  show ?thesis
    by (auto simp: encode_frame_def rbind_Inr_iff dumps_ascii_def Let_def add_fields_Inr b)
qed

lemma encode_frame_error: "encode_frame op fs payload = Inl e \<Longrightarrow> exc_cls e = IPCProtocolError"
proof -
  have "add_fields h fs = Inl e \<Longrightarrow> exc_cls e = IPCProtocolError" for h fs
    by (induction h fs rule: add_fields.induct) (auto split: if_splits)
  then show "encode_frame op fs payload = Inl e \<Longrightarrow> exc_cls e = IPCProtocolError"
    by (auto simp: encode_frame_def rbind_Inl_iff dumps_ascii_def)
qed

lemma find_newline_text:
  assumes "newline \<notin> set t" "length t \<le> max_header_bytes"
  shows "find_newline (t @ newline # p) = Some (length t)"
proof -
  have "take (max_header_bytes + 1) (t @ newline # p) = t @ newline # take (max_header_bytes - length t) p"
    using assms(2) by (simp add: Suc_diff_le)
  moreover have "takeWhile (\<lambda>c. c \<noteq> newline) (t @ newline # q) = t" for q
    using assms(1) by (subst takeWhile_append2) auto
  ultimately show ?thesis by (simp add: find_newline_def Let_def)
qed

lemma need_fields_Inr: "need_fields ks h = Inr u \<longleftrightarrow> set ks \<subseteq> set (map fst h)"
  by (induction ks h rule: need_fields.induct) auto

lemma jfield_canon_sorted:
  assumes "distinct (map fst h)" "k \<in> set (map fst h)"
  shows "jfield (sort_key fst (map (\<lambda>(k, v). (k, canon v)) h)) k = canon (jfield h k)"
  using assms by (simp add: jfield_map_value)

text \<open>What the decoder returns for an encoded frame: the fields by name, keys sorted.\<close>

definition sent_header :: "pystr \<Rightarrow> header \<Rightarrow> nat \<Rightarrow> header" where
  "sent_header op fs n = sort_key fst (map (\<lambda>(k, v). (k, canon v)) (base_header op n @ fs))"

lemma sent_header_keys: "set (map fst (sent_header op fs n)) = set base_fields \<union> set (map fst fs)"
proof -
  have "map fst (base_header op n @ fs) = base_fields @ map fst fs"
    by (simp add: base_header_def base_fields_def)
  then have "set (map fst (map (\<lambda>(k, v). (k, canon v)) (base_header op n @ fs))) =
      set base_fields \<union> set (map fst fs)"
    unfolding map_map fst_map_value by (simp only: set_append)
  then show ?thesis unfolding sent_header_def by (simp only: set_map set_sort)
qed

theorem frame_roundtrip:
  assumes f: "encode_frame op fs payload = Inr f"
    and rt: "list_all (\<lambda>(k, v). str_rt True k \<and> json_rt True v) fs"
    and mp: "int (length payload) \<le> mp"
  shows "decode_frame f mp = Inr (sent_header op fs (length payload), payload)"
proof -
  define n where "n = length payload"
  define h where "h = base_header op n @ fs"
  define t where "t = json_text True (canon (JObj h))"
  have e: "op \<noteq> []" "ascii op" "length op \<le> 32" "distinct (map fst fs)"
    "set base_fields \<inter> set (map fst fs) = {}" "length t \<le> max_header_bytes"
    "f = t @ newline # payload" "json_ok (JObj h)"
    using f by (simp_all add: encode_frame_Inr Let_def t_def h_def n_def)
  have d: "distinct (map fst h)"
    using e(4,5) by (auto simp: h_def base_header_def base_fields_def)
  have "str_rt True k" if "ascii k" for k using that by (simp add: str_rt_def ascii_utf8_ok)
  then have r: "json_rt True (JObj h)"
    using e rt d by (simp add: h_def base_header_def ipc_magic_def byte_of_def)
  have p: "strict_parse t = Some (canon (JObj h))"
    using strict_parse_text [OF json_rt_canon [OF r], of "[]"] by (simp add: t_def)
  have t: "printable t" unfolding t_def by (rule printable_json_text(1))
  have t0: "t \<noteq> []" by (simp add: t_def)
  have l: "loads_header t = Inr (canon (JObj h))"
    using t p by (simp add: loads_header_def printable_ascii)
  have s: "canon (JObj h) = JObj (sent_header op fs n)" by (simp add: sent_header_def h_def)
  have jf: "jfield (sent_header op fs n) k = canon (jfield h k)" if "k \<in> set (map fst h)" for k
    using jfield_canon_sorted [OF d that] by (simp add: sent_header_def h_def)
  have b: "jfield (sent_header op fs n) ''magic'' = JStr ipc_magic"
    "jfield (sent_header op fs n) ''op'' = JStr op"
    "jfield (sent_header op fs n) ''payload_bytes'' = JInt (int n)"
    "jfield (sent_header op fs n) ''v'' = JInt ipc_version"
    by (simp_all add: jf h_def base_header_def) (simp_all add: jfield_def)
  have "need_fields base_fields (sent_header op fs n) = Inr ()"
    unfolding need_fields_Inr sent_header_keys by simp
  moreover have "find_newline f = Some (length t)"
    using e(6,7) t printable_no_newline by (simp add: find_newline_text)
  ultimately show ?thesis
    using mp t0 l b e unfolding s n_def
    by (simp add: decode_frame_def Let_def ipc_text_def ascii_utf8_ok)
qed

lemma sent_header_fields:
  assumes "encode_frame op fs payload = Inr f"
  shows "jfield (sent_header op fs n) ''op'' = JStr op"
    and "k \<in> set (map fst fs) \<Longrightarrow> jfield (sent_header op fs n) k = canon (jfield fs k)"
    and "has_fields (sent_header op fs n) (base_fields @ map fst fs)"
proof -
  have e: "distinct (map fst fs)" "set base_fields \<inter> set (map fst fs) = {}"
    using assms by (simp_all add: encode_frame_Inr)
  have d: "distinct (map fst (base_header op n @ fs))"
    using e by (auto simp: base_header_def base_fields_def)
  have jf: "jfield (sent_header op fs n) k = canon (jfield (base_header op n @ fs) k)"
    if "k \<in> set (map fst (base_header op n @ fs))" for k
    using jfield_canon_sorted [OF d that] by (simp add: sent_header_def)
  show "jfield (sent_header op fs n) ''op'' = JStr op"
    by (simp add: jf base_header_def) (simp add: jfield_def)
  show "jfield (sent_header op fs n) k = canon (jfield fs k)" if "k \<in> set (map fst fs)"
  proof -
    have "k \<notin> set base_fields" using that e(2) by auto
    then have "jfield (base_header op n @ fs) k = jfield fs k"
      by (simp add: jfield_def base_header_def base_fields_def)
    then show ?thesis using jf that by simp
  qed
  show "has_fields (sent_header op fs n) (base_fields @ map fst fs)"
    unfolding has_fields_def sent_header_keys by simp
qed

end
