(* ===== verification/IpcMessages.thy ===== *)
theory IpcMessages
  imports Ipc
begin

text \<open>
  The messages of \<^verbatim>\<open>src/src/edgeai/ipc.py\<close>, one encoder and one decoder each. What NumPy does
  with the caller's data is a parameter: \<open>to_f32\<close> is \<^verbatim>\<open>np.asarray(..., dtype="<f4")\<close>
  (\<open>None\<close> where it raises) and \<open>to_labels\<close> is \<^verbatim>\<open>np.asarray(labels)\<close>. Integer and text
  arguments have the types of the source's annotations.
\<close>

section \<open>Control messages\<close>

definition encode_ready :: "int \<Rightarrow> bytes res" where
  "encode_ready pid =
     rbind (ipc_uint ''pid'' (JInt pid) max_int31) (\<lambda>p.
     encode_frame ''ready'' [(''pid'', JInt p)] [])"

definition decode_ready :: "bytes \<Rightarrow> int res" where
  "decode_ready frame =
     rbind (decode_frame frame 0) (\<lambda>(header, payload).
     rbind (require_fields header [''pid'']) (\<lambda>_.
     rbind (guard_r (py_eq (jfield header ''op'') (JStr ''ready'') \<and> payload = [])
              (ipc_err ''expected ready frame'')) (\<lambda>_.
     rbind (ipc_uint ''pid'' (jfield header ''pid'') max_int31) (\<lambda>pid.
     rbind (guard_r (pid \<noteq> 0) (ipc_err ''invalid worker pid'')) (\<lambda>_.
     Inr pid)))))"

definition encode_simple :: "pystr \<Rightarrow> bytes res" where
  "encode_simple op = encode_frame op [] []"

definition decode_simple :: "bytes \<Rightarrow> pystr \<Rightarrow> unit res" where
  "decode_simple frame op =
     rbind (decode_frame frame 0) (\<lambda>(header, payload).
     rbind (require_fields header []) (\<lambda>_.
     guard_r (py_eq (jfield header ''op'') (JStr op) \<and> payload = [])
       (ipc_err (''expected '' @ op @ '' frame''))))"

definition encode_generation :: "pystr \<Rightarrow> int \<Rightarrow> bytes res" where
  "encode_generation op gen =
     rbind (ipc_uint ''generation'' (JInt gen) max_uint) (\<lambda>g.
     encode_frame op [(''generation'', JInt g)] [])"

definition decode_generation :: "bytes \<Rightarrow> pystr \<Rightarrow> int res" where
  "decode_generation frame op =
     rbind (decode_frame frame 0) (\<lambda>(header, payload).
     rbind (require_fields header [''generation'']) (\<lambda>_.
     rbind (guard_r (py_eq (jfield header ''op'') (JStr op) \<and> payload = [])
              (ipc_err (''expected '' @ op @ '' frame''))) (\<lambda>_.
     ipc_uint ''generation'' (jfield header ''generation'') max_uint)))"

text \<open>\<^verbatim>\<open>x or default\<close> on a string, and an optional field.\<close>

definition or_text :: "pystr \<Rightarrow> pystr \<Rightarrow> pystr" where
  "or_text t d = (if t = [] then d else t)"

definition opt_uint :: "string \<Rightarrow> int option \<Rightarrow> header res" where
  "opt_uint name x =
     (case x of
        None \<Rightarrow> Inr []
      | Some i \<Rightarrow> rbind (ipc_uint name (JInt i) max_uint) (\<lambda>j. Inr [(name, JInt j)]))"

definition encode_error ::
  "pystr \<Rightarrow> int option \<Rightarrow> int option \<Rightarrow> pystr \<Rightarrow> pystr \<Rightarrow> bytes res" where
  "encode_error op request_id gen code message =
     rbind (ipc_text ''code'' (JStr code) 64) (\<lambda>c.
     rbind (ipc_text ''message'' (JStr (or_text message ''backend failure'')) max_error_text_bytes) (\<lambda>m.
     rbind (opt_uint ''request_id'' request_id) (\<lambda>r.
     rbind (opt_uint ''generation'' gen) (\<lambda>g.
     encode_frame op ([(''code'', JStr c), (''message'', JStr m)] @ r @ g) []))))"

definition decode_error :: "bytes \<Rightarrow> pystr \<Rightarrow> bool \<Rightarrow> (int \<times> pystr \<times> pystr) res" where
  "decode_error frame op request =
     rbind (decode_frame frame 0) (\<lambda>(header, payload).
     let id_field = (if request then ''request_id'' else ''generation'')
     in rbind (require_fields header [id_field, ''code'', ''message'']) (\<lambda>_.
     rbind (guard_r (py_eq (jfield header ''op'') (JStr op) \<and> payload = [])
              (ipc_err (''expected '' @ op @ '' frame''))) (\<lambda>_.
     rbind (ipc_uint id_field (jfield header id_field) max_uint) (\<lambda>identifier.
     rbind (ipc_text ''code'' (jfield header ''code'') 64) (\<lambda>code.
     rbind (ipc_text ''message'' (jfield header ''message'') max_error_text_bytes) (\<lambda>message.
     Inr (identifier, code, message)))))))"

definition encode_startup_error :: "pystr \<Rightarrow> pystr \<Rightarrow> bytes res" where
  "encode_startup_error code message =
     rbind (ipc_text ''code'' (JStr code) 64) (\<lambda>c.
     rbind (ipc_text ''message'' (JStr (or_text message ''worker startup failed'')) max_error_text_bytes) (\<lambda>m.
     encode_frame ''startup_error'' [(''code'', JStr c), (''message'', JStr m)] []))"

definition decode_startup_error :: "bytes \<Rightarrow> (pystr \<times> pystr) res" where
  "decode_startup_error frame =
     rbind (decode_frame frame 0) (\<lambda>(header, payload).
     rbind (require_fields header [''code'', ''message'']) (\<lambda>_.
     rbind (guard_r (py_eq (jfield header ''op'') (JStr ''startup_error'') \<and> payload = [])
              (ipc_err ''expected startup_error frame'')) (\<lambda>_.
     rbind (ipc_text ''code'' (jfield header ''code'') 64) (\<lambda>code.
     rbind (ipc_text ''message'' (jfield header ''message'') max_error_text_bytes) (\<lambda>message.
     Inr (code, message))))))"

section \<open>Model artifacts\<close>

definition encode_load_artifact :: "int \<Rightarrow> bytes \<Rightarrow> pystr \<Rightarrow> pystr \<Rightarrow> int \<Rightarrow> bytes res" where
  "encode_load_artifact gen model kind abi max_uncompressed_bytes =
     rbind (guard_r (model \<noteq> []) (ipc_err ''model artifact payload must be non-empty bytes'')) (\<lambda>_.
     rbind (ipc_uint ''generation'' (JInt gen) max_uint) (\<lambda>g.
     rbind (ipc_uint ''max_uncompressed_bytes'' (JInt max_uncompressed_bytes) max_uint) (\<lambda>u.
     rbind (ipc_text ''model_kind'' (JStr kind) 256) (\<lambda>k.
     rbind (ipc_text ''runtime_abi'' (JStr abi) 256) (\<lambda>a.
     encode_frame ''load_artifact''
       [(''generation'', JInt g), (''max_uncompressed_bytes'', JInt u),
        (''model_kind'', JStr k), (''runtime_abi'', JStr a)] model)))))"

definition decode_load_artifact :: "bytes \<Rightarrow> int \<Rightarrow> (int \<times> bytes \<times> pystr \<times> pystr \<times> int) res" where
  "decode_load_artifact frame max_model_bytes =
     rbind (decode_frame frame max_model_bytes) (\<lambda>(header, payload).
     rbind (require_fields header
              [''generation'', ''max_uncompressed_bytes'', ''model_kind'', ''runtime_abi'']) (\<lambda>_.
     rbind (guard_r (py_eq (jfield header ''op'') (JStr ''load_artifact'') \<and> payload \<noteq> [])
              (ipc_err ''expected load_artifact frame'')) (\<lambda>_.
     rbind (ipc_uint ''generation'' (jfield header ''generation'') max_uint) (\<lambda>gen.
     rbind (ipc_uint ''max_uncompressed_bytes'' (jfield header ''max_uncompressed_bytes'') max_uint) (\<lambda>u.
     rbind (guard_r (1024 \<le> u \<and> u \<le> max_model_bytes) (ipc_err ''invalid model uncompressed bound'')) (\<lambda>_.
     rbind (ipc_text ''model_kind'' (jfield header ''model_kind'') 256) (\<lambda>kind.
     rbind (ipc_text ''runtime_abi'' (jfield header ''runtime_abi'') 256) (\<lambda>abi.
     Inr (gen, payload, kind, abi, u)))))))))"

section \<open>Tensors\<close>

definition float32_payload :: "('arr \<Rightarrow> f32_array option) \<Rightarrow> 'arr \<Rightarrow> (f32_array \<times> bytes) res" where
  "float32_payload to_f32 arr =
     rbind (of_opt (ipc_err ''IPC tensor cannot be represented as float32'') (to_f32 arr)) (\<lambda>a.
     rbind (guard_r (length (arr_shape a) = 2) (ipc_err ''IPC tensor must be rank-2'')) (\<lambda>_.
     Inr (a, tobytes 4 (arr_data a))))"

definition dim :: "f32_array \<Rightarrow> nat \<Rightarrow> int" where
  "dim a i = int (arr_shape a ! i)"

definition encode_predict ::
  "('arr \<Rightarrow> f32_array option) \<Rightarrow> int \<Rightarrow> int \<Rightarrow> 'arr \<Rightarrow> bytes res" where
  "encode_predict to_f32 request_id gen inputs =
     rbind (float32_payload to_f32 inputs) (\<lambda>(a, payload).
     rbind (ipc_uint ''cols'' (JInt (dim a 1)) max_int31) (\<lambda>cols.
     rbind (ipc_uint ''generation'' (JInt gen) max_uint) (\<lambda>g.
     rbind (ipc_uint ''request_id'' (JInt request_id) max_uint) (\<lambda>r.
     rbind (ipc_uint ''rows'' (JInt (dim a 0)) max_int31) (\<lambda>rows.
     encode_frame ''predict''
       [(''cols'', JInt cols), (''generation'', JInt g), (''request_id'', JInt r), (''rows'', JInt rows)]
       payload)))))"

text \<open>\<^verbatim>\<open>np.frombuffer(payload, dtype="<f4").reshape((rows, cols))\<close>.\<close>

definition frombuffer_f4 :: "int \<Rightarrow> int \<Rightarrow> bytes \<Rightarrow> f32_array" where
  "frombuffer_f4 rows cols payload = matrix (nat rows) (nat cols) (frombuffer 4 payload)"

definition decode_predict :: "bytes \<Rightarrow> int \<Rightarrow> int \<Rightarrow> int \<Rightarrow> (int \<times> int \<times> f32_array) res" where
  "decode_predict frame max_batch max_input_features max_input_values =
     rbind (decode_frame frame (max_input_values * 4)) (\<lambda>(header, payload).
     rbind (require_fields header [''cols'', ''generation'', ''request_id'', ''rows'']) (\<lambda>_.
     rbind (guard_r (py_eq (jfield header ''op'') (JStr ''predict'')) (ipc_err ''expected predict frame'')) (\<lambda>_.
     rbind (ipc_uint ''request_id'' (jfield header ''request_id'') max_uint) (\<lambda>request_id.
     rbind (ipc_uint ''generation'' (jfield header ''generation'') max_uint) (\<lambda>gen.
     rbind (ipc_uint ''rows'' (jfield header ''rows'') max_batch) (\<lambda>rows.
     rbind (ipc_uint ''cols'' (jfield header ''cols'') max_input_features) (\<lambda>cols.
     rbind (guard_r (1 \<le> rows \<and> 1 \<le> cols \<and> rows * cols \<le> max_input_values)
              (ipc_err ''IPC input tensor outside configured bounds'')) (\<lambda>_.
     rbind (guard_r (int (length payload) = rows * cols * 4)
              (ipc_err ''IPC input tensor byte length mismatch'')) (\<lambda>_.
     let a = frombuffer_f4 rows cols payload
     in rbind (guard_r (all_f32_finite a) (ipc_err ''IPC input tensor contains non-finite values'')) (\<lambda>_.
        Inr (request_id, gen, a)))))))))))"

definition encode_result :: "('arr \<Rightarrow> f32_array option) \<Rightarrow> int \<Rightarrow> 'arr \<Rightarrow> bytes res" where
  "encode_result to_f32 request_id logits =
     rbind (float32_payload to_f32 logits) (\<lambda>(a, payload).
     rbind (ipc_uint ''cols'' (JInt (dim a 1)) max_int31) (\<lambda>cols.
     rbind (ipc_uint ''request_id'' (JInt request_id) max_uint) (\<lambda>r.
     rbind (ipc_uint ''rows'' (JInt (dim a 0)) max_int31) (\<lambda>rows.
     encode_frame ''result''
       [(''cols'', JInt cols), (''request_id'', JInt r), (''rows'', JInt rows)] payload))))"

definition decode_result :: "bytes \<Rightarrow> int \<Rightarrow> int \<Rightarrow> int \<Rightarrow> int \<Rightarrow> f32_array res" where
  "decode_result frame expected_request_id expected_batch max_output_classes max_output_values =
     rbind (decode_frame frame (max_output_values * 4)) (\<lambda>(header, payload).
     rbind (require_fields header [''cols'', ''request_id'', ''rows'']) (\<lambda>_.
     rbind (guard_r (py_eq (jfield header ''op'') (JStr ''result'')) (ipc_err ''expected result frame'')) (\<lambda>_.
     rbind (ipc_uint ''request_id'' (jfield header ''request_id'') max_uint) (\<lambda>request_id.
     rbind (guard_r (request_id = expected_request_id) (ipc_err ''IPC result request ID mismatch'')) (\<lambda>_.
     rbind (ipc_uint ''rows'' (jfield header ''rows'') expected_batch) (\<lambda>rows.
     rbind (ipc_uint ''cols'' (jfield header ''cols'') max_output_classes) (\<lambda>cols.
     rbind (guard_r (rows = expected_batch \<and> 1 \<le> cols \<and> rows * cols \<le> max_output_values)
              (ipc_err ''IPC output tensor outside configured bounds'')) (\<lambda>_.
     rbind (guard_r (int (length payload) = rows * cols * 4)
              (ipc_err ''IPC output tensor byte length mismatch'')) (\<lambda>_.
     let a = frombuffer_f4 rows cols payload
     in rbind (guard_r (all_f32_finite a) (ipc_err ''IPC output tensor contains non-finite values'')) (\<lambda>_.
        Inr a))))))))))"

section \<open>Qualification data\<close>

text \<open>
  \<^verbatim>\<open>np.asarray(labels)\<close>: its shape, the kind character of its dtype, and its values where
  that is an integer kind; the conversion to \<^verbatim>\<open>int64\<close> wraps.
\<close>

record label_array =
  lab_shape :: "nat list"
  lab_kind :: char
  lab_data :: "int list"

definition to_int64 :: "label_array \<Rightarrow> 64 word list" where
  "to_int64 y = map word_of_int (lab_data y)"

definition encode_qualification ::
  "('arr \<Rightarrow> f32_array option) \<Rightarrow> ('lab \<Rightarrow> label_array res) \<Rightarrow>
   'arr \<Rightarrow> 'lab \<Rightarrow> int \<Rightarrow> int \<Rightarrow> int \<Rightarrow> int \<Rightarrow> int \<Rightarrow> bytes res" where
  "encode_qualification to_f32 to_labels inputs labels iterations batch
     max_validation_rows max_validation_features max_validation_values =
     rbind (guard_r (\<not> list_ex (\<lambda>v. v < 1) [max_validation_rows, max_validation_features, max_validation_values])
              (Exc ValueError ''qualification encode limits must be positive integers'')) (\<lambda>_.
     rbind (of_opt (ipc_err ''qualification inputs cannot be represented as float32'') (to_f32 inputs)) (\<lambda>x.
     rbind (to_labels labels) (\<lambda>y_raw.
     rbind (guard_r (length (arr_shape x) = 2 \<and> length (lab_shape y_raw) = 1 \<and>
                     arr_shape x ! 0 = lab_shape y_raw ! 0 \<and> 1 \<le> arr_shape x ! 0)
              (ipc_err ''qualification dataset shape mismatch'')) (\<lambda>_.
     let rows = dim x 0; cols = dim x 1
     in rbind (guard_r (\<not> (max_validation_rows < rows \<or> cols < 1 \<or> max_validation_features < cols \<or>
                           max_validation_values < rows * cols))
                 (ipc_err ''qualification dataset outside configured bounds'')) (\<lambda>_.
     rbind (guard_r (lab_kind y_raw \<in> {CHR ''i'', CHR ''u''}) (ipc_err ''qualification labels must be integers'')) (\<lambda>_.
     rbind (guard_r (all_f32_finite x) (ipc_err ''qualification inputs contain non-finite values'')) (\<lambda>_.
     let y = to_int64 y_raw
     in rbind (guard_r (\<not> list_ex i64_negative y) (ipc_err ''qualification labels must be non-negative'')) (\<lambda>_.
     let x_payload = tobytes 4 (arr_data x); y_payload = tobytes 8 y
     in rbind (ipc_uint ''batch'' (JInt batch) max_int31) (\<lambda>b.
     rbind (ipc_uint ''cols'' (JInt (dim x 1)) max_int31) (\<lambda>c.
     rbind (ipc_uint ''iterations'' (JInt iterations) 100000) (\<lambda>it.
     rbind (ipc_uint ''rows'' (JInt (dim x 0)) max_int31) (\<lambda>r.
     encode_frame ''qualify''
       [(''batch'', JInt b), (''cols'', JInt c), (''iterations'', JInt it), (''rows'', JInt r),
        (''x_bytes'', JInt (int (length x_payload))), (''y_bytes'', JInt (int (length y_payload)))]
       (x_payload @ y_payload)))))))))))))"

definition decode_qualification ::
  "bytes \<Rightarrow> int \<Rightarrow> int \<Rightarrow> int \<Rightarrow> int \<Rightarrow> (f32_array \<times> 64 word list \<times> int \<times> int) res" where
  "decode_qualification frame max_validation_rows max_validation_features max_validation_values max_iterations =
     rbind (guard_r (\<not> list_ex (\<lambda>v. v < 1)
                       [max_validation_rows, max_validation_features, max_validation_values, max_iterations])
              (Exc ValueError ''qualification decode limits must be positive integers'')) (\<lambda>_.
     rbind (decode_frame frame (max_validation_values * 4 + max_validation_rows * 8)) (\<lambda>(header, payload).
     rbind (require_fields header [''batch'', ''cols'', ''iterations'', ''rows'', ''x_bytes'', ''y_bytes'']) (\<lambda>_.
     rbind (guard_r (py_eq (jfield header ''op'') (JStr ''qualify'')) (ipc_err ''expected qualify frame'')) (\<lambda>_.
     rbind (ipc_uint ''rows'' (jfield header ''rows'') max_validation_rows) (\<lambda>rows.
     rbind (ipc_uint ''cols'' (jfield header ''cols'') max_validation_features) (\<lambda>cols.
     rbind (ipc_uint ''iterations'' (jfield header ''iterations'') max_iterations) (\<lambda>iterations.
     rbind (ipc_uint ''batch'' (jfield header ''batch'') max_validation_rows) (\<lambda>batch.
     rbind (guard_r (1 \<le> rows \<and> 1 \<le> cols \<and> rows * cols \<le> max_validation_values)
              (ipc_err ''qualification dataset outside configured bounds'')) (\<lambda>_.
     rbind (guard_r (1 \<le> iterations \<and> 1 \<le> batch)
              (ipc_err ''qualification benchmark parameters outside configured bounds'')) (\<lambda>_.
     rbind (ipc_uint ''x_bytes'' (jfield header ''x_bytes'') (max_validation_values * 4)) (\<lambda>x_bytes.
     rbind (ipc_uint ''y_bytes'' (jfield header ''y_bytes'') (max_validation_rows * 8)) (\<lambda>y_bytes.
     rbind (guard_r (x_bytes = rows * cols * 4 \<and> y_bytes = rows * 8 \<and> int (length payload) = x_bytes + y_bytes)
              (ipc_err ''qualification payload byte length mismatch'')) (\<lambda>_.
     let x = frombuffer_f4 rows cols (take (nat x_bytes) payload);
         y = frombuffer 8 (drop (nat x_bytes) payload)
     in rbind (guard_r (all_f32_finite x \<and> \<not> list_ex i64_negative y)
                 (ipc_err ''qualification dataset contains invalid values'')) (\<lambda>_.
        Inr (x, y, iterations, batch)))))))))))))))"

section \<open>Metrics\<close>

definition finite_metric :: "string \<Rightarrow> json \<Rightarrow> pyfloat \<Rightarrow> pyfloat \<Rightarrow> pynum res" where
  "finite_metric name v minimum maximum =
     rbind (of_opt (ipc_err (''invalid IPC metric field '' @ name)) (as_num v)) (\<lambda>n.
     rbind (num_to_float n) (\<lambda>r.
     rbind (guard_r (is_finite r \<and> float_le minimum r \<and> float_le r maximum)
              (ipc_err (''invalid IPC metric field '' @ name))) (\<lambda>_.
     Inr (NFloat r))))"

definition encode_metrics :: "model_metrics \<Rightarrow> bytes res" where
  "encode_metrics m =
     rbind (metrics_validate m) (\<lambda>_.
     rbind (num_to_float (accuracy m)) (\<lambda>a.
     rbind (num_to_float (ece m)) (\<lambda>e.
     rbind (num_to_float (max_rss_mb m)) (\<lambda>r.
     rbind (num_to_float (p95_latency_ms m)) (\<lambda>p.
     encode_frame ''metrics''
       [(''accuracy'', JFloat a), (''ece'', JFloat e), (''max_rss_mb'', JFloat r),
        (''p95_latency_ms'', JFloat p)] [])))))"

definition decode_metrics :: "bytes \<Rightarrow> model_metrics res" where
  "decode_metrics frame =
     rbind (decode_frame frame 0) (\<lambda>(header, payload).
     rbind (require_fields header [''accuracy'', ''ece'', ''max_rss_mb'', ''p95_latency_ms'']) (\<lambda>_.
     rbind (guard_r (py_eq (jfield header ''op'') (JStr ''metrics'') \<and> payload = [])
              (ipc_err ''expected metrics frame'')) (\<lambda>_.
     rbind (finite_metric ''accuracy'' (jfield header ''accuracy'') (Fin 0) (Fin 1)) (\<lambda>a.
     rbind (finite_metric ''ece'' (jfield header ''ece'') (Fin 0) (Fin 1)) (\<lambda>e.
     rbind (finite_metric ''p95_latency_ms'' (jfield header ''p95_latency_ms'') (Fin 0) (Fin (10 ^ 12))) (\<lambda>p.
     rbind (finite_metric ''max_rss_mb'' (jfield header ''max_rss_mb'') (Fin 0) (Fin (10 ^ 12))) (\<lambda>r.
     Inr \<lparr>accuracy = a, ece = e, p95_latency_ms = p, max_rss_mb = r\<rparr>)))))))"

end
