(* ===== verification/IpcRoundtrip.thy ===== *)
theory IpcRoundtrip
  imports IpcMessages
begin

text \<open>
  Every message an encoder accepts is read back as what was sent, and the encoders accept
  every message whose fields are in range: \<open>encode_frame_total\<close> bounds the header they
  write. Then what a decoder guarantees of whatever bytes the peer sent.
\<close>

section \<open>Sizes\<close>

lemma str_text_ascii_length:
  assumes "utf8_ok t"
  shows "length (str_text True t) \<le> 6 * length t + 2"
proof -
  obtain cs where cs: "utf8_decode True (map byte_of t) = Some cs" "code_points t = cs"
    using utf8_ok_str_ok [OF assms] by (auto simp: str_ok_def code_points_def split: option.splits)
  have t: "t = concat (map chr_str cs)"
    using chr_str_code_points [of t] utf8_ok_str_ok [OF assms] cs by simp
  have u: "length (u_escape n) = 6" for n by (simp add: u_escape_def)
  then have one: "length (esc_cp n) \<le> 6 * length (chr_str n)" for n
    by (auto simp: esc_cp_def esc_char_def chr_str_def utf8_encode_cp_def)
  have "length (concat (map esc_cp ds)) \<le> 6 * length (concat (map chr_str ds))" for ds
    using one by (induction ds) (auto simp: add_mult_distrib2 add_mono)
  from this [of cs] show ?thesis using cs(2) t by (simp add: str_text_def str_body_def)
qed

lemma ipc_int_length: "0 \<le> i \<Longrightarrow> i < 10 ^ 20 \<Longrightarrow> length (int_str i) \<le> 21"
  using nat_str_length [of "nat i" 20] int_str_length [of i] by (simp add: nat_less_iff)

definition members_size :: "header \<Rightarrow> nat" where
  "members_size kvs = sum_list (map (\<lambda>(k, v). length (str_text True k) + length (json_text True v) + 2) kvs)"

lemma members_size_simps [simp]:
  "members_size [] = 0"
  "members_size ((k, v) # kvs) = length (str_text True k) + length (json_text True v) + 2 + members_size kvs"
  "members_size (kvs @ kws) = members_size kvs + members_size kws"
  by (simp_all add: members_size_def)

lemma members_size_sort: "members_size (sort_key fst kvs) = members_size kvs"
proof -
  let ?f = "\<lambda>(k, v). length (str_text True k) + length (json_text True v) + 2"
  have "mset (map ?f (sort_key fst kvs)) = mset (map ?f kvs)" by simp
  then have "sum_list (map ?f (sort_key fst kvs)) = sum_list (map ?f kvs)"
    by (metis sum_mset_sum_list)
  then show ?thesis by (simp add: members_size_def)
qed

lemma members_text_size: "kvs \<noteq> [] \<Longrightarrow> members_size kvs = length (members_text True kvs) + 1"
  by (induction kvs rule: induct_list012) auto

lemma header_size:
  assumes "length op \<le> 32" "ascii op" "n < 10 ^ 20"
  shows "members_size (base_header op n) \<le> 440"
proof -
  have "length (str_text True op) \<le> 6 * 32 + 2"
    using str_text_ascii_length [OF ascii_utf8_ok [OF assms(2)]] assms(1) by linarith
  moreover have "length (int_str (int n)) \<le> 21" using assms(3) by (intro ipc_int_length) simp_all
  moreover have "length (int_str ipc_version) \<le> 21" by (rule ipc_int_length) (simp_all add: ipc_version_def)
  moreover have "length (str_text True k) \<le> 6 * length k + 2" if "ascii k" for k
    using that by (intro str_text_ascii_length ascii_utf8_ok)
  from this [of "''magic''"] this [of "''op''"] this [of "''payload_bytes''"] this [of "''v''"] this [of ipc_magic]
  have "length (str_text True ''magic'') \<le> 32" "length (str_text True ''op'') \<le> 14"
    "length (str_text True ''payload_bytes'') \<le> 80" "length (str_text True ''v'') \<le> 8"
    "length (str_text True ipc_magic) \<le> 62"
    by (simp_all add: byte_of_def ipc_magic_def)
  ultimately show ?thesis by (simp add: base_header_def)
qed

definition flat_field :: "pystr \<times> json \<Rightarrow> bool" where
  "flat_field kv \<longleftrightarrow> json_ok (snd kv) \<and> canon (snd kv) = snd kv"

lemma encode_frame_total:
  assumes op: "op \<noteq> []" "ascii op" "length op \<le> 32"
    and keys: "distinct (map fst fs)" "set base_fields \<inter> set (map fst fs) = {}" "[] \<notin> set (map fst fs)"
    and fs: "list_all flat_field fs" "members_size fs \<le> 3650"
    and n: "length payload < 10 ^ 20"
  obtains f where "encode_frame op fs payload = Inr f"
proof -
  let ?h = "base_header op (length payload) @ fs"
  have m: "map (\<lambda>(k, v). (k, canon v)) ?h = ?h"
    using fs(1) by (intro map_idI) (auto simp: base_header_def flat_field_def list_all_iff)
  have c: "canon (JObj ?h) = JObj (sort_key fst ?h)" unfolding canon.simps m ..
  have "length (sort_key fst ?h) \<noteq> 0" by (simp only: length_sort) (simp add: base_header_def)
  then have "sort_key fst ?h \<noteq> []" by (simp only: length_0_conv not_False_eq_True)
  from members_text_size [OF this] have "length (members_text True (sort_key fst ?h)) \<le> 440 + 3650"
    using header_size [OF op(3,2) n] fs(2)
    by (simp only: members_size_sort members_size_simps)
  then have l: "length (json_text True (canon (JObj ?h))) \<le> max_header_bytes"
    unfolding c by (simp add: max_header_bytes_def)
  have d: "length (nat_str k) \<le> 20" if "k < 10 ^ 20" for k by (rule nat_str_length [OF that]) simp
  have "json_ok (JObj ?h)"
    using fs(1) d [OF n] d [of 1]
    by (auto simp: base_header_def ipc_version_def flat_field_def list_all_iff)
  then show ?thesis using that op keys l by (simp add: encode_frame_Inr Let_def)
qed

section \<open>One message sent and received\<close>

lemma uint_rt: "0 \<le> i \<Longrightarrow> i < 10 ^ 19 \<Longrightarrow> json_rt True (JInt i)"
  using nat_str_small [of "nat i"] by (simp add: nat_less_iff)

lemma decode_sent:
  assumes "encode_frame op fs payload = Inr f"
    and "list_all (\<lambda>(k, v). str_rt True k \<and> json_rt True v) fs"
    and "int (length payload) \<le> mp" and "set ks = set (map fst fs)"
  shows "rbind (decode_frame f mp) (\<lambda>(h, p). rbind (require_fields h ks) (\<lambda>u. g h p)) =
    g (sent_header op fs (length payload)) payload"
proof -
  have "require_fields (sent_header op fs (length payload)) ks = Inr ()"
    using sent_header_fields(3) [OF assms(1)] assms(4) by (simp add: require_fields_def has_fields_def)
  then show ?thesis using frame_roundtrip [OF assms(1,2,3)] by simp
qed

lemma jfield_Cons: "jfield ((k, v) # kvs) k' = (if k = k' then v else jfield kvs k')"
  by (simp add: jfield_def)

lemma flat_fields [simp]:
  "flat_field (k, JStr t)" "0 \<le> i \<Longrightarrow> i < 10 ^ 19 \<Longrightarrow> flat_field (k, JInt i)"
  using nat_str_small [of "nat i"] by (simp_all add: flat_field_def nat_less_iff)

lemmas uint_bounds = max_uint_def max_int31_def

lemma text_rt: "utf8_ok t \<Longrightarrow> json_rt True (JStr t)"
  by (simp add: str_rt_def)

lemma ascii_keys [simp]: "ascii k \<Longrightarrow> str_rt True k"
  by (simp add: str_rt_def ascii_utf8_ok)

named_theorems ipc_rt

declare text_rt [ipc_rt] uint_rt [ipc_rt] uint_bounds [ipc_rt] byte_of_def [ipc_rt]

lemma ready_roundtrip:
  assumes "encode_ready pid = Inr f" "pid \<noteq> 0"
  shows "decode_ready f = Inr pid"
proof -
  have e: "0 \<le> pid" "pid \<le> max_int31" and f: "encode_frame ''ready'' [(''pid'', JInt pid)] [] = Inr f"
    using assms(1) by (auto simp: encode_ready_def rbind_Inr_iff ipc_uint_Inr)
  show ?thesis
    unfolding decode_ready_def
    by (subst decode_sent [OF f])
       (use e assms(2) in \<open>simp_all add: sent_header_fields(1,2) [OF f] jfield_Cons ipc_rt del: json_rt.simps\<close>)
qed

lemma simple_roundtrip:
  assumes f: "encode_simple op = Inr f"
  shows "decode_simple f op = Inr ()"
  unfolding decode_simple_def
  by (subst decode_sent [OF f [unfolded encode_simple_def]])
     (simp_all add: sent_header_fields(1) [OF f [unfolded encode_simple_def]])

lemma generation_roundtrip:
  assumes "encode_generation op gen = Inr f"
  shows "decode_generation f op = Inr gen"
proof -
  have e: "0 \<le> gen" "gen \<le> max_uint" and f: "encode_frame op [(''generation'', JInt gen)] [] = Inr f"
    using assms(1) by (auto simp: encode_generation_def rbind_Inr_iff ipc_uint_Inr)
  show ?thesis
    unfolding decode_generation_def
    by (subst decode_sent [OF f])
       (use e in \<open>simp_all add: sent_header_fields(1,2) [OF f] jfield_Cons ipc_rt del: json_rt.simps\<close>)
qed

lemma error_roundtrip:
  assumes "encode_error op (if request then Some i else None) (if request then None else Some i) code message = Inr f"
  shows "decode_error f op request = Inr (i, code, or_text message ''backend failure'')"
proof -
  let ?m = "or_text message ''backend failure''" and ?k = "if request then ''request_id'' else ''generation''"
  have e: "0 \<le> i" "i \<le> max_uint" "code \<noteq> []" "utf8_ok code" "length code \<le> 64"
      "?m \<noteq> []" "utf8_ok ?m" "length ?m \<le> max_error_text_bytes"
    and f: "encode_frame op [(''code'', JStr code), (''message'', JStr ?m), (?k, JInt i)] [] = Inr f"
    using assms by (auto simp: encode_error_def opt_uint_def rbind_Inr_iff ipc_uint_Inr ipc_text_Inr split: if_splits)
  show ?thesis
    unfolding decode_error_def Let_def
    by (subst decode_sent [OF f])
       (use e in \<open>auto simp: sent_header_fields(1,2) [OF f] jfield_Cons ipc_rt ipc_text_def simp del: json_rt.simps\<close>)
qed

lemma startup_error_roundtrip:
  assumes "encode_startup_error code message = Inr f"
  shows "decode_startup_error f = Inr (code, or_text message ''worker startup failed'')"
proof -
  let ?m = "or_text message ''worker startup failed''"
  have e: "code \<noteq> []" "utf8_ok code" "length code \<le> 64"
      "?m \<noteq> []" "utf8_ok ?m" "length ?m \<le> max_error_text_bytes"
    and f: "encode_frame ''startup_error'' [(''code'', JStr code), (''message'', JStr ?m)] [] = Inr f"
    using assms by (auto simp: encode_startup_error_def rbind_Inr_iff ipc_text_Inr)
  show ?thesis
    unfolding decode_startup_error_def
    by (subst decode_sent [OF f])
       (use e in \<open>auto simp: sent_header_fields(1,2) [OF f] jfield_Cons ipc_rt ipc_text_def simp del: json_rt.simps\<close>)
qed

lemma load_roundtrip:
  assumes "encode_load_artifact gen model kind abi u = Inr f"
    and "1024 \<le> u" "u \<le> mx" "int (length model) \<le> mx"
  shows "decode_load_artifact f mx = Inr (gen, model, kind, abi, u)"
proof -
  have e: "model \<noteq> []" "0 \<le> gen" "gen \<le> max_uint" "0 \<le> u" "u \<le> max_uint"
      "kind \<noteq> []" "utf8_ok kind" "length kind \<le> 256" "abi \<noteq> []" "utf8_ok abi" "length abi \<le> 256"
    and f: "encode_frame ''load_artifact''
       [(''generation'', JInt gen), (''max_uncompressed_bytes'', JInt u),
        (''model_kind'', JStr kind), (''runtime_abi'', JStr abi)] model = Inr f"
    using assms(1) by (auto simp: encode_load_artifact_def rbind_Inr_iff ipc_uint_Inr ipc_text_Inr)
  show ?thesis
    unfolding decode_load_artifact_def
    by (subst decode_sent [OF f])
       (use e assms in \<open>auto simp: sent_header_fields(1,2) [OF f] jfield_Cons ipc_rt ipc_text_def simp del: json_rt.simps\<close>)
qed

section \<open>Tensors sent and received\<close>

text \<open>An array the sender may send: rank 2, the size its shape gives, every element finite.\<close>

definition sendable :: "f32_array \<Rightarrow> int \<Rightarrow> int \<Rightarrow> bool" where
  "sendable a rows cols \<longleftrightarrow>
     a = matrix (nat rows) (nat cols) (arr_data a) \<and> int (length (arr_data a)) = rows * cols \<and>
     all_f32_finite a \<and> 1 \<le> rows \<and> 1 \<le> cols"

lemma frombuffer_f4_tobytes: "frombuffer 4 (tobytes 4 ws) = (ws :: 32 word list)"
  by (rule frombuffer_tobytes) simp_all

lemma sendable_frombuffer:
  "sendable a rows cols \<Longrightarrow> frombuffer_f4 rows cols (tobytes 4 (arr_data a)) = a"
  by (simp add: frombuffer_f4_def frombuffer_f4_tobytes sendable_def)

lemma sendable_dim: "sendable a rows cols \<Longrightarrow> arr_shape a = [nat rows, nat cols] \<and> dim a 0 = rows \<and> dim a (Suc 0) = cols"
proof -
  assume s: "sendable a rows cols"
  then have "arr_shape a = arr_shape (matrix (nat rows) (nat cols) (arr_data a))" by (simp add: sendable_def)
  then show ?thesis using s by (simp add: dim_def sendable_def)
qed

lemma sendable_length: "sendable a rows cols \<Longrightarrow> int (length (tobytes 4 (arr_data a))) = rows * cols * 4"
  by (simp add: sendable_def)

lemma predict_roundtrip:
  assumes "to_f32 inputs = Some a" and a: "sendable a rows cols"
    and "encode_predict to_f32 r gen inputs = Inr f"
    and lim: "rows \<le> max_batch" "cols \<le> max_features" "rows * cols \<le> max_values"
  shows "decode_predict f max_batch max_features max_values = Inr (r, gen, a)"
proof -
  note d = sendable_dim [OF a] and l = sendable_length [OF a]
  have e: "0 \<le> rows" "rows \<le> max_int31" "0 \<le> cols" "cols \<le> max_int31"
      "0 \<le> gen" "gen \<le> max_uint" "0 \<le> r" "r \<le> max_uint"
    and f: "encode_frame ''predict''
       [(''cols'', JInt cols), (''generation'', JInt gen), (''request_id'', JInt r), (''rows'', JInt rows)]
       (tobytes 4 (arr_data a)) = Inr f"
    using assms(1,3) d by (auto simp: encode_predict_def float32_payload_def rbind_Inr_iff ipc_uint_Inr)
  have m: "int (length (tobytes 4 (arr_data a))) \<le> max_values * 4" using l lim(3) by linarith
  show ?thesis
    unfolding decode_predict_def Let_def
    by (subst decode_sent [OF f _ m])
       (use e a lim l in \<open>auto simp: sent_header_fields(1,2) [OF f] jfield_Cons ipc_rt sendable_frombuffer
          sendable_def simp del: json_rt.simps length_tobytes\<close>)
qed

lemma result_roundtrip:
  assumes "to_f32 logits = Some a" and a: "sendable a rows cols"
    and "encode_result to_f32 r logits = Inr f"
    and lim: "cols \<le> max_classes" "rows * cols \<le> max_values"
  shows "decode_result f r rows max_classes max_values = Inr a"
proof -
  note d = sendable_dim [OF a] and l = sendable_length [OF a]
  have e: "0 \<le> rows" "rows \<le> max_int31" "0 \<le> cols" "cols \<le> max_int31" "0 \<le> r" "r \<le> max_uint"
    and f: "encode_frame ''result''
       [(''cols'', JInt cols), (''request_id'', JInt r), (''rows'', JInt rows)]
       (tobytes 4 (arr_data a)) = Inr f"
    using assms(1,3) d by (auto simp: encode_result_def float32_payload_def rbind_Inr_iff ipc_uint_Inr)
  have m: "int (length (tobytes 4 (arr_data a))) \<le> max_values * 4" using l lim(2) by linarith
  show ?thesis
    unfolding decode_result_def Let_def
    by (subst decode_sent [OF f _ m])
       (use e a lim l in \<open>auto simp: sent_header_fields(1,2) [OF f] jfield_Cons ipc_rt sendable_frombuffer
          sendable_def simp del: json_rt.simps length_tobytes\<close>)
qed

lemma result_mismatch:
  assumes "to_f32 logits = Some a" and a: "sendable a rows cols"
    and "encode_result to_f32 r logits = Inr f" and "rows * cols \<le> max_values" and "r' \<noteq> r"
  shows "decode_result f r' n max_classes max_values = Inl (ipc_err ''IPC result request ID mismatch'')"
proof -
  note d = sendable_dim [OF a] and l = sendable_length [OF a]
  have e: "0 \<le> rows" "rows \<le> max_int31" "0 \<le> cols" "cols \<le> max_int31" "0 \<le> r" "r \<le> max_uint"
    and f: "encode_frame ''result''
       [(''cols'', JInt cols), (''request_id'', JInt r), (''rows'', JInt rows)]
       (tobytes 4 (arr_data a)) = Inr f"
    using assms(1,3) d by (auto simp: encode_result_def float32_payload_def rbind_Inr_iff ipc_uint_Inr)
  have m: "int (length (tobytes 4 (arr_data a))) \<le> max_values * 4" using l assms(4) by linarith
  show ?thesis
    unfolding decode_result_def Let_def
    by (subst decode_sent [OF f _ m])
       (use e assms(5) in \<open>auto simp: sent_header_fields(1,2) [OF f] jfield_Cons ipc_rt simp del: json_rt.simps\<close>)
qed

lemma frombuffer_i8_tobytes: "frombuffer 8 (tobytes 8 ws) = (ws :: 64 word list)"
  by (rule frombuffer_tobytes) simp_all

text \<open>The frame of a data set the encoder accepts, with the sizes its header states.\<close>

lemma encode_qualification_frame:
  assumes x: "to_f32 inputs = Some a" "length (arr_data a) = prod_list (arr_shape a)"
    and y: "to_labels labels = Inr yr" "length (lab_data yr) = prod_list (lab_shape yr)"
    and f: "encode_qualification to_f32 to_labels inputs labels iterations batch mrows mfeatures mvalues = Inr f"
  obtains rows cols where "sendable a rows cols" "1 \<le> mrows" "1 \<le> mfeatures" "1 \<le> mvalues" "rows \<le> mrows"
      "cols \<le> mfeatures" "rows * cols \<le> mvalues" "cols \<le> max_int31" "iterations \<le> 100000"
      "0 \<le> batch" "batch \<le> max_int31" "\<not> list_ex i64_negative (to_int64 yr)"
      "int (length (tobytes 8 (to_int64 yr))) = rows * 8"
      "encode_frame ''qualify''
         [(''batch'', JInt batch), (''cols'', JInt cols), (''iterations'', JInt iterations), (''rows'', JInt rows),
          (''x_bytes'', JInt (rows * cols * 4)), (''y_bytes'', JInt (rows * 8))]
         (tobytes 4 (arr_data a) @ tobytes 8 (to_int64 yr)) = Inr f"
proof -
  define rows cols where "rows = dim a 0" and "cols = dim a 1"
  let ?x = "tobytes 4 (arr_data a)" and ?y = "tobytes 8 (to_int64 yr)"
  have g: "1 \<le> mrows" "1 \<le> mfeatures" "1 \<le> mvalues" "length (arr_shape a) = 2" "length (lab_shape yr) = 1"
      "arr_shape a ! 0 = lab_shape yr ! 0" "1 \<le> rows" "rows \<le> mrows" "1 \<le> cols" "cols \<le> mfeatures"
      "rows * cols \<le> mvalues" "all_f32_finite a" "\<not> list_ex i64_negative (to_int64 yr)"
      "iterations \<le> 100000" "cols \<le> max_int31" "0 \<le> batch" "batch \<le> max_int31"
    and e: "encode_frame ''qualify''
       [(''batch'', JInt batch), (''cols'', JInt cols), (''iterations'', JInt iterations), (''rows'', JInt rows),
        (''x_bytes'', JInt (int (length ?x))), (''y_bytes'', JInt (int (length ?y)))] (?x @ ?y) = Inr f"
    using f x y by (auto simp: encode_qualification_def rbind_Inr_iff ipc_uint_Inr Let_def rows_def cols_def dim_def)
  obtain r c where rc: "arr_shape a = [r, c]" using g(4) by (auto simp: length_Suc_conv numeral_2_eq_2)
  obtain r' where r': "lab_shape yr = [r']" using g(5) by (auto simp: length_Suc_conv)
  have s: "sendable a rows cols"
    using f32_array_matrix [OF rc] x(2) rc g by (simp add: sendable_def rows_def cols_def dim_def)
  have lx: "int (length ?x) = rows * cols * 4" by (rule sendable_length [OF s])
  have ly: "int (length ?y) = rows * 8"
    using y(2) g(6) rc r' by (simp add: to_int64_def rows_def dim_def)
  show thesis
    by (rule that [OF s g(1,2,3,8,10,11,15,14,16,17,13) ly e [unfolded lx ly]])
qed

lemma qualification_roundtrip:
  assumes "to_f32 inputs = Some a" "length (arr_data a) = prod_list (arr_shape a)"
    and "to_labels labels = Inr yr" "length (lab_data yr) = prod_list (lab_shape yr)"
    and "encode_qualification to_f32 to_labels inputs labels iterations batch mrows mfeatures mvalues = Inr f"
    and lim: "1 \<le> iterations" "iterations \<le> miter" "1 \<le> batch"
    and bounds: "mrows \<le> max_int31" "mvalues \<le> max_int31"
  shows "decode_qualification f mrows mfeatures mvalues miter =
    (if batch \<le> mrows then Inr (a, to_int64 yr, iterations, batch)
     else Inl (ipc_err ''invalid IPC integer field batch''))"
proof -
  let ?x = "tobytes 4 (arr_data a)" and ?y = "tobytes 8 (to_int64 yr)"
  obtain rows cols where s: "sendable a rows cols" and g: "1 \<le> mrows" "1 \<le> mfeatures" "1 \<le> mvalues"
      "rows \<le> mrows" "cols \<le> mfeatures" "rows * cols \<le> mvalues" "cols \<le> max_int31" "iterations \<le> 100000"
      "0 \<le> batch" "batch \<le> max_int31" "\<not> list_ex i64_negative (to_int64 yr)"
    and ly: "int (length ?y) = rows * 8"
    and e: "encode_frame ''qualify''
         [(''batch'', JInt batch), (''cols'', JInt cols), (''iterations'', JInt iterations), (''rows'', JInt rows),
          (''x_bytes'', JInt (rows * cols * 4)), (''y_bytes'', JInt (rows * 8))] (?x @ ?y) = Inr f"
    by (rule encode_qualification_frame [OF assms(1-5)])
  have p: "1 \<le> rows" "1 \<le> cols" "all_f32_finite a" using s by (simp_all add: sendable_def)
  have lx: "int (length ?x) = rows * cols * 4" by (rule sendable_length [OF s])
  have lxy: "int (length (?x @ ?y)) = rows * cols * 4 + rows * 8" using lx ly by simp
  have m: "int (length (?x @ ?y)) \<le> mvalues * 4 + mrows * 8" using lx ly g by simp
  have t: "take (nat (rows * cols * 4)) (?x @ ?y) = ?x" "drop (nat (rows * cols * 4)) (?x @ ?y) = ?y"
    using lx by (metis append_eq_conv_conj nat_int)+
  have b: "0 \<le> rows * cols" "rows * cols * 4 \<le> 4 * max_int31" "rows * 8 \<le> 8 * max_int31"
    using g p bounds by simp_all
  have u: "ipc_uint ''batch'' (JInt batch) mrows =
      (if batch \<le> mrows then Inr batch else Inl (ipc_err ''invalid IPC integer field batch''))"
    using g by (simp add: ipc_uint_def)
  show ?thesis
    unfolding decode_qualification_def Let_def
    by (subst decode_sent [OF e _ m])
       (use b g p s lim lx ly lxy t bounds in \<open>auto simp: sent_header_fields(1,2) [OF e] jfield_Cons ipc_rt
          sendable_frombuffer frombuffer_i8_tobytes u simp del: json_rt.simps length_tobytes length_append\<close>)
qed

section \<open>Encoders that do not refuse\<close>

lemma members_uint: "0 \<le> i \<Longrightarrow> i < 10 ^ 19 \<Longrightarrow> length (json_text True (JInt i)) \<le> 21"
  by (simp add: ipc_int_length)

lemma key_size: "ascii k \<Longrightarrow> length (str_text True k) \<le> 6 * length k + 2"
  by (intro str_text_ascii_length ascii_utf8_ok)

lemma tensor_length:
  assumes "sendable a rows cols" "rows \<le> max_int31" "cols \<le> max_int31"
  shows "length (tobytes 4 (arr_data a)) < 10 ^ 20"
proof -
  have "int (length (tobytes 4 (arr_data a))) = rows * cols * 4" by (rule sendable_length [OF assms(1)])
  also have "\<dots> \<le> max_int31 * max_int31 * 4"
    using assms by (intro mult_right_mono mult_mono) (auto simp: sendable_def max_int31_def)
  also have "\<dots> < 10 ^ 20" by (simp add: max_int31_def)
  finally show ?thesis by simp
qed

lemma text_size: "utf8_ok t \<Longrightarrow> length t \<le> k \<Longrightarrow> length (json_text True (JStr t)) \<le> 6 * k + 2"
  using str_text_ascii_length [of t] by simp

lemma encode_predict_total:
  assumes "to_f32 inputs = Some a" and s: "sendable a rows cols" "rows \<le> max_int31" "cols \<le> max_int31"
    and g: "0 \<le> gen" "gen \<le> max_uint" "0 \<le> r" "r \<le> max_uint"
  obtains f where "encode_predict to_f32 r gen inputs = Inr f"
proof -
  let ?fs = "[(''cols'', JInt cols), (''generation'', JInt gen), (''request_id'', JInt r), (''rows'', JInt rows)]"
  have p: "1 \<le> rows" "1 \<le> cols" using s(1) by (simp_all add: sendable_def)
  have m: "members_size ?fs \<le> 3650"
    using key_size [of "''cols''"] key_size [of "''generation''"] key_size [of "''request_id''"]
      key_size [of "''rows''"] members_uint [of cols] members_uint [of gen] members_uint [of r]
      members_uint [of rows] s g p by (simp add: byte_of_def uint_bounds)
  obtain f where "encode_frame ''predict'' ?fs (tobytes 4 (arr_data a)) = Inr f"
    by (rule encode_frame_total [of "''predict''" ?fs, OF _ _ _ _ _ _ _ m tensor_length [OF s]])
       (use s g p in \<open>auto simp: byte_of_def base_fields_def uint_bounds\<close>)
  then show ?thesis
    using assms(1) s g p sendable_dim [OF s(1)] that by (simp add: encode_predict_def float32_payload_def)
qed

lemma encode_result_total:
  assumes "to_f32 logits = Some a" and s: "sendable a rows cols" "rows \<le> max_int31" "cols \<le> max_int31"
    and g: "0 \<le> r" "r \<le> max_uint"
  obtains f where "encode_result to_f32 r logits = Inr f"
proof -
  let ?fs = "[(''cols'', JInt cols), (''request_id'', JInt r), (''rows'', JInt rows)]"
  have p: "1 \<le> rows" "1 \<le> cols" using s(1) by (simp_all add: sendable_def)
  have m: "members_size ?fs \<le> 3650"
    using key_size [of "''cols''"] key_size [of "''request_id''"] key_size [of "''rows''"]
      members_uint [of cols] members_uint [of r] members_uint [of rows] s g p
    by (simp add: byte_of_def uint_bounds)
  obtain f where "encode_frame ''result'' ?fs (tobytes 4 (arr_data a)) = Inr f"
    by (rule encode_frame_total [of "''result''" ?fs, OF _ _ _ _ _ _ _ m tensor_length [OF s]])
       (use s g p in \<open>auto simp: byte_of_def base_fields_def uint_bounds\<close>)
  then show ?thesis
    using assms(1) s g p sendable_dim [OF s(1)] that by (simp add: encode_result_def float32_payload_def)
qed

lemma encode_generation_total:
  assumes op: "op \<noteq> []" "ascii op" "length op \<le> 32" and g: "0 \<le> gen" "gen \<le> max_uint"
  obtains f where "encode_generation op gen = Inr f"
proof -
  let ?fs = "[(''generation'', JInt gen)]"
  have m: "members_size ?fs \<le> 3650"
    using key_size [of "''generation''"] members_uint [of gen] g by (simp add: byte_of_def uint_bounds)
  obtain f where "encode_frame op ?fs [] = Inr f"
    by (rule encode_frame_total [of op ?fs, OF op _ _ _ _ m])
       (use g in \<open>auto simp: base_fields_def uint_bounds\<close>)
  then show ?thesis using g that by (simp add: encode_generation_def)
qed

lemma encode_ready_total:
  assumes g: "0 \<le> pid" "pid \<le> max_int31"
  obtains f where "encode_ready pid = Inr f"
proof -
  let ?fs = "[(''pid'', JInt pid)]"
  have m: "members_size ?fs \<le> 3650"
    using key_size [of "''pid''"] members_uint [of pid] g by (simp add: byte_of_def uint_bounds)
  obtain f where "encode_frame ''ready'' ?fs [] = Inr f"
    by (rule encode_frame_total [of "''ready''" ?fs, OF _ _ _ _ _ _ _ m])
       (use g in \<open>auto simp: byte_of_def base_fields_def uint_bounds\<close>)
  then show ?thesis using g that by (simp add: encode_ready_def)
qed

lemma encode_load_total:
  assumes p: "model \<noteq> []" "length model < 10 ^ 20" and g: "0 \<le> gen" "gen \<le> max_uint" "0 \<le> u" "u \<le> max_uint"
    and t: "kind \<noteq> []" "utf8_ok kind" "length kind \<le> 256" "abi \<noteq> []" "utf8_ok abi" "length abi \<le> 256"
  obtains f where "encode_load_artifact gen model kind abi u = Inr f"
proof -
  let ?fs = "[(''generation'', JInt gen), (''max_uncompressed_bytes'', JInt u),
      (''model_kind'', JStr kind), (''runtime_abi'', JStr abi)]"
  have m: "members_size ?fs \<le> 3650"
    using key_size [of "''generation''"] key_size [of "''max_uncompressed_bytes''"]
      key_size [of "''model_kind''"] key_size [of "''runtime_abi''"] members_uint [of gen] members_uint [of u]
      text_size [OF t(2,3)] text_size [OF t(5,6)] g by (simp add: byte_of_def uint_bounds)
  obtain f where "encode_frame ''load_artifact'' ?fs model = Inr f"
    by (rule encode_frame_total [of "''load_artifact''" ?fs, OF _ _ _ _ _ _ _ m p(2)])
       (use g in \<open>auto simp: byte_of_def base_fields_def uint_bounds\<close>)
  then show ?thesis using p g t that by (simp add: encode_load_artifact_def ipc_text_def)
qed

text \<open>A report of at most 500 bytes always fits; see \<open>long_error_refused\<close> for a long one.\<close>

lemma encode_error_total:
  assumes op: "op \<noteq> []" "ascii op" "length op \<le> 32" and g: "0 \<le> i" "i \<le> max_uint"
    and c: "code \<noteq> []" "utf8_ok code" "length code \<le> 64" and t: "utf8_ok message" "length message \<le> 500"
  obtains f where "encode_error op (if request then Some i else None) (if request then None else Some i) code message = Inr f"
proof -
  let ?m = "or_text message ''backend failure''" and ?k = "if request then ''request_id'' else ''generation''"
  let ?fs = "[(''code'', JStr code), (''message'', JStr ?m), (?k, JInt i)]"
  have t': "?m \<noteq> []" "utf8_ok ?m" "length ?m \<le> 500"
    using t by (auto simp: or_text_def byte_of_def intro!: ascii_utf8_ok)
  have k: "length (str_text True ?k) \<le> 62"
    using key_size [of "''generation''"] key_size [of "''request_id''"] by (auto simp: byte_of_def)
  have m: "members_size ?fs \<le> 3650"
    using key_size [of "''code''"] key_size [of "''message''"] k members_uint [of i]
      text_size [OF c(2,3)] text_size [OF t'(2,3)] g by (simp add: byte_of_def uint_bounds)
  obtain f where "encode_frame op ?fs [] = Inr f"
    by (rule encode_frame_total [of op ?fs, OF op _ _ _ _ m])
       (use g in \<open>auto simp: base_fields_def uint_bounds\<close>)
  then show ?thesis
    using g c t' that
    by (auto simp: encode_error_def opt_uint_def ipc_text_def max_error_text_bytes_def split: if_splits)
qed

lemma encode_qualification_total:
  assumes x: "to_f32 inputs = Some a" and s: "sendable a rows cols"
    and y: "to_labels labels = Inr yr" "lab_shape yr = [nat rows]" "length (lab_data yr) = nat rows"
      "lab_kind yr \<in> {CHR ''i'', CHR ''u''}" "\<not> list_ex i64_negative (to_int64 yr)"
    and lim: "rows \<le> mrows" "cols \<le> mfeatures" "rows * cols \<le> mvalues" "rows \<le> max_int31" "cols \<le> max_int31"
      "0 \<le> iterations" "iterations \<le> 100000" "0 \<le> batch" "batch \<le> max_int31"
  obtains f where
    "encode_qualification to_f32 to_labels inputs labels iterations batch mrows mfeatures mvalues = Inr f"
proof -
  let ?x = "tobytes 4 (arr_data a)" and ?y = "tobytes 8 (to_int64 yr)"
  let ?fs = "[(''batch'', JInt batch), (''cols'', JInt cols), (''iterations'', JInt iterations), (''rows'', JInt rows),
          (''x_bytes'', JInt (int (length ?x))), (''y_bytes'', JInt (int (length ?y)))]"
  note d = sendable_dim [OF s]
  have p: "1 \<le> rows" "1 \<le> cols" "all_f32_finite a" using s by (simp_all add: sendable_def)
  have lx: "int (length ?x) = rows * cols * 4" by (rule sendable_length [OF s])
  have ly: "int (length ?y) = rows * 8" using y(3) p by (simp add: to_int64_def)
  have "rows * cols \<le> max_int31 * max_int31" using lim p by (intro mult_mono) auto
  then have b: "int (length ?x) \<le> 4 * (max_int31 * max_int31)" "int (length ?y) \<le> 8 * max_int31"
    using lx ly lim by linarith+
  then have n: "int (length ?x) < 10 ^ 20" "int (length ?y) < 10 ^ 11"
    by (simp_all add: max_int31_def del: length_tobytes)
  then have l: "length (?x @ ?y) < 10 ^ 20"
    using b by (simp add: max_int31_def del: length_tobytes)
  have size_x: "length (int_str (int (length ?x))) \<le> 21" using n by (intro ipc_int_length) simp_all
  have dig: "length (nat_str k) \<le> 4300" if "int k < 10 ^ 20" for k
    using nat_str_length [of k 20] that by simp
  have m: "members_size ?fs \<le> 3650"
    using key_size [of "''batch''"] key_size [of "''cols''"] key_size [of "''iterations''"] key_size [of "''rows''"]
      key_size [of "''x_bytes''"] key_size [of "''y_bytes''"] members_uint [of batch] members_uint [of cols]
      members_uint [of iterations] members_uint [of rows] size_x members_uint [of "int (length ?y)"] n lim p
    by (simp add: byte_of_def uint_bounds del: length_tobytes)
  have fl: "flat_field (k, JInt (int (length ?x)))" "flat_field (k, JInt (int (length ?y)))" for k
    using dig [of "length ?x"] dig [of "length ?y"] n by (simp_all add: flat_field_def del: length_tobytes)
  obtain f where f: "encode_frame ''qualify'' ?fs (?x @ ?y) = Inr f"
    by (rule encode_frame_total [of "''qualify''" ?fs, OF _ _ _ _ _ _ _ m l])
       (use p lim fl in \<open>auto simp: byte_of_def base_fields_def uint_bounds simp del: length_tobytes\<close>)
  have v: "1 \<le> mvalues" "Suc 0 \<le> nat rows"
    using p lim(3) mult_mono [of 1 rows 1 cols] by linarith+
  show thesis
    by (rule that [of f])
       (use f x y s d p v lim in \<open>simp add: encode_qualification_def Let_def dim_def\<close>)
qed

end
