(* ===== verification/IpcProps.thy ===== *)
theory IpcProps
  imports IpcRoundtrip
begin

text \<open>
  The properties of the inference protocol: every message of the worker conversation is
  delivered, hostile bytes are rejected with the protocol's own error, and what a decoder
  returns is inside the configured bounds. Two places where the code does not keep to that
  are proved as well: a long error report, and a metric too large for a float.
\<close>

section \<open>Delivery\<close>

definition report_ok :: "pystr \<Rightarrow> pystr \<Rightarrow> bool" where
  "report_ok code message \<longleftrightarrow>
     code \<noteq> [] \<and> utf8_ok code \<and> length code \<le> 64 \<and>
     message \<noteq> [] \<and> utf8_ok message \<and> length message \<le> 500"

definition name_ok :: "pystr \<Rightarrow> bool" where
  "name_ok t \<longleftrightarrow> t \<noteq> [] \<and> utf8_ok t \<and> length t \<le> 256"



text \<open>C17: A finite matrix within the limits is delivered bit for bit, to the worker as the
  input of a request with its number and generation, and back as the result for that number.
  A result with another number is refused.\<close>

theorem tensors_delivered:
  assumes "to_f32 arr = Some a" and s: "sendable a rows cols"
    and i: "0 \<le> gen" "gen \<le> max_uint" "0 \<le> r" "r \<le> max_uint"
    and lim: "rows \<le> max_rows" "cols \<le> max_cols" "rows * cols \<le> max_values"
      "max_rows \<le> max_int31" "max_cols \<le> max_int31"
  shows "rbind (encode_predict to_f32 r gen arr) (\<lambda>f. decode_predict f max_rows max_cols max_values) =
      Inr (r, gen, a) \<and>
    rbind (encode_result to_f32 r arr) (\<lambda>f. decode_result f r rows max_cols max_values) = Inr a \<and>
    (r' \<noteq> r \<longrightarrow> rbind (encode_result to_f32 r arr) (\<lambda>f. decode_result f r' rows max_cols max_values) =
      Inl (ipc_err ''IPC result request ID mismatch''))"
proof -
  have b: "rows \<le> max_int31" "cols \<le> max_int31" using lim by auto
  obtain p where p: "encode_predict to_f32 r gen arr = Inr p"
    by (rule encode_predict_total [of to_f32 arr a rows cols gen r, OF assms(1) s b i])
  obtain q where q: "encode_result to_f32 r arr = Inr q"
    by (rule encode_result_total [of to_f32 arr a rows cols r, OF assms(1) s b i(3,4)])
  have "decode_result q r' rows max_cols max_values = Inl (ipc_err ''IPC result request ID mismatch'')"
    if "r' \<noteq> r"
    using result_mismatch [OF assms(1) s q _ that] lim by simp
  then show ?thesis
    using predict_roundtrip [OF assms(1) s p lim(1,2,3)] result_roundtrip [OF assms(1) s q lim(2,3)] p q by simp
qed

definition one_f32 :: "32 word" where
  "one_f32 = 0x3F800000"

definition sample_tensor :: f32_array where
  "sample_tensor = matrix 1 2 [one_f32, 0]"

lemma sample_sendable: "sendable sample_tensor 1 2"
  by (simp add: sendable_def sample_tensor_def all_f32_finite_def one_f32_def f32_samples)

theorem tensors_delivered_witness:
  "rbind (encode_predict Some 9 4 sample_tensor) (\<lambda>f. decode_predict f 8 16 128) = Inr (9, 4, sample_tensor) \<and>
   rbind (encode_result Some 9 sample_tensor) (\<lambda>f. decode_result f 8 1 16 128) =
     Inl (ipc_err ''IPC result request ID mismatch'')"
  using tensors_delivered [of Some sample_tensor sample_tensor 1 2 4 9 8 16 128 8] sample_sendable
  by (simp add: uint_bounds)

text \<open>C20: A qualification data set that the parent encodes under its limits is what the worker
  decodes under the same limits: the float32 matrix and the labels as int64, provided the
  batch size is at most the row limit. Where the batch size is above it, the worker refuses
  every data set, although \<^verbatim>\<open>QualificationLimits.validate\<close> accepts such limits.\<close>

theorem qualification_delivered:
  assumes "to_f32 inputs = Some a" and "length (arr_data a) = prod_list (arr_shape a)"
    and "to_labels labels = Inr y" and "length (lab_data y) = prod_list (lab_shape y)"
    and f: "encode_qualification to_f32 to_labels inputs labels iterations batch mrows mfeatures mvalues = Inr f"
    and lim: "1 \<le> iterations" "1 \<le> batch" "mrows \<le> max_int31" "mvalues \<le> max_int31"
  shows "decode_qualification f mrows mfeatures mvalues iterations =
    (if batch \<le> mrows then Inr (a, to_int64 y, iterations, batch)
     else Inl (ipc_err ''invalid IPC integer field batch''))"
  using qualification_roundtrip [OF assms(1-5) lim(1) _ lim(2-4)] by simp

definition sample_labels :: label_array where
  "sample_labels = \<lparr>lab_shape = [1], lab_kind = CHR ''i'', lab_data = [7]\<rparr>"

lemma sample_labels_simps:
  "lab_shape sample_labels = [1]" "lab_data sample_labels = [7]" "lab_kind sample_labels = CHR ''i''"
  "to_int64 sample_labels = [7]" "\<not> i64_negative 7"
  by (simp_all add: sample_labels_def to_int64_def i64_negative_def)

theorem qualification_delivered_witness:
  "(\<exists>f. encode_qualification Some Inr sample_tensor sample_labels 5 8 10 16 128 = Inr f \<and>
        decode_qualification f 10 16 128 5 = Inr (sample_tensor, [7], 5, 8)) \<and>
   (\<exists>f. encode_qualification Some Inr sample_tensor sample_labels 5 32 10 16 128 = Inr f \<and>
        decode_qualification f 10 16 128 5 = Inl (ipc_err ''invalid IPC integer field batch''))"
proof -
  have l: "length (arr_data sample_tensor) = prod_list (arr_shape sample_tensor)"
    by (simp add: sample_tensor_def)
  have e: "\<exists>f. encode_qualification Some Inr sample_tensor sample_labels 5 b 10 16 128 = Inr f"
    if "0 \<le> b" "b \<le> 32" for b
    by (rule encode_qualification_total [of Some sample_tensor sample_tensor 1 2 Inr sample_labels
          sample_labels 10 16 128 5 b])
       (use that sample_sendable in \<open>auto simp: sample_labels_simps uint_bounds\<close>)
  have "decode_qualification f 10 16 128 5 =
      (if b \<le> 10 then Inr (sample_tensor, to_int64 sample_labels, 5, b)
       else Inl (ipc_err ''invalid IPC integer field batch''))"
    if "encode_qualification Some Inr sample_tensor sample_labels 5 b 10 16 128 = Inr f" "1 \<le> b" for f b
    using that by (intro qualification_delivered [OF _ l _ _ that(1)])
      (simp_all add: sample_labels_simps uint_bounds)
  then show ?thesis using e [of 8] e [of 32] by (fastforce simp: sample_labels_simps)
qed

section \<open>Hostile input\<close>

lemma find_newline_bound: "find_newline f = Some n \<Longrightarrow> n \<le> max_header_bytes \<and> n < length f"
  by (auto simp: find_newline_def Let_def split: if_splits)

lemma decode_frame_payload:
  assumes "decode_frame f mp = Inr (h, p)"
  shows "int (length p) \<le> mp" and "length f \<le> max_header_bytes + 1 + length p"
    and "as_int (jfield h ''payload_bytes'') = Some (int (length p))"
proof -
  obtain n where n: "find_newline f = Some n" "p = drop (n + 1) f" "int (length p) \<le> mp"
      "as_int (jfield h ''payload_bytes'') = Some (int (length p))"
    using assms by (auto simp: decode_frame_def rbind_Inr_iff Let_def ipc_uint_Inr)
  then show "int (length p) \<le> mp" "length f \<le> max_header_bytes + 1 + length p"
      "as_int (jfield h ''payload_bytes'') = Some (int (length p))"
    using find_newline_bound [of f n] by auto
qed

lemma frombuffer_sendable:
  assumes "int (length p) = rows * cols * 4" "1 \<le> rows" "1 \<le> cols" "all_f32_finite (frombuffer_f4 rows cols p)"
  shows "sendable (frombuffer_f4 rows cols p) rows cols"
proof -
  have "length p = nat (rows * cols) * 4" using assms(1) by linarith
  then have "int (length (frombuffer 4 p :: 32 word list)) = rows * cols"
    using assms(2,3) by (simp add: length_frombuffer)
  then show ?thesis using assms by (simp add: sendable_def frombuffer_f4_def)
qed

text \<open>C18: Whatever bytes the peer sends, a tensor that a decoder returns is a finite matrix
  with at least one row and column, inside every configured bound, and the frame it came in
  was at most a header longer than its data. A result has the number and the batch size
  asked for.\<close>

theorem decoded_tensors_bounded:
  "(decode_predict f max_batch max_features max_values = Inr (r, gen, a) \<longrightarrow>
     (\<exists>rows cols. sendable a rows cols \<and> rows \<le> max_batch \<and> cols \<le> max_features \<and> rows * cols \<le> max_values \<and>
        0 \<le> r \<and> r \<le> max_uint \<and> 0 \<le> gen \<and> gen \<le> max_uint \<and>
        int (length f) \<le> int max_header_bytes + 1 + 4 * (rows * cols))) \<and>
   (decode_result f expected batch max_classes max_values = Inr a \<and> 1 \<le> batch \<longrightarrow>
     (\<exists>cols. sendable a batch cols \<and> cols \<le> max_classes \<and> batch * cols \<le> max_values \<and>
        0 \<le> expected \<and> int (length f) \<le> int max_header_bytes + 1 + 4 * (batch * cols)))"
proof (intro conjI impI)
  assume "decode_predict f max_batch max_features max_values = Inr (r, gen, a)"
  then obtain h p rows cols where d: "decode_frame f (max_values * 4) = Inr (h, p)"
    and g: "1 \<le> rows" "1 \<le> cols" "rows \<le> max_batch" "cols \<le> max_features" "rows * cols \<le> max_values"
      "int (length p) = rows * cols * 4" "a = frombuffer_f4 rows cols p" "all_f32_finite a"
      "0 \<le> r" "r \<le> max_uint" "0 \<le> gen" "gen \<le> max_uint"
    by (auto simp: decode_predict_def rbind_Inr_iff Let_def ipc_uint_Inr)
  then show "\<exists>rows cols. sendable a rows cols \<and> rows \<le> max_batch \<and> cols \<le> max_features \<and> rows * cols \<le> max_values \<and>
        0 \<le> r \<and> r \<le> max_uint \<and> 0 \<le> gen \<and> gen \<le> max_uint \<and>
        int (length f) \<le> int max_header_bytes + 1 + 4 * (rows * cols)"
    using decode_frame_payload [OF d] frombuffer_sendable
    by (intro exI [of _ rows] exI [of _ cols]) auto
next
  assume "decode_result f expected batch max_classes max_values = Inr a \<and> 1 \<le> batch"
  then obtain h p cols where d: "decode_frame f (max_values * 4) = Inr (h, p)"
    and g: "1 \<le> cols" "cols \<le> max_classes" "batch * cols \<le> max_values" "1 \<le> batch" "0 \<le> expected"
      "int (length p) = batch * cols * 4" "a = frombuffer_f4 batch cols p" "all_f32_finite a"
    by (auto simp: decode_result_def rbind_Inr_iff Let_def ipc_uint_Inr)
  then show "\<exists>cols. sendable a batch cols \<and> cols \<le> max_classes \<and> batch * cols \<le> max_values \<and>
        0 \<le> expected \<and> int (length f) \<le> int max_header_bytes + 1 + 4 * (batch * cols)"
    using decode_frame_payload [OF d] frombuffer_sendable
    by (intro exI [of _ cols]) auto
qed

lemma sample_request:
  obtains f where "encode_predict Some 9 4 sample_tensor = Inr f" "decode_predict f 8 16 128 = Inr (9, 4, sample_tensor)"
proof -
  obtain f where "encode_predict Some 9 4 sample_tensor = Inr f"
    by (rule encode_predict_total [of Some sample_tensor sample_tensor 1 2 4 9])
       (use sample_sendable in \<open>auto simp: uint_bounds\<close>)
  then show thesis
    using that predict_roundtrip [of Some sample_tensor sample_tensor 1 2 9 4 f 8 16 128] sample_sendable by simp
qed

theorem decoded_tensors_bounded_witness:
  "\<exists>f. decode_predict f 8 16 128 = Inr (9, 4, sample_tensor) \<and> int (length f) \<le> 4097 + 4 * 128"
proof -
  obtain f where f: "decode_predict f 8 16 128 = Inr (9, 4, sample_tensor)" by (rule sample_request)
  then have "int (length f) \<le> 4097 + 4 * 128"
    using decoded_tensors_bounded [of f 8 16 128 9 4 sample_tensor 0 1 1]
    by (auto simp: max_header_bytes_def)
  then show ?thesis using f by blast
qed

section \<open>Rejections\<close>

lemma decode_frame_error:
  assumes "decode_frame f mp = Inl e" "0 \<le> mp"
  shows "exc_cls e = IPCProtocolError"
proof -
  have "need_fields ks h = Inl e \<Longrightarrow> exc_cls e = IPCProtocolError" for ks h
    by (induction ks h rule: need_fields.induct) (auto split: if_splits)
  then show ?thesis
    using assms by (auto simp: decode_frame_def rbind_Inl_iff Let_def loads_header_def
        dest: ipc_field_error split: if_splits)
qed

lemma require_fields_error: "require_fields h ks = Inl e \<Longrightarrow> exc_cls e = IPCProtocolError"
  by (auto simp: require_fields_def)

lemmas ipc_rejections = decode_frame_error require_fields_error ipc_field_error

text \<open>C19: Every decoder refuses bytes it does not accept with \<^verbatim>\<open>IPCProtocolError\<close> and nothing
  else, for any limits that are not negative, so the handlers of the worker and of its parent
  see every malformed frame. The decoder of metrics is the exception: an integer that no float
  holds escapes as \<^verbatim>\<open>OverflowError\<close>.\<close>

theorem decoders_reject:
  assumes "0 \<le> max_batch" "0 \<le> max_values" "0 \<le> max_model" "1 \<le> mr" "1 \<le> mf" "1 \<le> mv" "1 \<le> mi"
  shows "(decode_ready f = Inl e \<or> decode_simple f op = Inl e \<or> decode_generation f op = Inl e \<or>
      decode_error f op b = Inl e \<or> decode_startup_error f = Inl e \<or> decode_load_artifact f max_model = Inl e \<or>
      decode_predict f max_batch max_features max_values = Inl e \<or>
      decode_result f r max_batch max_classes max_values = Inl e \<or>
      decode_qualification f mr mf mv mi = Inl e \<longrightarrow> exc_cls e = IPCProtocolError) \<and>
    (decode_metrics f = Inl e \<longrightarrow> exc_cls e = IPCProtocolError \<or> exc_cls e = OverflowErr)"
proof -
  have 1: "decode_ready f = Inl e \<Longrightarrow> exc_cls e = IPCProtocolError"
    "decode_simple f op = Inl e \<Longrightarrow> exc_cls e = IPCProtocolError"
    "decode_generation f op = Inl e \<Longrightarrow> exc_cls e = IPCProtocolError"
    by (auto simp: decode_ready_def decode_simple_def decode_generation_def rbind_Inl_iff dest: ipc_rejections)
  have 2: "decode_error f op b = Inl e \<Longrightarrow> exc_cls e = IPCProtocolError"
    "decode_startup_error f = Inl e \<Longrightarrow> exc_cls e = IPCProtocolError"
    by (auto simp: decode_error_def decode_startup_error_def rbind_Inl_iff Let_def dest: ipc_rejections)
  have 3: "decode_load_artifact f max_model = Inl e \<Longrightarrow> exc_cls e = IPCProtocolError"
    using assms by (auto simp: decode_load_artifact_def rbind_Inl_iff dest: ipc_rejections)
  have 4: "decode_predict f max_batch max_features max_values = Inl e \<Longrightarrow> exc_cls e = IPCProtocolError"
    using assms by (auto simp: decode_predict_def rbind_Inl_iff Let_def dest: ipc_rejections)
  have 5: "decode_result f r max_batch max_classes max_values = Inl e \<Longrightarrow> exc_cls e = IPCProtocolError"
    using assms by (auto simp: decode_result_def rbind_Inl_iff Let_def dest: ipc_rejections)
  have 6: "decode_qualification f mr mf mv mi = Inl e \<Longrightarrow> exc_cls e = IPCProtocolError"
    using assms by (auto simp: decode_qualification_def rbind_Inl_iff Let_def dest: ipc_rejections)
  have "finite_metric n v lo hi = Inl e \<Longrightarrow> exc_cls e = IPCProtocolError \<or> exc_cls e = OverflowErr" for n v lo hi
    by (cases "as_num v"; cases "the (as_num v)")
       (auto simp: finite_metric_def rbind_Inl_iff int_to_float_def Let_def split: if_splits)
  then have "decode_metrics f = Inl e \<Longrightarrow> exc_cls e = IPCProtocolError \<or> exc_cls e = OverflowErr"
    by (auto simp: decode_metrics_def rbind_Inl_iff dest: ipc_rejections)
  then show ?thesis using 1 2 3 4 5 6 by blast
qed

theorem decoders_reject_witness:
  "\<exists>e. decode_ready ''{}'' = Inl e \<and> exc_cls e = IPCProtocolError"
proof -
  obtain e where e: "decode_ready ''{}'' = Inl e"
    by (simp add: decode_ready_def decode_frame_def find_newline_def max_header_bytes_def Let_def)
  have "exc_cls e = IPCProtocolError"
    using decoders_reject [of 1 1 1 1 1 1 1 "''{}''" e "''close''" True 1 1 1] e by simp
  then show ?thesis using e by blast
qed

section \<open>Where the protocol falls short\<close>

lemma code_points_chr_strs:
  "\<forall>n \<in> set cs. n < 1114112 \<Longrightarrow> code_points (concat (map chr_str cs)) = cs"
proof -
  have small: "\<forall>b \<in> set (utf8_encode_cp n). b < 256" if "n < 1114112" for n
    using that by (auto simp: utf8_encode_cp_def)
  have b: "map byte_of (chr_str n) = utf8_encode_cp n" if "n < 1114112" for n
    using small [OF that] by (simp add: chr_str_def map_idI)
  have "utf8_decode True (map byte_of (concat (map chr_str cs))) = Some cs" if "\<forall>n \<in> set cs. n < 1114112"
    using that
  proof (induction cs)
    case (Cons n cs)
    then show ?case using b [of n] decode_encode_cp [of n True] by simp
  qed simp
  then show "\<forall>n \<in> set cs. n < 1114112 \<Longrightarrow> code_points (concat (map chr_str cs)) = cs"
    by (simp add: code_points_def)
qed

lemma py_len_take: "py_len (py_take n t) = min n (py_len t)"
proof -
  have "\<forall>c \<in> set (take n (code_points t)). c < 1114112"
    using code_points_less by (blast dest: in_set_takeD)
  then show ?thesis by (simp add: py_take_def py_len_def code_points_chr_strs)
qed

lemma str_text_lower: "py_len t \<le> length (str_text True t)"
proof -
  have "esc_cp n \<noteq> []" for n by (simp add: esc_cp_def esc_char_def u_escape_def)
  then have one: "1 \<le> length (esc_cp n)" for n by (simp add: Suc_le_eq)
  have "length ns \<le> length (concat (map esc_cp ns))" for ns
  proof (induction ns)
    case (Cons n ns)
    then show ?case using one [of n] by simp
  qed simp
  from this [of "code_points t"] show ?thesis by (simp add: str_text_def str_body_def py_len_def)
qed

lemma member_size_le:
  "(k, v) \<in> set kvs \<Longrightarrow> length (str_text True k) + length (json_text True v) + 2 \<le> members_size kvs"
  by (induction kvs) auto

lemma frame_header_lower:
  assumes "encode_frame op fs payload = Inr f" "(k, JStr t) \<in> set fs"
  shows "py_len t < max_header_bytes"
proof -
  let ?h = "map (\<lambda>(k, v). (k, canon v)) (base_header op (length payload) @ fs)"
  have "(k, JStr t) \<in> set ?h" using assms(2) by force
  then have "length (str_text True k) + length (json_text True (JStr t)) + 2 \<le> members_size ?h"
    by (rule member_size_le)
  also have "\<dots> = members_size (sort_key fst ?h)" by (simp only: members_size_sort)
  also have "\<dots> = length (members_text True (sort_key fst ?h)) + 1"
  proof (rule members_text_size)
    have "length (sort_key fst ?h) \<noteq> 0" by (simp only: length_sort) (simp add: base_header_def)
    then show "sort_key fst ?h \<noteq> []" by (simp only: length_0_conv not_False_eq_True)
  qed
  also have "\<dots> < length (json_text True (canon (JObj (base_header op (length payload) @ fs))))"
    by (simp only: canon.simps json_text.simps) simp
  also have "\<dots> \<le> max_header_bytes" using assms(1) by (simp add: encode_frame_Inr Let_def)
  finally show ?thesis using str_text_lower [of t] by simp
qed

text \<open>The worker truncates the text of a failure to 4096 characters before it reports it,
  but no header of 4096 bytes holds such a text: every report of a long failure is refused by
  the encoder, whatever the operation, the numbers and the class of the failure are.\<close>

theorem long_error_refused:
  assumes "4096 \<le> py_len text"
  shows "(\<exists>e. encode_error op request_id gen code (py_take 4096 text) = Inl e \<and> exc_cls e = IPCProtocolError) \<and>
    (\<exists>e. encode_startup_error code (py_take 4096 text) = Inl e \<and> exc_cls e = IPCProtocolError)"
proof -
  let ?m = "py_take 4096 text"
  have l: "py_len ?m = 4096" using assms by (simp add: py_len_take)
  then have "?m \<noteq> []" by (auto simp: py_len_def code_points_def)
  then have m: "or_text ?m d = ?m" for d by (simp add: or_text_def)
  have "encode_error op request_id gen code ?m \<noteq> Inr f" for f
  proof
    assume "encode_error op request_id gen code ?m = Inr f"
    then obtain r where "encode_frame op ((''code'', JStr code) # (''message'', JStr ?m) # r) [] = Inr f"
      by (auto simp: encode_error_def rbind_Inr_iff m ipc_text_Inr)
    from frame_header_lower [OF this, of "''message''" ?m] show False
      using l by (simp add: max_header_bytes_def)
  qed
  moreover have "encode_startup_error code ?m \<noteq> Inr f" for f
  proof
    assume "encode_startup_error code ?m = Inr f"
    then have "encode_frame ''startup_error'' [(''code'', JStr code), (''message'', JStr ?m)] [] = Inr f"
      by (auto simp: encode_startup_error_def rbind_Inr_iff m ipc_text_Inr)
    from frame_header_lower [OF this, of "''message''" ?m] show False
      using l by (simp add: max_header_bytes_def)
  qed
  ultimately obtain e e' where e: "encode_error op request_id gen code ?m = Inl e"
      "encode_startup_error code ?m = Inl e'"
    by (meson sum.exhaust)
  then have "exc_cls e = IPCProtocolError \<and> exc_cls e' = IPCProtocolError"
    by (auto simp: encode_error_def encode_startup_error_def rbind_Inl_iff opt_uint_def
        dest: ipc_field_error encode_frame_error split: option.splits)
  then show ?thesis using e by blast
qed

theorem long_error_refused_witness:
  "\<exists>e. encode_error ''error'' (Some 1) None ''ValueError'' (py_take 4096 (replicate 5000 (CHR ''x''))) = Inl e \<and>
     exc_cls e = IPCProtocolError"
  using long_error_refused [of "replicate 5000 (CHR ''x'')" "''error''" "Some 1" None "''ValueError''"]
  by (simp add: ascii_py_len ascii_def byte_of_def)

lemma quotient_of_pow2: "quotient_of (2 ^ n) = (2 ^ n, 1)" 
  using quotient_of_int [of "2 ^ n"] by (simp add: Rat.of_int_def)

lemma bitlen_two_pow: "bitlen (2 ^ n :: int) = int n + 1"
  using bitlen_pow2 [of 1 n] by (simp add: bitlen_def floorlog_def)

lemma bitlen_one: "bitlen (1 :: int) = 1" by (simp add: bitlen_def floorlog_def)

lemma flog2_pow2: "flog2 (2 ^ n) = int n"
  unfolding flog2_def quotient_of_pow2 bitlen_two_pow bitlen_one Let_def prod.case by simp

lemma ulp_exp_pow2: "ulp_exp (2 ^ (52 + k)) = int k" by (simp add: ulp_exp_def flog2_pow2)

lemma round_pow2: "round_half_even ((2 :: rat) ^ (52 + k) / 2 ^ k) = 2 ^ 52"
proof -
  have "(2 :: rat) ^ (52 + k) / 2 ^ k = of_int (2 ^ 52)" by (simp add: power_add)
  then show ?thesis by (simp only: round_half_even_int)
qed

lemma fl_pow2: "fl (2 ^ (52 + k)) = 2 ^ (52 + k)"
proof -
  have s: "\<bar>2 ^ (52 + k) :: rat\<bar> = 2 ^ (52 + k)" "sgn (2 ^ (52 + k) :: rat) = 1" "((2 :: rat) ^ (52 + k) = 0) = False"
    by simp_all
  show ?thesis unfolding fl_def Let_def s ulp_exp_pow2 power_int_of_nat round_pow2 by (simp add: power_add)
qed

lemma fl1024: "fl (2 ^ 1024) = 2 ^ 1024"
  using fl_pow2 [of 972] by (simp del: power_numeral)

lemma float_2_1024: "float_of_rat (2 ^ 1024) = PInf"
  by (simp add: float_of_rat_def float_round_def fl1024 float_max_exp_def Let_def del: power_numeral)

lemma int_to_float_huge: "int_to_float (2 ^ 1024) = Inl (Exc OverflowErr ''int too large to convert to float'')"
  unfolding int_to_float_def of_int_power of_int_numeral float_2_1024 by simp

lemma huge_digits: "length (nat_str (2 ^ 1024)) \<le> 309"
  by (rule nat_str_length) simp_all

lemma metrics_frame_overflow:
  assumes o: "int_to_float N = Inl e" and N: "length (int_str N) \<le> 310" "length (nat_str (nat \<bar>N\<bar>)) \<le> 4300"
  shows "\<exists>f. encode_frame ''metrics''
       [(''accuracy'', JInt N), (''ece'', JInt 0), (''max_rss_mb'', JInt 0), (''p95_latency_ms'', JInt 0)] [] = Inr f \<and>
     decode_metrics f = Inl e"
proof -
  let ?fs = "[(''accuracy'', JInt N), (''ece'', JInt 0), (''max_rss_mb'', JInt 0), (''p95_latency_ms'', JInt 0)]"
  have j: "json_rt True (JInt N)" "flat_field (k, JInt N)" for k
    using N(2) by (simp_all add: flat_field_def)
  have m: "members_size ?fs \<le> 3650"
    using N(1) key_size [of "''accuracy''"] key_size [of "''ece''"] key_size [of "''max_rss_mb''"]
      key_size [of "''p95_latency_ms''"] members_uint [of 0] by (simp add: byte_of_def)
  have p: "length ([] :: bytes) < 10 ^ 20" by simp
  obtain f where f: "encode_frame ''metrics'' ?fs [] = Inr f"
    by (rule encode_frame_total [of "''metrics''" ?fs "[]", OF _ _ _ _ _ _ _ m p])
       (use j(2) in \<open>simp_all add: byte_of_def base_fields_def\<close>)
  have "decode_metrics f = Inl e"
    unfolding decode_metrics_def
    by (subst decode_sent [OF f])
       (use j(1) o in \<open>simp_all add: sent_header_fields(1,2) [OF f] jfield_Cons uint_rt
          byte_of_def finite_metric_def as_num_def del: json_rt.simps\<close>)
  then show ?thesis using f by blast
qed

text \<open>A well-formed metrics frame whose accuracy is an integer of 309 digits is not refused as
  a protocol error: \<^verbatim>\<open>OverflowError\<close> leaves the decoder.\<close>

theorem metrics_overflow_escapes:
  "\<exists>f. encode_frame ''metrics''
       [(''accuracy'', JInt (2 ^ 1024)), (''ece'', JInt 0), (''max_rss_mb'', JInt 0),
        (''p95_latency_ms'', JInt 0)] [] = Inr f \<and>
     decode_metrics f = Inl (Exc OverflowErr ''int too large to convert to float'')"
proof -
  have n: "nat \<bar>2 ^ 1024\<bar> = (2 ^ 1024 :: nat)" by (simp add: nat_power_eq)
  have "length (int_str (2 ^ 1024)) \<le> 310"
    using huge_digits int_str_length [of "2 ^ 1024"] unfolding n by linarith
  then show ?thesis
    using huge_digits by (intro metrics_frame_overflow [OF int_to_float_huge]) (simp_all only: n)
qed

end
