(* ===== verification/SocketFrames.thy ===== *)
theory SocketFrames
  imports Ipc
begin

text \<open>
  The transport of \<^verbatim>\<open>src/src/edgeai/runtime.py\<close>: \<^verbatim>\<open>_socket_recv_exact\<close>,
  \<^verbatim>\<open>_socket_recv_frame\<close> and \<^verbatim>\<open>_socket_send_frame\<close>. The kernel's answers are a script, one
  entry per turn of a loop: the clock the code reads, and how many bytes the call may move
  (fewer than asked for, as stream sockets do) or the error it raises. The bytes still to come
  on the connection are \<open>inflow\<close>, after which it is closed. A loop whose script has run out
  is still waiting: \<open>None\<close>.
\<close>

datatype io_step = Moved nat | Broken exc

type_synonym script = "(pyfloat \<times> io_step) list"

definition socket_remaining :: "pyfloat option \<Rightarrow> pyfloat \<Rightarrow> pyfloat option res" where
  "socket_remaining deadline now =
     (case deadline of
        None \<Rightarrow> Inr None
      | Some d \<Rightarrow>
          (let remaining = float_sub d now
           in if float_le remaining (Fin 0) then Inl (Exc TimeoutErr ''IPC operation deadline exceeded'')
              else Inr (Some remaining)))"

definition socket_closed :: exc where
  "socket_closed = Exc EOFErr ''isolated inference socket closed''"

section \<open>Receiving\<close>

text \<open>\<open>need\<close> bytes are missing: the loop of \<^verbatim>\<open>_socket_recv_exact\<close>.\<close>

fun recv_loop :: "nat \<Rightarrow> pyfloat option \<Rightarrow> script \<Rightarrow> bytes \<Rightarrow> (bytes res \<times> script \<times> bytes) option" where
  "recv_loop 0 deadline s inflow = Some (Inr [], s, inflow)"
| "recv_loop (Suc need) deadline [] inflow = None"
| "recv_loop (Suc need) deadline ((now, st) # s) inflow =
     (case socket_remaining deadline now of
        Inl e \<Rightarrow> Some (Inl e, s, inflow)
      | Inr _ \<Rightarrow>
          (case st of
             Broken e \<Rightarrow> Some (Inl e, s, inflow)
           | Moved k \<Rightarrow>
               (let got = take (min k (Suc need)) inflow
                in if got = [] then Some (Inl socket_closed, s, inflow)
                   else map_option (\<lambda>(r, s', rest). (rbind r (\<lambda>bs. Inr (got @ bs)), s', rest))
                          (recv_loop (Suc need - length got) deadline s (drop (length got) inflow)))))"

definition socket_recv_exact ::
  "nat \<Rightarrow> pyfloat option \<Rightarrow> script \<Rightarrow> bytes \<Rightarrow> (bytes res \<times> script \<times> bytes) option" where
  "socket_recv_exact n deadline s inflow = recv_loop n deadline s inflow"

definition socket_recv_frame ::
  "nat \<Rightarrow> pyfloat option \<Rightarrow> script \<Rightarrow> bytes \<Rightarrow> (bytes res \<times> script \<times> bytes) option" where
  "socket_recv_frame max_frame_bytes deadline s inflow =
     (case socket_recv_exact frame_prefix_bytes deadline s inflow of
        None \<Rightarrow> None
      | Some (Inl e, s', rest) \<Rightarrow> Some (Inl e, s', rest)
      | Some (Inr prefix, s', rest) \<Rightarrow>
          (case parse_frame_length prefix of
             Inl e \<Rightarrow> Some (Inl e, s', rest)
           | Inr frame_size \<Rightarrow>
               if frame_size < 2 \<or> max_frame_bytes < frame_size
               then Some (Inl (ipc_err ''IPC frame exceeds configured bound''), s', rest)
               else socket_recv_exact frame_size deadline s' rest))"

section \<open>Sending\<close>

text \<open>The result, the unused script, and the bytes that went out.\<close>

fun send_loop :: "bytes \<Rightarrow> pyfloat option \<Rightarrow> script \<Rightarrow> (unit res \<times> script \<times> bytes) option" where
  "send_loop [] deadline s = Some (Inr (), s, [])"
| "send_loop (b # bs) deadline [] = None"
| "send_loop (b # bs) deadline ((now, st) # s) =
     (case socket_remaining deadline now of
        Inl e \<Rightarrow> Some (Inl e, s, [])
      | Inr _ \<Rightarrow>
          (case st of
             Broken e \<Rightarrow> Some (Inl e, s, [])
           | Moved k \<Rightarrow>
               (let sent = take k (b # bs)
                in if sent = [] then Some (Inl socket_closed, s, [])
                   else map_option (\<lambda>(r, s', out). (r, s', sent @ out))
                          (send_loop (drop k (b # bs)) deadline s))))"

definition socket_send_frame :: "bytes \<Rightarrow> pyfloat option \<Rightarrow> script \<Rightarrow> (unit res \<times> script \<times> bytes) option" where
  "socket_send_frame frame deadline s =
     (case frame_length_prefix (int (length frame)) of
        Inl e \<Rightarrow> Some (Inl e, s, [])
      | Inr prefix \<Rightarrow> send_loop (prefix @ frame) deadline s)"

section \<open>Loops that make progress\<close>

text \<open>Every turn is before the deadline and moves at least one byte.\<close>

definition progress :: "pyfloat option \<Rightarrow> script \<Rightarrow> bool" where
  "progress deadline s \<longleftrightarrow>
     list_all (\<lambda>(now, st). (case socket_remaining deadline now of Inl _ \<Rightarrow> False | Inr _ \<Rightarrow> True) \<and>
       (case st of Moved k \<Rightarrow> 0 < k | Broken _ \<Rightarrow> False)) s"

lemma progress_Cons:
  "progress d ((now, st) # s) \<longleftrightarrow>
     (\<exists>r k. socket_remaining d now = Inr r \<and> st = Moved k \<and> 0 < k) \<and> progress d s"
  by (auto simp: progress_def split: sum.splits io_step.splits)

lemma recv_loop_progress:
  "progress d s \<Longrightarrow> need \<le> length s \<Longrightarrow> need \<le> length inflow \<Longrightarrow>
     \<exists>s'. recv_loop need d s inflow = Some (Inr (take need inflow), s', drop need inflow) \<and>
       progress d s' \<and> length s \<le> length s' + need"
proof (induction need d s inflow rule: recv_loop.induct)
  case (3 need d now st s inflow)
  then obtain r k where s: "socket_remaining d now = Inr r" "st = Moved k" "0 < k" "progress d s"
    by (auto simp: progress_Cons)
  define got where "got = take (min k (Suc need)) inflow"
  have g: "length got = min k (Suc need)" "got \<noteq> []"
    using s(3) 3(4) by (auto simp: got_def)
  have "\<exists>s'. recv_loop (Suc need - length got) d s (drop (length got) inflow) =
      Some (Inr (take (Suc need - length got) (drop (length got) inflow)), s',
        drop (Suc need - length got) (drop (length got) inflow)) \<and> progress d s' \<and>
        length s \<le> length s' + (Suc need - length got)"
    by (rule "3.IH" [OF s(1,2) got_def g(2) s(4)]) (use "3.prems" g s(3) in auto)
  moreover have "take (Suc need) inflow = got @ take (Suc need - length got) (drop (length got) inflow)"
  proof -
    have "got = take (length got) inflow" using g(1) by (simp add: got_def)
    then show ?thesis using g(1) take_add [of "length got" "Suc need - length got" inflow] by simp
  qed
  ultimately show ?case using s g by (auto simp: got_def [symmetric] Let_def)
qed auto

lemma send_loop_progress:
  "progress d s \<Longrightarrow> length bs \<le> length s \<Longrightarrow>
     \<exists>s'. send_loop bs d s = Some (Inr (), s', bs) \<and> progress d s'"
proof (induction bs d s rule: send_loop.induct)
  case (3 b bs d now st s)
  then obtain r k where s: "socket_remaining d now = Inr r" "st = Moved k" "0 < k" "progress d s"
    by (auto simp: progress_Cons)
  have "\<exists>s'. send_loop (drop k (b # bs)) d s = Some (Inr (), s', drop k (b # bs)) \<and> progress d s'"
    by (rule "3.IH" [OF s(1,2) refl _ s(4)]) (use "3.prems" s(3) in \<open>auto simp: take_Cons'\<close>)
  then show ?case using s by (auto simp: Let_def)
qed auto

section \<open>What any run does\<close>

lemma recv_loop_sound:
  "recv_loop need d s inflow = Some (r, s', rest) \<Longrightarrow>
     (\<exists>used. inflow = used @ rest \<and> length used \<le> need \<and> (\<forall>bs. r = Inr bs \<longrightarrow> bs = used \<and> length bs = need))"
proof (induction need d s inflow arbitrary: r s' rest rule: recv_loop.induct)
  case (3 need d now st s inflow)
  show ?case
  proof (cases "\<exists>q k. socket_remaining d now = Inr q \<and> st = Moved k \<and> take (min k (Suc need)) inflow \<noteq> []")
    case True
    then obtain q k where s: "socket_remaining d now = Inr q" "st = Moved k" by blast
    define got where "got = take (min k (Suc need)) inflow"
    have g: "got \<noteq> []" "length got \<le> Suc need" using True s by (auto simp: got_def)
    obtain r1 where r1: "recv_loop (Suc need - length got) d s (drop (length got) inflow) = Some (r1, s', rest)"
        "r = rbind r1 (\<lambda>bs. Inr (got @ bs))"
      using "3.prems" s g by (auto simp: Let_def got_def [symmetric])
    obtain used where u: "drop (length got) inflow = used @ rest" "length used \<le> Suc need - length got"
        "\<forall>bs. r1 = Inr bs \<longrightarrow> bs = used \<and> length bs = Suc need - length got"
      using "3.IH" [OF s refl _ r1(1) [unfolded got_def]] g by (auto simp: got_def)
    have "got = take (length got) inflow" by (simp add: got_def min_def)
    then have "inflow = got @ used @ rest" using u(1) by (metis append_take_drop_id)
    then show ?thesis using u g r1(2) by (intro exI [of _ "got @ used"]) (auto simp: rbind_Inr_iff)
  next
    case False
    then show ?thesis using "3.prems" by (auto simp: Let_def split: sum.splits io_step.splits if_splits)
  qed
qed auto

lemma recv_loop_returns: "need \<le> length s \<Longrightarrow> recv_loop need d s inflow \<noteq> None"
proof (induction need d s inflow rule: recv_loop.induct)
  case (3 need d now st s inflow)
  show ?case
  proof (cases "\<exists>q k. socket_remaining d now = Inr q \<and> st = Moved k \<and> take (min k (Suc need)) inflow \<noteq> []")
    case True
    then obtain q k where s: "socket_remaining d now = Inr q" "st = Moved k" by blast
    define got where "got = take (min k (Suc need)) inflow"
    have g: "got \<noteq> []" using True s by (simp add: got_def)
    then have "Suc need - length got \<le> length s" using "3.prems" by (cases got) auto
    from "3.IH" [OF s got_def g this] show ?thesis using s g by (simp add: Let_def got_def [symmetric])
  next
    case False
    then show ?thesis by (auto simp: Let_def split: sum.splits io_step.splits)
  qed
qed auto

lemma recv_loop_turns: "recv_loop need d s inflow = Some (r, s', rest) \<Longrightarrow> length s \<le> length s' + need"
proof (induction need d s inflow arbitrary: r s' rest rule: recv_loop.induct)
  case (3 need d now st s inflow)
  show ?case
  proof (cases "\<exists>q k. socket_remaining d now = Inr q \<and> st = Moved k \<and> take (min k (Suc need)) inflow \<noteq> []")
    case True
    then obtain q k where s: "socket_remaining d now = Inr q" "st = Moved k" by blast
    define got where "got = take (min k (Suc need)) inflow"
    have g: "got \<noteq> []" using True s by (simp add: got_def)
    obtain r1 where "recv_loop (Suc need - length got) d s (drop (length got) inflow) = Some (r1, s', rest)"
      using "3.prems" s g by (auto simp: Let_def got_def [symmetric])
    from "3.IH" [OF s got_def g this] show ?thesis using g by (cases got) auto
  next
    case False
    then show ?thesis using "3.prems" by (auto simp: Let_def split: sum.splits io_step.splits if_splits)
  qed
qed auto

lemma send_loop_returns: "length bs \<le> length s \<Longrightarrow> send_loop bs d s \<noteq> None"
proof (induction bs d s rule: send_loop.induct)
  case (3 b bs d now st s)
  show ?case
  proof (cases "\<exists>q k. socket_remaining d now = Inr q \<and> st = Moved k \<and> 0 < k")
    case True
    then obtain q k where s: "socket_remaining d now = Inr q" "st = Moved k" "0 < k" by blast
    have "send_loop (drop k (b # bs)) d s \<noteq> None"
      by (rule "3.IH" [OF s(1,2) refl]) (use s(3) "3.prems" in \<open>auto simp: take_Cons'\<close>)
    then show ?thesis using s by (simp add: Let_def)
  next
    case False
    then show ?thesis by (auto simp: Let_def split: sum.splits io_step.splits)
  qed
qed auto

lemma send_loop_sound: "send_loop bs d s = Some (r, s', out) \<Longrightarrow> \<exists>unsent. bs = out @ unsent \<and> (r = Inr () \<longrightarrow> unsent = [])"
proof (induction bs d s arbitrary: r s' out rule: send_loop.induct)
  case (3 b bs d now st s)
  show ?case
  proof (cases "\<exists>q k. socket_remaining d now = Inr q \<and> st = Moved k \<and> take k (b # bs) \<noteq> []")
    case True
    then obtain q k where s: "socket_remaining d now = Inr q" "st = Moved k" by blast
    have g: "take k (b # bs) \<noteq> []" using True s by simp
    obtain out' where o: "send_loop (drop k (b # bs)) d s = Some (r, s', out')" "out = take k (b # bs) @ out'"
      using "3.prems" s g by (auto simp: Let_def)
    from "3.IH" [OF s refl g o(1)] obtain u where "drop k (b # bs) = out' @ u" "r = Inr () \<longrightarrow> u = []" by blast
    then show ?thesis using append_take_drop_id [of k "b # bs"] o(2) by (intro exI [of _ u]) simp
  next
    case False
    then show ?thesis using "3.prems" by (auto simp: Let_def split: sum.splits io_step.splits if_splits)
  qed
qed auto

section \<open>Properties\<close>

lemma be_bytes_be_nat: "length p = k \<Longrightarrow> be_bytes k (be_nat p) = p"
  using le_bytes_le_nat [of "rev p"] by (simp add: be_bytes_def be_nat_def)

lemma be_nat_less: "length p = 8 \<Longrightarrow> be_nat p < 2 ^ 64"
  using le_nat_less [of "rev p"] by (simp add: be_nat_def)

text \<open>C28: A frame written in pieces of any sizes is read back whole, in pieces of any other
  sizes, and the reader stops exactly at its end, so the next frame starts there. Both loops
  return after at most one turn per byte.\<close>

theorem frames_delivered:
  assumes n: "2 \<le> length frame" "length frame \<le> max_frame_bytes" "length frame < 2 ^ 63"
    and s: "progress d s" "8 + length frame \<le> length s"
    and t: "progress d' t" "8 + length frame \<le> length t"
  shows "\<exists>wire s' t'. socket_send_frame frame d s = Some (Inr (), s', wire) \<and>
    socket_recv_frame max_frame_bytes d' t (wire @ after) = Some (Inr frame, t', after)"
proof -
  let ?p = "be_bytes 8 (length frame)"
  have p: "frame_length_prefix (int (length frame)) = Inr ?p" by (rule frame_length_prefix_total [OF n(3)])
  obtain s' where "send_loop (?p @ frame) d s = Some (Inr (), s', ?p @ frame)"
    using send_loop_progress [OF s(1), of "?p @ frame"] s(2) by auto
  then have 1: "socket_send_frame frame d s = Some (Inr (), s', ?p @ frame)"
    by (simp add: socket_send_frame_def p)
  obtain t1 where t1: "recv_loop 8 d' t ((?p @ frame) @ after) = Some (Inr ?p, t1, frame @ after)"
      "progress d' t1" "length t \<le> length t1 + 8"
    using recv_loop_progress [OF t(1), of 8 "(?p @ frame) @ after"] t(2) by auto
  obtain t2 where t2: "recv_loop (length frame) d' t1 (frame @ after) = Some (Inr frame, t2, after)"
    using recv_loop_progress [OF t1(2), of "length frame" "frame @ after"] t1(3) t(2) by auto
  have "parse_frame_length ?p = Inr (length frame)"
    using parse_length_prefix(1) [OF p] by simp
  then have "socket_recv_frame max_frame_bytes d' t ((?p @ frame) @ after) = Some (Inr frame, t2, after)"
    using t1(1) t2 n by (simp add: socket_recv_frame_def socket_recv_exact_def frame_prefix_bytes_def)
  then show ?thesis using 1 by blast
qed

definition slow_script :: "nat \<Rightarrow> script" where
  "slow_script n = replicate n (Fin 1, Moved 1)"

lemma slow_progress: "progress None (slow_script n)" "length (slow_script n) = n"
  by (simp_all add: slow_script_def progress_def socket_remaining_def list_all_iff)

theorem frames_delivered_witness:
  "\<exists>wire s' t'. socket_send_frame ''hello'' None (slow_script 13) = Some (Inr (), s', wire) \<and>
    socket_recv_frame 16 (Some (Fin 9)) (replicate 13 (Fin 1, Moved 3)) (wire @ ''next'') =
      Some (Inr ''hello'', t', ''next'')"
proof -
  have "float_sub (Fin 9) (Fin 1) = Fin 8" using float_of_small_int [of 8] by (simp add: float_sub_def)
  then have "progress (Some (Fin 9)) (replicate 13 (Fin 1, Moved 3))"
    by (simp add: progress_def socket_remaining_def Let_def list_all_iff)
  then show ?thesis
    using frames_delivered [of "''hello''" 16 None "slow_script 13" "Some (Fin 9)" "replicate 13 (Fin 1, Moved 3)"]
      slow_progress by simp
qed

lemma recv_frame_run:
  assumes "recv_loop 8 d s inflow = Some (Inr p, s', rest)" "length p = 8"
  shows "socket_recv_frame mx d s inflow =
    (if be_nat p < 2 \<or> mx < be_nat p
     then Some (Inl (ipc_err ''IPC frame exceeds configured bound''), s', rest)
     else recv_loop (be_nat p) d s' rest)"
  using assms
  by (simp add: socket_recv_frame_def socket_recv_exact_def parse_frame_length_def frame_prefix_bytes_def)

text \<open>Whatever the kernel answers and the peer sends, a reader that has as many turns as the
  largest frame has bytes returns and never takes more than that from the connection; a frame
  it returns is exactly the bytes after a correct prefix. After a length outside the bounds
  it has taken the prefix only.\<close>

theorem recv_frame_bounded:
  assumes "8 + max_frame_bytes \<le> length s"
  shows "(\<exists>r s' rest used. socket_recv_frame max_frame_bytes d s inflow = Some (r, s', rest) \<and>
      inflow = used @ rest \<and> length used \<le> 8 + max_frame_bytes \<and>
      (\<forall>f. r = Inr f \<longrightarrow> 2 \<le> length f \<and> length f \<le> max_frame_bytes \<and> used = be_bytes 8 (length f) @ f)) \<and>
    (progress d s \<and> inflow = be_bytes 8 n @ after \<and> n < 2 ^ 64 \<and> (n < 2 \<or> max_frame_bytes < n) \<longrightarrow>
      (\<exists>s'. socket_recv_frame max_frame_bytes d s inflow =
        Some (Inl (ipc_err ''IPC frame exceeds configured bound''), s', after)))"
proof (intro conjI impI)
  obtain r1 s1 rest1 where 1: "recv_loop 8 d s inflow = Some (r1, s1, rest1)"
    using recv_loop_returns [of 8 s d inflow] assms by auto
  obtain u1 where u1: "inflow = u1 @ rest1" "length u1 \<le> 8" "\<forall>bs. r1 = Inr bs \<longrightarrow> bs = u1 \<and> length bs = 8"
    using recv_loop_sound [OF 1] by auto
  define P where "P r s' rest used \<longleftrightarrow> socket_recv_frame max_frame_bytes d s inflow = Some (r, s', rest) \<and>
      inflow = used @ rest \<and> length used \<le> 8 + max_frame_bytes \<and>
      (\<forall>f. r = Inr f \<longrightarrow> 2 \<le> length f \<and> length f \<le> max_frame_bytes \<and> used = be_bytes 8 (length f) @ f)"
    for r s' rest used
  have "\<exists>r s' rest used. P r s' rest used"
  proof (cases r1)
    case (Inl e)
    then have "P (Inl e) s1 rest1 u1"
      using 1 u1 by (simp add: P_def socket_recv_frame_def socket_recv_exact_def frame_prefix_bytes_def)
    then show ?thesis by blast
  next
    case (Inr p)
    then have p: "p = u1" "length p = 8" using u1(3) by auto
    note run = recv_frame_run [OF 1 [unfolded Inr] p(2), of max_frame_bytes]
    show ?thesis
    proof (cases "be_nat p < 2 \<or> max_frame_bytes < be_nat p")
      case True
      then have "P (Inl (ipc_err ''IPC frame exceeds configured bound'')) s1 rest1 u1"
        using run u1 by (simp add: P_def)
      then show ?thesis by blast
    next
      case False
      have "length s \<le> length s1 + 8" by (rule recv_loop_turns [OF 1])
      then obtain r s' rest where 2: "recv_loop (be_nat p) d s1 rest1 = Some (r, s', rest)"
        using recv_loop_returns [of "be_nat p" s1 d rest1] assms False by auto
      then obtain u2 where u2: "rest1 = u2 @ rest" "length u2 \<le> be_nat p"
          "\<forall>bs. r = Inr bs \<longrightarrow> bs = u2 \<and> length bs = be_nat p"
        using recv_loop_sound [OF 2] by auto
      have "P r s' rest (u1 @ u2)"
        unfolding P_def run using False 2 u1(1,2) u2 be_bytes_be_nat [OF p(2)] p(1) by auto
      then show ?thesis by blast
    qed
  qed
  then show "\<exists>r s' rest used. socket_recv_frame max_frame_bytes d s inflow = Some (r, s', rest) \<and>
      inflow = used @ rest \<and> length used \<le> 8 + max_frame_bytes \<and>
      (\<forall>f. r = Inr f \<longrightarrow> 2 \<le> length f \<and> length f \<le> max_frame_bytes \<and> used = be_bytes 8 (length f) @ f)"
    by (simp only: P_def)
next
  assume a: "progress d s \<and> inflow = be_bytes 8 n @ after \<and> n < 2 ^ 64 \<and> (n < 2 \<or> max_frame_bytes < n)"
  then obtain s' where "recv_loop 8 d s inflow = Some (Inr (be_bytes 8 n), s', after)"
    using recv_loop_progress [of d s 8 inflow] assms by auto
  moreover have "be_nat (be_bytes 8 n) = n" using a by (intro be_nat_be_bytes) simp
  ultimately have "socket_recv_frame max_frame_bytes d s inflow =
      Some (Inl (ipc_err ''IPC frame exceeds configured bound''), s', after)"
    using recv_frame_run [of d s inflow "be_bytes 8 n" s' after max_frame_bytes] a by simp
  then show "\<exists>s'. socket_recv_frame max_frame_bytes d s inflow =
        Some (Inl (ipc_err ''IPC frame exceeds configured bound''), s', after)" by blast
qed

theorem recv_frame_bounded_witness:
  "\<exists>s'. socket_recv_frame 16 None (slow_script 24) (be_bytes 8 1000000 @ ''body'') =
     Some (Inl (ipc_err ''IPC frame exceeds configured bound''), s', ''body'')"
  using recv_frame_bounded [of 16 "slow_script 24" None "be_bytes 8 1000000 @ ''body''" 1000000 "''body''"]
    slow_progress by simp

end
