(* ===== verification/InferenceQueue.thy ===== *)
theory InferenceQueue
  imports PyFloat "HOL-Library.Multiset" "HOL-Library.Sublist"
begin

text \<open>
  The bounded queue of \<^verbatim>\<open>src/src/edgeai/runtime.py\<close>. Every method body between two waits
  runs under the queue's lock, so a method is one atomic operation on the record and the
  interleaving of threads is the order of the operations; \<open>pop_with_expired\<close> is the only one
  that waits, and what other threads do to the queue meanwhile is an argument of its loop. A
  payload stands for the identity of the object it is, which is all \<open>expire_payload\<close> looks
  at. The locale \<open>work_queue\<close> is what the executor relies on.
\<close>

datatype overflow_policy = DROP_OLDEST | DROP_NEWEST | REJECT

datatype execution_mode = THREAD | PROCESS

record 'p work_item =
  payload :: 'p
  enqueued_monotonic :: pyfloat
  deadline_monotonic :: "pyfloat option"

record 'p infer_queue =
  capacity :: nat
  policy :: overflow_policy
  items :: "'p work_item list"
  dropped :: nat
  expired :: nat
  accepted :: nat

definition queue_init :: "int \<Rightarrow> overflow_policy \<Rightarrow> 'p infer_queue res" where
  "queue_init cap pol =
     rbind (guard_r (1 \<le> cap) (Exc ValueError ''capacity must be a positive integer'')) (\<lambda>_.
     Inr \<lparr>capacity = nat cap, policy = pol, items = [], dropped = 0, expired = 0, accepted = 0\<rparr>)"

definition queue_deadline :: "pyfloat \<Rightarrow> pyfloat option \<Rightarrow> pyfloat option res" where
  "queue_deadline now deadline_s =
     (case deadline_s of
        None \<Rightarrow> Inr None
      | Some d \<Rightarrow>
          if \<not> is_finite d \<or> float_lt d (Fin 0)
          then Inl (Exc ValueError ''deadline_s must be finite and >= 0'')
          else Inr (Some (float_add now d)))"

section \<open>Operations\<close>

text \<open>The part of \<open>push_with_evicted\<close> under the lock, for an item already made.\<close>

definition push_item :: "'p work_item \<Rightarrow> ('p infer_queue, bool \<times> 'p work_item option) prog" where
  "push_item item s =
     (if capacity s \<le> length (items s) then
        (case policy s of
           REJECT \<Rightarrow> (Inl (Exc QueueFull ''inference queue full''), s)
         | DROP_NEWEST \<Rightarrow> (Inr (False, None), s\<lparr>dropped := dropped s + 1\<rparr>)
         | DROP_OLDEST \<Rightarrow>
             (Inr (True, Some (hd (items s))),
              s\<lparr>items := tl (items s) @ [item], dropped := dropped s + 1, accepted := accepted s + 1\<rparr>))
      else (Inr (True, None), s\<lparr>items := items s @ [item], accepted := accepted s + 1\<rparr>))"

definition push_with_evicted ::
  "pyfloat \<Rightarrow> 'p \<Rightarrow> pyfloat option \<Rightarrow> ('p infer_queue, bool \<times> 'p work_item option) prog" where
  "push_with_evicted now p deadline_s =
     bind_p (lift_r (\<lambda>_. queue_deadline now deadline_s)) (\<lambda>d.
     push_item \<lparr>payload = p, enqueued_monotonic = now, deadline_monotonic = d\<rparr>)"

definition push :: "pyfloat \<Rightarrow> 'p \<Rightarrow> pyfloat option \<Rightarrow> ('p infer_queue, bool) prog" where
  "push now p deadline_s = bind_p (push_with_evicted now p deadline_s) (\<lambda>(ok, _). ret ok)"

definition item_expired :: "pyfloat \<Rightarrow> 'p work_item \<Rightarrow> bool" where
  "item_expired now i = (case deadline_monotonic i of None \<Rightarrow> False | Some d \<Rightarrow> float_le d now)"

text \<open>The inner loop of \<open>pop_with_expired\<close>: the item it returns, those it drops, the rest.\<close>

fun pop_scan :: "pyfloat \<Rightarrow> 'p work_item list \<Rightarrow> 'p work_item option \<times> 'p work_item list \<times> 'p work_item list" where
  "pop_scan now [] = (None, [], [])"
| "pop_scan now (i # is) =
     (if item_expired now i
      then (let (r, ex, rest) = pop_scan now is in (r, i # ex, rest))
      else (Some i, [], is))"

definition pop_turn :: "pyfloat \<Rightarrow> 'p infer_queue \<Rightarrow> 'p work_item option \<times> 'p work_item list \<times> 'p infer_queue" where
  "pop_turn now s =
     (let (r, ex, rest) = pop_scan now (items s)
      in (r, ex, s\<lparr>items := rest, expired := expired s + length ex\<rparr>))"

text \<open>
  The outer loop: at each turn the clock is read, after the wait during which other threads
  changed the queue. A loop whose turns have run out is still waiting: \<open>None\<close>.
\<close>

fun pop_loop ::
  "pyfloat \<Rightarrow> (pyfloat \<times> ('p infer_queue \<Rightarrow> 'p infer_queue)) list \<Rightarrow> 'p work_item list \<Rightarrow> 'p infer_queue \<Rightarrow>
     (('p work_item option \<times> 'p work_item list) \<times> 'p infer_queue) option" where
  "pop_loop end_t [] ex s = None"
| "pop_loop end_t ((now, others) # turns) ex s =
     (let (r, ex', s') = pop_turn now (others s)
      in case r of
           Some i \<Rightarrow> Some ((Some i, ex @ ex'), s')
         | None \<Rightarrow>
             if float_le (float_sub end_t now) (Fin 0) then Some ((None, ex @ ex'), s')
             else pop_loop end_t turns (ex @ ex') s')"

definition pop_with_expired ::
  "pyfloat \<Rightarrow> pyfloat \<Rightarrow> (pyfloat \<times> ('p infer_queue \<Rightarrow> 'p infer_queue)) list \<Rightarrow> 'p infer_queue \<Rightarrow>
     (('p work_item option \<times> 'p work_item list) res \<times> 'p infer_queue) option" where
  "pop_with_expired start wait_s turns s =
     (if \<not> is_finite wait_s \<or> float_lt wait_s (Fin 0)
      then Some (Inl (Exc ValueError ''wait_s must be finite and >= 0''), s)
      else map_option (\<lambda>(r, s'). (Inr r, s')) (pop_loop (float_add start wait_s) turns [] s))"

definition pop ::
  "pyfloat \<Rightarrow> (pyfloat \<times> ('p infer_queue \<Rightarrow> 'p infer_queue)) list \<Rightarrow> 'p infer_queue \<Rightarrow>
     ('p work_item option res \<times> 'p infer_queue) option" where
  "pop start turns s =
     map_option (\<lambda>(r, s'). (rbind r (\<lambda>(i, _). Inr i), s')) (pop_with_expired start (Fin 0) turns s)"

fun remove_payload :: "'p \<Rightarrow> 'p work_item list \<Rightarrow> 'p work_item list option" where
  "remove_payload p [] = None"
| "remove_payload p (i # is) =
     (if payload i = p then Some is else map_option ((#) i) (remove_payload p is))"

definition expire_payload :: "'p \<Rightarrow> 'p infer_queue \<Rightarrow> bool \<times> 'p infer_queue" where
  "expire_payload p s =
     (case remove_payload p (items s) of
        None \<Rightarrow> (False, s)
      | Some is \<Rightarrow> (True, s\<lparr>items := is, expired := expired s + 1\<rparr>))"

definition drain :: "'p infer_queue \<Rightarrow> 'p work_item list \<times> 'p infer_queue" where
  "drain s = (items s, s\<lparr>items := []\<rparr>)"

record queue_stats =
  st_depth :: nat
  st_capacity :: nat
  st_accepted :: nat
  st_dropped :: nat
  st_expired :: nat

definition stats :: "'p infer_queue \<Rightarrow> queue_stats" where
  "stats s = \<lparr>st_depth = length (items s), st_capacity = capacity s, st_accepted = accepted s,
     st_dropped = dropped s, st_expired = expired s\<rparr>"

section \<open>The scan\<close>

lemma pop_scan_split:
  "pop_scan now is = (r, ex, rest) \<Longrightarrow>
     is = ex @ (case r of None \<Rightarrow> [] | Some i \<Rightarrow> [i]) @ rest \<and> (r = None \<longrightarrow> rest = []) \<and>
     list_all (item_expired now) ex \<and> (\<forall>i. r = Some i \<longrightarrow> \<not> item_expired now i)"
  by (induction now "is" arbitrary: r ex rest rule: pop_scan.induct)
     (auto split: if_splits prod.splits)

text \<open>The loop against the list functions: skip what has expired, take the next.\<close>

lemma pop_scan_spec:
  "pop_scan now is =
     (let ex = takeWhile (item_expired now) is; live = dropWhile (item_expired now) is
      in case live of [] \<Rightarrow> (None, ex, []) | i # rest \<Rightarrow> (Some i, ex, rest))"
proof (induction "is")
  case (Cons i "is")
  then show ?case
    by (cases "item_expired now i"; cases "dropWhile (item_expired now) is")
       (simp_all add: Let_def del: dropWhile_eq_Nil_conv)
qed simp

lemma remove_payload_split:
  "remove_payload p is = Some js \<Longrightarrow> \<exists>as i bs. is = as @ i # bs \<and> js = as @ bs \<and> payload i = p \<and> p \<notin> payload ` set as"
proof (induction p "is" arbitrary: js rule: remove_payload.induct)
  case (2 p i "is")
  show ?case
  proof (cases "payload i = p")
    case True
    then show ?thesis using "2.prems" by (intro exI [of _ "[]"]) auto
  next
    case False
    then obtain ks where "remove_payload p is = Some ks" "js = i # ks" using "2.prems" by auto
    from "2.IH" [OF False this(1)] obtain as j bs where
      "is = as @ j # bs \<and> ks = as @ bs \<and> payload j = p \<and> p \<notin> payload ` set as" by blast
    then show ?thesis using False \<open>js = i # ks\<close> by (intro exI [of _ "i # as"]) auto
  qed
qed simp

lemma remove_payload_None: "remove_payload p is = None \<longleftrightarrow> p \<notin> payload ` set is"
  by (induction p "is" rule: remove_payload.induct) auto

section \<open>The contract the executor relies on\<close>

text \<open>
  What was admitted is either still pending, in order, or has been handed out or removed:
  nothing is lost and nothing appears twice. The operations are given by the items a state
  holds; an operation on the head takes a prefix, the others keep the order.
\<close>

definition ledger :: "'i list \<Rightarrow> 'i list \<Rightarrow> 'i multiset \<Rightarrow> 'i list \<Rightarrow> bool" where
  "ledger admitted delivered gone pending \<longleftrightarrow>
     mset admitted = mset delivered + gone + mset pending \<and> subseq (delivered @ pending) admitted"

lemma subseq_skip: "subseq (xs @ zs) (xs @ ys @ zs)"
  using list_emb_append_mono [of "(=)" xs xs zs "ys @ zs"] list_emb_append2 [of "(=)" zs zs ys] by simp

lemma ledger_skip:
  assumes "ledger adm del gone (xs @ ys @ zs)"
  shows "ledger adm del (gone + mset ys) (xs @ zs)"
proof -
  have "subseq (del @ xs @ zs) (del @ xs @ ys @ zs)" using subseq_skip [of "del @ xs" zs ys] by simp
  then have "subseq (del @ xs @ zs) adm" using assms unfolding ledger_def by (blast intro: subseq_order.trans)
  then show ?thesis using assms by (simp add: ledger_def)
qed

lemma ledger_deliver: "ledger adm del gone (xs @ ys) \<Longrightarrow> ledger adm (del @ xs) gone ys"
  by (simp add: ledger_def)

lemma ledger_admit: "ledger adm del gone xs \<Longrightarrow> ledger (adm @ [x]) del gone (xs @ [x])"
  by (simp add: ledger_def flip: append_assoc)

locale work_queue =
  fixes held :: "'s \<Rightarrow> 'i list" and room :: "'s \<Rightarrow> nat"
    and put :: "'i \<Rightarrow> ('s, bool \<times> 'i option) prog"
    and take_turn :: "'t \<Rightarrow> 's \<Rightarrow> 'i option \<times> 'i list \<times> 's"
    and discard :: "'k \<Rightarrow> 's \<Rightarrow> bool \<times> 's"
    and due :: "'t \<Rightarrow> 'i \<Rightarrow> bool"
  assumes put_refused: "put x s = (r, t) \<Longrightarrow> r = Inl e \<or> r = Inr (False, ev) \<Longrightarrow> held t = held s"
    and put_added: "put x s = (Inr (True, None), t) \<Longrightarrow> held t = held s @ [x] \<and> length (held s) < room s"
    and put_evicted: "put x s = (Inr (True, Some y), t) \<Longrightarrow> 0 < room s \<Longrightarrow> \<exists>ys. held s = y # ys \<and> held t = ys @ [x]"
    and put_room: "put x s = (r, t) \<Longrightarrow> room t = room s"
    and take_split: "take_turn now s = (n, ex, t) \<Longrightarrow>
      held s = ex @ (case n of None \<Rightarrow> [] | Some i \<Rightarrow> [i]) @ held t \<and> (n = None \<longrightarrow> held t = [])"
    and take_due: "take_turn now s = (n, ex, t) \<Longrightarrow> list_all (due now) ex"
    and take_live: "take_turn now s = (Some i, ex, t) \<Longrightarrow> \<not> due now i"
    and take_room: "take_turn now s = (n, ex, t) \<Longrightarrow> room t = room s"
    and discard_one: "discard k s = (True, t) \<Longrightarrow> \<exists>as i bs. held s = as @ i # bs \<and> held t = as @ bs"
    and discard_none: "discard k s = (False, t) \<Longrightarrow> held t = held s"
    and discard_room: "discard k s = (b, t) \<Longrightarrow> room t = room s"
begin

lemma put_ledger:
  assumes "ledger adm del gone (held s)" "put x s = (Inr (True, ev), t)" "0 < room s"
  shows "ledger (adm @ [x]) del (gone + (case ev of None \<Rightarrow> {#} | Some y \<Rightarrow> {#y#})) (held t)"
proof (cases ev)
  case None
  then show ?thesis using assms put_added [of x s t] ledger_admit by fastforce
next
  case (Some y)
  then obtain ys where y: "held s = y # ys" "held t = ys @ [x]" using put_evicted assms(2,3) by blast
  then have "ledger adm del (gone + mset [y]) ys" using assms(1) ledger_skip [of adm del gone "[]" "[y]" ys] by simp
  then show ?thesis using y Some ledger_admit by fastforce
qed

lemma put_bounded:
  assumes "put x s = (r, t)" "length (held s) \<le> room s" "0 < room s"
  shows "length (held t) \<le> room t"
proof -
  consider (err) e where "r = Inl e" | (no) ev where "r = Inr (False, ev)" | (add) "r = Inr (True, None)"
    | (ev) y where "r = Inr (True, Some y)"
    by (cases r) (metis (full_types) option.exhaust surj_pair)+
  then show ?thesis
  proof cases
    case add
    then show ?thesis using assms put_added [of x s t] put_room by fastforce
  next
    case (ev y)
    then show ?thesis using assms put_evicted [of x s y t] put_room by fastforce
  qed (use assms put_refused put_room in fastforce)+
qed

lemma take_ledger:
  assumes "ledger adm del gone (held s)" "take_turn now s = (n, ex, t)"
  shows "ledger adm (del @ (case n of None \<Rightarrow> [] | Some i \<Rightarrow> [i])) (gone + mset ex) (held t)"
  using assms(1) take_split [OF assms(2)] ledger_skip [of adm del gone "[]" ex]
  by (auto intro!: ledger_deliver)

lemma discard_ledger:
  assumes "ledger adm del gone (held s)" "discard k s = (b, t)"
  obtains g where "ledger adm del (gone + g) (held t)" "size g = (if b then 1 else 0)"
proof (cases b)
  case True
  then obtain as i bs where h: "held s = as @ i # bs" "held t = as @ bs"
    using discard_one [of k s t] assms(2) True by auto
  then have "ledger adm del (gone + mset [i]) (held t)"
    using assms(1) ledger_skip [of adm del gone as "[i]" bs] by simp
  then show thesis using that [of "{#i#}"] True by simp
next
  case False
  then have "ledger adm del (gone + {#}) (held t)" using assms discard_none by simp
  then show thesis using that [of "{#}"] False by simp
qed

end

interpretation bq: work_queue items capacity push_item pop_turn expire_payload item_expired
proof
  fix x y :: "'a work_item" and s t :: "'a infer_queue" and r e ev now ex i k b
  show "push_item x s = (r, t) \<Longrightarrow> r = Inl e \<or> r = Inr (False, ev) \<Longrightarrow> items t = items s"
    by (auto simp: push_item_def split: if_splits overflow_policy.splits)
  show "push_item x s = (Inr (True, None), t) \<Longrightarrow> items t = items s @ [x] \<and> length (items s) < capacity s"
    by (auto simp: push_item_def split: if_splits overflow_policy.splits)
  show "push_item x s = (Inr (True, Some y), t) \<Longrightarrow> 0 < capacity s \<Longrightarrow> \<exists>ys. items s = y # ys \<and> items t = ys @ [x]"
    by (cases "items s") (auto simp: push_item_def split: if_splits overflow_policy.splits)
  show "push_item x s = (r, t) \<Longrightarrow> capacity t = capacity s"
    by (auto simp: push_item_def split: if_splits overflow_policy.splits)
  show "pop_turn now s = (r', ex, t) \<Longrightarrow>
      items s = ex @ (case r' of None \<Rightarrow> [] | Some i \<Rightarrow> [i]) @ items t \<and> (r' = None \<longrightarrow> items t = [])" for r'
    using pop_scan_split by (fastforce simp: pop_turn_def split: prod.splits)
  show "pop_turn now s = (r', ex, t) \<Longrightarrow> list_all (item_expired now) ex" for r'
    using pop_scan_split by (fastforce simp: pop_turn_def list_all_iff split: prod.splits)
  show "pop_turn now s = (Some i, ex, t) \<Longrightarrow> \<not> item_expired now i"
    using pop_scan_split by (fastforce simp: pop_turn_def split: prod.splits)
  show "pop_turn now s = (r', ex, t) \<Longrightarrow> capacity t = capacity s" for r'
    by (auto simp: pop_turn_def split: prod.splits)
  show "expire_payload k s = (True, t) \<Longrightarrow> \<exists>as i bs. items s = as @ i # bs \<and> items t = as @ bs"
    using remove_payload_split by (fastforce simp: expire_payload_def split: option.splits)
  show "expire_payload k s = (False, t) \<Longrightarrow> items t = items s"
    by (auto simp: expire_payload_def split: option.splits)
  show "expire_payload k s = (b, t) \<Longrightarrow> capacity t = capacity s"
    by (auto simp: expire_payload_def split: option.splits)
qed

section \<open>Any order of operations\<close>

text \<open>
  The operations of all threads, in the order in which they hold the lock, with a log of what
  became of each item.
\<close>

datatype 'p queue_event =
  Push pyfloat 'p "pyfloat option" | PopTurn pyfloat | ExpirePayload 'p | Drain

record 'p queue_log =
  admitted :: "'p work_item list"
  delivered :: "'p work_item list"
  evicted :: "'p work_item multiset"
  timed_out :: "'p work_item multiset"
  drained :: "'p work_item multiset"
  refused :: nat

definition empty_log :: "'p queue_log" where
  "empty_log = \<lparr>admitted = [], delivered = [], evicted = {#}, timed_out = {#}, drained = {#}, refused = 0\<rparr>"

definition opt_items :: "'i option \<Rightarrow> 'i list" where
  "opt_items x = (case x of None \<Rightarrow> [] | Some i \<Rightarrow> [i])"

fun queue_step :: "'p queue_event \<Rightarrow> 'p infer_queue \<times> 'p queue_log \<Rightarrow> 'p infer_queue \<times> 'p queue_log" where
  "queue_step (Push now p d) (s, l) =
     (case push_with_evicted now p d s of
        (Inr (True, ev), t) \<Rightarrow>
          (t, l\<lparr>admitted := admitted l @ [last (items t)], evicted := evicted l + mset (opt_items ev)\<rparr>)
      | (Inr (False, _), t) \<Rightarrow> (t, l\<lparr>refused := refused l + 1\<rparr>)
      | (Inl _, t) \<Rightarrow> (t, l))"
| "queue_step (PopTurn now) (s, l) =
     (let (r, ex, t) = pop_turn now s
      in (t, l\<lparr>delivered := delivered l @ opt_items r, timed_out := timed_out l + mset ex\<rparr>))"
| "queue_step (ExpirePayload p) (s, l) =
     (let (b, t) = expire_payload p s
      in (t, l\<lparr>timed_out := timed_out l + (mset (items s) - mset (items t))\<rparr>))"
| "queue_step Drain (s, l) =
     (let (is, t) = drain s in (t, l\<lparr>drained := drained l + mset is\<rparr>))"

definition queue_run :: "'p queue_event list \<Rightarrow> 'p infer_queue \<Rightarrow> 'p infer_queue \<times> 'p queue_log" where
  "queue_run es s = fold queue_step es (s, empty_log)"

text \<open>The counters and the contents account for every item.\<close>

definition queue_ok :: "'p infer_queue \<Rightarrow> 'p queue_log \<Rightarrow> bool" where
  "queue_ok s l \<longleftrightarrow>
     ledger (admitted l) (delivered l) (evicted l + timed_out l + drained l) (items s) \<and>
     0 < capacity s \<and> length (items s) \<le> capacity s \<and>
     accepted s = length (admitted l) \<and> expired s = size (timed_out l) \<and>
     dropped s = size (evicted l) + refused l"

lemma push_step_ok:
  assumes "queue_ok s l"
  shows "(case queue_step (Push now p d) (s, l) of (t, k) \<Rightarrow> queue_ok t k)"
proof (cases "queue_deadline now d")
  case (Inl e)
  then show ?thesis using assms by (simp add: push_with_evicted_def bind_p_def lift_r_def)
next
  case (Inr dl)
  let ?i = "\<lparr>payload = p, enqueued_monotonic = now, deadline_monotonic = dl\<rparr>"
  obtain r t where r: "push_item ?i s = (r, t)" by fastforce
  then have p: "push_with_evicted now p d s = (r, t)"
    using Inr by (simp add: push_with_evicted_def bind_p_def lift_r_def)
  have b: "length (items t) \<le> capacity t" "capacity t = capacity s"
    using bq.put_bounded [OF r] bq.put_room [OF r] assms by (simp_all add: queue_ok_def)
  show ?thesis
  proof (cases "\<exists>ev. r = Inr (True, ev)")
    case True
    then obtain ev where ev: "r = Inr (True, ev)" by blast
    have l: "last (items t) = ?i" "accepted t = accepted s + 1" "expired t = expired s"
        "dropped t = dropped s + length (opt_items ev)"
      using r ev by (auto simp: push_item_def opt_items_def split: if_splits overflow_policy.splits)
    have "ledger (admitted l @ [?i]) (delivered l)
        (evicted l + timed_out l + drained l + (case ev of None \<Rightarrow> {#} | Some y \<Rightarrow> {#y#})) (items t)"
      using bq.put_ledger [OF _ r [unfolded ev]] assms by (simp add: queue_ok_def)
    then show ?thesis
      using assms b l p ev by (cases ev) (simp_all add: queue_ok_def opt_items_def ac_simps)
  next
    case False
    then have "t = s \<and> (\<exists>e. r = Inl e) \<or> t = s\<lparr>dropped := dropped s + 1\<rparr> \<and> r = Inr (False, None)"
      using r by (auto simp: push_item_def split: if_splits overflow_policy.splits)
    then show ?thesis using assms p by (auto simp: queue_ok_def)
  qed
qed

lemma queue_step_ok:
  assumes "queue_ok s l"
  shows "(case queue_step e (s, l) of (t, k) \<Rightarrow> queue_ok t k)"
proof (cases e)
  case (Push now p d)
  then show ?thesis using push_step_ok [OF assms, of now p d] by (simp only:)
next
  case (PopTurn now)
  obtain r ex t where r: "pop_turn now s = (r, ex, t)" by (metis prod_cases3)
  have "ledger (admitted l) (delivered l @ opt_items r) (evicted l + timed_out l + drained l + mset ex) (items t)"
    using bq.take_ledger [OF _ r] assms by (simp add: queue_ok_def opt_items_def)
  moreover have "length (items t) \<le> length (items s)" "capacity t = capacity s" "accepted t = accepted s"
      "expired t = expired s + length ex" "dropped t = dropped s"
    using bq.take_split [OF r] r by (auto simp: pop_turn_def split: prod.splits)
  ultimately show ?thesis using PopTurn r assms by (simp add: queue_ok_def ac_simps)
next
  case (ExpirePayload p)
  obtain b t where b: "expire_payload p s = (b, t)" by fastforce
  show ?thesis
  proof (cases b)
    case True
    then obtain as i bs where i: "items s = as @ i # bs" "items t = as @ bs"
      using bq.discard_one [of p s t] b True by auto
    then have "ledger (admitted l) (delivered l) (evicted l + timed_out l + drained l + mset [i]) (items t)"
      using assms ledger_skip [of _ _ _ as "[i]" bs] by (simp add: queue_ok_def)
    moreover have "capacity t = capacity s" "accepted t = accepted s" "expired t = expired s + 1" "dropped t = dropped s"
      using b True by (auto simp: expire_payload_def split: option.splits)
    ultimately show ?thesis using ExpirePayload b assms i by (simp add: queue_ok_def ac_simps)
  next
    case False
    then have "t = s" using b by (auto simp: expire_payload_def split: option.splits)
    then show ?thesis using ExpirePayload b assms by simp
  qed
next
  case Drain
  have "ledger (admitted l) (delivered l) (evicted l + timed_out l + drained l + mset (items s)) []"
    using assms ledger_skip [of _ _ _ "[]" "items s" "[]"] by (simp add: queue_ok_def)
  then show ?thesis using Drain assms by (simp add: drain_def queue_ok_def ac_simps)
qed

lemma queue_run_ok: "queue_ok s empty_log \<Longrightarrow> queue_run es s = (t, l) \<Longrightarrow> queue_ok t l"
proof -
  have "queue_ok s k \<Longrightarrow> fold queue_step es (s, k) = (t, l) \<Longrightarrow> queue_ok t l" for k
  proof (induction es arbitrary: s k)
    case (Cons e es)
    then show ?case using queue_step_ok [of s k e] by (cases "queue_step e (s, k)") auto
  qed simp
  then show "queue_ok s empty_log \<Longrightarrow> queue_run es s = (t, l) \<Longrightarrow> queue_ok t l"
    by (simp add: queue_run_def)
qed

lemma queue_init_ok: "queue_init cap pol = Inr s \<Longrightarrow> queue_ok s empty_log"
  by (auto simp: queue_init_def rbind_Inr_iff queue_ok_def ledger_def empty_log_def)

section \<open>Properties\<close>

text \<open>C24: Through any operations of any threads, the queue never holds more than its capacity and
  loses nothing: every item it admitted was delivered, evicted, timed out, drained, or is
  still pending; delivered and pending items are in the order of admission; and the published
  counters are exactly these numbers.\<close>

theorem queue_conserves:
  assumes "queue_init cap pol = Inr s" and "queue_run es s = (t, l)"
  shows "int (length (items t)) \<le> cap \<and>
    mset (admitted l) = mset (delivered l) + evicted l + timed_out l + drained l + mset (items t) \<and>
    subseq (delivered l @ items t) (admitted l) \<and>
    st_accepted (stats t) = length (delivered l) + size (evicted l) + st_expired (stats t) + size (drained l) + st_depth (stats t) \<and>
    st_dropped (stats t) = size (evicted l) + refused l"
proof -
  have ok: "queue_ok t l" by (rule queue_run_ok [OF queue_init_ok [OF assms(1)] assms(2)])
  have step: "capacity (fst (queue_step e x)) = capacity (fst x)" for e and x :: "'a infer_queue \<times> 'a queue_log"
    by (cases e; cases x)
       (auto simp: push_with_evicted_def bind_p_def lift_r_def push_item_def pop_turn_def expire_payload_def drain_def
         split: sum.splits prod.splits overflow_policy.splits option.splits bool.splits)
  have "capacity (fst (fold queue_step es x)) = capacity (fst x)" for x :: "'a infer_queue \<times> 'a queue_log"
    by (induction es arbitrary: x) (simp_all add: step)
  from this [of "(s, empty_log)"] have "capacity t = capacity s" using assms(2) by (simp add: queue_run_def)
  moreover have "int (capacity s) = cap" using assms(1) by (auto simp: queue_init_def rbind_Inr_iff)
  ultimately have "int (length (items t)) \<le> cap" using ok by (simp add: queue_ok_def)
  moreover have "size (mset (admitted l)) =
      size (mset (delivered l) + (evicted l + timed_out l + drained l) + mset (items t))"
    using ok by (simp only: queue_ok_def ledger_def)
  ultimately show ?thesis using ok by (auto simp: queue_ok_def ledger_def stats_def ac_simps)
qed

definition sample_item :: "nat \<Rightarrow> nat work_item" where
  "sample_item n = \<lparr>payload = n, enqueued_monotonic = Fin 1, deadline_monotonic = None\<rparr>"

definition sample_events :: "nat queue_event list" where
  "sample_events = [Push (Fin 1) 1 None, Push (Fin 1) 2 None, Push (Fin 1) 3 None, PopTurn (Fin 2)]"

lemma sample_queue_run:
  "\<exists>s t l. queue_init 2 DROP_OLDEST = Inr s \<and> queue_run sample_events s = (t, l) \<and>
     items t = [sample_item 3] \<and> delivered l = [sample_item 2] \<and> evicted l = {#sample_item 1#}"
  by (simp add: queue_init_def queue_run_def sample_events_def sample_item_def empty_log_def push_with_evicted_def
      push_item_def queue_deadline_def bind_p_def lift_r_def pop_turn_def item_expired_def opt_items_def Let_def)

theorem queue_conserves_witness:
  "\<exists>s t l. queue_init 2 DROP_OLDEST = Inr s \<and> queue_run sample_events s = (t, l) \<and>
     items t = [sample_item 3] \<and> int (length (items t)) \<le> 2 \<and> subseq (delivered l @ items t) (admitted l)"
proof -
  obtain s t l where s: "queue_init 2 DROP_OLDEST = Inr s" "queue_run sample_events s = (t, l)"
    "items t = [sample_item 3]"
    using sample_queue_run by blast
  show ?thesis using queue_conserves [OF s(1,2)] s by blast
qed

text \<open>C25: The scan of \<^verbatim>\<open>pop_with_expired\<close> is the specification by list functions: it drops exactly
  the items in front whose deadline has passed, returns the first one after them, and counts
  what it dropped.\<close>

theorem pop_takes_first_live:
  "pop_turn now s =
     (let ex = takeWhile (item_expired now) (items s); live = dropWhile (item_expired now) (items s);
          t = s\<lparr>items := drop 1 live, expired := expired s + length ex\<rparr>
      in (if live = [] then None else Some (hd live), ex, t))"
  by (cases "dropWhile (item_expired now) (items s)")
     (simp_all add: pop_turn_def pop_scan_spec Let_def del: dropWhile_eq_Nil_conv)

lemma pop_loop_returns:
  "list_ex (\<lambda>(now, _). float_le (float_sub end_t now) (Fin 0)) turns \<Longrightarrow> pop_loop end_t turns ex s \<noteq> None"
proof (induction end_t turns ex s rule: pop_loop.induct)
  case (2 end_t now others turns ex s)
  obtain r ex' t where r: "pop_turn now (others s) = (r, ex', t)" by (metis prod_cases3)
  show ?case
  proof (cases r)
    case None
    then show ?thesis using "2.prems" "2.IH" [OF r [symmetric] refl refl None] r by auto
  next
    case (Some i)
    then show ?thesis using r by simp
  qed
qed simp

lemma pop_loop_result:
  "pop_loop end_t turns ex s = Some ((n, ex'), t) \<Longrightarrow>
     \<exists>now \<in> fst ` set turns. (case n of Some i \<Rightarrow> \<not> item_expired now i | None \<Rightarrow> float_le (float_sub end_t now) (Fin 0))"
proof (induction end_t turns ex s rule: pop_loop.induct)
  case (2 end_t now others turns ex s)
  obtain r ex1 t1 where r: "pop_turn now (others s) = (r, ex1, t1)" by (metis prod_cases3)
  show ?case
  proof (cases r)
    case None
    then show ?thesis
      using "2.prems" "2.IH" [OF r [symmetric] refl refl None] r by (auto split: if_splits)
  next
    case (Some i)
    then have "n = Some i" using "2.prems" r by simp
    then show ?thesis using bq.take_live r Some by force
  qed
qed simp



end
