(* ===== verification/RequestTask.thy ===== *)
theory RequestTask
  imports Prelude
begin

text \<open>
  \<^verbatim>\<open>_InferenceTask\<close> of \<^verbatim>\<open>src/src/edgeai/runtime.py\<close>: one request, shared by the thread that
  submitted it and the worker that runs it. Each method is one critical section of the task's
  lock, followed by the notification outside it; \<open>notified\<close> counts those calls. A run is any
  order of calls from any threads.
\<close>

record ('p, 'r) task =
  task_payload :: 'p
  done_set :: bool
  started :: bool
  task_result :: "'r option"
  task_error :: "exc option"
  has_notify :: bool
  notified :: nat

definition new_task :: "'p \<Rightarrow> bool \<Rightarrow> ('p, 'r) task" where
  "new_task p n = \<lparr>task_payload = p, done_set = False, started = False, task_result = None,
     task_error = None, has_notify = n, notified = 0\<rparr>"

definition call_notify :: "('p, 'r) task \<Rightarrow> ('p, 'r) task" where
  "call_notify t = (if has_notify t then t\<lparr>notified := notified t + 1\<rparr> else t)"

definition task_begin :: "('p, 'r) task \<Rightarrow> bool \<times> ('p, 'r) task" where
  "task_begin t = (if done_set t then (False, t) else (True, t\<lparr>started := True\<rparr>))"

definition task_complete :: "'r option \<Rightarrow> exc option \<Rightarrow> ('p, 'r) task \<Rightarrow> ('p, 'r) task" where
  "task_complete r e t =
     (if done_set t then t
      else call_notify (t\<lparr>task_result := r, task_error := e, done_set := True\<rparr>))"

definition expire_if_not_started :: "('p, 'r) task \<Rightarrow> bool \<times> ('p, 'r) task" where
  "expire_if_not_started t =
     (if done_set t \<or> started t then (False, t)
      else (True, call_notify (t\<lparr>task_error :=
             Some (Exc DeadlineExceeded ''inference request expired before execution''),
             done_set := True\<rparr>)))"

definition cancel_if_not_started :: "('p, 'r) task \<Rightarrow> bool \<times> ('p, 'r) task" where
  "cancel_if_not_started t =
     (if done_set t \<or> started t then (False, t) else (True, t\<lparr>done_set := True\<rparr>))"

section \<open>Runs\<close>

datatype 'r task_call = Begin | Complete "'r option" "exc option" | Expire | Cancel

text \<open>The call's effect: whether it started the task, or settled it.\<close>

fun task_step :: "'r task_call \<Rightarrow> ('p, 'r) task \<Rightarrow> bool \<times> ('p, 'r) task" where
  "task_step Begin t = task_begin t"
| "task_step (Complete r e) t = (\<not> done_set t, task_complete r e t)"
| "task_step Expire t = expire_if_not_started t"
| "task_step Cancel t = cancel_if_not_started t"

definition log_step ::
  "'r task_call \<Rightarrow> ('r task_call \<times> bool) list \<times> ('p, 'r) task \<Rightarrow> ('r task_call \<times> bool) list \<times> ('p, 'r) task" where
  "log_step c = (\<lambda>(log, t). let (b, u) = task_step c t in (log @ [(c, b)], u))"

definition task_run :: "'r task_call list \<Rightarrow> ('p, 'r) task \<Rightarrow> ('r task_call \<times> bool) list \<times> ('p, 'r) task" where
  "task_run cs t = fold log_step cs ([], t)"

text \<open>The calls that settled the request, and what each leaves in it.\<close>

definition settles :: "('r task_call \<times> bool) list \<Rightarrow> ('r task_call \<times> bool) list" where
  "settles log = filter (\<lambda>(c, b). b \<and> c \<noteq> Begin) log"

fun outcome :: "'r task_call \<Rightarrow> ('p, 'r) task \<Rightarrow> bool" where
  "outcome (Complete r e) t \<longleftrightarrow> task_result t = r \<and> task_error t = e"
| "outcome Expire t \<longleftrightarrow> task_result t = None \<and> map_option exc_cls (task_error t) = Some DeadlineExceeded \<and> \<not> started t"
| "outcome Cancel t \<longleftrightarrow> task_result t = None \<and> task_error t = None \<and> \<not> started t"
| "outcome Begin t \<longleftrightarrow> False"

definition task_inv :: "bool \<Rightarrow> ('r task_call \<times> bool) list \<Rightarrow> ('p, 'r) task \<Rightarrow> bool" where
  "task_inv n log t \<longleftrightarrow>
     has_notify t = n \<and> (started t \<longleftrightarrow> (Begin, True) \<in> set log) \<and>
     (if done_set t then
        \<exists>c. settles log = [(c, True)] \<and> last (filter snd log) = (c, True) \<and> outcome c t \<and>
          notified t = (if n \<and> c \<noteq> Cancel then 1 else 0)
      else settles log = [] \<and> notified t = 0 \<and> task_result t = None \<and> task_error t = None)"

lemmas task_defs = task_begin_def task_complete_def expire_if_not_started_def cancel_if_not_started_def call_notify_def

lemma step_done: "done_set t \<Longrightarrow> task_step c t = (False, t)"
  by (cases c) (auto simp: task_defs)

lemma settles_append [simp]:
  "settles (log @ [(c, b)]) = settles log @ (if b \<and> c \<noteq> Begin then [(c, b)] else [])" "settles [] = []"
  by (simp_all add: settles_def)

lemma log_step_inv:
  assumes "task_inv n log t" "log_step c (log, t) = (log', u)"
  shows "task_inv n log' u"
proof (cases "done_set t")
  case True
  then have "log' = log @ [(c, False)]" "u = t"
    using assms(2) by (simp_all add: log_step_def step_done)
  then show ?thesis using assms(1) by (simp add: task_inv_def)
next
  case False
  obtain b v where v: "task_step c t = (b, v)" by fastforce
  then have l: "log' = log @ [(c, b)]" "u = v" using assms(2) by (simp_all add: log_step_def)
  have i: "settles log = []" "notified t = 0" "task_result t = None" "task_error t = None" "has_notify t = n"
    and st: "started t \<longleftrightarrow> (Begin, True) \<in> set log"
    using assms(1) False by (simp_all add: task_inv_def)
  show ?thesis
  proof (cases c)
    case Begin
    then have "b" "v = t\<lparr>started := True\<rparr>" using v False by (simp_all add: task_begin_def)
    then show ?thesis using i False Begin by (simp add: l task_inv_def)
  next
    case (Complete r e)
    then have "b" "v = call_notify (t\<lparr>task_result := r, task_error := e, done_set := True\<rparr>)"
      using v False by (simp_all add: task_complete_def)
    then show ?thesis using i st Complete by (simp add: l task_inv_def call_notify_def)
  next
    case Expire
    then have "if started t then \<not> b \<and> v = t else b \<and> v = call_notify (t\<lparr>task_error :=
        Some (Exc DeadlineExceeded ''inference request expired before execution''), done_set := True\<rparr>)"
      using v False by (simp add: expire_if_not_started_def split: if_splits)
    then show ?thesis using i st Expire False
      by (cases "started t") (simp_all add: l task_inv_def call_notify_def)
  next
    case Cancel
    then have "if started t then \<not> b \<and> v = t else b \<and> v = t\<lparr>done_set := True\<rparr>"
      using v False by (simp add: cancel_if_not_started_def split: if_splits)
    then show ?thesis using i st Cancel False by (cases "started t") (simp_all add: l task_inv_def)
  qed
qed

lemma task_run_inv: "task_run cs (new_task p n) = (log, t) \<Longrightarrow> task_inv n log t"
proof -
  have "task_inv n l u \<Longrightarrow> fold log_step cs (l, u) = (log, t) \<Longrightarrow> task_inv n log t" for l u
  proof (induction cs arbitrary: l u)
    case (Cons c cs)
    then show ?case using log_step_inv [of n l u c] by (cases "log_step c (l, u)") auto
  qed simp
  moreover have "task_inv n [] (new_task p n)" by (simp add: task_inv_def new_task_def)
  ultimately show "task_run cs (new_task p n) = (log, t) \<Longrightarrow> task_inv n log t" by (simp add: task_run_def)
qed

text \<open>C27: Whatever the order in which a submitter and a worker call a request's methods, it is
  settled by at most one of them, keeps the result and the error of that call, and nothing
  takes effect on it afterwards. A request that expired or was cancelled was never started.
  Its submitter is notified exactly once, unless it cancelled the request itself.\<close>

theorem task_settles_once:
  assumes "task_run cs (new_task p n) = (log, t)"
  shows "(\<not> done_set t \<longrightarrow> settles log = [] \<and> notified t = 0) \<and>
    (done_set t \<longrightarrow> (\<exists>c. settles log = [(c, True)] \<and> last (filter snd log) = (c, True) \<and> outcome c t \<and>
       notified t = (if n \<and> c \<noteq> Cancel then 1 else 0) \<and>
       (c = Expire \<or> c = Cancel \<longrightarrow> (Begin, True) \<notin> set log)))"
proof (cases "done_set t")
  case True
  then obtain c where "settles log = [(c, True)]" "last (filter snd log) = (c, True)" "outcome c t"
      "notified t = (if n \<and> c \<noteq> Cancel then 1 else 0)"
    using task_run_inv [OF assms] by (auto simp: task_inv_def)
  moreover have "c = Expire \<or> c = Cancel \<longrightarrow> (Begin, True) \<notin> set log"
    using task_run_inv [OF assms] \<open>outcome c t\<close> by (auto simp: task_inv_def)
  ultimately show ?thesis using True by blast
next
  case False
  then show ?thesis using task_run_inv [OF assms] by (simp add: task_inv_def)
qed

theorem task_settles_once_witness:
  "\<exists>log t. task_run [Expire, Begin, Complete (Some (5 :: nat)) None] (new_task ''x'' True) = (log, t) \<and>
     settles log = [(Expire, True)] \<and> notified t = 1 \<and> (Begin, True) \<notin> set log"
proof -
  obtain log t where r: "task_run [Expire, Begin, Complete (Some (5 :: nat)) None] (new_task ''x'' True) = (log, t)"
    by fastforce
  then have "done_set t" "log = [(Expire, True), (Begin, False), (Complete (Some 5) None, False)]"
    by (auto simp: task_run_def log_step_def task_defs new_task_def)
  then show ?thesis using task_settles_once [OF r] r by (auto simp: settles_def)
qed

end
