(* ===== verification/Worker.thy ===== *)
theory Worker
  imports Health IpcRoundtrip
begin

text \<open>
  The isolated backend of \<^verbatim>\<open>src/src/edgeai/runtime.py\<close>: \<^verbatim>\<open>_isolated_backend_main\<close>, the loop of
  the child process, with \<^verbatim>\<open>_worker_validate_logits\<close> and \<^verbatim>\<open>_apply_process_memory_limit\<close>. The
  codecs are those of \<open>IpcMessages\<close> and the model loader is \<open>Health.load_runtime\<close>. Parameters:
  the runtimes' \<^verbatim>\<open>load\<close> and \<^verbatim>\<open>logits\<close>, \<^verbatim>\<open>np.asarray\<close>, and what the operating system does
  (\<^verbatim>\<open>setrlimit\<close>, the sandbox, the process number). The frames the child receives and the outcome
  of sending each answer are inputs, so the loop is recursion over them.
\<close>

section \<open>The limits of the exchange\<close>

record ipc_limits =
  max_batch :: int
  max_input_features :: int
  max_input_values :: int
  max_output_classes :: int
  max_output_values :: int
  max_model_transfer_bytes :: int

definition required_limits :: "pystr list" where
  "required_limits = [''max_batch'', ''max_input_features'', ''max_input_values'',
     ''max_output_classes'', ''max_output_values'', ''max_model_transfer_bytes'']"

definition limit_value :: "header \<Rightarrow> pystr \<Rightarrow> int option" where
  "limit_value d k = (case as_int (jfield d k) of Some i \<Rightarrow> if i < 1 then None else Some i | None \<Rightarrow> None)"

text \<open>The dictionary as given, accepted with exactly the six keys and positive integers.\<close>

definition read_limits :: "header \<Rightarrow> ipc_limits option" where
  "read_limits d =
     (if has_fields d required_limits then
        (case map (limit_value d) required_limits of
           [Some a, Some b, Some c, Some e, Some f, Some g] \<Rightarrow>
             Some \<lparr>max_batch = a, max_input_features = b, max_input_values = c,
                   max_output_classes = e, max_output_values = f, max_model_transfer_bytes = g\<rparr>
         | _ \<Rightarrow> None)
      else None)"

definition limits_ok :: "ipc_limits \<Rightarrow> bool" where
  "limits_ok l \<longleftrightarrow> 1 \<le> max_batch l \<and> 1 \<le> max_input_features l \<and> 1 \<le> max_input_values l \<and>
     1 \<le> max_output_classes l \<and> 1 \<le> max_output_values l \<and> 1 \<le> max_model_transfer_bytes l"

section \<open>The backend and its resources\<close>

text \<open>
  An array as \<^verbatim>\<open>np.asarray\<close> sees it: the shape, whether its dtype is a number, and its
  conversion to \<^verbatim>\<open>float32\<close>.
\<close>

record nd_array =
  nd_shape :: "nat list"
  nd_number :: bool
  nd_f32 :: "f32_array res"

record ('r, 'l) backend =
  be_load :: "runtime_type \<Rightarrow> bytes \<Rightarrow> int \<Rightarrow> 'r res"
  be_logits :: "'r \<Rightarrow> f32_array \<Rightarrow> 'l res"
  be_asarray :: "'l \<Rightarrow> nd_array res"
  be_setrlimit :: "int \<Rightarrow> unit res"
  be_sandbox :: "int \<Rightarrow> unit res"
  be_pid :: int

definition apply_process_memory_limit :: "('r, 'l) backend \<Rightarrow> json option \<Rightarrow> unit res" where
  "apply_process_memory_limit be memory_limit_bytes =
     (case memory_limit_bytes of
        None \<Rightarrow> Inr ()
      | Some v \<Rightarrow>
          (case as_int v of
             Some n \<Rightarrow>
               if n \<le> 0 then Inl (Exc ValueError ''process memory limit must be a positive integer'')
               else be_setrlimit be n
           | None \<Rightarrow> Inl (Exc ValueError ''process memory limit must be a positive integer'')))"

definition apply_process_security :: "('r, 'l) backend \<Rightarrow> json option \<Rightarrow> int \<Rightarrow> unit res" where
  "apply_process_security be memory_limit_bytes nofile_limit =
     rbind (apply_process_memory_limit be memory_limit_bytes) (\<lambda>_. be_sandbox be nofile_limit)"

definition VE :: "string \<Rightarrow> exc" where
  "VE t = Exc ValidationError t"

definition worker_validate_logits ::
  "('r, 'l) backend \<Rightarrow> 'l \<Rightarrow> int \<Rightarrow> ipc_limits \<Rightarrow> f32_array res" where
  "worker_validate_logits be logits batch_size limits =
     rbind (except_r [TypeError, ValueError, OverflowErr]
              (\<lambda>_. VE ''runtime output must be a numeric rank-2 array'') (be_asarray be logits)) (\<lambda>raw.
     rbind (guard_r (length (nd_shape raw) = 2) (VE ''runtime output must be rank-2'')) (\<lambda>_.
     rbind (guard_r (int (nd_shape raw ! 0) = batch_size) (VE ''runtime output batch dimension mismatch'')) (\<lambda>_.
     let classes = int (nd_shape raw ! 1)
     in rbind (guard_r (\<not> (classes < 1 \<or> max_output_classes limits < classes))
                 (VE ''runtime output class count outside configured bounds'')) (\<lambda>_.
     rbind (guard_r (int (prod_list (nd_shape raw)) \<le> max_output_values limits)
              (VE ''runtime output element count outside configured bounds'')) (\<lambda>_.
     rbind (guard_r (nd_number raw) (VE ''runtime output must be numeric'')) (\<lambda>_.
     rbind (except_r [TypeError, ValueError, OverflowErr]
              (\<lambda>_. VE ''runtime output cannot be represented as float32'') (nd_f32 raw)) (\<lambda>normalized.
     rbind (guard_r (all_f32_finite normalized) (VE ''runtime produced non-finite output'')) (\<lambda>_.
     Inr normalized))))))))"

section \<open>One frame\<close>

record 'r worker =
  w_runtime :: "'r option"
  w_generation :: "int option"

definition idle_worker :: "'r worker" where
  "idle_worker = \<lparr>w_runtime = None, w_generation = None\<rparr>"

text \<open>
  What handling a frame comes to: an answer to send (the loop goes on if that succeeds, and
  returns if it raises), the loop returning, or an exception that leaves it.
\<close>

datatype worker_out = Answer bytes | Return | Die exc

text \<open>\<^verbatim>\<open>str(e)[:4096] or default\<close>, and the name the report carries.\<close>

definition failure_text :: "exc \<Rightarrow> pystr \<Rightarrow> pystr" where
  "failure_text e d = or_text (py_take 4096 (exc_msg e)) d"

definition reported_generation :: "header \<Rightarrow> int" where
  "reported_generation h =
     (case as_int (jfield h ''generation'') of Some i \<Rightarrow> if 0 \<le> i then i else 0 | None \<Rightarrow> 0)"

text \<open>An answer whose encoding raises inside \<^verbatim>\<open>try: ... except Exception: return\<close>.\<close>

definition answer_or_return :: "bytes res \<Rightarrow> worker_out" where
  "answer_or_return r = (case r of Inl _ \<Rightarrow> Return | Inr f \<Rightarrow> Answer f)"

definition worker_load :: "('r, 'l) backend \<Rightarrow> ipc_limits \<Rightarrow> header \<Rightarrow> bytes \<Rightarrow> 'r worker \<times> worker_out" where
  "worker_load be limits h frame =
     (case rbind (decode_load_artifact frame (max_model_transfer_bytes limits))
             (\<lambda>(gen, model, kind, abi, max_uncompressed_bytes).
              rbind (load_runtime (be_load be) model kind (Some abi) max_uncompressed_bytes) (\<lambda>loaded.
              Inr (gen, loaded)))
      of Inl e \<Rightarrow>
           (idle_worker,
            answer_or_return (encode_error ''load_error'' None (Some (reported_generation h))
              (class_name (exc_cls e)) (failure_text e ''model load rejected'')))
       | Inr (gen, loaded) \<Rightarrow>
           (\<lparr>w_runtime = Some loaded, w_generation = Some gen\<rparr>,
            answer_or_return (encode_generation ''loaded'' gen)))"

definition worker_infer :: "('r, 'l) backend \<Rightarrow> ipc_limits \<Rightarrow> 'r \<Rightarrow> int \<Rightarrow> f32_array \<Rightarrow> worker_out" where
  "worker_infer be limits runtime request_id inputs =
     (case rbind (be_logits be runtime inputs) (\<lambda>logits.
           rbind (worker_validate_logits be logits (dim inputs 0) limits) (\<lambda>normalized.
           encode_result Some request_id normalized))
      of Inr response \<Rightarrow> Answer response
       | Inl e \<Rightarrow>
           (case encode_error ''error'' (Some request_id) None
                   (if isinstance e ValidationError then ''ValidationError'' else class_name (exc_cls e))
                   (failure_text e ''backend failure'')
            of Inl e' \<Rightarrow> Die e' | Inr f \<Rightarrow> Answer f))"

definition worker_predict :: "('r, 'l) backend \<Rightarrow> ipc_limits \<Rightarrow> 'r worker \<Rightarrow> bytes \<Rightarrow> worker_out" where
  "worker_predict be limits w frame =
     (case decode_predict frame (max_batch limits) (max_input_features limits) (max_input_values limits)
      of Inl e \<Rightarrow> (if isinstance e IPCProtocolError then Return else Die e)
       | Inr (request_id, expected, inputs) \<Rightarrow>
           (case w_runtime w of
              Some runtime \<Rightarrow>
                if w_generation w = Some expected then worker_infer be limits runtime request_id inputs
                else answer_or_return (encode_error ''error'' (Some request_id) None
                       ''BackendProcessError'' ''worker runtime generation mismatch'')
            | None \<Rightarrow> answer_or_return (encode_error ''error'' (Some request_id) None
                       ''BackendProcessError'' ''worker runtime generation mismatch'')))"

definition worker_turn ::
  "('r, 'l) backend \<Rightarrow> ipc_limits \<Rightarrow> 'r worker \<Rightarrow> bytes \<Rightarrow> 'r worker \<times> worker_out" where
  "worker_turn be limits w frame =
     (case decode_frame frame (max (max_model_transfer_bytes limits) (max_input_values limits * 4))
      of Inl e \<Rightarrow> (w, if isinstance e EOFErr \<or> isinstance e OSErr \<or> isinstance e IPCProtocolError
                      then Return else Die e)
       | Inr (h, _) \<Rightarrow>
           (case as_str (jfield h ''op'') of
              None \<Rightarrow> (w, Return)
            | Some op \<Rightarrow>
                if op = ''close''
                then (w, case decode_simple frame ''close'' of
                           Inl e \<Rightarrow> if isinstance e IPCProtocolError then Return else Die e
                         | Inr _ \<Rightarrow> Return)
                else if op = ''load_artifact'' then worker_load be limits h frame
                else if op = ''predict'' then (w, worker_predict be limits w frame)
                else (w, Return)))"

section \<open>The loop and the start\<close>

datatype worker_exit = Serving | Returned | Raised exc

text \<open>
  Each entry: the frame that arrives or the error of the socket, and the outcome of sending the
  answer. \<^verbatim>\<open>_socket_recv_frame\<close> refuses a frame outside its bounds before reading it (see
  \<open>SocketFrames\<close>). The frames that went out, the state, and whether the loop is still waiting.
\<close>

definition max_incoming :: "ipc_limits \<Rightarrow> int" where
  "max_incoming limits =
     int max_header_bytes + 1 + max (max_model_transfer_bytes limits) (max_input_values limits * 4)"

fun worker_loop ::
  "('r, 'l) backend \<Rightarrow> ipc_limits \<Rightarrow> 'r worker \<Rightarrow> (bytes res \<times> unit res) list \<Rightarrow>
   bytes list \<times> 'r worker \<times> worker_exit" where
  "worker_loop be limits w [] = ([], w, Serving)"
| "worker_loop be limits w ((Inl e, sent) # ins) =
     ([], w, if isinstance e EOFErr \<or> isinstance e OSErr \<or> isinstance e IPCProtocolError
             then Returned else Raised e)"
| "worker_loop be limits w ((Inr frame, sent) # ins) =
     (if length frame < 2 \<or> max_incoming limits < int (length frame) then ([], w, Returned)
      else (case worker_turn be limits w frame of
              (w', Return) \<Rightarrow> ([], w', Returned)
            | (w', Die e) \<Rightarrow> ([], w', Raised e)
            | (w', Answer f) \<Rightarrow>
                (case sent of
                   Inl _ \<Rightarrow> ([], w', Returned)
                 | Inr _ \<Rightarrow> (let (out, w'', x) = worker_loop be limits w' ins in (f # out, w'', x)))))"

definition isolated_backend_main ::
  "('r, 'l) backend \<Rightarrow> json option \<Rightarrow> header \<Rightarrow> int \<Rightarrow> unit res \<Rightarrow> (bytes res \<times> unit res) list \<Rightarrow>
   bytes list \<times> 'r worker \<times> worker_exit" where
  "isolated_backend_main be memory_limit_bytes limits nofile_limit first_sent ins =
     (case read_limits limits of
        None \<Rightarrow> ([], idle_worker, Returned)
      | Some l \<Rightarrow>
          (case apply_process_security be memory_limit_bytes nofile_limit of
             Inl e \<Rightarrow>
               (case rbind (encode_startup_error (class_name (exc_cls e))
                              (failure_text e ''resource setup failed'')) (\<lambda>f. rbind first_sent (\<lambda>_. Inr f))
                of Inl e' \<Rightarrow> ([], idle_worker, Raised e') | Inr f \<Rightarrow> ([f], idle_worker, Returned))
           | Inr _ \<Rightarrow>
               (case rbind (encode_ready (be_pid be)) (\<lambda>f. rbind first_sent (\<lambda>_. Inr f))
                of Inl e' \<Rightarrow> ([], idle_worker, Raised e')
                 | Inr f \<Rightarrow> (let (out, w, x) = worker_loop be l idle_worker ins in (f # out, w, x)))))"

end
