(* ===== verification/ProcessRunner.thy ===== *)
theory ProcessRunner
  imports Worker
begin

text \<open>
  The parent's side of process isolation in \<^verbatim>\<open>src/src/edgeai/runtime.py\<close>:
  \<^verbatim>\<open>_ProcessInferenceRunner\<close>, the supervisor of one child process, with the restart budget
  \<^verbatim>\<open>_RollingRestartBudget\<close> and the executor's process counters, which it shares. The child and
  its socket are a value of a type parameter and the operating system is a record of functions
  on it (\<open>host\<close>), so the supervisor is checked against any behaviour of the child; \<open>h_send\<close> and
  \<open>h_recv\<close> are \<^verbatim>\<open>_socket_send_frame\<close> and \<^verbatim>\<open>_socket_recv_frame\<close> on that socket. A deadline that
  passes is their \<^verbatim>\<open>TimeoutError\<close>. \<^verbatim>\<open>_process\<close> and \<^verbatim>\<open>_channel\<close> are set and cleared together, and
  are one field here.
\<close>

section \<open>Counters and the restart budget\<close>

record process_counters =
  process_starts :: nat
  process_restarts :: nat
  process_crashes :: nat
  process_restart_throttled :: nat
  execution_timeouts :: nat

definition increment_process_counter :: "string \<Rightarrow> process_counters \<Rightarrow> process_counters" where
  "increment_process_counter name c =
     (if name = ''process_starts'' then c\<lparr>process_starts := process_starts c + 1\<rparr>
      else if name = ''process_restarts'' then c\<lparr>process_restarts := process_restarts c + 1\<rparr>
      else if name = ''process_crashes'' then c\<lparr>process_crashes := process_crashes c + 1\<rparr>
      else if name = ''process_restart_throttled''
      then c\<lparr>process_restart_throttled := process_restart_throttled c + 1\<rparr>
      else if name = ''execution_timeouts'' then c\<lparr>execution_timeouts := execution_timeouts c + 1\<rparr>
      else c)"

record budget =
  restart_limit :: nat
  restart_window_s :: pyfloat
  restart_times :: "pyfloat list"

definition forget_old :: "pyfloat \<Rightarrow> budget \<Rightarrow> budget" where
  "forget_old now b =
     b\<lparr>restart_times := dropWhile (\<lambda>t. float_le t (float_sub now (restart_window_s b))) (restart_times b)\<rparr>"

definition BPE :: "string \<Rightarrow> exc" where
  "BPE t = Exc BackendProcessError t"

text \<open>The budget after the call, and whether the restart is granted.\<close>

definition budget_reserve :: "pyfloat \<Rightarrow> budget \<Rightarrow> unit res \<times> budget" where
  "budget_reserve now b =
     (let b' = forget_old now b
      in if restart_limit b' \<le> length (restart_times b')
         then (Inl (BPE ''isolated inference worker restart budget exhausted''), b')
         else (Inr (), b'\<lparr>restart_times := restart_times b' @ [now]\<rparr>))"

definition budget_current :: "pyfloat \<Rightarrow> budget \<Rightarrow> nat \<times> budget" where
  "budget_current now b = (let b' = forget_old now b in (length (restart_times b'), b'))"

section \<open>The runner\<close>

record 'c host =
  h_spawn :: "'c res"
  h_alive :: "'c \<Rightarrow> bool"
  h_send :: "bytes \<Rightarrow> 'c \<Rightarrow> unit res \<times> 'c"
  h_recv :: "int \<Rightarrow> 'c \<Rightarrow> bytes res \<times> 'c"

record 'c runner =
  r_limits :: ipc_limits
  link :: "'c option"
  r_generation :: "int option"
  ever_started :: bool
  r_request_id :: int
  r_counters :: process_counters
  r_budget :: budget

definition new_runner :: "ipc_limits \<Rightarrow> process_counters \<Rightarrow> budget \<Rightarrow> 'c runner" where
  "new_runner l c b = \<lparr>r_limits = l, link = None, r_generation = None, ever_started = False,
     r_request_id = 0, r_counters = c, r_budget = b\<rparr>"

definition max_receive_frame_bytes :: "'c runner \<Rightarrow> int" where
  "max_receive_frame_bytes s = int max_header_bytes + 1 + max_output_values (r_limits s) * 4"

definition increment :: "string \<Rightarrow> ('c runner, unit) prog" where
  "increment name = modify_p (\<lambda>s. s\<lparr>r_counters := increment_process_counter name (r_counters s)\<rparr>)"

definition reserve_restart :: "pyfloat \<Rightarrow> ('c runner, unit) prog" where
  "reserve_restart now s =
     (case budget_reserve now (r_budget s) of
        (Inr u, b) \<Rightarrow> (Inr u, s\<lparr>r_budget := b\<rparr>)
      | (Inl e, b) \<Rightarrow> bind_p (increment ''process_restart_throttled'') (\<lambda>_. raise_e e) (s\<lparr>r_budget := b\<rparr>))"

text \<open>\<^verbatim>\<open>abort\<close>: the child is taken off under the lock, then its socket closed and it killed.\<close>

definition abort :: "('c runner, unit) prog" where
  "abort = modify_p (\<lambda>s. s\<lparr>link := None, r_generation := None\<rparr>)"

text \<open>\<^verbatim>\<open>abort\<close>, a counter, and the exception raised.\<close>

definition fail_with :: "string \<Rightarrow> exc \<Rightarrow> ('c runner, 'a) prog" where
  "fail_with counter e = bind_p abort (\<lambda>_. bind_p (increment counter) (\<lambda>_. raise_e e))"

definition send_frame :: "'c host \<Rightarrow> bytes \<Rightarrow> bool \<Rightarrow> ('c runner, unit) prog" where
  "send_frame h frame deadline_error s =
     (case link s of
        None \<Rightarrow> fail_with ''process_crashes'' (BPE ''isolated inference worker is unavailable'') s
      | Some c \<Rightarrow>
          if \<not> h_alive h c then fail_with ''process_crashes'' (BPE ''isolated inference worker is unavailable'') s
          else
            (case h_send h frame c of
               (Inr u, c') \<Rightarrow> (Inr u, s\<lparr>link := Some c'\<rparr>)
             | (Inl e, c') \<Rightarrow>
                 if isinstance e TimeoutErr
                 then if deadline_error
                      then fail_with ''execution_timeouts''
                             (Exc ExecutionDeadlineExceeded ''inference execution deadline exceeded'') s
                      else fail_with ''process_crashes''
                             (BPE ''isolated inference worker control operation timed out'') s
                 else if isinstance e EOFErr \<or> isinstance e OSErr \<or> isinstance e IPCProtocolError
                 then fail_with ''process_crashes'' (BPE ''isolated inference worker transport failed'') s
                 else (Inl e, s\<lparr>link := Some c'\<rparr>)))"

definition receive_frame :: "'c host \<Rightarrow> bool \<Rightarrow> ('c runner, bytes) prog" where
  "receive_frame h deadline_error s =
     (case link s of
        None \<Rightarrow> (Inl (BPE ''isolated inference worker is unavailable''), s)
      | Some c \<Rightarrow>
          (case h_recv h (max_receive_frame_bytes s) c of
             (Inr f, c') \<Rightarrow> (Inr f, s\<lparr>link := Some c'\<rparr>)
           | (Inl e, c') \<Rightarrow>
               if isinstance e TimeoutErr
               then if deadline_error
                    then fail_with ''execution_timeouts''
                           (Exc ExecutionDeadlineExceeded ''inference execution deadline exceeded'') s
                    else fail_with ''process_crashes''
                           (BPE ''isolated inference worker control operation timed out'') s
               else if isinstance e EOFErr \<or> isinstance e OSErr \<or> isinstance e IPCProtocolError
               then fail_with ''process_crashes''
                      (BPE ''isolated inference worker exited or violated IPC protocol'') s
               else (Inl e, s\<lparr>link := Some c'\<rparr>)))"

text \<open>A reply the protocol does not allow: the handler of \<^verbatim>\<open>IPCProtocolError\<close>.\<close>

definition or_violation :: "exc_class list \<Rightarrow> string \<Rightarrow> 'a res \<Rightarrow> ('c runner, 'a) prog" where
  "or_violation caught text r s =
     (case r of
        Inr x \<Rightarrow> (Inr x, s)
      | Inl e \<Rightarrow> if list_ex (isinstance e) caught then fail_with ''process_crashes'' (BPE text) s else (Inl e, s))"

text \<open>The op of a reply that decodes.\<close>

definition reply_op :: "bytes \<Rightarrow> int \<Rightarrow> json res" where
  "reply_op frame mp = rbind (decode_frame frame mp) (\<lambda>(h, _). Inr (jfield h ''op''))"

definition read_handshake :: "bytes \<Rightarrow> ('c runner, unit) prog" where
  "read_handshake frame =
     bind_p (or_violation [IPCProtocolError, ValueError] ''isolated inference worker failed startup handshake''
       (rbind (reply_op frame 0) (\<lambda>op.
        if py_eq op (JStr ''startup_error'')
        then rbind (decode_startup_error frame) (\<lambda>(code, message). Inr True)
        else rbind (decode_ready frame) (\<lambda>_. Inr False)))) (\<lambda>setup_failed.
     if setup_failed
     then fail_with ''process_crashes'' (BPE ''isolated inference worker failed resource setup'')
     else ret ())"

definition launch :: "'c host \<Rightarrow> pyfloat \<Rightarrow> ('c runner, unit) prog" where
  "launch h now =
     bind_p (gets_p ever_started) (\<lambda>was_restart.
     bind_p (if was_restart then reserve_restart now else ret ()) (\<lambda>_.
     bind_p (lift_r (\<lambda>_. h_spawn h)) (\<lambda>c.
     bind_p (modify_p (\<lambda>s. s\<lparr>link := Some c, r_generation := None, ever_started := True\<rparr>)) (\<lambda>_.
     bind_p (increment ''process_starts'') (\<lambda>_.
     if was_restart then increment ''process_restarts'' else ret ())))))"

definition runner_alive :: "'c host \<Rightarrow> 'c runner \<Rightarrow> bool" where
  "runner_alive h s = (case link s of None \<Rightarrow> False | Some c \<Rightarrow> h_alive h c)"

definition runner_start :: "'c host \<Rightarrow> pyfloat \<Rightarrow> ('c runner, unit) prog" where
  "runner_start h now s =
     (if runner_alive h s then (Inr (), s)
      else
        bind_p (modify_p (\<lambda>t. t\<lparr>link := None, r_generation := None\<rparr>)) (\<lambda>_.
        bind_p (if link s \<noteq> None \<and> ever_started s then increment ''process_crashes'' else ret ()) (\<lambda>_.
        bind_p (launch h now) (\<lambda>_.
        bind_p (receive_frame h False) read_handshake))) s)"

section \<open>Loading and executing\<close>

record prepared =
  p_generation :: int
  p_model_bytes :: bytes
  p_model_kind :: pystr
  p_runtime_abi :: pystr
  p_max_uncompressed_bytes :: int
  p_inputs :: f32_array

definition load_request :: "'c host \<Rightarrow> prepared \<Rightarrow> ('c runner, unit) prog" where
  "load_request h p =
     bind_p (lift_r (\<lambda>_. except_r [IPCProtocolError] (\<lambda>_. BPE ''invalid isolated model bootstrap: '')
       (encode_load_artifact (p_generation p) (p_model_bytes p) (p_model_kind p) (p_runtime_abi p)
          (p_max_uncompressed_bytes p)))) (\<lambda>frame.
     send_frame h frame False)"

text \<open>What the reply says: the generation is held, or the model was refused.\<close>

definition read_load_reply :: "prepared \<Rightarrow> bytes \<Rightarrow> int res" where
  "read_load_reply p reply =
     rbind (reply_op reply 0) (\<lambda>op.
     if py_eq op (JStr ''loaded'')
     then rbind (decode_generation reply ''loaded'') (\<lambda>gen.
          rbind (guard_r (gen = p_generation p) (ipc_err ''loaded generation mismatch'')) (\<lambda>_. Inr gen))
     else if py_eq op (JStr ''load_error'')
     then rbind (decode_error reply ''load_error'' False) (\<lambda>(gen, code, message).
          rbind (guard_r (gen = p_generation p) (ipc_err ''load-error generation mismatch'')) (\<lambda>_.
          Inl (BPE ''isolated inference worker rejected model'')))
     else Inl (ipc_err ''unexpected model-load response''))"

definition load_reply :: "'c host \<Rightarrow> prepared \<Rightarrow> ('c runner, unit) prog" where
  "load_reply h p =
     bind_p (receive_frame h False) (\<lambda>reply.
     bind_p (or_violation [IPCProtocolError] ''isolated inference worker rejected runtime snapshot''
              (read_load_reply p reply)) (\<lambda>gen.
     modify_p (\<lambda>s. s\<lparr>r_generation := Some gen\<rparr>)))"

definition runner_load :: "'c host \<Rightarrow> pyfloat \<Rightarrow> prepared \<Rightarrow> ('c runner, unit) prog" where
  "runner_load h now p =
     bind_p (runner_start h now) (\<lambda>_.
     bind_p (gets_p r_generation) (\<lambda>gen.
     if gen = Some (p_generation p) then ret ()
     else bind_p (load_request h p) (\<lambda>_. load_reply h p)))"

definition execute_request :: "'c host \<Rightarrow> prepared \<Rightarrow> ('c runner, int) prog" where
  "execute_request h p =
     bind_p (modify_p (\<lambda>s. s\<lparr>r_request_id := r_request_id s + 1\<rparr>)) (\<lambda>_.
     bind_p (gets_p r_request_id) (\<lambda>request_id.
     bind_p (lift_r (\<lambda>_. except_r [IPCProtocolError] (\<lambda>_. VE ''invalid isolated inference input: '')
       (encode_predict Some request_id (p_generation p) (p_inputs p)))) (\<lambda>frame.
     bind_p (send_frame h frame True) (\<lambda>_.
     ret request_id))))"

definition read_predict_reply :: "prepared \<Rightarrow> ipc_limits \<Rightarrow> int \<Rightarrow> bytes \<Rightarrow> f32_array res" where
  "read_predict_reply p limits request_id reply =
     rbind (reply_op reply (max_output_values limits * 4)) (\<lambda>op.
     if py_eq op (JStr ''result'')
     then decode_result reply request_id (dim (p_inputs p) 0) (max_output_classes limits) (max_output_values limits)
     else if py_eq op (JStr ''error'')
     then rbind (decode_error reply ''error'' True) (\<lambda>(response_id, error_type, message).
          rbind (guard_r (response_id = request_id) (ipc_err ''error response request ID mismatch'')) (\<lambda>_.
          if error_type = ''ValidationError'' then Inl (VE message)
          else Inl (BPE ''isolated backend error'')))
     else Inl (ipc_err ''unexpected inference response''))"

definition execute_reply :: "'c host \<Rightarrow> prepared \<Rightarrow> ipc_limits \<Rightarrow> int \<Rightarrow> ('c runner, f32_array) prog" where
  "execute_reply h p limits request_id =
     bind_p (receive_frame h True) (\<lambda>reply.
     or_violation [IPCProtocolError] ''isolated inference worker returned an invalid response''
       (read_predict_reply p limits request_id reply))"

definition runner_execute ::
  "'c host \<Rightarrow> pyfloat \<Rightarrow> prepared \<Rightarrow> ipc_limits \<Rightarrow> ('c runner, f32_array) prog" where
  "runner_execute h now p limits =
     bind_p (runner_load h now p) (\<lambda>_.
     bind_p (execute_request h p) (\<lambda>request_id.
     execute_reply h p limits request_id))"

text \<open>\<^verbatim>\<open>close\<close>: the farewell is best effort, the child is ended in any case.\<close>

definition runner_close :: "'c host \<Rightarrow> ('c runner, unit) prog" where
  "runner_close h s =
     (case link s of
        None \<Rightarrow> abort s
      | Some c \<Rightarrow>
          if \<not> h_alive h c then abort s
          else
            (case rbind (encode_simple ''close'') (\<lambda>f. fst (h_send h f c)) of
               Inr _ \<Rightarrow> abort s
             | Inl e \<Rightarrow>
                 if isinstance e EOFErr \<or> isinstance e OSErr \<or> isinstance e IPCProtocolError
                 then abort s else (Inl e, s)))"

end
