(* ===== verification/RunnerComposed.thy ===== *)
theory RunnerComposed
  imports ProcessRunner SocketFrames
begin

text \<open>
  The supervisor of \<open>ProcessRunner\<close> together with the worker of \<open>Worker\<close>: a host whose child
  runs \<open>isolated_backend_main\<close> and whose socket delivers whole frames (\<open>SocketFrames\<close>). What a
  request comes to is then settled exactly: the logits of the runtime that the prepared
  artifact loads to, or an exception.
\<close>

section \<open>Frames by their operation\<close>

definition frame_of :: "pystr \<Rightarrow> int \<Rightarrow> bytes \<Rightarrow> bool" where
  "frame_of op n f \<longleftrightarrow>
     (\<forall>mp \<ge> n. \<exists>h p. decode_frame f mp = Inr (h, p) \<and> jfield h ''op'' = JStr op) \<and>
     2 \<le> length f \<and> int (length f) \<le> int max_header_bytes + 1 + n"

lemma frame_of_encoded:
  assumes f: "encode_frame op fs payload = Inr f"
    and rt: "list_all (\<lambda>(k, v). str_rt True k \<and> json_rt True v) fs" and n: "n = int (length payload)"
  shows "frame_of op n f"
proof -
  define t where "t = json_text True (canon (JObj (base_header op (length payload) @ fs)))"
  have "length t \<le> max_header_bytes" "f = t @ newline # payload"
    using f by (simp_all add: encode_frame_Inr Let_def t_def)
  moreover have "1 \<le> length t" by (simp add: t_def Suc_le_eq)
  ultimately have "2 \<le> length f" "int (length f) \<le> int max_header_bytes + 1 + n"
    using n by (simp_all add: trans_le_add1)
  then show ?thesis
    using frame_roundtrip [OF f rt] sent_header_fields(1) [OF f] n by (auto simp: frame_of_def)
qed

lemma frame_of_op: "frame_of op n f \<Longrightarrow> n \<le> mp \<Longrightarrow> reply_op f mp = Inr (JStr op)"
  by (fastforce simp: frame_of_def reply_op_def)

lemma frame_of_size: "frame_of op n f \<Longrightarrow> 2 \<le> length f \<and> int (length f) \<le> int max_header_bytes + 1 + n"
  by (simp add: frame_of_def)

lemma frame_of_ready: "encode_ready pid = Inr f \<Longrightarrow> frame_of ''ready'' 0 f"
  by (auto simp: encode_ready_def rbind_Inr_iff ipc_uint_Inr ipc_rt simp del: json_rt.simps
      intro!: frame_of_encoded)

lemma frame_of_generation: "encode_generation op gen = Inr f \<Longrightarrow> frame_of op 0 f"
  by (auto simp: encode_generation_def rbind_Inr_iff ipc_uint_Inr ipc_rt simp del: json_rt.simps
      intro!: frame_of_encoded)

lemma frame_of_error:
  "encode_error op (if request then Some i else None) (if request then None else Some i) code message = Inr f \<Longrightarrow>
     frame_of op 0 f"
  by (auto simp: encode_error_def opt_uint_def rbind_Inr_iff ipc_uint_Inr ipc_text_Inr ipc_rt
      simp del: json_rt.simps split: if_splits intro!: frame_of_encoded)

lemma frame_of_load:
  "encode_load_artifact gen model kind abi u = Inr f \<Longrightarrow> frame_of ''load_artifact'' (int (length model)) f"
  by (auto simp: encode_load_artifact_def rbind_Inr_iff ipc_uint_Inr ipc_text_Inr ipc_rt simp del: json_rt.simps
      intro!: frame_of_encoded)

lemma frame_of_predict:
  "encode_predict Some r gen a = Inr f \<Longrightarrow> sendable a rows cols \<Longrightarrow> frame_of ''predict'' (rows * cols * 4) f"
  using sendable_length [of a rows cols] 
  by (auto simp: encode_predict_def float32_payload_def rbind_Inr_iff ipc_uint_Inr ipc_rt simp del: json_rt.simps length_tobytes
      intro!: frame_of_encoded)

lemma frame_of_result:
  "encode_result Some r a = Inr f \<Longrightarrow> sendable a rows cols \<Longrightarrow> frame_of ''result'' (rows * cols * 4) f"
  using sendable_length [of a rows cols]
  by (auto simp: encode_result_def float32_payload_def rbind_Inr_iff ipc_uint_Inr ipc_rt simp del: json_rt.simps length_tobytes
      intro!: frame_of_encoded)

section \<open>The worker as a child\<close>

record 'r child =
  c_worker :: "'r worker"
  outbox :: "bytes list"
  c_up :: bool

definition child_takes :: "('r, 'l) backend \<Rightarrow> ipc_limits \<Rightarrow> bytes \<Rightarrow> 'r child \<Rightarrow> 'r child" where
  "child_takes be limits f c =
     (let (out, w, x) = worker_loop be limits (c_worker c) [(Inr f, Inr ())]
      in c\<lparr>c_worker := w, outbox := outbox c @ out, c_up := (x = Serving)\<rparr>)"

definition worker_host ::
  "('r, 'l) backend \<Rightarrow> json option \<Rightarrow> header \<Rightarrow> int \<Rightarrow> ipc_limits \<Rightarrow> 'r child host" where
  "worker_host be memory dict nofile limits =
     \<lparr>h_spawn = Inr (let (out, w, x) = isolated_backend_main be memory dict nofile (Inr ()) []
                     in \<lparr>c_worker = w, outbox = out, c_up = (x = Serving)\<rparr>),
      h_alive = c_up,
      h_send = (\<lambda>f c. if c_up c then (Inr (), child_takes be limits f c)
                      else (Inl (Exc OSErr ''broken pipe''), c)),
      h_recv = (\<lambda>mx c. case outbox c of
          [] \<Rightarrow> (Inl (if c_up c then Exc TimeoutErr ''timed out'' else socket_closed), c)
        | f # fs \<Rightarrow> (if length f < 2 \<or> mx < int (length f)
                     then Inl (ipc_err ''IPC frame exceeds configured bound'') else Inr f, c\<lparr>outbox := fs\<rparr>))\<rparr>"

text \<open>What \<^verbatim>\<open>np.asarray(raw, dtype=np.float32)\<close> keeps, and bounds of a transfer.\<close>

definition numpy_ok :: "('r, 'l) backend \<Rightarrow> bool" where
  "numpy_ok be \<longleftrightarrow>
     (\<forall>l raw x. be_asarray be l = Inr raw \<and> nd_f32 raw = Inr x \<longrightarrow>
        arr_shape x = nd_shape raw \<and> length (arr_data x) = prod_list (nd_shape raw))"

definition limits_fit :: "ipc_limits \<Rightarrow> bool" where
  "limits_fit l \<longleftrightarrow> limits_ok l \<and> max_batch l \<le> max_int31 \<and> max_input_features l \<le> max_int31 \<and>
     max_output_classes l \<le> max_int31 \<and> max_model_transfer_bytes l \<le> max_uint"

definition transferable :: "ipc_limits \<Rightarrow> prepared \<Rightarrow> bool" where
  "transferable l p \<longleftrightarrow>
     p_model_bytes p \<noteq> [] \<and> int (length (p_model_bytes p)) \<le> max_model_transfer_bytes l \<and>
     1024 \<le> p_max_uncompressed_bytes p \<and> p_max_uncompressed_bytes p \<le> max_model_transfer_bytes l \<and>
     0 \<le> p_generation p \<and> p_generation p \<le> max_uint \<and>
     (\<forall>t \<in> {p_model_kind p, p_runtime_abi p}. t \<noteq> [] \<and> utf8_ok t \<and> length t \<le> 256)"

definition admissible :: "ipc_limits \<Rightarrow> prepared \<Rightarrow> bool" where
  "admissible l p \<longleftrightarrow>
     (\<exists>rows cols. sendable (p_inputs p) rows cols \<and> rows \<le> max_batch l \<and> cols \<le> max_input_features l \<and>
        rows * cols \<le> max_input_values l)"

lemma validated_sendable:
  assumes "numpy_ok be" "worker_validate_logits be l rows limits = Inr a" "1 \<le> rows"
  obtains cols where "sendable a rows cols" "cols \<le> max_output_classes limits"
    "rows * cols \<le> max_output_values limits"
proof -
  obtain raw where raw: "be_asarray be l = Inr raw" "length (nd_shape raw) = 2" "int (nd_shape raw ! 0) = rows"
      "1 \<le> nd_shape raw ! 1" "int (nd_shape raw ! 1) \<le> max_output_classes limits"
      "int (prod_list (nd_shape raw)) \<le> max_output_values limits" "nd_f32 raw = Inr a" "all_f32_finite a"
    using assms(2) by (auto simp: worker_validate_logits_def rbind_Inr_iff Let_def)
  obtain r c where s: "nd_shape raw = [r, c]"
    using raw(2) by (metis length_0_conv length_Suc_conv numeral_2_eq_2)
  then have x: "arr_shape a = [r, c]" "length (arr_data a) = r * c"
    using assms(1) raw(1,7) by (auto simp: numpy_ok_def)
  show thesis
    by (rule that [of "int c"])
       (use raw s x f32_array_matrix [OF x(1)] assms(3) in \<open>auto simp: sendable_def\<close>)
qed

section \<open>One exchange\<close>

text \<open>A supervisor whose child is waiting for a request.\<close>

definition settled :: "ipc_limits \<Rightarrow> 'r child runner \<Rightarrow> 'r child \<Rightarrow> bool" where
  "settled l s c \<longleftrightarrow> link s = Some c \<and> c_up c \<and> outbox c = [] \<and> r_limits s = l"

definition loads :: "('r, 'l) backend \<Rightarrow> prepared \<Rightarrow> 'r res" where
  "loads be p = load_runtime (be_load be) (p_model_bytes p) (p_model_kind p) (Some (p_runtime_abi p))
     (p_max_uncompressed_bytes p)"

lemma load_header:
  assumes "encode_load_artifact gen model kind abi u = Inr f" "int (length model) \<le> mp"
  obtains h where "decode_frame f mp = Inr (h, model)" "jfield h ''op'' = JStr ''load_artifact''"
    "jfield h ''generation'' = JInt gen"
proof -
  let ?fs = "[(''generation'', JInt gen), (''max_uncompressed_bytes'', JInt u),
        (''model_kind'', JStr kind), (''runtime_abi'', JStr abi)]"
  have e: "0 \<le> gen" "gen \<le> max_uint" "0 \<le> u" "u \<le> max_uint" "utf8_ok kind" "utf8_ok abi"
    and f: "encode_frame ''load_artifact'' ?fs model = Inr f"
    using assms(1) by (auto simp: encode_load_artifact_def rbind_Inr_iff ipc_uint_Inr ipc_text_Inr)
  have "decode_frame f mp = Inr (sent_header ''load_artifact'' ?fs (length model), model)"
    by (rule frame_roundtrip [OF f _ assms(2)]) (use e in \<open>simp add: ipc_rt del: json_rt.simps\<close>)
  then show thesis
    by (rule that) (simp_all add: sent_header_fields(1,2) [OF f] jfield_Cons)
qed

lemma load_turn:
  assumes "encode_load_artifact (p_generation p) (p_model_bytes p) (p_model_kind p) (p_runtime_abi p)
      (p_max_uncompressed_bytes p) = Inr f" "transferable l p"
  shows "worker_turn be l w f =
    (case loads be p of
       Inl e \<Rightarrow> (idle_worker, answer_or_return (encode_error ''load_error'' None (Some (p_generation p))
                 (class_name (exc_cls e)) (failure_text e ''model load rejected'')))
     | Inr rt \<Rightarrow> (\<lparr>w_runtime = Some rt, w_generation = Some (p_generation p)\<rparr>,
                 answer_or_return (encode_generation ''loaded'' (p_generation p))))"
proof -
  let ?mt = "max_model_transfer_bytes l"
  have b: "int (length (p_model_bytes p)) \<le> max ?mt (max_input_values l * 4)"
    using assms(2) by (auto simp: transferable_def)
  obtain h where h: "decode_frame f (max ?mt (max_input_values l * 4)) = Inr (h, p_model_bytes p)"
      "jfield h ''op'' = JStr ''load_artifact''" "jfield h ''generation'' = JInt (p_generation p)"
    by (rule load_header [OF assms(1) b])
  have d: "decode_load_artifact f ?mt = Inr (p_generation p, p_model_bytes p, p_model_kind p, p_runtime_abi p,
      p_max_uncompressed_bytes p)"
    using load_roundtrip [OF assms(1)] assms(2) by (simp add: transferable_def)
  have g: "reported_generation h = p_generation p"
    using assms(2) h(3) by (simp add: reported_generation_def transferable_def)
  show ?thesis by (simp add: worker_turn_def h worker_load_def d loads_def g split: sum.splits)
qed

lemma predict_turn:
  assumes "encode_predict Some r (p_generation p) (p_inputs p) = Inr f" "admissible l p"
  shows "worker_turn be l w f = (w,
     case w_runtime w of
       Some rt \<Rightarrow> if w_generation w = Some (p_generation p) then worker_infer be l rt r (p_inputs p)
         else answer_or_return (encode_error ''error'' (Some r) None
                ''BackendProcessError'' ''worker runtime generation mismatch'')
     | None \<Rightarrow> answer_or_return (encode_error ''error'' (Some r) None
                ''BackendProcessError'' ''worker runtime generation mismatch''))"
proof -
  obtain rows cols where s: "sendable (p_inputs p) rows cols" "rows \<le> max_batch l" "cols \<le> max_input_features l"
      "rows * cols \<le> max_input_values l"
    using assms(2) by (auto simp: admissible_def)
  have b: "rows * cols * 4 \<le> max (max_model_transfer_bytes l) (max_input_values l * 4)" using s(4) by linarith
  obtain h pl where h: "decode_frame f (max (max_model_transfer_bytes l) (max_input_values l * 4)) = Inr (h, pl)"
      "jfield h ''op'' = JStr ''predict''"
    using frame_of_predict [OF assms(1) s(1)] b unfolding frame_of_def by blast
  have d: "decode_predict f (max_batch l) (max_input_features l) (max_input_values l) =
      Inr (r, p_generation p, p_inputs p)"
    by (rule predict_roundtrip [OF refl s(1) assms(1) s(2-4)])
  show ?thesis by (simp add: worker_turn_def h worker_predict_def d)
qed

lemma worker_turn_loop:
  assumes "2 \<le> length f" "int (length f) \<le> max_incoming l"
  shows "child_takes be l f c =
    (case worker_turn be l (c_worker c) f of
       (w, Answer g) \<Rightarrow> c\<lparr>c_worker := w, outbox := outbox c @ [g]\<rparr>\<lparr>c_up := True\<rparr>
     | (w, _) \<Rightarrow> c\<lparr>c_worker := w, c_up := False\<rparr>)"
  using assms by (auto simp: child_takes_def split: prod.splits worker_out.splits)

text \<open>Sending a frame to a waiting child and taking its answer.\<close>

definition exchange_result ::
  "bool \<Rightarrow> 'r child runner \<Rightarrow> 'r child \<Rightarrow> 'r worker \<times> worker_out \<Rightarrow> bytes res \<times> 'r child runner" where
  "exchange_result de s c wo =
     (case wo of
        (w, Answer g) \<Rightarrow>
          (if 2 \<le> length g \<and> int (length g) \<le> max_receive_frame_bytes s
           then (Inr g, s\<lparr>link := Some (c\<lparr>c_worker := w\<rparr>)\<rparr>)
           else fail_with ''process_crashes'' (BPE ''isolated inference worker exited or violated IPC protocol'') s)
      | (w, _) \<Rightarrow>
          fail_with ''process_crashes'' (BPE ''isolated inference worker exited or violated IPC protocol'') s)"

lemma fail_with_link: "fail_with k e s = (Inl e, (s\<lparr>link := None, r_generation := None\<rparr>)
    \<lparr>r_counters := increment_process_counter k (r_counters s)\<rparr>)"
  by (simp add: fail_with_def abort_def increment_def bind_p_def prog_simps)

lemma fail_with_set_link [simp]: "fail_with k e (s\<lparr>link := x\<rparr>) = fail_with k e s"
  by (simp add: fail_with_link)

lemma ipc_err_instance [simp]: "isinstance (ipc_err t) k \<longleftrightarrow> k = IPCProtocolError \<or> k = ValueError"
  by (auto simp: ipc_err_def)

lemma child_outbox_same: "outbox c = [] \<Longrightarrow> c\<lparr>c_worker := w, outbox := []\<rparr> = c\<lparr>c_worker := w\<rparr>"
  by (cases c) simp

lemma settled_exchange:
  assumes s: "settled l s c" and f: "2 \<le> length f" "int (length f) \<le> max_incoming l"
  shows "bind_p (send_frame (worker_host be m d n l) f de) (\<lambda>_. receive_frame (worker_host be m d n l) de) s =
    exchange_result de s c (worker_turn be l (c_worker c) f)"
proof -
  have c: "link s = Some c" "c_up c" "outbox c = []" using s by (simp_all add: settled_def)
  obtain w o' where t: "worker_turn be l (c_worker c) f = (w, o')" by fastforce
  have snd: "send_frame (worker_host be m d n l) f de s = (Inr (), s\<lparr>link := Some (child_takes be l f c)\<rparr>)"
    using c by (simp add: send_frame_def worker_host_def)
  show ?thesis
  proof (cases o')
    case (Answer g)
    then have "child_takes be l f c = c\<lparr>c_worker := w, outbox := [g]\<rparr>"
      using worker_turn_loop [OF f, of be c] t c by simp
    then show ?thesis
      using Answer c t snd child_outbox_same [OF c(3)]
      by (simp add: bind_p_def receive_frame_def worker_host_def exchange_result_def max_receive_frame_bytes_def)
  next
    case Return
    then have "child_takes be l f c = c\<lparr>c_worker := w, c_up := False\<rparr>"
      using worker_turn_loop [OF f, of be c] t c by simp
    then show ?thesis
      using Return c t snd
      by (simp add: bind_p_def receive_frame_def worker_host_def exchange_result_def socket_closed_def)
  next
    case (Die e)
    then have "child_takes be l f c = c\<lparr>c_worker := w, c_up := False\<rparr>"
      using worker_turn_loop [OF f, of be c] t c by simp
    then show ?thesis
      using Die c t snd
      by (simp add: bind_p_def receive_frame_def worker_host_def exchange_result_def socket_closed_def)
  qed
qed

end
