(* ===== verification/RunnerSteps.thy ===== *)
theory RunnerSteps
  imports RunnerComposed
begin

text \<open>
  Loading an artifact and executing a request, supervisor and worker together: what each
  exchange comes to. The properties in \<open>RunnerProps\<close> rest on these lemmas.
\<close>

lemma bind_p_assoc: "bind_p (bind_p p f) g = bind_p p (\<lambda>x. bind_p (f x) g)"
  by (rule ext) (simp add: bind_p_def split: prod.split sum.split)

lemma exchange_cases:
  assumes "exchange_result de s c wo = (r, t)"
  obtains (reply) w g where "wo = (w, Answer g)" "2 \<le> length g" "int (length g) \<le> max_receive_frame_bytes s"
      "r = Inr g" "t = s\<lparr>link := Some (c\<lparr>c_worker := w\<rparr>)\<rparr>"
  | (broken) e where "r = Inl e" "link t = None" "r_limits t = r_limits s"
  using assms
  by (cases wo; cases "snd wo") (auto simp: exchange_result_def fail_with_link split: if_splits)

section \<open>What the child holds\<close>

text \<open>
  \<open>holds gen\<close> is what the artifact of deployment generation \<open>gen\<close> loads to: a generation names
  one artifact. The child holds nothing, or a generation and its runtime; no answer is left
  over between two calls.
\<close>

definition worker_holds :: "(int \<Rightarrow> 'r res) \<Rightarrow> 'r worker \<Rightarrow> bool" where
  "worker_holds holds w \<longleftrightarrow>
     (case w_generation w of
        None \<Rightarrow> w_runtime w = None
      | Some g \<Rightarrow> (\<exists>rt. w_runtime w = Some rt \<and> holds g = Inr rt))"

definition consistent :: "ipc_limits \<Rightarrow> (int \<Rightarrow> 'r res) \<Rightarrow> 'r child runner \<Rightarrow> bool" where
  "consistent l holds s \<longleftrightarrow>
     r_limits s = l \<and>
     (case link s of None \<Rightarrow> True | Some c \<Rightarrow> outbox c = [] \<and> worker_holds holds (c_worker c))"

lemma idle_holds [simp]: "worker_holds holds idle_worker"
  by (simp add: worker_holds_def idle_worker_def)

lemma consistent_no_link: "link s = None \<Longrightarrow> r_limits s = l \<Longrightarrow> consistent l holds s"
  by (simp add: consistent_def)

section \<open>Loading\<close>

lemma violation_cases:
  assumes "or_violation cs text x s = (r, t)"
  obtains (ok) y where "x = Inr y" "r = Inr y" "t = s"
  | (refused) e where "x = Inl e" "r = Inl e" "t = s" "\<not> list_ex (isinstance e) cs"
  | (broken) e where "r = Inl e" "link t = None" "r_limits t = r_limits s"
  using assms by (cases x) (auto simp: or_violation_def fail_with_link split: if_splits)

lemma loaded_reply:
  assumes "encode_generation ''loaded'' (p_generation p) = Inr g"
  shows "read_load_reply p g = Inr (p_generation p)" "2 \<le> length g" "int (length g) \<le> int max_header_bytes + 1"
  using frame_of_op [OF frame_of_generation [OF assms]] frame_of_size [OF frame_of_generation [OF assms]]
    generation_roundtrip [OF assms]
  by (simp_all add: read_load_reply_def)

lemma py_eq_text [simp]: "py_eq (JStr a) (JStr b) \<longleftrightarrow> a = b"
  by (simp add: py_eq_def)

lemma error_reply_not_loaded:
  assumes "encode_error ''load_error'' None (Some i) code message = Inr g"
  shows "read_load_reply p g \<noteq> Inr j"
proof -
  have f: "frame_of ''load_error'' 0 g"
    using frame_of_error [of "''load_error''" False i code message g] assms by simp
  show ?thesis using frame_of_op [OF f, of 0] by (auto simp: read_load_reply_def rbind_Inr_iff)
qed

text \<open>What the worker makes of an artifact it is sent.\<close>

definition load_outcome :: "('r, 'l) backend \<Rightarrow> prepared \<Rightarrow> 'r worker \<times> worker_out" where
  "load_outcome be p =
    (case loads be p of
       Inl e \<Rightarrow> (idle_worker, answer_or_return (encode_error ''load_error'' None (Some (p_generation p))
                 (class_name (exc_cls e)) (failure_text e ''model load rejected'')))
     | Inr rt \<Rightarrow> (\<lparr>w_runtime = Some rt, w_generation = Some (p_generation p)\<rparr>,
                 answer_or_return (encode_generation ''loaded'' (p_generation p))))"

lemma load_exchange_eq:
  assumes s: "settled l s c" and ok: "transferable l p" "limits_fit l"
  shows "bind_p (load_request (worker_host be m d n l) p) (\<lambda>_. load_reply (worker_host be m d n l) p) s =
    (case exchange_result False s c (load_outcome be p) of
       (Inl e, s') \<Rightarrow> (Inl e, s')
     | (Inr reply, s') \<Rightarrow>
         bind_p (or_violation [IPCProtocolError] ''isolated inference worker rejected runtime snapshot''
              (read_load_reply p reply)) (\<lambda>gen. modify_p (\<lambda>s. s\<lparr>r_generation := Some gen\<rparr>)) s')"
proof -
  let ?h = "worker_host be m d n l"
  have mt: "1 \<le> max_model_transfer_bytes l" "1 \<le> max_input_values l" "max_model_transfer_bytes l \<le> max_uint"
    using ok(2) by (simp_all add: limits_fit_def limits_ok_def)
  obtain f where f: "encode_load_artifact (p_generation p) (p_model_bytes p) (p_model_kind p) (p_runtime_abi p)
      (p_max_uncompressed_bytes p) = Inr f"
    by (rule encode_load_total [of "p_model_bytes p" "p_generation p" "p_max_uncompressed_bytes p"
          "p_model_kind p" "p_runtime_abi p"])
       (use ok mt in \<open>auto simp: transferable_def max_uint_def\<close>)
  have "2 \<le> length f" "int (length f) \<le> max_incoming l"
    using frame_of_size [OF frame_of_load [OF f]] ok(1)
    by (auto simp: max_incoming_def transferable_def)
  note x = settled_exchange [OF s this, of be m d n False]
  have turn: "worker_turn be l (c_worker c) f = load_outcome be p"
    using load_turn [OF f ok(1), of be "c_worker c"] by (simp add: load_outcome_def)
  have e: "bind_p (load_request ?h p) (\<lambda>_. load_reply ?h p) =
      bind_p (bind_p (send_frame ?h f False) (\<lambda>_. receive_frame ?h False)) (\<lambda>reply.
      bind_p (or_violation [IPCProtocolError] ''isolated inference worker rejected runtime snapshot''
              (read_load_reply p reply)) (\<lambda>gen. modify_p (\<lambda>s. s\<lparr>r_generation := Some gen\<rparr>)))"
    unfolding load_request_def load_reply_def
    by (rule ext) (simp add: bind_p_assoc f bind_p_def [of "lift_r _"] lift_r_def)
  show ?thesis unfolding e bind_p_def [of "bind_p _ _"] x turn ..
qed

lemma load_exchange:
  assumes s: "settled l s c" and ok: "transferable l p" "limits_fit l"
    and run: "bind_p (load_request (worker_host be m d n l) p) (\<lambda>_. load_reply (worker_host be m d n l) p) s = (r, t)"
  shows "case loads be p of
      Inr rt \<Rightarrow> r = Inr () \<and> t = s\<lparr>link := Some (c\<lparr>c_worker := \<lparr>w_runtime = Some rt, w_generation = Some (p_generation p)\<rparr>\<rparr>),
                                 r_generation := Some (p_generation p)\<rparr>
    | Inl e \<Rightarrow> (\<exists>e. r = Inl e) \<and> r_limits t = l \<and>
        (link t = None \<or> link t = Some (c\<lparr>c_worker := idle_worker\<rparr>) \<and> r_generation t = r_generation s)"
proof (cases "loads be p")
  case (Inr rt)
  have lim: "r_limits s = l" "1 \<le> max_output_values l" using s ok(2) by (simp_all add: settled_def limits_fit_def limits_ok_def)
  obtain g where g: "encode_generation ''loaded'' (p_generation p) = Inr g"
    by (rule encode_generation_total [of "''loaded''" "p_generation p"])
       (use ok(1) in \<open>auto simp: transferable_def byte_of_def\<close>)
  have "int (length g) \<le> max_receive_frame_bytes s"
    using loaded_reply(3) [OF g] lim by (simp add: max_receive_frame_bytes_def)
  then show ?thesis
    using run loaded_reply [OF g] Inr g
    unfolding load_exchange_eq [OF s ok]
    by (simp add: load_outcome_def exchange_result_def answer_or_return_def or_violation_def bind_p_def prog_simps)
next
  case (Inl e')
  obtain o' where o': "load_outcome be p = (idle_worker, o')"
      "o' = answer_or_return (encode_error ''load_error'' None (Some (p_generation p))
                 (class_name (exc_cls e')) (failure_text e' ''model load rejected''))"
    using Inl by (simp add: load_outcome_def)
  obtain r1 t1 where x1: "exchange_result False s c (idle_worker, o') = (r1, t1)" by fastforce
  have lim: "r_limits s = l" using s by (simp add: settled_def)
  note run' = run [unfolded load_exchange_eq [OF s ok] o'(1) x1]
  from x1 show ?thesis
  proof (cases rule: exchange_cases)
    case (reply w g)
    then have "encode_error ''load_error'' None (Some (p_generation p))
        (class_name (exc_cls e')) (failure_text e' ''model load rejected'') = Inr g" "w = idle_worker"
      using o'(2) by (auto simp: answer_or_return_def split: sum.splits)
    then have n: "read_load_reply p g \<noteq> Inr j" for j using error_reply_not_loaded by blast
    obtain r2 t2 where v: "or_violation [IPCProtocolError] ''isolated inference worker rejected runtime snapshot''
            (read_load_reply p g) t1 = (r2, t2)" by fastforce
    from v show ?thesis
    proof (cases rule: violation_cases)
      case (ok y)
      then show ?thesis using n by blast
    next
      case (refused e)
      then show ?thesis using run' v reply lim \<open>w = idle_worker\<close> Inl by (auto simp: bind_p_def)
    next
      case (broken e)
      then show ?thesis using run' v reply lim Inl by (auto simp: bind_p_def)
    qed
  next
    case (broken e)
    then show ?thesis using run' lim Inl by auto
  qed
qed

section \<open>Executing\<close>

definition infers :: "('r, 'l) backend \<Rightarrow> ipc_limits \<Rightarrow> 'r \<Rightarrow> prepared \<Rightarrow> f32_array res" where
  "infers be l rt p =
     rbind (be_logits be rt (p_inputs p)) (\<lambda>lg. worker_validate_logits be lg (dim (p_inputs p) 0) l)"

lemma error_reply_not_result:
  assumes "encode_error ''error'' (Some i) None code message = Inr g" "1 \<le> max_output_values l"
  shows "read_predict_reply p l r g \<noteq> Inr a"
proof -
  have f: "frame_of ''error'' 0 g"
    using frame_of_error [of "''error''" True i code message g] assms(1) by simp
  show ?thesis
    using frame_of_op [OF f, of "max_output_values l * 4"] assms(2)
    by (auto simp: read_predict_reply_def rbind_Inr_iff split: if_splits)
qed

text \<open>The answer to a request, up to the reply the supervisor reads.\<close>

lemma infer_answer:
  assumes ok: "admissible l p" "limits_fit l" "numpy_ok be" and r: "0 \<le> r" "r \<le> max_uint"
    and a: "infers be l rt p = Inr a"
  obtains g where "worker_infer be l rt r (p_inputs p) = Answer g" "read_predict_reply p l r g = Inr a"
    "2 \<le> length g" "int (length g) \<le> int max_header_bytes + 1 + max_output_values l * 4"
proof -
  obtain rows cols where i: "sendable (p_inputs p) rows cols" "rows \<le> max_batch l"
    using ok(1) by (auto simp: admissible_def)
  have d: "dim (p_inputs p) 0 = rows" "1 \<le> rows" using sendable_dim [OF i(1)] i(1) by (simp_all add: sendable_def)
  obtain lg where lg: "be_logits be rt (p_inputs p) = Inr lg" "worker_validate_logits be lg rows l = Inr a"
    using a d by (auto simp: infers_def rbind_Inr_iff)
  obtain c where c: "sendable a rows c" "c \<le> max_output_classes l" "rows * c \<le> max_output_values l"
    by (rule validated_sendable [OF ok(3) lg(2) d(2)])
  have b: "rows \<le> max_int31" "c \<le> max_int31" using ok(2) i(2) c(2) by (simp_all add: limits_fit_def)
  obtain g where g: "encode_result Some r a = Inr g"
    by (rule encode_result_total [of Some a a rows c r, OF refl c(1) b r])
  note f = frame_of_result [OF g c(1)]
  have m: "rows * c * 4 \<le> max_output_values l * 4" using c(3) by simp
  have "worker_infer be l rt r (p_inputs p) = Answer g" using lg g d by (simp add: worker_infer_def)
  moreover have "read_predict_reply p l r g = Inr a"
    using frame_of_op [OF f m] result_roundtrip [OF refl c(1) g c(2,3)] d by (simp add: read_predict_reply_def)
  ultimately show thesis using that frame_of_size [OF f] m by auto
qed

lemma infer_refusal:
  assumes "\<And>a. infers be l rt p \<noteq> Inr a" "1 \<le> max_output_values l"
    and "worker_infer be l rt r (p_inputs p) = Answer g"
  shows "read_predict_reply p l r g \<noteq> Inr a"
proof -
  obtain e where "infers be l rt p = Inl e" using assms(1) by (cases "infers be l rt p") auto
  then have "rbind (be_logits be rt (p_inputs p)) (\<lambda>lg.
      rbind (worker_validate_logits be lg (dim (p_inputs p) 0) l) (encode_result Some r)) = Inl e"
    by (auto simp: infers_def rbind_Inl_iff)
  then obtain code message where "encode_error ''error'' (Some r) None code message = Inr g"
    using assms(3) by (auto simp: worker_infer_def split: sum.splits)
  then show ?thesis using error_reply_not_result [OF _ assms(2)] by blast
qed

text \<open>The worker holds the generation the request was prepared for.\<close>

definition serves :: "('r, 'l) backend \<Rightarrow> ipc_limits \<Rightarrow> 'r worker \<Rightarrow> prepared \<Rightarrow> f32_array \<Rightarrow> bool" where
  "serves be l w p a \<longleftrightarrow>
     (\<exists>rt. w_runtime w = Some rt \<and> w_generation w = Some (p_generation p) \<and> infers be l rt p = Inr a)"

lemma predict_answer:
  assumes ok: "admissible l p" "limits_fit l" "numpy_ok be" and r: "0 \<le> r" "r \<le> max_uint"
    and f: "encode_predict Some r (p_generation p) (p_inputs p) = Inr f"
  shows "serves be l w p a \<Longrightarrow> \<exists>g. worker_turn be l w f = (w, Answer g) \<and> read_predict_reply p l r g = Inr a \<and>
      2 \<le> length g \<and> int (length g) \<le> int max_header_bytes + 1 + max_output_values l * 4"
    and "worker_turn be l w f = (w', o') \<Longrightarrow> w' = w"
    and "worker_turn be l w f = (w', Answer g) \<Longrightarrow> read_predict_reply p l r g = Inr a \<Longrightarrow> serves be l w p a"
proof -
  have m: "1 \<le> max_output_values l" using ok(2) by (simp add: limits_fit_def limits_ok_def)
  note t = predict_turn [OF f ok(1), of be w]
  show "worker_turn be l w f = (w', o') \<Longrightarrow> w' = w" using t by simp
  show "serves be l w p a \<Longrightarrow> \<exists>g. worker_turn be l w f = (w, Answer g) \<and> read_predict_reply p l r g = Inr a \<and>
      2 \<le> length g \<and> int (length g) \<le> int max_header_bytes + 1 + max_output_values l * 4"
    using infer_answer [OF ok r] t by (fastforce simp: serves_def)
  show "serves be l w p a" if w: "worker_turn be l w f = (w', Answer g)" and q: "read_predict_reply p l r g = Inr a"
  proof (cases "\<exists>rt. w_runtime w = Some rt \<and> w_generation w = Some (p_generation p)")
    case True
    then obtain rt where rt: "w_runtime w = Some rt" "w_generation w = Some (p_generation p)" by blast
    then have i: "worker_infer be l rt r (p_inputs p) = Answer g" using w t by simp
    obtain a' where a': "infers be l rt p = Inr a'" using infer_refusal [OF _ m i] q by blast
    obtain g' where "worker_infer be l rt r (p_inputs p) = Answer g'" "read_predict_reply p l r g' = Inr a'"
      by (rule infer_answer [OF ok r a'])
    then show ?thesis using i q rt a' by (auto simp: serves_def)
  next
    case False
    then have "encode_error ''error'' (Some r) None ''BackendProcessError'' ''worker runtime generation mismatch'' = Inr g"
      using w t by (auto simp: answer_or_return_def split: option.splits sum.splits if_splits)
    then show ?thesis using error_reply_not_result [OF _ m] q by blast
  qed
qed

lemma predict_exchange:
  assumes s: "settled l s c" and ok: "admissible l p" "limits_fit l" "numpy_ok be"
    and g: "0 \<le> p_generation p" "p_generation p \<le> max_uint" and r: "0 \<le> r_request_id s" "r_request_id s < max_uint"
    and run: "bind_p (execute_request (worker_host be m d n l) p) (\<lambda>rid. execute_reply (worker_host be m d n l) p l rid) s = (x, t)"
  shows "x = Inr a \<longleftrightarrow> serves be l (c_worker c) p a"
    and "r_limits t = l" and "link t = None \<or> link t = Some c"
    and "x = Inr a \<Longrightarrow> t = s\<lparr>r_request_id := r_request_id s + 1\<rparr>"
proof -
  let ?h = "worker_host be m d n l" and ?i = "r_request_id s + 1"
  define s1 where "s1 = s\<lparr>r_request_id := ?i\<rparr>"
  have s1: "settled l s1 c" "r_limits s1 = l" using s by (simp_all add: s1_def settled_def)
  have i: "0 \<le> ?i" "?i \<le> max_uint" using r by simp_all
  obtain rows cols where q: "sendable (p_inputs p) rows cols" "rows \<le> max_batch l" "cols \<le> max_input_features l"
      "rows * cols \<le> max_input_values l"
    using ok(1) by (auto simp: admissible_def)
  obtain f where f: "encode_predict Some ?i (p_generation p) (p_inputs p) = Inr f"
    by (rule encode_predict_total [of Some "p_inputs p" "p_inputs p" rows cols "p_generation p" ?i])
       (use q ok(2) g i in \<open>auto simp: limits_fit_def\<close>)
  have "2 \<le> length f" "int (length f) \<le> max_incoming l"
    using frame_of_size [OF frame_of_predict [OF f q(1)]] q(4) by (auto simp: max_incoming_def)
  note e = settled_exchange [OF s1(1) this, of be m d n True]
  have b: "bind_p (execute_request ?h p) (\<lambda>rid. execute_reply ?h p l rid) s =
      bind_p (bind_p (send_frame ?h f True) (\<lambda>_. receive_frame ?h True)) (\<lambda>reply.
      or_violation [IPCProtocolError] ''isolated inference worker returned an invalid response''
       (read_predict_reply p l ?i reply)) s1"
    unfolding execute_request_def execute_reply_def s1_def
    by (simp add: bind_p_assoc f bind_p_def [of "lift_r _"] bind_p_def [of "modify_p _"] bind_p_def [of "gets_p _"]
        prog_simps del: fun_upd_apply)
  obtain w o' where t: "worker_turn be l (c_worker c) f = (w, o')" by fastforce
  note pa = predict_answer [OF ok i f, of "c_worker c"]
  have w: "w = c_worker c" using pa(2) t by blast
  obtain r1 t1 where x1: "exchange_result True s1 c (w, o') = (r1, t1)" by fastforce
  have run': "(case (r1, t1) of (Inl e, s') \<Rightarrow> (Inl e, s') | (Inr reply, s') \<Rightarrow>
        or_violation [IPCProtocolError] ''isolated inference worker returned an invalid response''
          (read_predict_reply p l ?i reply) s') = (x, t)"
    using run x1 t unfolding b bind_p_def [of "bind_p _ _"] e by simp
  have "(x = Inr a \<longleftrightarrow> serves be l (c_worker c) p a) \<and> r_limits t = l \<and> (link t = None \<or> link t = Some c) \<and>
      (x = Inr a \<longrightarrow> t = s1)" for a
    using x1
  proof (cases rule: exchange_cases)
    case (reply w' y)
    have c: "c\<lparr>c_worker := w\<rparr> = c" using w by (cases c) simp
    have l: "link s1 = Some c" using s1(1) by (simp add: settled_def)
    then have t1: "t1 = s1" using reply c by simp
    have y: "worker_turn be l (c_worker c) f = (c_worker c, Answer y)" using reply t w by simp
    from run' reply t1 have v: "or_violation [IPCProtocolError] ''isolated inference worker returned an invalid response''
          (read_predict_reply p l ?i y) s1 = (x, t)" by simp
    have sv: "serves be l (c_worker c) p a \<longleftrightarrow> read_predict_reply p l ?i y = Inr a"
    proof
      assume "serves be l (c_worker c) p a"
      from pa(1) [OF this] y show "read_predict_reply p l ?i y = Inr a" by auto
    qed (rule pa(3) [OF y])
    have "read_predict_reply p l ?i y = Inr a \<Longrightarrow> x = Inr a" using v by (simp add: or_violation_def)
    with v show ?thesis
      using sv s1(2) l by (cases rule: violation_cases) (auto simp: or_violation_def fail_with_link)
  next
    case (broken e)
    have "\<not> serves be l (c_worker c) p a"
    proof
      assume "serves be l (c_worker c) p a"
      from pa(1) [OF this] t obtain g where "o' = Answer g" "2 \<le> length g"
          "int (length g) \<le> int max_header_bytes + 1 + max_output_values l * 4" by auto
      then show False using x1 broken s1(2) by (simp add: exchange_result_def max_receive_frame_bytes_def)
    qed
    then show ?thesis using run' broken s1(2) by auto
  qed
  then show "x = Inr a \<longleftrightarrow> serves be l (c_worker c) p a" "r_limits t = l" "link t = None \<or> link t = Some c"
    "x = Inr a \<Longrightarrow> t = s\<lparr>r_request_id := r_request_id s + 1\<rparr>" by (simp_all add: s1_def)
qed

end
