(* ===== verification/RunnerProps.thy ===== *)
theory RunnerProps
  imports RunnerSteps IpcProps
begin

text \<open>The properties of process isolation: supervisor and worker together.\<close>

section \<open>Starting\<close>

definition healthy :: "('r, 'l) backend \<Rightarrow> json option \<Rightarrow> int \<Rightarrow> bool" where
  "healthy be m n \<longleftrightarrow> apply_process_security be m n = Inr () \<and> 1 \<le> be_pid be \<and> be_pid be \<le> max_int31"

definition grants :: "pyfloat \<Rightarrow> 'c runner \<Rightarrow> bool" where
  "grants now s \<longleftrightarrow> (ever_started s \<longrightarrow> (\<exists>b. budget_reserve now (r_budget s) = (Inr (), b)))"

definition spawned :: "('r, 'l) backend \<Rightarrow> json option \<Rightarrow> header \<Rightarrow> int \<Rightarrow> 'r child" where
  "spawned be m d n = (let (out, w, x) = isolated_backend_main be m d n (Inr ()) []
     in \<lparr>c_worker = w, outbox = out, c_up = (x = Serving)\<rparr>)"

lemma spawned_cases:
  assumes "read_limits d = Some l"
  obtains (ready) f where "encode_ready (be_pid be) = Inr f"
      "spawned be m d n = \<lparr>c_worker = idle_worker, outbox = [f], c_up = True\<rparr>"
  | (failed) code msg f where "encode_startup_error code msg = Inr f"
      "spawned be m d n = \<lparr>c_worker = idle_worker, outbox = [f], c_up = False\<rparr>"
  | (dead) "spawned be m d n = \<lparr>c_worker = idle_worker, outbox = [], c_up = False\<rparr>"
proof (cases "apply_process_security be m n")
  case (Inl e)
  then show thesis
    using assms failed dead
    by (cases "encode_startup_error (class_name (exc_cls e)) (failure_text e ''resource setup failed'')")
       (auto simp: spawned_def isolated_backend_main_def)
next
  case (Inr u)
  then show thesis
    using assms ready dead by (cases "encode_ready (be_pid be)") (auto simp: spawned_def isolated_backend_main_def)
qed

lemma launch_cases:
  assumes "launch (worker_host be m d n l) now s = (r, t)"
  obtains (up) "r = Inr ()" "link t = Some (spawned be m d n)" "r_generation t = None" "r_limits t = r_limits s"
      "r_request_id t = r_request_id s"
  | (refused) e where "r = Inl e" "link t = link s" "r_limits t = r_limits s" "r_request_id t = r_request_id s" "\<not> grants now s"
proof -
  have sp: "h_spawn (worker_host be m d n l) = Inr (spawned be m d n)"
    by (simp add: worker_host_def spawned_def)
  show thesis
  proof (cases "ever_started s")
    case False
    show thesis
      by (rule up) (use assms False in \<open>auto simp: launch_def bind_p_def prog_simps increment_def sp\<close>)
  next
    case True
    obtain x b where b: "budget_reserve now (r_budget s) = (x, b)" by fastforce
    show thesis
    proof (cases x)
      case (Inl e)
      show thesis
        by (rule refused)
           (use assms True b Inl in \<open>auto simp: launch_def bind_p_def prog_simps increment_def reserve_restart_def grants_def\<close>)
    next
      case (Inr u)
      show thesis
        by (rule up)
           (use assms True b Inr in \<open>auto simp: launch_def bind_p_def prog_simps increment_def reserve_restart_def sp\<close>)
    qed
  qed
qed

lemma frame_of_startup_error: "encode_startup_error code message = Inr f \<Longrightarrow> frame_of ''startup_error'' 0 f"
  by (auto simp: encode_startup_error_def rbind_Inr_iff ipc_uint_Inr ipc_text_Inr ipc_rt simp del: json_rt.simps
      intro!: frame_of_encoded)

lemma handshake_startup_error:
  assumes "encode_startup_error code message = Inr f"
  shows "read_handshake f s =
    fail_with ''process_crashes'' (BPE ''isolated inference worker failed resource setup'') s"
  using frame_of_op [OF frame_of_startup_error [OF assms], of 0] startup_error_roundtrip [OF assms]
  by (simp add: read_handshake_def or_violation_def bind_p_def)

lemma handshake_ready:
  assumes "encode_ready pid = Inr f" "read_handshake f s = (r, t)"
  shows "(r = Inr () \<longleftrightarrow> pid \<noteq> 0) \<and> (r = Inr () \<longrightarrow> t = s) \<and> (r \<noteq> Inr () \<longrightarrow> link t = None \<and> r_limits t = r_limits s) \<and>
    r_request_id t = r_request_id s"
proof -
  note op = frame_of_op [OF frame_of_ready [OF assms(1)], of 0]
  show ?thesis
  proof (cases "pid = 0")
    case False
    then show ?thesis
      using assms op ready_roundtrip [OF assms(1) False]
      by (auto simp: read_handshake_def or_violation_def bind_p_def prog_simps)
  next
    case True
    have f: "encode_frame ''ready'' [(''pid'', JInt 0)] [] = Inr f"
      using assms(1) True by (auto simp: encode_ready_def rbind_Inr_iff ipc_uint_Inr)
    have "decode_ready f = Inl (ipc_err ''invalid worker pid'')"
      unfolding decode_ready_def
      by (subst decode_sent [OF f])
         (use True in \<open>simp_all add: sent_header_fields(1,2) [OF f] jfield_Cons ipc_rt del: json_rt.simps\<close>)
    then show ?thesis
      using assms(2) op True by (auto simp: read_handshake_def or_violation_def bind_p_def fail_with_link)
  qed
qed

lemma runner_start_settles:
  assumes d: "read_limits d = Some l" and c: "consistent l holds s" and lim: "limits_fit l"
    and run: "runner_start (worker_host be m d n l) now s = (r, t)"
  shows "consistent l holds t" and "r_request_id t = r_request_id s"
    and "r = Inr () \<Longrightarrow> \<exists>c. settled l t c \<and> worker_holds holds (c_worker c) \<and>
      (if runner_alive (worker_host be m d n l) s then t = s else r_generation t = None)"
    and "runner_alive (worker_host be m d n l) s \<or> healthy be m n \<and> grants now s \<Longrightarrow> r = Inr ()"
proof -
  let ?h = "worker_host be m d n l"
  have "consistent l holds t \<and> r_request_id t = r_request_id s \<and> (r = Inr () \<longrightarrow> (\<exists>c. settled l t c \<and> worker_holds holds (c_worker c) \<and>
      (if runner_alive ?h s then t = s else r_generation t = None))) \<and>
      (runner_alive ?h s \<or> healthy be m n \<and> grants now s \<longrightarrow> r = Inr ())"
  proof (cases "runner_alive ?h s")
    case True
    then obtain c where "link s = Some c" "c_up c"
      by (auto simp: runner_alive_def worker_host_def split: option.splits)
    then show ?thesis
      using True run c by (auto simp: runner_start_def consistent_def settled_def)
  next
    case False
    define s0 where "s0 = snd (bind_p (modify_p (\<lambda>t. t\<lparr>link := None, r_generation := None\<rparr>)) (\<lambda>_.
        if link s \<noteq> None \<and> ever_started s then increment ''process_crashes'' else ret ()) s)"
    have s0: "link s0 = None" "r_limits s0 = l" "grants now s0 = grants now s" "r_request_id s0 = r_request_id s"
      using c by (auto simp: s0_def bind_p_def prog_simps increment_def consistent_def grants_def)
    have run0: "bind_p (launch ?h now) (\<lambda>_. bind_p (receive_frame ?h False) read_handshake) s0 = (r, t)"
      using run False by (auto simp: runner_start_def s0_def bind_p_def prog_simps increment_def split: if_splits)
    obtain r1 s1 where s1: "launch ?h now s0 = (r1, s1)" by fastforce
    from s1 show ?thesis
    proof (cases rule: launch_cases)
      case up
      have rf: "r_limits s1 = l" "max_receive_frame_bytes s1 = int max_header_bytes + 1 + max_output_values l * 4"
        using up s0 by (simp_all add: max_receive_frame_bytes_def)
      have pos: "0 \<le> max_output_values l" using lim by (simp add: limits_fit_def limits_ok_def)
      from d show ?thesis
      proof (cases rule: spawned_cases [where be = be and m = m and n = n])
        case (ready f)
        note z = frame_of_size [OF frame_of_ready [OF ready(1)]]
        define s2 where "s2 = s1\<lparr>link := Some \<lparr>c_worker = idle_worker, outbox = [], c_up = True\<rparr>\<rparr>"
        have "receive_frame ?h False s1 = (Inr f, s2)"
          using up(2) ready(2) z rf pos by (simp add: receive_frame_def worker_host_def s2_def)
        then have "read_handshake f s2 = (r, t)" using run0 s1 up(1) by (simp add: bind_p_def)
        note hs = handshake_ready [OF ready(1) this]
        have "settled l s2 \<lparr>c_worker = idle_worker, outbox = [], c_up = True\<rparr>" "consistent l holds s2" "r_generation s2 = None"
          using rf up(3) by (simp_all add: s2_def settled_def consistent_def)
        moreover have "r_request_id t = r_request_id s" using hs up s0 by (simp add: s2_def)
        moreover have "link t = None \<Longrightarrow> r \<noteq> Inr () \<Longrightarrow> consistent l holds t"
          using hs rf by (simp add: consistent_def s2_def)
        ultimately show ?thesis using hs False by (auto simp: healthy_def)
      next
        case (failed code msg f)
        note z = frame_of_size [OF frame_of_startup_error [OF failed(1)]]
        have "receive_frame ?h False s1 = (Inr f, s1\<lparr>link := Some \<lparr>c_worker = idle_worker, outbox = [], c_up = False\<rparr>\<rparr>)"
          using up(2) failed(2) z rf pos by (simp add: receive_frame_def worker_host_def)
        then have "fail_with ''process_crashes'' (BPE ''isolated inference worker failed resource setup'') s1 = (r, t)"
          using run0 s1 up(1) by (simp add: bind_p_def handshake_startup_error [OF failed(1)])
        then have "r \<noteq> Inr () \<and> link t = None \<and> r_limits t = l \<and> r_request_id t = r_request_id s"
          using rf up s0 by (auto simp: fail_with_link)
        moreover have "\<not> healthy be m n"
        proof
          assume "healthy be m n"
          then have "\<exists>f. encode_ready (be_pid be) = Inr f" "apply_process_security be m n = Inr ()"
            by (auto simp: healthy_def intro: encode_ready_total [of "be_pid be"])
          then have "c_up (spawned be m d n)" using d by (auto simp: spawned_def isolated_backend_main_def)
          then show False using failed(2) by simp
        qed
        ultimately show ?thesis using False by (simp add: consistent_def)
      next
        case dead
        have "receive_frame ?h False s1 =
            fail_with ''process_crashes'' (BPE ''isolated inference worker exited or violated IPC protocol'') s1"
          using up(2) dead by (simp add: receive_frame_def worker_host_def socket_closed_def)
        then have "r \<noteq> Inr () \<and> link t = None \<and> r_limits t = l \<and> r_request_id t = r_request_id s"
          using run0 s1 up rf s0 by (auto simp: bind_p_def fail_with_link)
        moreover have "\<not> healthy be m n"
        proof
          assume "healthy be m n"
          then have "\<exists>f. encode_ready (be_pid be) = Inr f" "apply_process_security be m n = Inr ()"
            by (auto simp: healthy_def intro: encode_ready_total [of "be_pid be"])
          then have "c_up (spawned be m d n)" using d by (auto simp: spawned_def isolated_backend_main_def)
          then show False using dead by simp
        qed
        ultimately show ?thesis using False by (simp add: consistent_def)
      qed
    next
      case (refused e)
      then have "r = Inl e" "t = s1" using run0 s1 by (simp_all add: bind_p_def)
      then show ?thesis using refused s0 False by (simp add: consistent_def)
    qed
  qed
  then show "consistent l holds t" "r_request_id t = r_request_id s"
    "r = Inr () \<Longrightarrow> \<exists>c. settled l t c \<and> worker_holds holds (c_worker c) \<and>
      (if runner_alive (worker_host be m d n l) s then t = s else r_generation t = None)"
    "runner_alive (worker_host be m d n l) s \<or> healthy be m n \<and> grants now s \<Longrightarrow> r = Inr ()" by blast+
qed

section \<open>A request\<close>

text \<open>Where the supervisor has noted the prepared generation, the child holds it.\<close>

definition in_sync :: "'r child runner \<Rightarrow> prepared \<Rightarrow> bool" where
  "in_sync s p \<longleftrightarrow>
     (\<forall>c. link s = Some c \<and> c_up c \<and> r_generation s = Some (p_generation p) \<longrightarrow>
        w_generation (c_worker c) = Some (p_generation p))"

lemma loaded_consistent:
  assumes "settled l s c" "loads be p = Inr rt" "holds (p_generation p) = loads be p"
  shows "consistent l holds (s\<lparr>link := Some (c\<lparr>c_worker := \<lparr>w_runtime = Some rt, w_generation = Some (p_generation p)\<rparr>\<rparr>),
     r_generation := Some (p_generation p)\<rparr>)"
  using assms by (simp add: settled_def consistent_def worker_holds_def)

lemma runner_load_settles:
  assumes d: "read_limits d = Some l" and c: "consistent l holds s" and lim: "limits_fit l"
    and p: "transferable l p" "holds (p_generation p) = loads be p"
    and run: "runner_load (worker_host be m d n l) now p s = (r, t)"
  shows "consistent l holds t"
    and "r = Inr () \<Longrightarrow> \<exists>c. settled l t c \<and> r_request_id t = r_request_id s \<and> worker_holds holds (c_worker c) \<and>
      (in_sync s p \<longrightarrow> w_generation (c_worker c) = Some (p_generation p))"
    and "runner_alive (worker_host be m d n l) s \<or> healthy be m n \<and> grants now s \<Longrightarrow> loads be p = Inr rt \<Longrightarrow> r = Inr ()"
proof -
  let ?h = "worker_host be m d n l"
  obtain r1 s1 where s1: "runner_start ?h now s = (r1, s1)" by fastforce
  note st = runner_start_settles [OF d c lim s1]
  show "consistent l holds t" "r = Inr () \<Longrightarrow> \<exists>c. settled l t c \<and> r_request_id t = r_request_id s \<and>
      worker_holds holds (c_worker c) \<and> (in_sync s p \<longrightarrow> w_generation (c_worker c) = Some (p_generation p))"
    "runner_alive ?h s \<or> healthy be m n \<and> grants now s \<Longrightarrow> loads be p = Inr rt \<Longrightarrow> r = Inr ()"
  proof -
    have "consistent l holds t \<and> (r = Inr () \<longrightarrow> (\<exists>c. settled l t c \<and> r_request_id t = r_request_id s \<and>
        worker_holds holds (c_worker c) \<and> (in_sync s p \<longrightarrow> w_generation (c_worker c) = Some (p_generation p)))) \<and>
      ((runner_alive ?h s \<or> healthy be m n \<and> grants now s) \<and> loads be p = Inr rt \<longrightarrow> r = Inr ())"
    proof (cases r1)
      case (Inl e)
      then have "r = Inl e" "t = s1" using run s1 by (simp_all add: runner_load_def bind_p_def)
      then show ?thesis using st Inl by auto
    next
      case (Inr u)
      then obtain c where c: "settled l s1 c" "worker_holds holds (c_worker c)"
          "if runner_alive ?h s then s1 = s else r_generation s1 = None"
        using st(3) by auto
      show ?thesis
      proof (cases "r_generation s1 = Some (p_generation p)")
        case True
        then have "r = Inr ()" "t = s1" using run s1 Inr by (simp_all add: runner_load_def bind_p_def prog_simps)
        moreover have "in_sync s p \<longrightarrow> w_generation (c_worker c) = Some (p_generation p)"
          using c True by (auto simp: in_sync_def settled_def split: if_splits)
        ultimately show ?thesis using c st(1,2) by blast
      next
        case False
        then have run': "bind_p (load_request ?h p) (\<lambda>_. load_reply ?h p) s1 = (r, t)"
          using run s1 Inr by (simp add: runner_load_def bind_p_def prog_simps)
        note x = load_exchange [OF c(1) p(1) lim run']
        show ?thesis
        proof (cases "loads be p")
          case (Inr rt')
          then have t: "r = Inr ()" "t = s1\<lparr>link := Some (c\<lparr>c_worker := \<lparr>w_runtime = Some rt', w_generation = Some (p_generation p)\<rparr>\<rparr>),
                                 r_generation := Some (p_generation p)\<rparr>" using x by simp_all
          have "consistent l holds t"
            using loaded_consistent [of l s1 c be p rt' holds] c(1) Inr p(2) t(2) by simp
          moreover have "settled l t (c\<lparr>c_worker := \<lparr>w_runtime = Some rt', w_generation = Some (p_generation p)\<rparr>\<rparr>)"
            using c(1) t(2) by (simp add: settled_def)
          ultimately show ?thesis using t st(2) p(2) Inr by (fastforce simp: worker_holds_def)
        next
          case (Inl e)
          then have "\<exists>e. r = Inl e" "r_limits t = l" "link t = None \<or> link t = Some (c\<lparr>c_worker := idle_worker\<rparr>)"
            using x by auto
          then show ?thesis using c(1) Inl by (auto simp: consistent_def settled_def)
        qed
      qed
    qed
    then show "consistent l holds t" "r = Inr () \<Longrightarrow> \<exists>c. settled l t c \<and> r_request_id t = r_request_id s \<and>
      worker_holds holds (c_worker c) \<and> (in_sync s p \<longrightarrow> w_generation (c_worker c) = Some (p_generation p))"
      "runner_alive ?h s \<or> healthy be m n \<and> grants now s \<Longrightarrow> loads be p = Inr rt \<Longrightarrow> r = Inr ()" by blast+
  qed
qed

lemma execute_exact:
  assumes d: "read_limits d = Some l" and lim: "limits_fit l" "numpy_ok be"
    and p: "transferable l p" "admissible l p" "holds (p_generation p) = loads be p"
    and s: "consistent l holds s" "0 \<le> r_request_id s" "r_request_id s < max_uint"
    and run: "runner_execute (worker_host be m d n l) now p l s = (x, t)"
  shows "(x = Inr a \<longrightarrow> (\<exists>rt. loads be p = Inr rt \<and> infers be l rt p = Inr a)) \<and>
    ((runner_alive (worker_host be m d n l) s \<or> healthy be m n \<and> grants now s) \<and> in_sync s p \<and>
       loads be p = Inr rt \<and> infers be l rt p = Inr a \<longrightarrow> x = Inr a) \<and>
    consistent l holds t"
proof -
  let ?h = "worker_host be m d n l"
  obtain r1 s1 where s1: "runner_load ?h now p s = (r1, s1)" by fastforce
  note ld = runner_load_settles [OF d s(1) lim(1) p(1,3) s1]
  show ?thesis
  proof (cases r1)
    case (Inl e)
    then have "x = Inl e" "t = s1" using run s1 by (simp_all add: runner_execute_def bind_p_def)
    then show ?thesis using ld Inl by auto
  next
    case (Inr u)
    obtain c where c: "settled l s1 c" "r_request_id s1 = r_request_id s" "worker_holds holds (c_worker c)"
        "in_sync s p \<longrightarrow> w_generation (c_worker c) = Some (p_generation p)"
      using ld(2) Inr by auto
    have run': "bind_p (execute_request ?h p) (\<lambda>rid. execute_reply ?h p l rid) s1 = (x, t)"
      using run s1 Inr by (simp add: runner_execute_def bind_p_def)
    have g: "0 \<le> p_generation p" "p_generation p \<le> max_uint" using p(1) by (simp_all add: transferable_def)
    note px = predict_exchange [OF c(1) p(2) lim g _ _ run']
    have r: "0 \<le> r_request_id s1" "r_request_id s1 < max_uint" using s c(2) by simp_all
    have "consistent l holds t" using px(2,3) [OF r] c(1,3) by (auto simp: consistent_def settled_def)
    moreover have "serves be l (c_worker c) p a \<longrightarrow> (\<exists>rt. loads be p = Inr rt \<and> infers be l rt p = Inr a)"
      using c(3) p(3) by (auto simp: serves_def worker_holds_def)
    moreover have "in_sync s p \<and> loads be p = Inr rt \<and> infers be l rt p = Inr a \<longrightarrow> serves be l (c_worker c) p a"
      using c(3,4) p(3) by (auto simp: serves_def worker_holds_def split: option.splits)
    ultimately show ?thesis using px(1) [OF r] by blast
  qed
qed


section \<open>A sample deployment\<close>

definition sample_backend :: "(unit, unit) backend" where
  "sample_backend = \<lparr>be_load = \<lambda>_ model _. if model = ''model'' then Inr () else Inl (Exc ValueError ''corrupt''),
     be_logits = \<lambda>_ _. Inr (),
     be_asarray = \<lambda>_. Inr \<lparr>nd_shape = [1, 2], nd_number = True, nd_f32 = Inr sample_tensor\<rparr>,
     be_setrlimit = \<lambda>_. Inr (), be_sandbox = \<lambda>_. Inr (), be_pid = 4711\<rparr>"

definition sample_limit_dict :: header where
  "sample_limit_dict = [(''max_batch'', JInt 8), (''max_input_features'', JInt 16),
     (''max_input_values'', JInt 128), (''max_output_classes'', JInt 16), (''max_output_values'', JInt 128),
     (''max_model_transfer_bytes'', JInt 4096)]"

definition sample_limits :: ipc_limits where
  "sample_limits = \<lparr>max_batch = 8, max_input_features = 16, max_input_values = 128,
     max_output_classes = 16, max_output_values = 128, max_model_transfer_bytes = 4096\<rparr>"

definition sample_prepared :: prepared where
  "sample_prepared = \<lparr>p_generation = 4, p_model_bytes = ''model'', p_model_kind = ''float32-linear'',
     p_runtime_abi = ''linear-v1'', p_max_uncompressed_bytes = 4096, p_inputs = sample_tensor\<rparr>"

definition sample_runner :: "unit child runner" where
  "sample_runner = new_runner sample_limits \<lparr>process_starts = 0, process_restarts = 0, process_crashes = 0,
       process_restart_throttled = 0, execution_timeouts = 0\<rparr>
     \<lparr>restart_limit = 8, restart_window_s = Fin 60, restart_times = []\<rparr>"

abbreviation sample_host :: "unit child host" where
  "sample_host \<equiv> worker_host sample_backend None sample_limit_dict 64 sample_limits"

lemma sample_limits_read: "read_limits sample_limit_dict = Some sample_limits"
  by (simp add: read_limits_def sample_limit_dict_def required_limits_def has_fields_def limit_value_def
      jfield_Cons sample_limits_def)

lemma sample_limits_fit: "limits_fit sample_limits"
  by (simp add: limits_fit_def limits_ok_def sample_limits_def uint_bounds)

lemma sample_numpy: "numpy_ok sample_backend"
  by (simp add: numpy_ok_def sample_backend_def sample_tensor_def)

lemma sample_transferable: "transferable sample_limits sample_prepared"
  by (simp add: transferable_def sample_limits_def sample_prepared_def uint_bounds ascii_utf8_ok byte_of_def)

lemma sample_admissible: "admissible sample_limits sample_prepared"
  unfolding admissible_def
  by (rule exI [of _ 1], rule exI [of _ 2]) (simp add: sample_sendable sample_limits_def sample_prepared_def)

lemma sample_loads: "loads sample_backend sample_prepared = Inr ()"
  by (simp add: loads_def load_runtime_def sample_prepared_def runtime_types_def type_abi_def sample_backend_def)

lemma sample_infers: "infers sample_backend sample_limits () sample_prepared = Inr sample_tensor"
proof -
  have "all_f32_finite sample_tensor" using sample_sendable by (simp add: sendable_def)
  then show ?thesis
    by (simp add: infers_def sample_backend_def worker_validate_logits_def sample_limits_def sample_prepared_def
        dim_def sample_tensor_def)
qed

lemma sample_consistent: "consistent sample_limits holds sample_runner"
  by (simp add: consistent_def sample_runner_def new_runner_def)

lemma sample_healthy: "healthy sample_backend None 64"
  by (simp add: healthy_def apply_process_security_def apply_process_memory_limit_def sample_backend_def max_int31_def)


section \<open>Where the supervisor and its worker part\<close>

text \<open>A refusal whose text is the loader's own.\<close>

lemma refusal_report:
  assumes "0 \<le> gen" "gen \<le> max_uint"
  obtains g where "encode_error ''load_error'' None (Some gen) (class_name (exc_cls (HGE ''model load rejected'')))
      (failure_text (HGE ''model load rejected'') ''model load rejected'') = Inr g"
    "\<And>p. p_generation p = gen \<Longrightarrow> read_load_reply p g = Inl (BPE ''isolated inference worker rejected model'')"
    "2 \<le> length g" "int (length g) \<le> int max_header_bytes + 1"
proof -
  have t: "failure_text (HGE ''model load rejected'') ''model load rejected'' = ''model load rejected''"
    by code_simp
  obtain g where g: "encode_error ''load_error'' None (Some gen) ''HealthGateError'' ''model load rejected'' = Inr g"
    by (rule encode_error_total [of "''load_error''" gen "''HealthGateError''" "''model load rejected''" False])
       (use assms in \<open>auto simp: byte_of_def ascii_utf8_ok\<close>)
  have f: "frame_of ''load_error'' 0 g" using frame_of_error [of "''load_error''" False gen _ _ g] g by simp
  have "decode_error g ''load_error'' False = Inr (gen, ''HealthGateError'', ''model load rejected'')"
    using error_roundtrip [of "''load_error''" False gen "''HealthGateError''" "''model load rejected''" g] g
    by (simp add: or_text_def)
  then have "read_load_reply p g = Inl (BPE ''isolated inference worker rejected model'')" if "p_generation p = gen" for p
    using frame_of_op [OF f, of 0] that by (simp add: read_load_reply_def)
  then show thesis using that [of g] g t frame_of_size [OF f] by (simp add: HGE_def)
qed

text \<open>A model that the worker refuses to load takes the runtime it held before with it, while
  the supervisor goes on noting the former generation: \<^verbatim>\<open>loaded_generation\<close> reports a runtime
  that is gone, and a request for that generation is not sent again but fails.\<close>

theorem refused_load_forgets_runtime:
  assumes s: "settled l s c" and lim: "limits_fit l" "numpy_ok be"
    and q: "transferable l q" "loads be q = Inl (HGE ''model load rejected'')"
    and p: "transferable l p" "admissible l p" "r_generation s = Some (p_generation p)"
      "p_generation p \<noteq> p_generation q"
    and i: "0 \<le> r_request_id s" "r_request_id s < max_uint"
  shows "\<exists>t. runner_load (worker_host be m d n l) now q s = (Inl (BPE ''isolated inference worker rejected model''), t) \<and>
    r_generation t = Some (p_generation p) \<and> link t = Some (c\<lparr>c_worker := idle_worker\<rparr>) \<and>
    fst (runner_execute (worker_host be m d n l) now p l t) \<noteq> Inr a"
proof -
  let ?h = "worker_host be m d n l"
  have alive: "runner_alive ?h s" using s by (simp add: runner_alive_def worker_host_def settled_def)
  obtain g where g: "encode_error ''load_error'' None (Some (p_generation q))
      (class_name (exc_cls (HGE ''model load rejected''))) (failure_text (HGE ''model load rejected'') ''model load rejected'') = Inr g"
    "\<And>p. p_generation p = p_generation q \<Longrightarrow> read_load_reply p g = Inl (BPE ''isolated inference worker rejected model'')"
    "2 \<le> length g" "int (length g) \<le> int max_header_bytes + 1"
    by (rule refusal_report [of "p_generation q"]) (use q(1) in \<open>auto simp: transferable_def\<close>)
  have pos: "0 \<le> max_output_values l" using lim(1) by (simp add: limits_fit_def limits_ok_def)
  define t where "t = s\<lparr>link := Some (c\<lparr>c_worker := idle_worker\<rparr>)\<rparr>"
  have "runner_load ?h now q s = bind_p (load_request ?h q) (\<lambda>_. load_reply ?h q) s"
    using alive p(3,4) by (simp add: runner_load_def runner_start_def bind_p_def prog_simps)
  also have "\<dots> = (Inl (BPE ''isolated inference worker rejected model''), t)"
    using s g pos q(2) unfolding load_exchange_eq [OF s q(1) lim(1)]
    by (simp add: load_outcome_def answer_or_return_def exchange_result_def or_violation_def bind_p_def BPE_def
        max_receive_frame_bytes_def settled_def t_def)
  finally have "runner_load ?h now q s = (Inl (BPE ''isolated inference worker rejected model''), t)" .
  moreover have "fst (runner_execute ?h now p l t) \<noteq> Inr a"
  proof -
    have t: "settled l t (c\<lparr>c_worker := idle_worker\<rparr>)" "r_generation t = Some (p_generation p)" "runner_alive ?h t"
        "r_request_id t = r_request_id s"
      using s p(3) by (simp_all add: settled_def t_def runner_alive_def worker_host_def)
    have "runner_load ?h now p t = (Inr (), t)"
      using t by (simp add: runner_load_def runner_start_def bind_p_def prog_simps)
    then obtain x u where u: "bind_p (execute_request ?h p) (\<lambda>rid. execute_reply ?h p l rid) t = (x, u)"
        "runner_execute ?h now p l t = (x, u)"
      by (cases "bind_p (execute_request ?h p) (\<lambda>rid. execute_reply ?h p l rid) t")
         (simp add: runner_execute_def bind_p_def [of "runner_load _ _ _"])
    have "\<not> serves be l (c_worker (c\<lparr>c_worker := idle_worker\<rparr>)) p a" by (simp add: serves_def idle_worker_def)
    then show ?thesis
      using predict_exchange(1) [OF t(1) p(2) lim _ _ _ _ u(1), of a] u(2) t(4) i p(1) by (simp add: transferable_def)
  qed
  ultimately show ?thesis using p(3) by (auto simp: t_def)
qed

definition sample_live :: "unit child runner" where
  "sample_live = sample_runner\<lparr>link := Some \<lparr>c_worker = \<lparr>w_runtime = Some (), w_generation = Some 4\<rparr>,
     outbox = [], c_up = True\<rparr>, r_generation := Some 4, ever_started := True\<rparr>"

definition sample_next :: "bytes \<Rightarrow> prepared" where
  "sample_next model = sample_prepared\<lparr>p_generation := 5, p_model_bytes := model\<rparr>"

lemma sample_settled:
  "settled sample_limits sample_live \<lparr>c_worker = \<lparr>w_runtime = Some (), w_generation = Some 4\<rparr>, outbox = [], c_up = True\<rparr>"
  by (simp add: settled_def sample_live_def sample_runner_def new_runner_def)

lemma sample_live_simps:
  "r_generation sample_live = Some (p_generation sample_prepared)" "r_request_id sample_live = 0"
  "p_generation (sample_next b) = 5" "p_generation sample_prepared = 4"
  by (simp_all add: sample_live_def sample_runner_def new_runner_def sample_prepared_def sample_next_def)

lemma sample_next_transferable: "b \<noteq> [] \<Longrightarrow> length b \<le> 4096 \<Longrightarrow> transferable sample_limits (sample_next b)"
  using sample_transferable
  by (simp add: transferable_def sample_limits_def sample_next_def sample_prepared_def uint_bounds)

lemma sample_next_loads:
  "loads sample_backend (sample_next ''broken'') = Inl (HGE ''model load rejected'')"
  "loads sample_backend (sample_next ''model'') = Inr ()"
  by (simp_all add: loads_def load_runtime_def sample_next_def sample_prepared_def runtime_types_def type_abi_def
      sample_backend_def)

theorem refused_load_forgets_runtime_witness:
  "\<exists>t. runner_load sample_host (Fin 0) (sample_next ''broken'') sample_live =
       (Inl (BPE ''isolated inference worker rejected model''), t) \<and>
     r_generation t = Some 4 \<and>
     fst (runner_execute sample_host (Fin 0) sample_prepared sample_limits t) \<noteq> Inr sample_tensor"
  using refused_load_forgets_runtime [OF sample_settled sample_limits_fit sample_numpy
      sample_next_transferable [of "''broken''"] sample_next_loads(1) sample_transferable sample_admissible]
  by (fastforce simp: sample_live_simps max_uint_def)

section \<open>Two threads on one channel\<close>

text \<open>
  \<^verbatim>\<open>ensure_ready\<close> runs in the thread of a readiness probe and calls \<^verbatim>\<open>load\<close> on every runner, while
  the worker thread may be between sending its request and reading the reply; the runner's lock
  covers the start and the detaching only.
\<close>

lemma decode_frame_bound:
  assumes "decode_frame f mp = Inr (h, p)" "decode_frame f mp' = Inr (h', p')"
  shows "h = h' \<and> p = p'"
  using assms by (auto simp: decode_frame_def rbind_Inr_iff Let_def)

lemma result_is_no_load_reply:
  assumes "read_predict_reply p l i g = Inr a"
  shows "\<exists>e. read_load_reply q g = Inl e \<and> isinstance e IPCProtocolError"
proof (cases "decode_frame g 0")
  case (Inl e)
  then show ?thesis
    using decode_frame_error [OF Inl] by (simp add: read_load_reply_def reply_op_def isinstance_def)
next
  case (Inr hp)
  obtain op where "reply_op g (max_output_values l * 4) = Inr op" "py_eq op (JStr ''result'')"
    using assms by (auto simp: read_predict_reply_def rbind_Inr_iff split: if_splits)
  then have "reply_op g 0 = Inr op" "py_eq op (JStr ''result'')"
    using decode_frame_bound Inr by (cases hp; fastforce simp: reply_op_def rbind_Inr_iff)+
  then show ?thesis by (simp add: read_load_reply_def py_eq_def)
qed

lemma child_takes_outbox: "\<exists>out. outbox (child_takes be l f c) = outbox c @ out"
  by (auto simp: child_takes_def split: prod.splits)

text \<open>C32: A readiness probe interrupts a running request although \<^verbatim>\<open>ensure_ready\<close> says it does not.
  If a new deployment was activated while a request is with the worker, the probe's \<^verbatim>\<open>load\<close> on
  the same channel takes the request's result for its own reply, kills the worker, and fails;
  the request, which the worker had answered and would have returned, fails too.\<close>

theorem probe_interrupts_request:
  assumes s: "settled l s c" and lim: "limits_fit l" "numpy_ok be"
    and p: "admissible l p" "0 \<le> p_generation p" "p_generation p \<le> max_uint" "serves be l (c_worker c) p a"
    and q: "transferable l q" "r_generation s \<noteq> Some (p_generation q)"
    and i: "0 \<le> r_request_id s" "r_request_id s < max_uint"
  shows "\<exists>rid s1 s2 e1 e2.
    execute_request (worker_host be m d n l) p s = (Inr rid, s1) \<and>
    fst (execute_reply (worker_host be m d n l) p l rid s1) = Inr a \<and>
    runner_load (worker_host be m d n l) now q s1 = (Inl e1, s2) \<and> exc_cls e1 = BackendProcessError \<and>
    link s2 = None \<and>
    execute_reply (worker_host be m d n l) p l rid s2 = (Inl e2, s2) \<and> exc_cls e2 = BackendProcessError"
proof -
  let ?h = "worker_host be m d n l" and ?i = "r_request_id s + 1"
  have c: "link s = Some c" "c_up c" "outbox c = []" "r_limits s = l" using s by (simp_all add: settled_def)
  have pos: "0 \<le> max_output_values l" "1 \<le> max_input_values l"
      "1 \<le> max_model_transfer_bytes l" "max_model_transfer_bytes l \<le> max_uint"
    using lim(1) by (simp_all add: limits_fit_def limits_ok_def)
  have id: "0 \<le> ?i" "?i \<le> max_uint" using i by simp_all
  obtain rows cols where r: "sendable (p_inputs p) rows cols" "rows \<le> max_batch l" "cols \<le> max_input_features l"
      "rows * cols \<le> max_input_values l"
    using p(1) by (auto simp: admissible_def)
  obtain f where f: "encode_predict Some ?i (p_generation p) (p_inputs p) = Inr f"
    by (rule encode_predict_total [of Some "p_inputs p" "p_inputs p" rows cols "p_generation p" ?i])
       (use r lim(1) p(2,3) id in \<open>auto simp: limits_fit_def\<close>)
  have fs: "2 \<le> length f" "int (length f) \<le> max_incoming l"
    using frame_of_size [OF frame_of_predict [OF f r(1)]] r(4) by (auto simp: max_incoming_def)
  obtain g where g: "worker_turn be l (c_worker c) f = (c_worker c, Answer g)" "read_predict_reply p l ?i g = Inr a"
      "2 \<le> length g" "int (length g) \<le> int max_header_bytes + 1 + max_output_values l * 4"
    using predict_answer(1) [OF p(1) lim id f p(4)] by blast
  define c1 where "c1 = child_takes be l f c"
  have c1: "outbox c1 = [g]" "c_up c1"
    using worker_turn_loop [OF fs, of be c] g(1) c(3) by (simp_all add: c1_def)
  define s1 where "s1 = s\<lparr>r_request_id := ?i, link := Some c1\<rparr>"
  have e1: "execute_request ?h p s = (Inr ?i, s1)"
    using c f by (simp add: execute_request_def bind_p_def prog_simps send_frame_def worker_host_def c1_def s1_def)
  have ok: "execute_reply ?h p l ?i s1 = (Inr a, s1\<lparr>link := Some (c1\<lparr>outbox := []\<rparr>)\<rparr>)"
    using c(4) c1 g by (simp add: execute_reply_def bind_p_def receive_frame_def worker_host_def s1_def
        max_receive_frame_bytes_def or_violation_def)
  obtain k where k: "encode_load_artifact (p_generation q) (p_model_bytes q) (p_model_kind q) (p_runtime_abi q)
      (p_max_uncompressed_bytes q) = Inr k"
    by (rule encode_load_total [of "p_model_bytes q" "p_generation q" "p_max_uncompressed_bytes q"
          "p_model_kind q" "p_runtime_abi q"])
       (use q(1) pos in \<open>auto simp: transferable_def max_uint_def\<close>)
  obtain out where out: "outbox (child_takes be l k c1) = g # out"
    using child_takes_outbox [of be l k c1] c1(1) by auto
  obtain e where e: "read_load_reply q g = Inl e" "isinstance e IPCProtocolError"
    using result_is_no_load_reply [OF g(2)] by blast
  define s2 where "s2 = snd (fail_with ''process_crashes''
      (BPE ''isolated inference worker rejected runtime snapshot'') s1 :: unit res \<times> 'a child runner)"
  have "load_request ?h q s1 = (Inr (), s1\<lparr>link := Some (child_takes be l k c1)\<rparr>)"
    using c1(2) k by (simp add: load_request_def bind_p_def prog_simps send_frame_def worker_host_def s1_def)
  moreover have "load_reply ?h q (s1\<lparr>link := Some (child_takes be l k c1)\<rparr>) =
      (Inl (BPE ''isolated inference worker rejected runtime snapshot''), s2)"
    using c(4) out g(3,4) e
    by (simp add: load_reply_def bind_p_def receive_frame_def worker_host_def s1_def max_receive_frame_bytes_def
        or_violation_def fail_with_link s2_def)
  ultimately have "runner_load ?h now q s1 = (Inl (BPE ''isolated inference worker rejected runtime snapshot''), s2)"
    using c1(2) q(2) by (simp add: runner_load_def runner_start_def runner_alive_def worker_host_def bind_p_def prog_simps s1_def)
  moreover have "link s2 = None" by (simp add: s2_def fail_with_link)
  moreover from this have "execute_reply ?h p l ?i s2 = (Inl (BPE ''isolated inference worker is unavailable''), s2)"
    by (simp add: execute_reply_def receive_frame_def bind_p_def)
  ultimately show ?thesis using e1 ok by (auto simp: BPE_def)
qed

theorem probe_interrupts_request_witness:
  "\<exists>rid s1 s2 e1 e2. execute_request sample_host sample_prepared sample_live = (Inr rid, s1) \<and>
     fst (execute_reply sample_host sample_prepared sample_limits rid s1) = Inr sample_tensor \<and>
     runner_load sample_host (Fin 0) (sample_next ''model'') s1 = (Inl e1, s2) \<and>
     execute_reply sample_host sample_prepared sample_limits rid s2 = (Inl e2, s2) \<and> exc_cls e2 = BackendProcessError"
proof -
  have "serves sample_backend sample_limits \<lparr>w_runtime = Some (), w_generation = Some 4\<rparr> sample_prepared sample_tensor"
    using sample_infers by (simp add: serves_def sample_live_simps)
  then show ?thesis
    using probe_interrupts_request [OF sample_settled sample_limits_fit sample_numpy sample_admissible, of sample_tensor
        "sample_next ''model''" None sample_limit_dict 64 "Fin 0"]
      sample_next_transferable [of "''model''"]
    by (fastforce simp: sample_live_simps max_uint_def)
qed

end
