(* ===== verification/FloatOrder.thy ===== *)
theory FloatOrder
  imports PyFloat
begin

text \<open>
  Rounding is monotone: of two rationals the smaller has the smaller double, and so subtracting
  the same double keeps the order of two doubles. The deadlines and windows of the runtime are
  differences of clock readings, and rest on this.
\<close>

lemma round_half_even_mono: "q \<le> q' \<Longrightarrow> round_half_even q \<le> round_half_even q'"
proof -
  assume le: "q \<le> q'"
  then have f: "\<lfloor>q\<rfloor> \<le> \<lfloor>q'\<rfloor>" by (rule floor_mono)
  have b: "\<lfloor>p\<rfloor> \<le> round_half_even p \<and> round_half_even p \<le> \<lfloor>p\<rfloor> + 1" for p
    by (simp add: round_half_even_def Let_def)
  show ?thesis
  proof (cases "\<lfloor>q\<rfloor> = \<lfloor>q'\<rfloor>")
    case True
    then have "q - of_int \<lfloor>q\<rfloor> \<le> q' - of_int \<lfloor>q'\<rfloor>" using le by simp
    then show ?thesis unfolding round_half_even_def Let_def True by auto
  next
    case False
    then have "\<lfloor>q\<rfloor> + 1 \<le> \<lfloor>q'\<rfloor>" using f by simp
    then show ?thesis using b [of q] b [of q'] by linarith
  qed
qed

lemma flog2_bounds:
  assumes "0 < q"
  shows "2 powi flog2 q \<le> q" and "q < 2 powi (flog2 q + 1)"
proof -
  obtain n d where nd: "quotient_of q = (n, d)" by fastforce
  have d: "0 < d" by (rule quotient_of_denom_pos [OF nd])
  have q: "q = of_int n / of_int d" by (rule quotient_of_div [OF nd])
  have n: "0 < n" using assms d by (simp add: q zero_less_divide_iff)
  define bn bd where "bn = bitlen n" and "bd = bitlen d"
  have p: "(2::rat) powi bitlen x / 2 \<le> of_int x \<and> of_int x < (2::rat) powi bitlen x" if "0 < x" for x
  proof -
    have b: "0 < bitlen x" using that bitlen_eq_zero_iff [of x] bitlen_nonneg [of x] by linarith
    have "2 ^ nat (bitlen x - 1) \<le> x" "x < 2 ^ nat (bitlen x)" using bitlen_bounds [OF that] by auto
    then have "(2::rat) ^ nat (bitlen x - 1) \<le> of_int x" "of_int x < (2::rat) ^ nat (bitlen x)"
      by (metis of_int_le_iff of_int_numeral of_int_power, metis of_int_less_iff of_int_numeral of_int_power)
    moreover have "(2::rat) ^ nat (bitlen x) = 2 * 2 ^ nat (bitlen x - 1)"
      using b by (simp flip: power_Suc add: Suc_nat_eq_nat_zadd1)
    ultimately show ?thesis using b by (simp add: power_int_def)
  qed
  have up: "q < 2 powi (bn - bd + 1)"
  proof -
    have "q < 2 powi bn / (2 powi bd / 2)"
      unfolding q bn_def bd_def using p [OF n] p [OF d] n d
      by (intro frac_less) auto
    then show ?thesis by (simp add: power_int_diff power_int_add)
  qed
  have lo: "2 powi (bn - bd - 1) \<le> q"
  proof -
    have "(2 powi bn / 2) / 2 powi bd \<le> q"
      unfolding q bn_def bd_def using p [OF n] p [OF d] n d
      by (intro frac_le) auto
    then show ?thesis by (simp add: power_int_diff)
  qed
  have "flog2 q = (if 2 powi (bn - bd) \<le> q then bn - bd else bn - bd - 1)"
    by (simp add: flog2_def nd bn_def bd_def Let_def)
  then show "2 powi flog2 q \<le> q" "q < 2 powi (flog2 q + 1)" using up lo by auto
qed

lemma flog2_mono:
  assumes "0 < x" "x \<le> y"
  shows "flog2 x \<le> flog2 y"
proof (rule ccontr)
  assume "\<not> flog2 x \<le> flog2 y"
  then have "(2::rat) powi (flog2 y + 1) \<le> 2 powi flog2 x" by (intro power_int_increasing) auto
  then show False using flog2_bounds [of x] flog2_bounds [of y] assms by linarith
qed

lemma power_int_nat: "0 \<le> i \<Longrightarrow> (2::rat) powi i = of_int (2 ^ nat i)"
  by (simp add: power_int_def)

lemma fl_pos: "0 < x \<Longrightarrow> fl x = of_int (round_half_even (x / 2 powi ulp_exp x)) * 2 powi ulp_exp x"
  by (simp add: fl_def Let_def)

lemma fl_nonneg: "0 \<le> x \<Longrightarrow> 0 \<le> fl x"
proof (cases "x = 0")
  case False
  assume "0 \<le> x"
  then have "0 < x" using False by simp
  then have "round_half_even 0 \<le> round_half_even (x / 2 powi ulp_exp x)" by (intro round_half_even_mono) simp
  then show ?thesis using \<open>0 < x\<close> round_half_even_int [of 0] by (simp add: fl_pos)
qed (simp add: fl_def)

lemma fl_mono:
  assumes "0 \<le> x" "x \<le> y"
  shows "fl x \<le> fl y"
proof (cases "x = 0")
  case True
  then show ?thesis using fl_nonneg [of y] assms by (simp add: fl_def [of 0])
next
  case False
  then have x: "0 < x" and y: "0 < y" using assms by auto
  define ex ey k where "ex = ulp_exp x" and "ey = ulp_exp y" and "k = flog2 y"
  have le: "ex \<le> ey" using flog2_mono [OF x assms(2)] by (simp add: ex_def ey_def ulp_exp_def)
  have r: "round_half_even (a / 2 powi e) \<le> round_half_even (b / 2 powi e)" if "a \<le> b" for a b :: rat and e
    using that by (intro round_half_even_mono divide_right_mono) auto
  show ?thesis
  proof (cases "ex = ey")
    case True
    then show ?thesis using x y r [OF assms(2), of ey] by (simp add: fl_pos ex_def ey_def)
  next
    case False
    then have e: "ex < ey" using le by simp
    then have ke: "ey = k - 52" and "flog2 x < k" by (auto simp: ex_def ey_def k_def ulp_exp_def)
    then have "(2::rat) powi (flog2 x + 1) \<le> 2 powi k" by (intro power_int_increasing) auto
    then have xk: "x \<le> 2 powi k" using flog2_bounds(2) [OF x] by linarith
    have i: "(2::rat) powi k / 2 powi j = of_int (2 ^ nat (k - j))" if "j \<le> k" for j
      using that power_int_nat [of "k - j"] by (simp add: power_int_diff)
    have "round_half_even (2 powi k / 2 powi ex) = 2 ^ nat (k - ex)"
      using i [of ex] e ke by (simp only: round_half_even_int)
    then have "of_int (round_half_even (x / 2 powi ex)) \<le> (of_int (2 ^ nat (k - ex)) :: rat)"
      using r [OF xk, of ex] by (simp only: of_int_le_iff)
    then have "of_int (round_half_even (x / 2 powi ex)) \<le> (2::rat) powi k / 2 powi ex"
      using i [of ex] e ke by simp
    then have "fl x \<le> 2 powi k" unfolding fl_pos [OF x] ex_def [symmetric] by (simp add: pos_le_divide_eq)
    moreover have "round_half_even (2 powi k / 2 powi ey) = 2 ^ nat (k - ey)"
      using i [of ey] ke by (simp only: round_half_even_int)
    then have "(of_int (2 ^ nat (k - ey)) :: rat) \<le> of_int (round_half_even (y / 2 powi ey))"
      using r [OF flog2_bounds(1) [OF y], of ey] by (simp only: of_int_le_iff k_def)
    then have "2 powi k / 2 powi ey \<le> (of_int (round_half_even (y / 2 powi ey)) :: rat)"
      using i [of ey] ke by simp
    then have "2 powi k \<le> fl y" unfolding fl_pos [OF y] ey_def [symmetric] by (simp add: pos_divide_le_eq)
    ultimately show ?thesis by linarith
  qed
qed

lemma float_of_rat_mono:
  assumes "x \<le> y"
  shows "float_le (float_of_rat x) (float_of_rat y)"
proof -
  have p: "0 \<le> a \<Longrightarrow> a \<le> b \<Longrightarrow> float_le (float_round False a) (float_round False b)" for a b
    using fl_mono [of a b] fl_nonneg [of a]
    by (auto simp: float_round_def Let_def float_max_exp_def)
  have n: "0 \<le> a \<Longrightarrow> a \<le> b \<Longrightarrow> float_le (float_round True b) (float_round True a)" for a b
    using fl_mono [of a b] fl_nonneg [of a]
    by (auto simp: float_round_def Let_def float_max_exp_def)
  have z: "float_le (float_round True a) (float_round False b)" if "0 \<le> a" "0 \<le> b" for a b
    using fl_nonneg [of a] fl_nonneg [of b] that
    by (auto simp: float_round_def Let_def float_max_exp_def)
  show ?thesis
    using p [of x y] n [of "- y" "- x"] z [of "- x" y] assms
    by (cases "x < 0"; cases "y < 0") (simp_all add: float_of_rat_def)
qed

lemma float_sub_mono:
  assumes "float_le a b" "is_finite a" "is_finite b" "is_finite w"
  shows "float_le (float_sub a w) (float_sub b w)"
proof -
  have s: "float_sub c w = float_of_rat (fin_val c - fin_val w) \<or>
      (float_sub c w = NegZero \<and> fin_val c - fin_val w = 0)" if "is_finite c" for c
    using that assms(4) by (cases c; cases w) (auto simp: float_sub_def)
  have z: "float_of_rat 0 = Fin 0" by (simp add: float_of_rat_def float_round_def fl_def)
  have eq: "float_le (float_sub c w) r = float_le (float_of_rat (fin_val c - fin_val w)) r"
    "float_le r (float_sub c w) = float_le r (float_of_rat (fin_val c - fin_val w))" if "is_finite c" for c r
    using s [OF that] by (auto simp: z; cases r; simp)+
  have "fin_val a \<le> fin_val b" using assms(1-3) by (cases a; cases b) auto
  then have "float_le (float_of_rat (fin_val a - fin_val w)) (float_of_rat (fin_val b - fin_val w))"
    by (intro float_of_rat_mono) simp
  then show ?thesis using eq assms(2,3) by blast
qed

lemma float_le_trans: "float_le a b \<Longrightarrow> float_le b c \<Longrightarrow> float_le a c"
  by (cases a; cases b; cases c) auto

lemma float_le_linear: "is_finite a \<Longrightarrow> is_finite b \<Longrightarrow> float_le a b \<or> float_le b a"
  by (cases a; cases b) auto

end
