(* ===== verification/RestartBudget.thy ===== *)
theory RestartBudget
  imports ProcessRunner FloatOrder
begin

text \<open>
  The rolling restart budget of \<^verbatim>\<open>src/src/edgeai/runtime.py\<close> against its reference: a restart is
  granted when fewer than \<open>limit\<close> of all restarts granted so far lie in the window before now.
  The deque forgets, the reference does not; that forgetting loses nothing rests on the order
  of rounded differences (\<open>FloatOrder\<close>).
\<close>

text \<open>Each reading of the clock, and what was granted so far.\<close>

definition budget_step :: "pyfloat \<Rightarrow> budget \<times> pyfloat list \<Rightarrow> budget \<times> pyfloat list" where
  "budget_step now = (\<lambda>(b, granted).
     (case budget_reserve now b of (Inr _, b') \<Rightarrow> (b', granted @ [now]) | (Inl _, b') \<Rightarrow> (b', granted)))"

definition in_window :: "pyfloat \<Rightarrow> pyfloat \<Rightarrow> pyfloat \<Rightarrow> bool" where
  "in_window w now t \<longleftrightarrow> \<not> float_le t (float_sub now w)"

definition reference_step :: "nat \<Rightarrow> pyfloat \<Rightarrow> pyfloat \<Rightarrow> pyfloat list \<Rightarrow> pyfloat list" where
  "reference_step limit w now granted =
     (if length (filter (in_window w now) granted) < limit then granted @ [now] else granted)"

definition fresh_budget :: "nat \<Rightarrow> pyfloat \<Rightarrow> budget" where
  "fresh_budget limit w = \<lparr>restart_limit = limit, restart_window_s = w, restart_times = []\<rparr>"

text \<open>The readings of a monotonic clock.\<close>

definition clock :: "pyfloat list \<Rightarrow> bool" where
  "clock ts \<longleftrightarrow> sorted_wrt float_le ts \<and> list_all is_finite ts"

lemma in_window_mono:
  assumes "float_le a b" "is_finite a" "is_finite b" "is_finite w" "in_window w b t"
  shows "in_window w a t"
  using assms float_sub_mono [OF assms(1-4)] float_le_trans by (auto simp: in_window_def)

lemma dropWhile_is_filter:
  assumes "sorted_wrt float_le ts"
  shows "dropWhile (\<lambda>t. float_le t c) ts = filter (\<lambda>t. \<not> float_le t c) ts"
  using assms
proof (induction ts)
  case (Cons t ts)
  show ?case
  proof (cases "float_le t c")
    case False
    then have "filter (\<lambda>t. \<not> float_le t c) ts = ts"
      using Cons.prems float_le_trans by (fastforce simp: filter_id_conv)
    then show ?thesis using False by simp
  qed (use Cons in simp)
qed simp

text \<open>
  After the call at \<open>last\<close>: any later window sees the same restarts in the deque as in the whole
  history.
\<close>

definition budget_inv :: "nat \<Rightarrow> pyfloat \<Rightarrow> (pyfloat \<Rightarrow> bool) \<Rightarrow> budget \<times> pyfloat list \<Rightarrow> bool" where
  "budget_inv limit w later = (\<lambda>(b, granted).
     restart_limit b = limit \<and> restart_window_s b = w \<and>
     sorted_wrt float_le (restart_times b) \<and> sorted_wrt float_le granted \<and>
     (\<forall>t \<in> set (restart_times b) \<union> set granted. is_finite t \<and> (\<forall>now. later now \<longrightarrow> float_le t now)) \<and>
     (\<forall>now. later now \<longrightarrow> filter (in_window w now) (restart_times b) = filter (in_window w now) granted))"

lemma budget_step_inv:
  assumes i: "budget_inv limit w later (b, granted)" and w: "is_finite w"
    and now: "later now" "is_finite now" and l: "\<And>x. later' x \<Longrightarrow> later x \<and> float_le now x \<and> is_finite x"
  shows "snd (budget_step now (b, granted)) = reference_step limit w now granted \<and>
    budget_inv limit w later' (budget_step now (b, granted))"
proof -
  define ts where "ts = filter (in_window w now) granted"
  have b: "restart_limit b = limit" "restart_window_s b = w" "sorted_wrt float_le (restart_times b)"
      "sorted_wrt float_le granted"
      "\<And>t x. t \<in> set (restart_times b) \<union> set granted \<Longrightarrow> later x \<Longrightarrow> is_finite t \<and> float_le t x"
      "\<And>x. later x \<Longrightarrow> filter (in_window w x) (restart_times b) = filter (in_window w x) granted"
    using i now(1) by (auto simp: budget_inv_def)
  have f: "forget_old now b = b\<lparr>restart_times := ts\<rparr>"
    using dropWhile_is_filter [OF b(3)] b(6) [OF now(1)]
    by (simp add: forget_old_def b(2) ts_def in_window_def [abs_def])
  have keep: "filter (in_window w x) ts = filter (in_window w x) granted" if "later' x" for x
    using in_window_mono [of now x w] l [OF that] now(2) w by (auto simp: ts_def intro!: filter_cong)
  have s: "sorted_wrt float_le ts" using b(4) by (simp add: ts_def sorted_wrt_filter)
  have m: "is_finite t \<and> float_le t now" if "t \<in> set granted" for t
    using b(5) [OF _ now(1)] that by simp
  show ?thesis
  proof (cases "length ts < limit")
    case True
    then have st: "budget_step now (b, granted) = (b\<lparr>restart_times := ts @ [now]\<rparr>, granted @ [now])"
      by (simp add: budget_step_def budget_reserve_def f b(1) Let_def)
    have "budget_inv limit w later' (budget_step now (b, granted))"
      unfolding st budget_inv_def
      using b s m keep now(2) l True by (auto simp: sorted_wrt_append ts_def)
    then show ?thesis using st True by (simp add: reference_step_def ts_def)
  next
    case False
    then have st: "budget_step now (b, granted) = (b\<lparr>restart_times := ts\<rparr>, granted)"
      by (simp add: budget_step_def budget_reserve_def f b(1) Let_def)
    have "budget_inv limit w later' (budget_step now (b, granted))"
      unfolding st budget_inv_def
      using b s m keep l by (auto simp: ts_def)
    then show ?thesis using st False by (simp add: reference_step_def ts_def)
  qed
qed

lemma budget_run_reference:
  assumes "clock ts" "is_finite w" "budget_inv limit w later (b, granted)" "\<And>t. t \<in> set ts \<Longrightarrow> later t"
    "\<And>x. later x \<Longrightarrow> is_finite x"
  shows "snd (fold budget_step ts (b, granted)) = fold (reference_step limit w) ts granted"
  using assms
proof (induction ts arbitrary: b granted later)
  case (Cons now ts)
  let ?later = "\<lambda>x. later x \<and> float_le now x \<and> is_finite x"
  obtain b' granted' where s: "budget_step now (b, granted) = (b', granted')" by fastforce
  note st = budget_step_inv [OF Cons.prems(3,2), of now ?later, unfolded s]
  have c: "clock ts" "later now" "is_finite now" "\<And>t. t \<in> set ts \<Longrightarrow> ?later t"
    using Cons.prems by (auto simp: clock_def list_all_iff)
  then have "granted' = reference_step limit w now granted" "budget_inv limit w ?later (b', granted')"
    using st by auto
  then have "snd (fold budget_step ts (b', granted')) = fold (reference_step limit w) ts granted'"
    by (intro Cons.IH [where later = ?later]) (use c Cons.prems(2) in auto)
  then show ?case using s \<open>granted' = _\<close> by simp
qed simp

lemma in_window_up: "in_window w now t \<Longrightarrow> float_le t t' \<Longrightarrow> in_window w now t'"
  using float_le_trans by (auto simp: in_window_def)

text \<open>Restarts the reference grants: the first and the last of any \<open>limit + 1\<close> span the window.\<close>

definition spaced :: "nat \<Rightarrow> pyfloat \<Rightarrow> pyfloat list \<Rightarrow> bool" where
  "spaced limit w granted \<longleftrightarrow>
     (\<forall>i. i + limit < length granted \<longrightarrow> float_le (granted ! i) (float_sub (granted ! (i + limit)) w))"

lemma reference_step_spaced:
  assumes "spaced limit w granted" "sorted_wrt float_le granted" "\<forall>t \<in> set granted. float_le t now"
  shows "spaced limit w (reference_step limit w now granted) \<and> sorted_wrt float_le (reference_step limit w now granted)"
proof (cases "length (filter (in_window w now) granted) < limit")
  case True
  have "float_le ((granted @ [now]) ! i) (float_sub ((granted @ [now]) ! (i + limit)) w)"
    if i: "i + limit < length (granted @ [now])" for i
  proof (cases "i + limit < length granted")
    case False
    then have n: "i + limit = length granted" using i by simp
    show ?thesis
    proof (rule ccontr)
      assume "\<not> ?thesis"
      then have iw: "in_window w now (granted ! i)" using n True by (simp add: in_window_def nth_append)
      have "in_window w now t" if "t \<in> set (drop i granted)" for t
      proof -
        obtain j where j: "t = granted ! (i + j)" "i + j < length granted"
          using \<open>t \<in> set (drop i granted)\<close> by (auto simp: in_set_conv_nth)
        then have "j = 0 \<or> float_le (granted ! i) t"
          using assms(2) by (cases "j = 0") (auto simp: sorted_wrt_iff_nth_less)
        then show ?thesis using iw in_window_up j by auto
      qed
      then have "filter (in_window w now) (drop i granted) = drop i granted" by (simp add: filter_id_conv)
      then have "limit \<le> length (filter (in_window w now) (take i granted @ drop i granted))"
        using n by (simp only: filter_append length_append) simp
      then show False using True by simp
    qed
  qed (use assms(1) True in \<open>auto simp: spaced_def nth_append\<close>)
  then show ?thesis using True assms by (auto simp: reference_step_def spaced_def sorted_wrt_append)
qed (use assms in \<open>simp add: reference_step_def\<close>)

lemma reference_run_spaced:
  assumes "clock ts" "spaced limit w granted" "sorted_wrt float_le granted" "\<forall>g \<in> set granted. \<forall>t \<in> set ts. float_le g t"
  shows "spaced limit w (fold (reference_step limit w) ts granted)"
  using assms
proof (induction ts arbitrary: granted)
  case (Cons now ts)
  have "\<forall>g \<in> set (reference_step limit w now granted). \<forall>t \<in> set ts. float_le g t"
    using Cons.prems by (auto simp: reference_step_def clock_def)
  then show ?case
    using Cons reference_step_spaced [of limit w granted now] by (simp add: clock_def)
qed simp

text \<open>C31: The restart budget is the rolling window it claims to be: over any readings of a
  monotonic clock it grants exactly the restarts that the reference, which remembers every
  restart ever granted, would grant; and of any \<open>limit + 1\<close> granted restarts the first had
  left the window before the last was granted.\<close>

theorem restart_budget_rolls:
  assumes "clock ts" "is_finite w" "0 < limit"
  shows "snd (fold budget_step ts (fresh_budget limit w, [])) = fold (reference_step limit w) ts [] \<and>
    spaced limit w (snd (fold budget_step ts (fresh_budget limit w, [])))"
proof -
  have "budget_inv limit w is_finite (fresh_budget limit w, [])" by (simp add: budget_inv_def fresh_budget_def)
  then have "snd (fold budget_step ts (fresh_budget limit w, [])) = fold (reference_step limit w) ts []"
    using budget_run_reference [OF assms(1,2), of limit is_finite] assms(1) by (simp add: clock_def list_all_iff)
  then show ?thesis using reference_run_spaced [OF assms(1), of limit w "[]"] by (simp add: spaced_def)
qed

theorem restart_budget_rolls_witness:
  "spaced 1 (Fin 60) (snd (fold budget_step [Fin 0, Fin 30, Fin 61] (fresh_budget 1 (Fin 60), [])))"
  by (rule restart_budget_rolls [THEN conjunct2]) (simp_all add: clock_def)

end
