(* ===== verification/Supervisor.thy ===== *)
theory Supervisor
  imports ProcessRunner IpcProps
begin

text \<open>
  The supervisor against any child: an invariant of its state that every operation keeps, and
  the exceptions that can leave it, whatever the operating system and the child answer.
\<close>

text \<open>What a stream socket raises, and \<open>_socket_recv_frame\<close> for a frame out of bounds.\<close>

definition socket_error :: "exc \<Rightarrow> bool" where
  "socket_error e \<longleftrightarrow> isinstance e EOFErr \<or> isinstance e OSErr \<or> isinstance e IPCProtocolError"

definition host_ok :: "'c host \<Rightarrow> bool" where
  "host_ok h \<longleftrightarrow>
     (\<forall>f c e c'. h_send h f c = (Inl e, c') \<longrightarrow> socket_error e) \<and>
     (\<forall>m c e c'. h_recv h m c = (Inl e, c') \<longrightarrow> socket_error e)"

lemma host_ok_errors:
  "host_ok h \<Longrightarrow> h_send h f c = (Inl e, c') \<Longrightarrow> socket_error e"
  "host_ok h \<Longrightarrow> h_recv h m c = (Inl e, c') \<Longrightarrow> socket_error e"
  unfolding host_ok_def by blast+

definition runner_inv :: "'c runner \<Rightarrow> bool" where
  "runner_inv s \<longleftrightarrow>
     limits_ok (r_limits s) \<and> (link s \<noteq> None \<longrightarrow> ever_started s) \<and>
     process_starts (r_counters s) = process_restarts (r_counters s) + (if ever_started s then 1 else 0)"

text \<open>The exceptions of a request, and what they leave behind.\<close>

definition request_error :: "'c host \<Rightarrow> exc \<Rightarrow> 'c runner \<Rightarrow> bool" where
  "request_error h e t \<longleftrightarrow>
     runner_inv t \<and>
     (h_spawn h = Inl e \<or> exc_cls e = BackendProcessError \<or> exc_cls e = ValidationError \<or>
      exc_cls e = ExecutionDeadlineExceeded \<and> link t = None)"

abbreviation keeps :: "'c host \<Rightarrow> ('c runner, 'a) prog \<Rightarrow> bool" where
  "keeps h p \<equiv> hoare runner_inv p (\<lambda>_. runner_inv) (request_error h)"

lemma keeps_bind: "keeps h p \<Longrightarrow> (\<And>x. keeps h (f x)) \<Longrightarrow> keeps h (bind_p p f)"
  by (rule hoare_bind)

lemma keeps_ret: "keeps h (ret x)" "keeps h (gets_p g)"
  by (auto simp: hoare_def ret_def gets_p_def)

lemma keeps_modify: "(\<And>s. runner_inv s \<Longrightarrow> runner_inv (g s)) \<Longrightarrow> keeps h (modify_p g)"
  by (auto simp: hoare_def modify_p_def)

lemma BPE_cls [simp]: "exc_cls (BPE t) = BackendProcessError" "exc_cls (VE t) = ValidationError"
  by (simp_all add: BPE_def VE_def)

lemma keeps_increment: "k = ''process_crashes'' \<or> k = ''execution_timeouts'' \<or> k = ''process_restart_throttled'' \<Longrightarrow>
    runner_inv s \<Longrightarrow> runner_inv (s\<lparr>r_counters := increment_process_counter k (r_counters s)\<rparr>)"
  by (elim disjE) (simp_all add: runner_inv_def increment_process_counter_def)

lemma abort_inv: "runner_inv s \<Longrightarrow> runner_inv (s\<lparr>link := None, r_generation := None\<rparr>)"
  by (simp add: runner_inv_def)

lemma fail_with_run: "fail_with k e s = (Inl e, (s\<lparr>link := None, r_generation := None\<rparr>)
    \<lparr>r_counters := increment_process_counter k (r_counters s)\<rparr>)"
  by (simp add: fail_with_def abort_def increment_def bind_p_def prog_simps)

lemma fail_with_error:
  assumes "k = ''process_crashes'' \<or> k = ''execution_timeouts''"
    and "exc_cls e = BackendProcessError \<or> exc_cls e = ExecutionDeadlineExceeded"
    and "runner_inv s" "fail_with k e s = (r, t)"
  shows "\<exists>e'. r = Inl e' \<and> request_error h e' t"
  using assms abort_inv [OF assms(3)] keeps_increment [of k "s\<lparr>link := None, r_generation := None\<rparr>"]
  by (auto simp: fail_with_run request_error_def)

lemma link_inv: "runner_inv s \<Longrightarrow> link s = Some c \<Longrightarrow> runner_inv (s\<lparr>link := Some c'\<rparr>)"
  by (simp add: runner_inv_def)

lemma keepsI:
  assumes "\<And>s r t. runner_inv s \<Longrightarrow> p s = (r, t) \<Longrightarrow>
     (case r of Inr x \<Rightarrow> runner_inv t | Inl e \<Rightarrow> request_error h e t)"
  shows "keeps h p"
  using assms by (fastforce simp: hoare_def split: prod.splits sum.splits)

lemma send_frame_keeps:
  assumes "host_ok h"
  shows "keeps h (send_frame h f de)"
proof (rule keepsI)
  fix s r t
  assume i: "runner_inv s" and run: "send_frame h f de s = (r, t)"
  have fl: "case x of Inr y \<Rightarrow> runner_inv u | Inl e \<Rightarrow> request_error h e u"
    if "fail_with k e s = (x, u)" "k = ''process_crashes'' \<or> k = ''execution_timeouts''"
      "exc_cls e = BackendProcessError \<or> exc_cls e = ExecutionDeadlineExceeded" for k e and x :: "unit res" and u
    using fail_with_error [OF that(2,3) i that(1), of h] by auto
  show "case r of Inr x \<Rightarrow> runner_inv t | Inl e \<Rightarrow> request_error h e t"
  proof (cases "link s")
    case None
    then show ?thesis using run fl by (simp add: send_frame_def)
  next
    case (Some c)
    obtain x c' where x: "h_send h f c = (x, c')" by fastforce
    show ?thesis
    proof (cases "h_alive h c")
      case True
      show ?thesis
      proof (cases x)
        case (Inl e)
        then have "socket_error e" using host_ok_errors(1) [OF assms] x by blast
        then show ?thesis
          using run Some True x Inl fl by (simp add: send_frame_def socket_error_def split: if_splits)
      next
        case (Inr u)
        then show ?thesis using run Some True x link_inv [OF i Some] by (auto simp: send_frame_def)
      qed
    qed (use run Some fl in \<open>simp add: send_frame_def\<close>)
  qed
qed

lemma receive_frame_keeps:
  assumes "host_ok h"
  shows "keeps h (receive_frame h de)"
proof (rule keepsI)
  fix s r t
  assume i: "runner_inv s" and run: "receive_frame h de s = (r, t)"
  have fl: "case x of Inr y \<Rightarrow> runner_inv u | Inl e \<Rightarrow> request_error h e u"
    if "fail_with k e s = (x, u)" "k = ''process_crashes'' \<or> k = ''execution_timeouts''"
      "exc_cls e = BackendProcessError \<or> exc_cls e = ExecutionDeadlineExceeded" for k e and x :: "bytes res" and u
    using fail_with_error [OF that(2,3) i that(1), of h] by auto
  show "case r of Inr x \<Rightarrow> runner_inv t | Inl e \<Rightarrow> request_error h e t"
  proof (cases "link s")
    case None
    then show ?thesis using run i by (auto simp: receive_frame_def request_error_def)
  next
    case (Some c)
    obtain x c' where x: "h_recv h (max_receive_frame_bytes s) c = (x, c')" by fastforce
    show ?thesis
    proof (cases x)
      case (Inl e)
      then have "socket_error e" using host_ok_errors(2) [OF assms] x by blast
      then show ?thesis
        using run Some x Inl fl by (simp add: receive_frame_def socket_error_def split: if_splits)
    next
      case (Inr u)
      then show ?thesis using run Some x link_inv [OF i Some] by (auto simp: receive_frame_def)
    qed
  qed
qed

lemma violation_keeps:
  fixes h :: "'c host"
  assumes "\<And>e. x = Inl e \<Longrightarrow> list_ex (isinstance e) cs \<or> exc_cls e = BackendProcessError \<or> exc_cls e = ValidationError"
  shows "keeps h (or_violation cs text x)"
proof (rule keepsI)
  fix s t :: "'c runner" and r
  assume i: "runner_inv s" and run: "or_violation cs text x s = (r, t)"
  show "case r of Inr x \<Rightarrow> runner_inv t | Inl e \<Rightarrow> request_error h e t"
  proof (cases x)
    case (Inl e)
    then show ?thesis
      using assms run i fail_with_error [of "''process_crashes''" "BPE text" s r t h]
      by (auto simp: or_violation_def request_error_def split: if_splits)
  qed (use run i in \<open>auto simp: or_violation_def\<close>)
qed

section \<open>Replies\<close>

lemma reply_op_error: "reply_op f mp = Inl e \<Longrightarrow> 0 \<le> mp \<Longrightarrow> exc_cls e = IPCProtocolError"
  by (auto simp: reply_op_def rbind_Inl_iff dest: decode_frame_error)

lemma ipc_isinstance: "exc_cls e = IPCProtocolError \<Longrightarrow> isinstance e IPCProtocolError"
  by (simp add: isinstance_def)

lemma decoder_errors:
  "decode_ready f = Inl e \<Longrightarrow> exc_cls e = IPCProtocolError"
  "decode_startup_error f = Inl e \<Longrightarrow> exc_cls e = IPCProtocolError"
  "decode_generation f op = Inl e \<Longrightarrow> exc_cls e = IPCProtocolError"
  "decode_error f op b = Inl e \<Longrightarrow> exc_cls e = IPCProtocolError"
  by (auto simp: decode_ready_def decode_startup_error_def decode_generation_def decode_error_def rbind_Inl_iff Let_def
      dest: ipc_rejections)

lemma decode_result_error: "decode_result f r n c mv = Inl e \<Longrightarrow> 0 \<le> mv \<Longrightarrow> exc_cls e = IPCProtocolError"
  by (auto simp: decode_result_def rbind_Inl_iff Let_def dest: ipc_rejections)

lemma read_load_reply_error:
  "read_load_reply p f = Inl e \<Longrightarrow> exc_cls e = IPCProtocolError \<or> exc_cls e = BackendProcessError"
  by (auto simp: read_load_reply_def rbind_Inl_iff dest: reply_op_error decoder_errors split: if_splits)

lemma read_predict_reply_error:
  "read_predict_reply p l i f = Inl e \<Longrightarrow> 0 \<le> max_output_values l \<Longrightarrow>
     exc_cls e = IPCProtocolError \<or> exc_cls e = BackendProcessError \<or> exc_cls e = ValidationError"
  by (auto simp: read_predict_reply_def rbind_Inl_iff dest: reply_op_error decoder_errors decode_result_error
      split: if_splits)

section \<open>Operations\<close>

lemma keeps_lift:
  "(\<And>e. x = Inl e \<Longrightarrow> h_spawn h = Inl e \<or> exc_cls e = BackendProcessError \<or> exc_cls e = ValidationError) \<Longrightarrow>
     keeps h (lift_r (\<lambda>_. x))"
  by (auto simp: hoare_def lift_r_def request_error_def split: sum.splits)

lemma fail_keeps:
  fixes h :: "'c host"
  shows "keeps h (fail_with ''process_crashes'' (BPE text))"
proof (rule keepsI)
  fix s t :: "'c runner" and r
  assume "runner_inv s" "fail_with ''process_crashes'' (BPE text) s = (r, t)"
  from fail_with_error [OF _ _ this, of h] show "case r of Inr x \<Rightarrow> runner_inv t | Inl e \<Rightarrow> request_error h e t"
    by auto
qed

lemma handshake_keeps: "keeps h (read_handshake f)"
  unfolding read_handshake_def
proof (rule keeps_bind)
  show "keeps h (or_violation [IPCProtocolError, ValueError] ''isolated inference worker failed startup handshake''
       (rbind (reply_op f 0) (\<lambda>op.
        if py_eq op (JStr ''startup_error'')
        then rbind (decode_startup_error f) (\<lambda>(code, message). Inr True)
        else rbind (decode_ready f) (\<lambda>_. Inr False))))"
    by (rule violation_keeps)
       (auto simp: rbind_Inl_iff split: if_splits dest: reply_op_error decoder_errors ipc_isinstance)
  show "keeps h (if x then fail_with ''process_crashes'' (BPE ''isolated inference worker failed resource setup'') else ret ())" for x
    by (cases x) (simp_all add: keeps_ret fail_keeps)
qed

lemma counts [simp]:
  "process_starts (increment_process_counter ''process_starts'' c) = process_starts c + 1"
  "process_restarts (increment_process_counter ''process_starts'' c) = process_restarts c"
  "process_starts (increment_process_counter ''process_restarts'' c) = process_starts c"
  "process_restarts (increment_process_counter ''process_restarts'' c) = process_restarts c + 1"
  "process_starts (increment_process_counter ''process_restart_throttled'' c) = process_starts c"
  "process_restarts (increment_process_counter ''process_restart_throttled'' c) = process_restarts c"
  by (simp_all add: increment_process_counter_def)

lemma launch_run:
  "launch h now s =
     (if ever_started s then
        (case budget_reserve now (r_budget s) of
           (Inl e, b) \<Rightarrow> (Inl e, s\<lparr>r_budget := b, r_counters := increment_process_counter ''process_restart_throttled'' (r_counters s)\<rparr>)
         | (Inr u, b) \<Rightarrow>
             (case h_spawn h of
                Inl e \<Rightarrow> (Inl e, s\<lparr>r_budget := b\<rparr>)
              | Inr c \<Rightarrow> (Inr (), s\<lparr>r_budget := b, link := Some c, r_generation := None, ever_started := True,
                   r_counters := increment_process_counter ''process_restarts''
                     (increment_process_counter ''process_starts'' (r_counters s))\<rparr>)))
      else
        (case h_spawn h of
           Inl e \<Rightarrow> (Inl e, s)
         | Inr c \<Rightarrow> (Inr (), s\<lparr>link := Some c, r_generation := None, ever_started := True,
              r_counters := increment_process_counter ''process_starts'' (r_counters s)\<rparr>)))"
  by (simp add: launch_def bind_p_def prog_simps increment_def reserve_restart_def split: prod.splits sum.splits)

lemma launch_keeps: "keeps h (launch h now)"
proof (rule keepsI)
  fix s r t
  assume i: "runner_inv s" and run: "launch h now s = (r, t)"
  have e: "exc_cls e = BackendProcessError" if "budget_reserve now (r_budget s) = (Inl e, b)" for e b
    using that by (auto simp: budget_reserve_def Let_def split: if_splits)
  show "case r of Inr x \<Rightarrow> runner_inv t | Inl e \<Rightarrow> request_error h e t"
    using run i e unfolding launch_run
    by (auto simp: runner_inv_def request_error_def split: if_splits sum.splits prod.splits)
qed

lemma start_keeps:
  assumes "host_ok h"
  shows "keeps h (runner_start h now)"
proof (rule keepsI)
  fix s r t
  assume i: "runner_inv s" and run: "runner_start h now s = (r, t)"
  have k: "keeps h (bind_p (modify_p (\<lambda>t. t\<lparr>link := None, r_generation := None\<rparr>)) (\<lambda>_.
        bind_p (if b then increment ''process_crashes'' else ret ()) (\<lambda>_.
        bind_p (launch h now) (\<lambda>_. bind_p (receive_frame h False) read_handshake))))" for b
    by (intro keeps_bind keeps_modify launch_keeps receive_frame_keeps [OF assms] handshake_keeps abort_inv)
       (auto simp: increment_def keeps_ret intro!: keeps_modify keeps_increment)
  show "case r of Inr x \<Rightarrow> runner_inv t | Inl e \<Rightarrow> request_error h e t"
  proof (cases "runner_alive h s")
    case True
    then show ?thesis using run i by (auto simp: runner_start_def)
  next
    case False
    then show ?thesis
      using run hoare_returns [OF k i] hoare_raises [OF k i] by (auto simp: runner_start_def split: sum.splits)
  qed
qed

lemma encode_errors:
  "encode_load_artifact g mb k a u = Inl e \<Longrightarrow> exc_cls e = IPCProtocolError"
  "encode_predict Some i g x = Inl e \<Longrightarrow> exc_cls e = IPCProtocolError"
  by (auto simp: encode_load_artifact_def encode_predict_def float32_payload_def rbind_Inl_iff
      dest: ipc_field_error encode_frame_error)

lemma except_ipc:
  "except_r [IPCProtocolError] g x = Inl e \<Longrightarrow> (\<And>e. x = Inl e \<Longrightarrow> exc_cls e = IPCProtocolError) \<Longrightarrow> \<exists>e'. e = g e'"
  by (auto simp: except_r_def isinstance_def split: sum.splits if_splits)

lemma load_keeps:
  assumes "host_ok h"
  shows "keeps h (runner_load h now p)"
proof -
  have "keeps h (load_request h p)"
    unfolding load_request_def
    by (intro keeps_bind keeps_lift send_frame_keeps [OF assms])
       (auto dest!: except_ipc intro: encode_errors)
  moreover have "keeps h (load_reply h p)"
    unfolding load_reply_def
    by (intro keeps_bind receive_frame_keeps [OF assms] violation_keeps keeps_modify)
       (auto dest: read_load_reply_error ipc_isinstance simp: runner_inv_def)
  ultimately show ?thesis
    unfolding runner_load_def
    by (intro keeps_bind start_keeps [OF assms] keeps_ret) (auto simp: keeps_ret intro: keeps_bind)
qed

lemma execute_keeps:
  assumes "host_ok h" "0 \<le> max_output_values l"
  shows "keeps h (runner_execute h now p l)"
proof -
  have "keeps h (execute_request h p)"
    unfolding execute_request_def
    by (intro keeps_bind keeps_lift send_frame_keeps [OF assms(1)] keeps_modify keeps_ret)
       (auto dest!: except_ipc intro: encode_errors simp: runner_inv_def)
  moreover have "keeps h (execute_reply h p l i)" for i
    unfolding execute_reply_def
    by (intro keeps_bind receive_frame_keeps [OF assms(1)] violation_keeps)
       (use assms(2) in \<open>auto dest: read_predict_reply_error ipc_isinstance\<close>)
  ultimately show ?thesis
    unfolding runner_execute_def by (intro keeps_bind load_keeps [OF assms(1)])
qed

lemma close_ends:
  assumes "host_ok h"
  shows "runner_close h s = (Inr (), s\<lparr>link := None, r_generation := None\<rparr>)"
proof -
  have er: "socket_error e" if r: "rbind (encode_simple ''close'') (\<lambda>f. fst (h_send h f c)) = Inl e" for c e
  proof (cases "encode_simple ''close''")
    case (Inl e')
    then have "exc_cls e = IPCProtocolError"
      using r encode_frame_error by (simp add: encode_simple_def)
    then show ?thesis by (simp add: socket_error_def ipc_isinstance)
  next
    case (Inr f)
    then have "h_send h f c = (Inl e, snd (h_send h f c))" using r by (simp add: prod_eq_iff)
    then show ?thesis by (rule host_ok_errors(1) [OF assms])
  qed
  have ab: "abort u = (Inr (), u\<lparr>link := None, r_generation := None\<rparr>)" for u :: "'a runner"
    by (simp add: abort_def modify_p_def)
  show ?thesis
  proof (cases "link s")
    case (Some c)
    then show ?thesis
      using er [of c] by (auto simp: runner_close_def ab socket_error_def split: sum.splits)
  qed (simp add: runner_close_def ab)
qed

section \<open>The invariant\<close>

definition outcome_ok :: "'c host \<Rightarrow> 'a res \<times> 'c runner \<Rightarrow> bool" where
  "outcome_ok h res = (case res of (Inr _, t) \<Rightarrow> runner_inv t | (Inl e, t) \<Rightarrow> request_error h e t)"

lemma keeps_outcome: "keeps h p \<Longrightarrow> runner_inv s \<Longrightarrow> outcome_ok h (p s)"
  by (auto simp: hoare_def outcome_ok_def split: prod.splits sum.splits)

text \<open>C30: Whatever the child and the sockets do, the supervisor keeps its books: every child it has
  is one it started, and the starts it counted are the restarts and the first start. A request
  fails with \<^verbatim>\<open>BackendProcessError\<close>, \<^verbatim>\<open>ValidationError\<close> or \<^verbatim>\<open>ExecutionDeadlineExceeded\<close>, or with
  the error of creating the process; after a deadline no child is left, so no late answer can
  meet a later request. \<^verbatim>\<open>close\<close> returns with no child left.\<close>

theorem supervisor_invariant:
  assumes "host_ok h" "runner_inv s" "limits_ok l"
  shows "outcome_ok h (runner_start h now s) \<and> outcome_ok h (runner_load h now p s) \<and>
    outcome_ok h (runner_execute h now p l s) \<and>
    runner_close h s = (Inr (), s\<lparr>link := None, r_generation := None\<rparr>) \<and>
    runner_inv (s\<lparr>link := None, r_generation := None\<rparr>)"
proof (intro conjI)
  have "0 \<le> max_output_values l" using assms(3) by (simp add: limits_ok_def)
  then show "outcome_ok h (runner_execute h now p l s)"
    using execute_keeps [OF assms(1)] keeps_outcome assms(2) by blast
qed (rule keeps_outcome [OF start_keeps] keeps_outcome [OF load_keeps] close_ends abort_inv; fact assms)+

definition mute_host :: "unit host" where
  "mute_host = \<lparr>h_spawn = Inr (), h_alive = \<lambda>_. True, h_send = \<lambda>_ c. (Inr (), c),
     h_recv = \<lambda>_ c. (Inl (Exc TimeoutErr ''timed out''), c)\<rparr>"

theorem supervisor_invariant_witness:
  "\<exists>s :: unit runner. runner_inv s \<and> outcome_ok mute_host (runner_execute mute_host (Fin 0)
     \<lparr>p_generation = 1, p_model_bytes = ''m'', p_model_kind = ''k'', p_runtime_abi = ''a'',
      p_max_uncompressed_bytes = 4096, p_inputs = sample_tensor\<rparr> (r_limits s) s)"
proof -
  let ?l = "\<lparr>max_batch = 1, max_input_features = 2, max_input_values = 2, max_output_classes = 2,
    max_output_values = 2, max_model_transfer_bytes = 4096\<rparr>"
  let ?s = "new_runner ?l \<lparr>process_starts = 0, process_restarts = 0, process_crashes = 0,
      process_restart_throttled = 0, execution_timeouts = 0\<rparr>
    \<lparr>restart_limit = 8, restart_window_s = Fin 60, restart_times = []\<rparr> :: unit runner"
  have h: "host_ok mute_host" by (simp add: host_ok_def mute_host_def socket_error_def)
  have i: "runner_inv ?s" by (simp add: runner_inv_def new_runner_def limits_ok_def)
  have l: "limits_ok (r_limits ?s)" by (simp add: new_runner_def limits_ok_def)
  show ?thesis using supervisor_invariant [OF h i l] i by blast
qed

end
