(* ===== verification/Executor.thy ===== *)
theory Executor
  imports InferenceQueue RequestTask Util
begin

text \<open>
  \<^verbatim>\<open>BoundedInferenceExecutor\<close> of \<^verbatim>\<open>src/src/edgeai/runtime.py\<close>: a fixed set of workers on the
  bounded queue, with the requests' own locks. The state is the queue, a store of request
  objects (shared by reference between submitters and workers), the phase of each worker, and
  the flags under the state lock. Every method is cut at its critical sections, and the step
  relation runs the sections of all threads in any order. What the backend returns for a
  request is an input of the step.
\<close>

type_synonym tid = nat

section \<open>Construction\<close>

text \<open>\<^verbatim>\<open>not bool, int or float, finite, > 0\<close>; \<open>math.isfinite\<close> of a huge integer raises.\<close>

definition positive_number :: "json \<Rightarrow> exc \<Rightarrow> pyfloat res" where
  "positive_number v e =
     rbind (of_opt e (as_num v)) (\<lambda>n.
     rbind (math_isfinite n) (\<lambda>fin.
     rbind (guard_r (fin \<and> \<not> num_le n (NInt 0)) e) (\<lambda>_. num_to_float n)))"

definition int_between :: "json \<Rightarrow> int \<Rightarrow> int \<Rightarrow> exc \<Rightarrow> int res" where
  "int_between v lo hi e =
     rbind (of_opt e (as_int v)) (\<lambda>n. rbind (guard_r (lo \<le> n \<and> n \<le> hi) e) (\<lambda>_. Inr n))"

definition opt_arg :: "json \<Rightarrow> (json \<Rightarrow> 'a res) \<Rightarrow> 'a option res" where
  "opt_arg v f = (if v = JNull then Inr None else rbind (f v) (\<lambda>x. Inr (Some x)))"

definition parse_mode :: "pystr \<Rightarrow> execution_mode res" where
  "parse_mode t =
     (if t = ''thread'' then Inr THREAD else if t = ''process'' then Inr PROCESS
      else Inl (Exc ValueError ''not a valid ExecutionMode''))"

record executor_config =
  cf_workers :: int
  cf_mode :: execution_mode
  cf_execution_timeout_s :: "pyfloat option"
  cf_control_timeout_s :: pyfloat
  cf_memory_limit_mb :: "int option"
  cf_nofile_limit :: int
  cf_restart_limit :: int
  cf_restart_window_s :: pyfloat

definition VER :: "string \<Rightarrow> exc" where
  "VER t = Exc ValueError t"

definition executor_config_check ::
  "json \<Rightarrow> int \<Rightarrow> overflow_policy \<Rightarrow> pystr \<Rightarrow> json \<Rightarrow> json \<Rightarrow> json \<Rightarrow> json \<Rightarrow> json \<Rightarrow> json \<Rightarrow>
   (executor_config \<times> tid infer_queue) res" where
  "executor_config_check workers cap pol mode execution_timeout_s control_timeout_s memory_limit_mb nofile_limit
     restart_limit restart_window_s =
     rbind (int_between workers 1 64 (VER ''workers must be an integer in [1,64]'')) (\<lambda>w.
     rbind (queue_init cap pol) (\<lambda>q.
     rbind (parse_mode mode) (\<lambda>m.
     rbind (opt_arg execution_timeout_s (\<lambda>v.
              positive_number v (VER ''execution_timeout_s must be finite and > 0''))) (\<lambda>et.
     rbind (positive_number control_timeout_s (VER ''process_control_timeout_s must be finite and > 0'')) (\<lambda>ct.
     rbind (guard_r (\<not> (m = PROCESS \<and> et = None)) (VER ''process execution mode requires execution_timeout_s'')) (\<lambda>_.
     rbind (guard_r (\<not> (m = THREAD \<and> et \<noteq> None)) (VER ''execution_timeout_s requires process execution mode'')) (\<lambda>_.
     rbind (opt_arg memory_limit_mb (\<lambda>v.
              int_between v 64 1048576 (VER ''process_memory_limit_mb must be an integer in [64,1048576]''))) (\<lambda>mem.
     rbind (guard_r (\<not> (m = THREAD \<and> mem \<noteq> None)) (VER ''process_memory_limit_mb requires process execution mode'')) (\<lambda>_.
     rbind (int_between nofile_limit 16 1048576 (VER ''process_nofile_limit must be an integer in [16,1048576]'')) (\<lambda>nf.
     rbind (int_between restart_limit 1 10000 (VER ''process_restart_limit must be an integer in [1,10000]'')) (\<lambda>rl.
     rbind (positive_number restart_window_s (VER ''process_restart_window_s must be finite and in (0,86400]'')) (\<lambda>rw.
     rbind (guard_r (float_le rw (Fin 86400)) (VER ''process_restart_window_s must be finite and in (0,86400]'')) (\<lambda>_.
     Inr (\<lparr>cf_workers = w, cf_mode = m, cf_execution_timeout_s = et, cf_control_timeout_s = ct,
          cf_memory_limit_mb = mem, cf_nofile_limit = nf, cf_restart_limit = rl, cf_restart_window_s = rw\<rparr>, q))))))))))))))"

section \<open>State\<close>

text \<open>
  A worker in its loop: about to take from the queue; with what it took (the expired requests
  still to be told, then the request it may run); running a request; returned.
\<close>

datatype worker_phase = Looping | Holding "tid list" "tid option" | Running tid | Exited

record ('p, 'r) executor =
  x_queue :: "tid infer_queue"
  x_tasks :: "tid \<Rightarrow> ('p, 'r) task"
  x_next :: tid
  x_accepted :: "tid set"
  x_leaving :: "tid set"
  x_started :: bool
  x_closed :: bool
  x_phase :: "nat \<Rightarrow> worker_phase"
  x_completed :: nat
  x_failed :: nat

definition update_task :: "tid \<Rightarrow> (('p, 'r) task \<Rightarrow> ('p, 'r) task) \<Rightarrow> ('p, 'r) executor \<Rightarrow> ('p, 'r) executor" where
  "update_task i f x = x\<lparr>x_tasks := (x_tasks x)(i := f (x_tasks x i))\<rparr>"

definition closed_error :: exc where
  "closed_error = Exc ExecutorClosed ''inference executor is closed''"

section \<open>Submitters\<close>

text \<open>\<^verbatim>\<open>start\<close>: \<open>runners\<close> is the outcome of starting the child processes of process mode.\<close>

definition executor_start :: "unit res \<Rightarrow> nat \<Rightarrow> (('p, 'r) executor, unit) prog" where
  "executor_start runners workers x =
     (if x_closed x then (Inl closed_error, x)
      else if x_started x then (Inr (), x)
      else (case runners of
              Inl e \<Rightarrow> (Inl e, x)
            | Inr _ \<Rightarrow> (Inr (), x\<lparr>x_started := True,
                x_phase := (\<lambda>w. if w < workers then Looping else x_phase x w)\<rparr>)))"

definition enqueue :: "pyfloat \<Rightarrow> tid \<Rightarrow> pyfloat option \<Rightarrow> (('p, 'r) executor, unit) prog" where
  "enqueue now i deadline_s x =
     (if x_closed x then (Inl closed_error, x)
      else case push_with_evicted now i deadline_s (x_queue x) of
             (Inl e, q) \<Rightarrow> (Inl e, x\<lparr>x_queue := q\<rparr>)
           | (Inr (ok, ev), q) \<Rightarrow>
               if \<not> ok then (Inl (Exc QueueFull ''inference queue dropped newest request''), x\<lparr>x_queue := q\<rparr>)
               else (Inr (), (case ev of
                    None \<Rightarrow> x\<lparr>x_queue := q, x_accepted := insert i (x_accepted x)\<rparr>
                  | Some old \<Rightarrow> update_task (payload old)
                      (task_complete None (Some (Exc QueueDropped ''inference queue dropped oldest request'')))
                      (x\<lparr>x_queue := q, x_accepted := insert i (x_accepted x)\<rparr>))))"

text \<open>The object of a new request is made before it is enqueued.\<close>

definition submit :: "pyfloat \<Rightarrow> 'p \<Rightarrow> bool \<Rightarrow> pyfloat option \<Rightarrow> (('p, 'r) executor, unit) prog" where
  "submit now p notify deadline_s x =
     enqueue now (x_next x) deadline_s
       (x\<lparr>x_tasks := (x_tasks x)(x_next x := new_task p notify), x_next := x_next x + 1\<rparr>)"

text \<open>
  The submitter whose wait ran out (or, for \<^verbatim>\<open>submit_async\<close>, that was cancelled) settles its
  request if no worker has started it, and then takes it off the queue.
\<close>

definition give_up ::
  "(('p, 'r) task \<Rightarrow> bool \<times> ('p, 'r) task) \<Rightarrow> tid \<Rightarrow> ('p, 'r) executor \<Rightarrow> ('p, 'r) executor" where
  "give_up settle i x =
     (let (b, t) = settle (x_tasks x i)
      in x\<lparr>x_tasks := (x_tasks x)(i := t), x_leaving := (if b then insert i (x_leaving x) else x_leaving x)\<rparr>)"

definition leave_queue :: "tid \<Rightarrow> ('p, 'r) executor \<Rightarrow> ('p, 'r) executor" where
  "leave_queue i x =
     x\<lparr>x_queue := snd (expire_payload i (x_queue x)), x_leaving := x_leaving x - {i}\<rparr>"

section \<open>Workers\<close>

definition worker_pop :: "pyfloat \<Rightarrow> nat \<Rightarrow> ('p, 'r) executor \<Rightarrow> ('p, 'r) executor" where
  "worker_pop now w x =
     (let (item, ex, q) = pop_turn now (x_queue x)
      in x\<lparr>x_queue := q, x_phase := (x_phase x)(w := Holding (map payload ex) (map_option payload item))\<rparr>)"

definition count_outcome :: "exc option \<Rightarrow> ('p, 'r) executor \<Rightarrow> ('p, 'r) executor" where
  "count_outcome e x =
     (if e = None then x\<lparr>x_completed := x_completed x + 1\<rparr> else x\<lparr>x_failed := x_failed x + 1\<rparr>)"

text \<open>What the worker does next; \<open>outcome\<close> is the result or the exception of its request.\<close>

fun worker_next :: "'r + exc \<Rightarrow> nat \<Rightarrow> worker_phase \<Rightarrow> ('p, 'r) executor \<Rightarrow> ('p, 'r) executor" where
  "worker_next oc w (Holding (i # is) item) x =
     (update_task i (task_complete None
        (Some (Exc DeadlineExceeded ''inference request expired before execution''))) x)
       \<lparr>x_phase := (x_phase x)(w := Holding is item)\<rparr>"
| "worker_next oc w (Holding [] None) x =
     x\<lparr>x_phase := (x_phase x)(w := if x_closed x then Exited else Looping)\<rparr>"
| "worker_next oc w (Holding [] (Some i)) x =
     (let (b, t) = task_begin (x_tasks x i)
      in x\<lparr>x_tasks := (x_tasks x)(i := t), x_phase := (x_phase x)(w := if b then Running i else Looping)\<rparr>)"
| "worker_next oc w (Running i) x =
     count_outcome (case oc of Inl _ \<Rightarrow> None | Inr e \<Rightarrow> Some e)
       ((update_task i (case oc of Inl r \<Rightarrow> task_complete (Some r) None | Inr e \<Rightarrow> task_complete None (Some e)) x)
          \<lparr>x_phase := (x_phase x)(w := Looping)\<rparr>)"
| "worker_next oc w Looping x = x"
| "worker_next oc w Exited x = x"

section \<open>Closing\<close>

definition settle_all :: "exc \<Rightarrow> tid list \<Rightarrow> ('p, 'r) executor \<Rightarrow> ('p, 'r) executor" where
  "settle_all e is x = fold (\<lambda>i. update_task i (task_complete None (Some e))) is x"

definition executor_close :: "('p, 'r) executor \<Rightarrow> ('p, 'r) executor" where
  "executor_close x =
     (if x_closed x then x
      else let (queued, q) = drain (x_queue x)
           in settle_all closed_error (map payload queued) (x\<lparr>x_closed := True, x_queue := q\<rparr>))"

section \<open>All threads\<close>

inductive exec_step :: "('p, 'r) executor \<Rightarrow> ('p, 'r) executor \<Rightarrow> bool" where
  start: "executor_start runners workers x = (r, y) \<Longrightarrow> exec_step x y"
| submit: "x_started x \<Longrightarrow> submit now p n d x = (r, y) \<Longrightarrow> exec_step x y"
| expire: "i \<in> x_accepted x \<Longrightarrow> exec_step x (give_up expire_if_not_started i x)"
| cancel: "i \<in> x_accepted x \<Longrightarrow> exec_step x (give_up cancel_if_not_started i x)"
| leave: "i \<in> x_leaving x \<Longrightarrow> exec_step x (leave_queue i x)"
| pop: "x_phase x w = Looping \<Longrightarrow> exec_step x (worker_pop now w x)"
| work: "exec_step x (worker_next oc w (x_phase x w) x)"
| close: "exec_step x (executor_close x)"

definition new_executor :: "nat \<Rightarrow> overflow_policy \<Rightarrow> ('p, 'r) executor \<Rightarrow> bool" where
  "new_executor cap pol x \<longleftrightarrow>
     x_queue x = \<lparr>capacity = cap, policy = pol, items = [], dropped = 0, expired = 0, accepted = 0\<rparr> \<and>
     x_next x = 0 \<and> x_accepted x = {} \<and> x_leaving x = {} \<and> \<not> x_started x \<and> \<not> x_closed x \<and>
     (\<forall>w. x_phase x w = Exited) \<and> x_completed x = 0 \<and> x_failed x = 0"

text \<open>The requests a worker has taken and not yet settled.\<close>

fun in_hand :: "worker_phase \<Rightarrow> tid list" where
  "in_hand (Holding is item) = is @ (case item of None \<Rightarrow> [] | Some i \<Rightarrow> [i])"
| "in_hand (Running i) = [i]"
| "in_hand _ = []"

end
