(* ===== verification/ExecutorProps.thy ===== *)
theory ExecutorProps
  imports Executor
begin

text \<open>
  What the executor promises its submitters: no accepted request is lost, none is in two
  places, and after \<^verbatim>\<open>close\<close> every worker returns and every accepted request is settled.
\<close>

section \<open>Where requests are\<close>

abbreviation queued :: "('p, 'r) executor \<Rightarrow> tid list" where
  "queued x \<equiv> map payload (items (x_queue x))"

abbreviation hand :: "('p, 'r) executor \<Rightarrow> nat \<Rightarrow> tid list" where
  "hand x w \<equiv> in_hand (x_phase x w)"

abbreviation settled_in :: "('p, 'r) executor \<Rightarrow> tid \<Rightarrow> bool" where
  "settled_in x i \<equiv> done_set (x_tasks x i)"

text \<open>Requests that are accepted and not settled are queued or in one worker's hands, once.\<close>

definition places :: "tid list \<Rightarrow> (nat \<Rightarrow> tid list) \<Rightarrow> tid set \<Rightarrow> (tid \<Rightarrow> bool) \<Rightarrow> bool" where
  "places q h acc d \<longleftrightarrow>
     distinct q \<and> (\<forall>w. distinct (h w) \<and> set (h w) \<inter> set q = {} \<and> set (h w) \<subseteq> acc) \<and>
     (\<forall>w v. w \<noteq> v \<longrightarrow> set (h w) \<inter> set (h v) = {}) \<and> set q \<subseteq> acc \<and>
     (\<forall>i \<in> acc. d i \<or> i \<in> set q \<or> (\<exists>w. i \<in> set (h w)))"

definition executor_inv :: "('p, 'r) executor \<Rightarrow> bool" where
  "executor_inv x \<longleftrightarrow>
     places (queued x) (hand x) (x_accepted x) (settled_in x) \<and>
     (\<forall>i \<in> x_accepted x. i < x_next x) \<and> (\<forall>i \<in> x_leaving x. settled_in x i) \<and> x_leaving x \<subseteq> x_accepted x \<and>
     (x_closed x \<longrightarrow> items (x_queue x) = []) \<and> (\<not> x_started x \<longrightarrow> (\<forall>w. x_phase x w = Exited)) \<and>
     0 < capacity (x_queue x)"

lemma places_settle: "places q h acc d \<Longrightarrow> (\<And>i. d i \<Longrightarrow> d' i) \<Longrightarrow> places q h acc d'"
  unfolding places_def by blast

lemma places_add: "places q h acc d \<Longrightarrow> i \<notin> acc \<Longrightarrow> places (q @ [i]) h (insert i acc) d"
  unfolding places_def by auto

lemma places_evict: "places (i # q) h acc d \<Longrightarrow> d' i \<Longrightarrow> (\<And>i. d i \<Longrightarrow> d' i) \<Longrightarrow> places q h acc d'"
  unfolding places_def by auto

lemma places_remove: "places (p @ i # q) h acc d \<Longrightarrow> d i \<Longrightarrow> places (p @ q) h acc d"
  unfolding places_def by auto

lemma places_drain: "places q h acc d \<Longrightarrow> (\<And>i. d i \<or> i \<in> set q \<Longrightarrow> d' i) \<Longrightarrow> places [] h acc d'"
  unfolding places_def by auto

lemma placesD:
  assumes "places q h acc d"
  shows "distinct q" "distinct (h w)" "i \<in> set (h w) \<Longrightarrow> i \<notin> set q" "i \<in> set (h w) \<Longrightarrow> i \<in> acc"
    "i \<in> set (h w) \<Longrightarrow> i \<in> set (h v) \<Longrightarrow> v = w" "i \<in> set q \<Longrightarrow> i \<in> acc"
    "i \<in> acc \<Longrightarrow> \<not> d i \<Longrightarrow> i \<in> set q \<or> (\<exists>w. i \<in> set (h w))"
  using assms unfolding places_def by (blast+)

lemma placesI:
  assumes "distinct q" "\<And>w. distinct (h w)" "\<And>i w. i \<in> set (h w) \<Longrightarrow> i \<notin> set q \<and> i \<in> acc"
    "\<And>i w v. i \<in> set (h w) \<Longrightarrow> i \<in> set (h v) \<Longrightarrow> v = w" "\<And>i. i \<in> set q \<Longrightarrow> i \<in> acc"
    "\<And>i. i \<in> acc \<Longrightarrow> \<not> d i \<Longrightarrow> i \<in> set q \<or> (\<exists>w. i \<in> set (h w))"
  shows "places q h acc d"
  using assms unfolding places_def by (blast+)

lemma places_take:
  assumes p: "places (t @ q) h acc d" and e: "h w = []"
  shows "places q (h(w := t)) acc d"
proof (rule placesI)
  note D = placesD [OF p]
  have d: "distinct t" "distinct q" "set t \<inter> set q = {}" using D(1) by auto
  show "distinct q" by (rule d(2))
  show "distinct ((h(w := t)) v)" for v using d(1) D(2) [of v] by simp
  show "i \<notin> set q \<and> i \<in> acc" if "i \<in> set ((h(w := t)) v)" for i v
    using that d(3) D(3) [of i v] D(4) [of i v] D(6) [of i] by (auto split: if_splits)
  show "v = u" if "i \<in> set ((h(w := t)) u)" "i \<in> set ((h(w := t)) v)" for i u v
    using that D(3) [of i u] D(3) [of i v] D(5) [of i u v] by (auto split: if_splits)
  show "i \<in> acc" if "i \<in> set q" for i using that D(6) [of i] by simp
  show "i \<in> set q \<or> (\<exists>v. i \<in> set ((h(w := t)) v))" if a: "i \<in> acc" "\<not> d i" for i
  proof -
    from D(7) [OF a] consider "i \<in> set q" | "i \<in> set t" | v where "i \<in> set (h v)" by auto
    then show ?thesis
    proof cases
      case 3
      then have "v \<noteq> w" using e by auto
      then show ?thesis using 3 by (intro disjI2 exI [of _ v]) simp
    qed (auto intro: exI [of _ w])
  qed
qed

lemma places_drop:
  assumes p: "places q h acc d" and e: "h w = i # t" and d': "d' i" "\<And>i. d i \<Longrightarrow> d' i"
  shows "places q (h(w := t)) acc d'"
proof (rule placesI)
  note D = placesD [OF p]
  show "distinct q" by (rule D(1))
  show "distinct ((h(w := t)) v)" for v using e D(2) [of v] D(2) [of w] by simp
  show "j \<notin> set q \<and> j \<in> acc" if "j \<in> set ((h(w := t)) v)" for j v
    using that e D(3,4) [of j v] by (auto split: if_splits)
  show "v = u" if "j \<in> set ((h(w := t)) u)" "j \<in> set ((h(w := t)) v)" for j u v
    using that e D(5) [of j u v] by (auto split: if_splits)
  show "j \<in> acc" if "j \<in> set q" for j using that D(6) [of j] by simp
  show "j \<in> set q \<or> (\<exists>v. j \<in> set ((h(w := t)) v))" if a: "j \<in> acc" "\<not> d' j" for j
  proof -
    from D(7) [OF a(1)] consider "j \<in> set q" | v where "j \<in> set (h v)" using a(2) d'(2) by blast
    then show ?thesis
    proof cases
      case 2
      then have "j \<in> set ((h(w := t)) v)" using e a(2) d'(1) by auto
      then show ?thesis by blast
    qed blast
  qed
qed

lemma complete_done [simp]: "done_set (task_complete r e t)" "done_set t \<Longrightarrow> task_complete r e t = t"
  by (simp_all add: task_complete_def call_notify_def)

lemma update_task_simps [simp]:
  "x_queue (update_task i f x) = x_queue x" "x_phase (update_task i f x) = x_phase x"
  "x_accepted (update_task i f x) = x_accepted x" "x_next (update_task i f x) = x_next x"
  "x_leaving (update_task i f x) = x_leaving x" "x_closed (update_task i f x) = x_closed x"
  "x_started (update_task i f x) = x_started x"
  "x_tasks (update_task i f x) = (x_tasks x)(i := f (x_tasks x i))"
  by (simp_all add: update_task_def)

lemma settle_all_simps [simp]:
  "x_queue (settle_all e is x) = x_queue x" "x_phase (settle_all e is x) = x_phase x"
  "x_accepted (settle_all e is x) = x_accepted x" "x_next (settle_all e is x) = x_next x"
  "x_leaving (settle_all e is x) = x_leaving x" "x_closed (settle_all e is x) = x_closed x"
  "x_started (settle_all e is x) = x_started x"
  "settled_in (settle_all e is x) i \<longleftrightarrow> settled_in x i \<or> i \<in> set is"
proof -
  have "x_queue (fold f is x) = x_queue x \<and> x_phase (fold f is x) = x_phase x \<and>
      x_accepted (fold f is x) = x_accepted x \<and> x_next (fold f is x) = x_next x \<and>
      x_leaving (fold f is x) = x_leaving x \<and> x_closed (fold f is x) = x_closed x \<and>
      x_started (fold f is x) = x_started x \<and>
      (settled_in (fold f is x) i \<longleftrightarrow> settled_in x i \<or> i \<in> set is)"
    if "f = (\<lambda>i. update_task i (task_complete None (Some e)))" for f
    by (induction "is" arbitrary: x) (auto simp: that)
  then show "x_queue (settle_all e is x) = x_queue x" "x_phase (settle_all e is x) = x_phase x"
    "x_accepted (settle_all e is x) = x_accepted x" "x_next (settle_all e is x) = x_next x"
    "x_leaving (settle_all e is x) = x_leaving x" "x_closed (settle_all e is x) = x_closed x"
    "x_started (settle_all e is x) = x_started x"
    "settled_in (settle_all e is x) i \<longleftrightarrow> settled_in x i \<or> i \<in> set is"
    by (simp_all add: settle_all_def)
qed

lemma hand_update: "(\<lambda>v. in_hand ((f(w := p)) v)) = (\<lambda>v. in_hand (f v))(w := in_hand p)"
  by auto

section \<open>Every step keeps it\<close>

lemma executor_invD:
  assumes "executor_inv x"
  shows "places (queued x) (hand x) (x_accepted x) (settled_in x)" "i \<in> x_accepted x \<Longrightarrow> i < x_next x"
    "i \<in> x_leaving x \<Longrightarrow> settled_in x i" "x_leaving x \<subseteq> x_accepted x"
    "x_closed x \<Longrightarrow> items (x_queue x) = []" "\<not> x_started x \<Longrightarrow> x_phase x w = Exited" "0 < capacity (x_queue x)"
  using assms unfolding executor_inv_def by blast+

lemma start_inv:
  assumes i: "executor_inv x" and r: "executor_start runners workers x = (r, y)"
  shows "executor_inv y"
proof (cases "y = x")
  case False
  then have y: "y = x\<lparr>x_started := True, x_phase := (\<lambda>w. if w < workers then Looping else x_phase x w)\<rparr>" "\<not> x_started x"
    using r by (auto simp: executor_start_def split: if_splits sum.splits)
  have "hand x = (\<lambda>_. [])" "hand y = (\<lambda>_. [])" using executor_invD(6) [OF i y(2)] y(1) by auto
  then show ?thesis using i y by (simp add: executor_inv_def)
qed (use i in simp)

lemma new_task_inv:
  assumes i: "executor_inv x"
  shows "executor_inv (x\<lparr>x_tasks := (x_tasks x)(x_next x := t), x_next := x_next x + 1\<rparr>)"
proof -
  note I = executor_invD [OF i]
  have "places (queued x) (hand x) (x_accepted x) (\<lambda>i. done_set (((x_tasks x)(x_next x := t)) i))"
    using I(1) placesD(7) [OF I(1)] I(2) unfolding places_def by (auto simp: less_irrefl)
  then show ?thesis
    using i I(2,4) by (auto simp: executor_inv_def less_Suc_eq)
qed

lemma enqueue_inv:
  assumes i: "executor_inv x" and f: "n \<notin> x_accepted x" "n < x_next x"
    and r: "enqueue now n d x = (r, y)"
  shows "executor_inv y"
proof (cases "x_closed x")
  case True
  then show ?thesis using i r by (simp add: enqueue_def)
next
  case False
  note I = executor_invD [OF i]
  obtain pr q where pr: "push_with_evicted now n d (x_queue x) = (pr, q)" by fastforce
  show ?thesis
  proof (cases "queue_deadline now d")
    case (Inl e)
    then have "y = x" using r pr False by (auto simp: enqueue_def push_with_evicted_def bind_p_def prog_simps)
    then show ?thesis using i by simp
  next
    case (Inr dl)
    define it where "it = \<lparr>payload = n, enqueued_monotonic = now, deadline_monotonic = dl\<rparr>"
    have pi: "push_item it (x_queue x) = (pr, q)"
      using pr Inr by (simp add: push_with_evicted_def bind_p_def prog_simps it_def)
    have cap: "capacity q = capacity (x_queue x)" using bq.put_room [OF pi] by simp
    consider (no) "(\<exists>e. pr = Inl e) \<or> (\<exists>ev. pr = Inr (False, ev))" | (add) "pr = Inr (True, None)"
      | (ev) old where "pr = Inr (True, Some old)"
      by (cases pr) (metis (full_types) option.exhaust surj_pair)+
    then show ?thesis
    proof cases
      case no
      then have "y = x\<lparr>x_queue := q\<rparr>" using r pr False by (auto simp: enqueue_def)
      moreover have "items q = items (x_queue x)" using no pi bq.put_refused by blast
      ultimately show ?thesis using i cap by (simp add: executor_inv_def)
    next
      case add
      then have y: "y = x\<lparr>x_queue := q, x_accepted := insert n (x_accepted x)\<rparr>"
        using r pr False by (simp add: enqueue_def)
      have "items q = items (x_queue x) @ [it]" using bq.put_added add pi by blast
      then have "places (queued y) (hand y) (x_accepted y) (settled_in y)"
        using places_add [OF I(1) f(1)] y by (simp add: it_def)
      then show ?thesis using y I f False cap by (auto simp: executor_inv_def)
    next
      case (ev old)
      then have y: "y = update_task (payload old)
          (task_complete None (Some (Exc QueueDropped ''inference queue dropped oldest request'')))
          (x\<lparr>x_queue := q, x_accepted := insert n (x_accepted x)\<rparr>)"
        using r pr False by (simp add: enqueue_def)
      obtain ys where ys: "items (x_queue x) = old # ys" "items q = ys @ [it]"
        using bq.put_evicted ev pi I(7) by blast
      have "places (payload old # map payload ys) (hand x) (x_accepted x) (settled_in x)" using I(1) ys by simp
      from places_evict [OF this, of "settled_in y"]
      have "places (map payload ys) (hand x) (x_accepted x) (settled_in y)" by (simp add: y)
      from places_add [OF this f(1)]
      have "places (queued y) (hand y) (x_accepted y) (settled_in y)" by (simp add: y ys it_def)
      then show ?thesis using y I f False cap by (auto simp: executor_inv_def)
    qed
  qed
qed

lemma submit_inv:
  assumes "executor_inv x" "submit now p b d x = (r, y)"
  shows "executor_inv y"
  using enqueue_inv [OF new_task_inv [OF assms(1)] _ _ assms(2) [unfolded submit_def]] executor_invD(2) [OF assms(1)]
  by (simp add: less_irrefl) blast

lemma give_up_inv:
  assumes i: "executor_inv x" and s: "\<And>t. done_set t \<Longrightarrow> settle t = (False, t)" "\<And>t b u. settle t = (b, u) \<Longrightarrow> b \<longrightarrow> done_set u"
    and n: "n \<in> x_accepted x"
  shows "executor_inv (give_up settle n x)"
proof -
  note I = executor_invD [OF i]
  obtain b t where t: "settle (x_tasks x n) = (b, t)" by fastforce
  have m: "settled_in x j \<Longrightarrow> settled_in (give_up settle n x) j" for j
    using t s(1) [of "x_tasks x n"] by (auto simp: give_up_def)
  have "places (queued x) (hand x) (x_accepted x) (settled_in (give_up settle n x))"
    by (rule places_settle [OF I(1) m])
  moreover have "\<forall>j \<in> x_leaving (give_up settle n x). settled_in (give_up settle n x) j"
    using m I(3) s(2) [OF t] t by (auto simp: give_up_def)
  ultimately show ?thesis using i n t by (auto simp: executor_inv_def give_up_def)
qed

lemma leave_inv:
  assumes i: "executor_inv x" and n: "n \<in> x_leaving x"
  shows "executor_inv (leave_queue n x)"
proof -
  note I = executor_invD [OF i]
  obtain b q where q: "expire_payload n (x_queue x) = (b, q)" by fastforce
  have cap: "capacity q = capacity (x_queue x)" using bq.discard_room [OF q] by simp
  have "places (map payload (items q)) (hand x) (x_accepted x) (settled_in x) \<and> (items (x_queue x) = [] \<longrightarrow> items q = [])"
  proof (cases "remove_payload n (items (x_queue x))")
    case None
    then show ?thesis using q I(1) by (simp add: expire_payload_def)
  next
    case (Some js)
    obtain as it bs where "items (x_queue x) = as @ it # bs" "js = as @ bs" "payload it = n"
      using remove_payload_split [OF Some] by blast
    moreover have "items q = js" using q Some by (auto simp: expire_payload_def)
    ultimately show ?thesis
      using I(1) places_remove [of "map payload as" n "map payload bs"] I(3) [OF n] by simp
  qed
  then show ?thesis using i cap q by (auto simp: executor_inv_def leave_queue_def)
qed

lemma pop_inv:
  assumes i: "executor_inv x" and w: "x_phase x w = Looping" "x_started x"
  shows "executor_inv (worker_pop now w x)"
proof -
  note I = executor_invD [OF i]
  obtain it ex q where t: "pop_turn now (x_queue x) = (it, ex, q)" by (metis prod_cases3)
  let ?h = "map payload ex @ (case map_option payload it of None \<Rightarrow> [] | Some j \<Rightarrow> [j])"
  have "queued x = ?h @ map payload (items q)" "it = None \<longrightarrow> items q = []"
    using bq.take_split [OF t] by (auto split: option.splits)
  then have "places (map payload (items q)) ((hand x)(w := ?h)) (x_accepted x) (settled_in x)"
    using I(1) w(1) by (intro places_take) simp_all
  moreover have "items (x_queue x) = [] \<Longrightarrow> items q = []" using bq.take_split [OF t] by auto
  moreover have "hand (worker_pop now w x) = (hand x)(w := ?h)" using t by (auto simp: worker_pop_def)
  moreover have "queued (worker_pop now w x) = map payload (items q)" using t by (simp add: worker_pop_def)
  ultimately show ?thesis
    using i t w bq.take_room [OF t] unfolding executor_inv_def by (simp add: worker_pop_def)
qed

lemma drop_hand_inv:
  assumes i: "executor_inv x" and h: "hand x w = n # r"
    and y: "hand y = (hand x)(w := r)" "x_queue y = x_queue x" "x_accepted y = x_accepted x"
      "x_leaving y = x_leaving x" "x_next y = x_next x" "x_closed y = x_closed x" "x_started y = x_started x"
      "settled_in y n" "\<And>j. settled_in x j \<Longrightarrow> settled_in y j"
  shows "executor_inv y"
proof -
  note I = executor_invD [OF i]
  have "places (queued y) (hand y) (x_accepted y) (settled_in y)"
    unfolding y(1,2,3) by (rule places_drop [of _ "hand x" _ "settled_in x" w n]) (use I(1) h y(8,9) in auto)
  moreover have "x_started x" using I(6) [of w] h by (cases "x_started x") auto
  ultimately show ?thesis using i y unfolding executor_inv_def by auto
qed

lemma count_outcome_simps [simp]:
  "x_queue (count_outcome e x) = x_queue x" "x_phase (count_outcome e x) = x_phase x"
  "x_accepted (count_outcome e x) = x_accepted x" "x_next (count_outcome e x) = x_next x"
  "x_leaving (count_outcome e x) = x_leaving x" "x_closed (count_outcome e x) = x_closed x"
  "x_started (count_outcome e x) = x_started x" "x_tasks (count_outcome e x) = x_tasks x"
  by (simp_all add: count_outcome_def)

lemma same_hand_inv:
  assumes i: "executor_inv x" and w: "x_phase x w \<noteq> Exited" and y: "hand y = hand x" "x_queue y = x_queue x" "x_accepted y = x_accepted x"
      "x_leaving y = x_leaving x" "x_next y = x_next x" "x_closed y = x_closed x" "x_started y = x_started x"
      "\<And>j. settled_in y j = settled_in x j"
  shows "executor_inv y"
proof -
  have "x_started x" using executor_invD(6) [OF i] w by blast
  then show ?thesis using i y unfolding executor_inv_def by simp
qed

lemma work_inv:
  assumes i: "executor_inv x"
  shows "executor_inv (worker_next oc w (x_phase x w) x)"
proof (cases "x_phase x w")
  case Looping
  then show ?thesis using i by simp
next
  case (Holding es it)
  show ?thesis
  proof (cases es)
    case (Cons n es')
    show ?thesis
      by (rule drop_hand_inv [OF i, of w n "in_hand (Holding es' it)"])
         (auto simp: Holding Cons)
  next
    case Nil
    show ?thesis
    proof (cases it)
      case None
      show ?thesis
        by (rule same_hand_inv [OF i, of w]) (auto simp: Holding Nil None)
    next
      case (Some n)
      show ?thesis
      proof (cases "settled_in x n")
        case True
        show ?thesis
          by (rule drop_hand_inv [OF i, of w n "[]"]) (auto simp: Holding Nil Some task_begin_def True)
      next
        case False
        show ?thesis
          by (rule same_hand_inv [OF i, of w]) (auto simp: Holding Nil Some task_begin_def False)
      qed
    qed
  qed
next
  case (Running n)
  show ?thesis
    by (rule drop_hand_inv [OF i, of w n "[]"]) (auto simp: Running split: sum.splits)
next
  case Exited
  then show ?thesis using i by simp
qed

lemma close_inv:
  assumes i: "executor_inv x"
  shows "executor_inv (executor_close x)"
proof (cases "x_closed x")
  case False
  note I = executor_invD [OF i]
  have "places [] (hand x) (x_accepted x) (settled_in (executor_close x))"
    by (rule places_drain [OF I(1)]) (auto simp: executor_close_def drain_def False)
  then show ?thesis
    using i False by (auto simp: executor_inv_def executor_close_def drain_def)
qed (use i in \<open>simp add: executor_close_def\<close>)

lemma exec_step_inv: "exec_step x y \<Longrightarrow> executor_inv x \<Longrightarrow> executor_inv y"
proof (induction rule: exec_step.induct)
  case (pop x w now)
  then have "x_started x" using executor_invD(6) [of x w] by (cases "x_started x") auto
  then show ?case using pop pop_inv by blast
next
  case (expire i x)
  then show ?case by (intro give_up_inv) (auto simp: expire_if_not_started_def call_notify_def split: if_splits)
next
  case (cancel i x)
  then show ?case by (intro give_up_inv) (auto simp: cancel_if_not_started_def split: if_splits)
qed (auto intro: start_inv submit_inv leave_inv work_inv close_inv)

section \<open>Properties\<close>

text \<open>One critical section of worker \<open>w\<close>.\<close>

definition worker_section :: "pyfloat \<Rightarrow> 'r + exc \<Rightarrow> nat \<Rightarrow> ('p, 'r) executor \<Rightarrow> ('p, 'r) executor" where
  "worker_section now oc w x =
     (if x_phase x w = Looping then worker_pop now w x else worker_next oc w (x_phase x w) x)"

lemma worker_section_step: "exec_step x (worker_section now oc w x)"
  by (simp add: worker_section_def exec_step.pop exec_step.work)

lemma new_executor_inv: "new_executor cap pol x \<Longrightarrow> 0 < cap \<Longrightarrow> executor_inv x"
  by (simp add: new_executor_def executor_inv_def places_def)

lemma reachable_inv:
  assumes "exec_step\<^sup>*\<^sup>* x y" "executor_inv x"
  shows "executor_inv y"
  using assms by (induction rule: rtranclp_induct) (auto intro: exec_step_inv)

text \<open>C33: No accepted request is lost and none is run twice. In every state that any order of
  submissions, timeouts, cancellations, worker steps and closing can reach, an accepted request
  is settled, or in the queue, or in the hands of a worker; it is in one place only, and only
  accepted requests are anywhere. Once the executor is closed the queue stays empty.\<close>

theorem no_request_lost:
  assumes "new_executor cap pol x0" "0 < cap" "exec_step\<^sup>*\<^sup>* x0 x"
  shows "(\<forall>i \<in> x_accepted x. settled_in x i \<or> i \<in> set (queued x) \<or> (\<exists>w. i \<in> set (hand x w))) \<and>
    distinct (queued x) \<and> set (queued x) \<subseteq> x_accepted x \<and>
    (\<forall>w. distinct (hand x w) \<and> set (hand x w) \<subseteq> x_accepted x \<and> set (hand x w) \<inter> set (queued x) = {}) \<and>
    (\<forall>w v. w \<noteq> v \<longrightarrow> set (hand x w) \<inter> set (hand x v) = {}) \<and>
    (x_closed x \<longrightarrow> queued x = [])"
proof -
  have "executor_inv x" by (rule reachable_inv [OF assms(3) new_executor_inv [OF assms(1,2)]])
  then show ?thesis unfolding executor_inv_def places_def by simp
qed

definition sample_executor :: "(nat, nat) executor" where
  "sample_executor = \<lparr>x_queue = \<lparr>capacity = 1, policy = REJECT, items = [], dropped = 0, expired = 0, accepted = 0\<rparr>,
     x_tasks = \<lambda>_. new_task 0 False, x_next = 0, x_accepted = {}, x_leaving = {}, x_started = False,
     x_closed = False, x_phase = \<lambda>_. Exited, x_completed = 0, x_failed = 0\<rparr>"

definition sample_submitted :: "(nat, nat) executor" where
  "sample_submitted = snd (submit (Fin 0) 7 False None (snd (executor_start (Inr ()) 1 sample_executor)))"

definition sample_closed :: "(nat, nat) executor" where
  "sample_closed = executor_close (worker_section (Fin 0) (Inl 9) 0 (worker_section (Fin 0) (Inl 9) 0 sample_submitted))"

lemma sample_executor_new: "new_executor 1 REJECT sample_executor"
  by (simp add: new_executor_def sample_executor_def)

lemma sample_submitted_reached: "exec_step\<^sup>*\<^sup>* sample_executor sample_submitted"
proof -
  have "exec_step sample_executor (snd (executor_start (Inr ()) 1 sample_executor))"
    by (rule exec_step.start [of "Inr ()" 1 _ "fst (executor_start (Inr ()) 1 sample_executor)"]) simp
  moreover have "exec_step (snd (executor_start (Inr ()) 1 sample_executor)) sample_submitted"
    by (rule exec_step.submit [of _ "Fin 0" 7 False None "fst (submit (Fin 0) 7 False None (snd (executor_start (Inr ()) 1 sample_executor)))"])
       (simp_all add: sample_submitted_def executor_start_def sample_executor_def)
  ultimately show ?thesis by (meson rtranclp.simps)
qed

lemma sample_closed_reached: "exec_step\<^sup>*\<^sup>* sample_executor sample_closed"
proof -
  let ?x1 = "worker_section (Fin 0) (Inl 9) 0 sample_submitted"
  let ?x2 = "worker_section (Fin 0) (Inl 9) 0 ?x1"
  have "exec_step\<^sup>*\<^sup>* sample_executor ?x1"
    by (rule rtranclp.rtrancl_into_rtrancl, rule sample_submitted_reached, rule worker_section_step)
  then have "exec_step\<^sup>*\<^sup>* sample_executor ?x2"
    by (rule rtranclp.rtrancl_into_rtrancl) (rule worker_section_step)
  then show ?thesis
    unfolding sample_closed_def by (rule rtranclp.rtrancl_into_rtrancl) (rule exec_step.close)
qed

lemmas sample_eval = sample_submitted_def sample_executor_def submit_def executor_start_def enqueue_def
  push_with_evicted_def bind_p_def prog_simps queue_deadline_def push_item_def worker_section_def worker_pop_def
  pop_turn_def item_expired_def task_begin_def new_task_def executor_close_def drain_def settle_all_def

theorem no_request_lost_witness:
  "x_accepted sample_submitted = {0} \<and> queued sample_submitted = [0] \<and>
   set (queued sample_submitted) \<subseteq> x_accepted sample_submitted"
  using no_request_lost [OF sample_executor_new _ sample_submitted_reached] by (simp add: sample_eval)

text \<open>How many sections a worker needs until it returns, once the executor is closed.\<close>

fun exit_measure :: "worker_phase \<Rightarrow> nat" where
  "exit_measure Exited = 0"
| "exit_measure (Holding es item) = length es + (case item of None \<Rightarrow> 1 | Some _ \<Rightarrow> 4)"
| "exit_measure Looping = 2"
| "exit_measure (Running _) = 3"

lemma worker_section_closed:
  assumes i: "executor_inv x" and c: "x_closed x"
  shows "x_closed (worker_section now oc w x)" "x_accepted (worker_section now oc w x) = x_accepted x"
    "v \<noteq> w \<Longrightarrow> x_phase (worker_section now oc w x) v = x_phase x v"
    "exit_measure (x_phase (worker_section now oc w x) w) \<le> exit_measure (x_phase x w) - 1"
proof -
  have e: "items (x_queue x) = []" by (rule executor_invD(5) [OF i c])
  have "x_closed (worker_section now oc w x) \<and> x_accepted (worker_section now oc w x) = x_accepted x \<and>
    (v \<noteq> w \<longrightarrow> x_phase (worker_section now oc w x) v = x_phase x v) \<and>
    exit_measure (x_phase (worker_section now oc w x) w) \<le> exit_measure (x_phase x w) - 1"
  proof (cases "x_phase x w")
    case Looping
    then show ?thesis using c e by (simp add: worker_section_def worker_pop_def pop_turn_def)
  next
    case (Holding es it)
    then show ?thesis using c
      by (cases es; cases it) (auto simp: worker_section_def task_begin_def Let_def)
  qed (use c in \<open>auto simp: worker_section_def\<close>)
  then show "x_closed (worker_section now oc w x)" "x_accepted (worker_section now oc w x) = x_accepted x"
    "v \<noteq> w \<Longrightarrow> x_phase (worker_section now oc w x) v = x_phase x v"
    "exit_measure (x_phase (worker_section now oc w x) w) \<le> exit_measure (x_phase x w) - 1" by blast+
qed

definition run_workers :: "(nat \<times> pyfloat \<times> ('r + exc)) list \<Rightarrow> ('p, 'r) executor \<Rightarrow> ('p, 'r) executor" where
  "run_workers sched x = fold (\<lambda>(w, now, oc). worker_section now oc w) sched x"

lemma run_workers_closed:
  assumes "executor_inv x" "x_closed x" "\<And>w. exit_measure (x_phase x w) \<le> count_list (map fst sched) w"
  shows "executor_inv (run_workers sched x) \<and> x_closed (run_workers sched x) \<and> x_accepted (run_workers sched x) = x_accepted x \<and>
    (\<forall>w. x_phase (run_workers sched x) w = Exited)"
  using assms
proof (induction sched arbitrary: x)
  case Nil
  have "x_phase x w = Exited" for w
    using Nil(3) [of w] by (cases "x_phase x w") (auto split: option.splits)
  then show ?case using Nil by (simp add: run_workers_def)
next
  case (Cons e sched)
  obtain w now oc where e: "e = (w, now, oc)" by (metis prod_cases3)
  let ?y = "worker_section now oc w x"
  note S = worker_section_closed [OF Cons.prems(1,2), where now = now and oc = oc and w = w]
  have "exit_measure (x_phase ?y v) \<le> count_list (map fst sched) v" for v
    using Cons.prems(3) [of v] S(3) [of v] S(4) e by (cases "v = w") auto
  then have "executor_inv (run_workers sched ?y) \<and> x_closed (run_workers sched ?y) \<and> x_accepted (run_workers sched ?y) = x_accepted ?y \<and>
    (\<forall>w. x_phase (run_workers sched ?y) w = Exited)"
    using Cons.IH [OF exec_step_inv [OF worker_section_step Cons.prems(1)] S(1)] by blast
  then show ?case using S(2) e by (simp add: run_workers_def)
qed

text \<open>C34: Closing ends the work: after \<^verbatim>\<open>close\<close>, in any order of the workers' steps in which each gets
  at most four turns more than it has expired requests to tell, every worker has returned and
  every request ever accepted is settled, so every waiting submitter is released.\<close>

theorem close_settles_all:
  assumes "new_executor cap pol x0" "0 < cap" "exec_step\<^sup>*\<^sup>* x0 x" "x_closed x"
    and "\<forall>w. exit_measure (x_phase x w) \<le> count_list (map fst sched) w"
  shows "(\<forall>w. x_phase (run_workers sched x) w = Exited) \<and> x_accepted (run_workers sched x) = x_accepted x \<and>
    (\<forall>i \<in> x_accepted x. settled_in (run_workers sched x) i)"
proof -
  have "executor_inv x" by (rule reachable_inv [OF assms(3) new_executor_inv [OF assms(1,2)]])
  from run_workers_closed [OF this assms(4)] assms(5)
  have r: "executor_inv (run_workers sched x)" "x_accepted (run_workers sched x) = x_accepted x"
      "\<forall>w. x_phase (run_workers sched x) w = Exited" "x_closed (run_workers sched x)" by blast+
  have "queued (run_workers sched x) = []" using executor_invD(5) [OF r(1,4)] by simp
  then have "settled_in (run_workers sched x) i" if "i \<in> x_accepted x" for i
    using placesD(7) [OF executor_invD(1) [OF r(1)], of i] r(2,3) that by auto
  then show ?thesis using r by blast
qed

theorem close_settles_all_witness:
  "x_phase (run_workers (replicate 3 (0, Fin 0, Inl 9)) sample_closed) 0 = Exited \<and>
   x_accepted sample_closed = {0} \<and> settled_in (run_workers (replicate 3 (0, Fin 0, Inl 9)) sample_closed) 0"
proof -
  have c: "x_closed sample_closed" "x_accepted sample_closed = {0}"
      "\<forall>w. exit_measure (x_phase sample_closed w) \<le> count_list (map fst (replicate 3 (0, Fin 0, Inl (9 :: nat) :: nat + exc))) w"
    by (simp_all add: sample_closed_def sample_eval numeral_3_eq_3)
  show ?thesis
    using close_settles_all [OF sample_executor_new _ sample_closed_reached c(1) c(3)] c(2) by simp
qed

end
