(* ===== verification/Service.thy ===== *)
theory Service
  imports Executor
begin

text \<open>
  The HTTP layer of \<^verbatim>\<open>src/src/edgeai/service.py\<close>: the three ASGI middlewares, the checks of
  \<^verbatim>\<open>create_app\<close>, and the mapping of exceptions to responses in \<^verbatim>\<open>predict\<close>. FastAPI, Starlette and
  the server are outside: a request is its scope (type, path, raw headers) and the messages the
  server delivers. A response of a middleware is its status; the wrapped application is what is
  reached.
\<close>

section \<open>Requests\<close>

record scope =
  sc_http :: bool
  sc_path :: string
  sc_headers :: "(bytes \<times> bytes) list"

definition lower_byte :: "char \<Rightarrow> char" where
  "lower_byte c = (if 65 \<le> byte_of c \<and> byte_of c \<le> 90 then char_of (byte_of c + 32) else c)"

definition lower_bytes :: "bytes \<Rightarrow> bytes" where
  "lower_bytes = map lower_byte"

definition header_values :: "scope \<Rightarrow> string \<Rightarrow> bytes list" where
  "header_values sc name = map snd (filter (\<lambda>(k, v). lower_bytes k = name) (sc_headers sc))"

section \<open>Authentication\<close>

definition protected_paths :: "string list" where
  "protected_paths = [''/readyz'', ''/metrics'', ''/v1/predict'']"

text \<open>\<open>None\<close>: the wrapped application is called; \<open>Some status\<close>: the middleware answers.\<close>

definition api_key_middleware :: "bytes \<Rightarrow> bool \<Rightarrow> scope \<Rightarrow> nat option" where
  "api_key_middleware expected development sc =
     (if development \<or> \<not> sc_http sc \<or> sc_path sc \<notin> set protected_paths then None
      else if header_values sc ''x-api-key'' = [expected] then None
      else Some 401)"

section \<open>The number of running predictions\<close>

record limiter =
  max_inflight :: nat
  inflight :: nat

definition limiter_init :: "int \<Rightarrow> limiter res" where
  "limiter_init n =
     rbind (guard_r (1 \<le> n) (Exc ValueError ''max_inflight must be a positive integer'')) (\<lambda>_.
     Inr \<lparr>max_inflight = nat n, inflight = 0\<rparr>)"

definition limiter_enter :: "scope \<Rightarrow> limiter \<Rightarrow> nat option \<times> bool \<times> limiter" where
  "limiter_enter sc l =
     (if \<not> sc_http sc \<or> sc_path sc \<noteq> ''/v1/predict'' then (None, False, l)
      else if max_inflight l \<le> inflight l then (Some 429, False, l)
      else (None, True, l\<lparr>inflight := inflight l + 1\<rparr>))"

definition limiter_leave :: "bool \<Rightarrow> limiter \<Rightarrow> limiter" where
  "limiter_leave entered l = (if entered then l\<lparr>inflight := inflight l - 1\<rparr> else l)"

section \<open>The size and framing of the body\<close>

definition is_digits :: "bytes \<Rightarrow> bool" where
  "is_digits s \<longleftrightarrow> s \<noteq> [] \<and> list_all is_digit s"

text \<open>\<^verbatim>\<open>int(raw_length)\<close>: more than 4300 digits raise \<^verbatim>\<open>ValueError\<close>.\<close>

definition int_of_bytes :: "bytes \<Rightarrow> nat option" where
  "int_of_bytes s = (if length s \<le> 4300 then Some (foldl (\<lambda>n c. 10 * n + (byte_of c - 48)) 0 s) else None)"

definition body_framing :: "nat \<Rightarrow> scope \<Rightarrow> nat + nat option" where
  "body_framing max_bytes sc =
     (let lengths = header_values sc ''content-length'';
          encodings = header_values sc ''transfer-encoding''
      in if 1 < length lengths \<or> 1 < length encodings \<or> lengths \<noteq> [] \<and> encodings \<noteq> [] then Inl 400
         else case lengths of
           [] \<Rightarrow> Inr None
         | raw # _ \<Rightarrow>
             if \<not> is_digits raw then Inl 400
             else case int_of_bytes raw of
                    None \<Rightarrow> Inl 400
                  | Some n \<Rightarrow> if max_bytes < n then Inl 413 else Inr (Some n))"

text \<open>A message of the server: a part of the body and whether more follows, or another kind.\<close>

datatype message = Body bytes bool | Other

datatype body_fault = PayloadTooLarge | InvalidBodyFraming

definition limited_receive :: "nat \<Rightarrow> nat option \<Rightarrow> nat \<Rightarrow> message \<Rightarrow> body_fault + nat" where
  "limited_receive max_bytes content_length seen m =
     (case m of
        Other \<Rightarrow> Inr seen
      | Body b rest \<Rightarrow>
          (let seen = seen + length b
           in if max_bytes < seen then Inl PayloadTooLarge
              else if content_length \<noteq> None \<and> the content_length < seen then Inl InvalidBodyFraming
              else if \<not> rest \<and> content_length \<noteq> None \<and> seen \<noteq> the content_length then Inl InvalidBodyFraming
              else Inr seen))"

text \<open>The messages the application gets, and the fault that stops it.\<close>

fun receive_all :: "nat \<Rightarrow> nat option \<Rightarrow> nat \<Rightarrow> message list \<Rightarrow> message list \<times> body_fault option" where
  "receive_all mb cl seen [] = ([], None)"
| "receive_all mb cl seen (m # ms) =
     (case limited_receive mb cl seen m of
        Inl f \<Rightarrow> ([], Some f)
      | Inr seen' \<Rightarrow> (let (got, f) = receive_all mb cl seen' ms in (m # got, f)))"

definition fault_status :: "body_fault \<Rightarrow> nat" where
  "fault_status f = (case f of PayloadTooLarge \<Rightarrow> 413 | InvalidBodyFraming \<Rightarrow> 400)"

text \<open>What the application is given of a request's messages, or the status it is answered with.\<close>

definition body_limit_middleware :: "nat \<Rightarrow> scope \<Rightarrow> message list \<Rightarrow> message list \<times> nat option" where
  "body_limit_middleware max_bytes sc ms =
     (if \<not> sc_http sc then (ms, None)
      else case body_framing max_bytes sc of
             Inl code \<Rightarrow> ([], Some code)
           | Inr cl \<Rightarrow> (let (got, f) = receive_all max_bytes cl 0 ms in (got, map_option fault_status f)))"

text \<open>\<^verbatim>\<open>create_app\<close> adds the body limit first and the authentication last, so outermost.\<close>

definition service_request ::
  "bytes \<Rightarrow> bool \<Rightarrow> nat \<Rightarrow> scope \<Rightarrow> message list \<Rightarrow> limiter \<Rightarrow> message list \<times> nat option \<times> bool \<times> limiter" where
  "service_request key development max_bytes sc ms l =
     (case api_key_middleware key development sc of
        Some code \<Rightarrow> ([], Some code, False, l)
      | None \<Rightarrow>
          (case limiter_enter sc l of
             (Some code, e, l') \<Rightarrow> ([], Some code, e, l')
           | (None, e, l') \<Rightarrow> (let (got, st) = body_limit_middleware max_bytes sc ms in (got, st, e, l'))))"

section \<open>The routes\<close>

text \<open>
  The routes check the key again, as text: \<^verbatim>\<open>hmac.compare_digest\<close> on \<^verbatim>\<open>str\<close> raises \<^verbatim>\<open>TypeError\<close>
  unless both are ASCII. The header arrives decoded as Latin-1, one character per byte.
\<close>

definition route_auth :: "pystr \<Rightarrow> bool \<Rightarrow> bytes option \<Rightarrow> (unit + nat) res" where
  "route_auth api_key development x_api_key =
     (if development then Inr (Inl ())
      else case x_api_key of
             None \<Rightarrow> Inr (Inr 401)
           | Some v \<Rightarrow>
               if \<not> ascii v \<or> \<not> ascii api_key
               then Inl (Exc TypeError ''comparing strings with non-ASCII characters is not supported'')
               else Inr (if v = api_key then Inl () else Inr 401))"

text \<open>The status and the timeout header for an exception of \<^verbatim>\<open>submit_async\<close>; \<open>None\<close>: not caught.\<close>

definition predict_error :: "exc \<Rightarrow> (nat \<times> string option) option" where
  "predict_error e =
     (if isinstance e QueueFull then Some (429, None)
      else if isinstance e ExecutionDeadlineExceeded then Some (504, Some ''execution'')
      else if isinstance e DeadlineExceeded then Some (504, Some ''queue'')
      else if isinstance e ValidationError then Some (422, None)
      else if isinstance e ExecutorClosed then Some (503, None)
      else if isinstance e EdgeAIError then Some (503, None)
      else None)"

section \<open>The arguments of create_app\<close>

definition nonneg_number :: "json \<Rightarrow> exc \<Rightarrow> pyfloat res" where
  "nonneg_number v e =
     rbind (of_opt e (as_num v)) (\<lambda>n.
     rbind (math_isfinite n) (\<lambda>fin.
     rbind (guard_r (fin \<and> num_le (NInt 0) n) e) (\<lambda>_. num_to_float n)))"

record service_args =
  a_development :: bool
  a_api_key :: "pystr option"
  a_max_request_bytes :: json
  a_queue_deadline_s :: json
  a_execution_mode :: pystr
  a_execution_timeout_s :: json
  a_control_timeout_s :: json
  a_memory_limit_mb :: json
  a_nofile_limit :: json
  a_restart_limit :: json
  a_restart_window_s :: json
  a_shutdown_timeout_s :: json

definition create_app_check :: "service_args \<Rightarrow> unit res" where
  "create_app_check a =
     rbind (guard_r (a_development a \<or> (a_api_key a \<noteq> None \<and> a_api_key a \<noteq> Some []))
              (Exc RuntimeError ''production service requires API key'')) (\<lambda>_.
     rbind (of_opt (VER ''max_request_bytes must be an integer >= 1024'') (as_int (a_max_request_bytes a))) (\<lambda>mb.
     rbind (guard_r (1024 \<le> mb) (VER ''max_request_bytes must be an integer >= 1024'')) (\<lambda>_.
     rbind (opt_arg (a_queue_deadline_s a) (\<lambda>v. nonneg_number v (VER ''queue_deadline_s must be finite and >= 0''))) (\<lambda>_.
     rbind (recast (\<lambda>_. VER ''invalid execution_mode'') (parse_mode (a_execution_mode a))) (\<lambda>m.
     rbind (opt_arg (a_execution_timeout_s a) (\<lambda>v. positive_number v (VER ''execution_timeout_s must be finite and > 0''))) (\<lambda>et.
     rbind (guard_r (\<not> (m = PROCESS \<and> et = None)) (VER ''process execution mode requires execution_timeout_s'')) (\<lambda>_.
     rbind (guard_r (\<not> (m = THREAD \<and> et \<noteq> None)) (VER ''execution_timeout_s requires process execution mode'')) (\<lambda>_.
     rbind (positive_number (a_control_timeout_s a) (VER ''process_control_timeout_s must be finite and > 0'')) (\<lambda>_.
     rbind (opt_arg (a_memory_limit_mb a) (\<lambda>v.
              int_between v 64 1048576 (VER ''process_memory_limit_mb must be an integer in [64,1048576]''))) (\<lambda>mem.
     rbind (guard_r (\<not> (m = THREAD \<and> mem \<noteq> None)) (VER ''process_memory_limit_mb requires process execution mode'')) (\<lambda>_.
     rbind (int_between (a_nofile_limit a) 16 1048576 (VER ''process_nofile_limit must be an integer in [16,1048576]'')) (\<lambda>_.
     rbind (int_between (a_restart_limit a) 1 10000 (VER ''process_restart_limit must be an integer in [1,10000]'')) (\<lambda>_.
     rbind (positive_number (a_restart_window_s a) (VER ''process_restart_window_s must be finite and in (0,86400]'')) (\<lambda>rw.
     rbind (guard_r (float_le rw (Fin 86400)) (VER ''process_restart_window_s must be finite and in (0,86400]'')) (\<lambda>_.
     rbind (nonneg_number (a_shutdown_timeout_s a) (VER ''shutdown_timeout_s must be finite and >= 0'')) (\<lambda>_.
     Inr ()))))))))))))))))"

section \<open>What reaches the application\<close>

fun body_size :: "message \<Rightarrow> nat" where
  "body_size (Body b rest) = length b"
| "body_size Other = 0"

definition received :: "message list \<Rightarrow> nat" where
  "received ms = sum_list (map body_size ms)"

lemma limited_receive_Inr:
  "limited_receive mb cl seen m = Inr n \<Longrightarrow> seen \<le> mb \<Longrightarrow> (\<forall>k. cl = Some k \<longrightarrow> seen \<le> k) \<Longrightarrow>
     n = seen + body_size m \<and> n \<le> mb \<and> (\<forall>k. cl = Some k \<longrightarrow> n \<le> k \<and> (\<forall>b. m = Body b False \<longrightarrow> n = k))"
  by (cases m) (auto simp: limited_receive_def Let_def split: if_splits)

lemma receive_all_bounded:
  "receive_all mb cl seen ms = (got, f) \<Longrightarrow> seen \<le> mb \<Longrightarrow> (\<forall>k. cl = Some k \<longrightarrow> seen \<le> k) \<Longrightarrow>
     seen + received got \<le> mb \<and> (\<exists>rest. ms = got @ rest) \<and> (f = None \<longrightarrow> got = ms) \<and>
     (\<forall>k. cl = Some k \<longrightarrow> seen + received got \<le> k \<and>
        (\<forall>pre b. got = pre @ [Body b False] \<longrightarrow> seen + received got = k))"
proof (induction mb cl seen ms arbitrary: got f rule: receive_all.induct)
  case (2 mb cl seen m ms)
  show ?case
  proof (cases "limited_receive mb cl seen m")
    case (Inl fault)
    then show ?thesis using "2.prems" by (auto simp: received_def)
  next
    case (Inr n)
    obtain got' f' where r: "receive_all mb cl n ms = (got', f')" by fastforce
    have g: "got = m # got'" "f = f'" using "2.prems"(1) Inr r by auto
    note n = limited_receive_Inr [OF Inr "2.prems"(2,3)]
    note ih = "2.IH" [OF Inr r]
    have "pre = [] \<and> got' = [] \<and> m = Body b False \<or> (\<exists>pre'. got' = pre' @ [Body b False])"
      if "got = pre @ [Body b False]" for pre b
      using that g(1) by (cases pre) auto
    then show ?thesis using ih n g by (fastforce simp: received_def)
  qed
qed (auto simp: received_def)


definition sample_scope :: scope where
  "sample_scope = \<lparr>sc_http = True, sc_path = ''/v1/predict'',
     sc_headers = [(''X-API-Key'', ''secret''), (''Content-Length'', ''4'')]\<rparr>"


section \<open>Arguments\<close>

text \<open>What \<^verbatim>\<open>create_app\<close> accepts, the executor accepts: with a worker count in [1, 64] and a
  positive capacity the constructor cannot fail on the remaining arguments, and the
  configuration it builds has every limit in its range and, in process mode only, a finite
  positive execution timeout.\<close>

theorem create_app_config_accepted:
  assumes "create_app_check a = Inr ()" "1 \<le> w" "w \<le> 64" "1 \<le> cap"
  shows "\<exists>c q. executor_config_check (JInt w) cap pol (a_execution_mode a) (a_execution_timeout_s a)
      (a_control_timeout_s a) (a_memory_limit_mb a) (a_nofile_limit a) (a_restart_limit a) (a_restart_window_s a) = Inr (c, q) \<and>
    cf_workers c = w \<and> capacity q = nat cap \<and>
    (cf_mode c = PROCESS \<longleftrightarrow> cf_execution_timeout_s c \<noteq> None) \<and>
    16 \<le> cf_nofile_limit c \<and> cf_nofile_limit c \<le> 1048576 \<and> 1 \<le> cf_restart_limit c \<and> cf_restart_limit c \<le> 10000 \<and>
    float_le (cf_restart_window_s c) (Fin 86400) \<and>
    (\<forall>m. cf_memory_limit_mb c = Some m \<longrightarrow> cf_mode c = PROCESS \<and> 64 \<le> m \<and> m \<le> 1048576)"
proof -
  have "\<exists>m. parse_mode (a_execution_mode a) = Inr m" using assms(1) by (auto simp: create_app_check_def rbind_Inr_iff)
  then show ?thesis
    using assms
    by (auto simp: create_app_check_def executor_config_check_def rbind_Inr_iff opt_arg_def int_between_def queue_init_def
        split: if_splits) (metis execution_mode.exhaust)+
qed

definition sample_args :: service_args where
  "sample_args = \<lparr>a_development = False, a_api_key = Some ''secret'', a_max_request_bytes = JInt 4096,
     a_queue_deadline_s = JFloat (Fin 1), a_execution_mode = ''process'', a_execution_timeout_s = JFloat (Fin 2),
     a_control_timeout_s = JFloat (Fin 5), a_memory_limit_mb = JNull, a_nofile_limit = JInt 64,
     a_restart_limit = JInt 8, a_restart_window_s = JFloat (Fin 60), a_shutdown_timeout_s = JFloat (Fin 5)\<rparr>"

theorem create_app_config_accepted_witness:
  "\<exists>c q. executor_config_check (JInt 2) 8 REJECT ''process'' (JFloat (Fin 2)) (JFloat (Fin 5)) JNull (JInt 64)
      (JInt 8) (JFloat (Fin 60)) = Inr (c, q) \<and> cf_workers c = 2 \<and> capacity q = 8 \<and>
      cf_restart_limit c \<le> 10000"
proof -
  have "create_app_check sample_args = Inr ()"
    by (simp add: create_app_check_def sample_args_def opt_arg_def nonneg_number_def positive_number_def int_between_def
        parse_mode_def as_num_def math_isfinite_def num_le_def as_int_def)
  from create_app_config_accepted [OF this, of 2 8 REJECT] show ?thesis
    by (auto simp: sample_args_def)
qed

section \<open>A key that is not ASCII\<close>

text \<open>
  The middleware lets a request with the right key through whatever its characters are, and the
  route then fails on it, so a service with such a key answers no protected request.
\<close>

lemma nonascii_key_locks_out:
  assumes "\<not> ascii key" "api_key_middleware key False sc = None" "sc_http sc" "sc_path sc \<in> set protected_paths"
  shows "header_values sc ''x-api-key'' = [key] \<and>
    route_auth key False (Some key) = Inl (Exc TypeError ''comparing strings with non-ASCII characters is not supported'')"
  using assms by (auto simp: api_key_middleware_def route_auth_def split: if_splits)

end
