(* ===== verification/Qualification.thy ===== *)
theory Qualification
  imports ProcessRunner Executor
begin

text \<open>
  \<^verbatim>\<open>src/src/edgeai/qualification.py\<close>: measuring a candidate model in a disposable process. The
  worker is a function of the frames it receives; the parent is a program over the child, with
  the host of \<open>ProcessRunner\<close> (creating the process, the two socket operations). Parameters: the
  runtimes, \<^verbatim>\<open>health.benchmark\<close>, the sandbox and NumPy.
\<close>

section \<open>Limits\<close>

record qualification_limits =
  ql_timeout_s :: pyfloat
  ql_memory_limit_mb :: "int option"
  ql_rows :: int
  ql_features :: int
  ql_values :: int
  ql_iterations :: int
  ql_batch :: int
  ql_nofile_limit :: int

definition limits_validate ::
  "json \<Rightarrow> json \<Rightarrow> json \<Rightarrow> json \<Rightarrow> json \<Rightarrow> json \<Rightarrow> json \<Rightarrow> json \<Rightarrow> qualification_limits res" where
  "limits_validate timeout_s memory_limit_mb rows features vals iterations batch nofile_limit =
     rbind (positive_number timeout_s (VER ''qualification timeout must be finite and > 0'')) (\<lambda>t.
     rbind (opt_arg memory_limit_mb (\<lambda>v.
              int_between v 64 1048576 (VER ''qualification memory limit must be an integer in [64,1048576]''))) (\<lambda>m.
     rbind (int_between rows 1 10000000 (VER ''invalid qualification max_validation_rows'')) (\<lambda>r.
     rbind (int_between features 1 10000000 (VER ''invalid qualification max_validation_features'')) (\<lambda>f.
     rbind (int_between vals 1 1000000000 (VER ''invalid qualification max_validation_values'')) (\<lambda>v.
     rbind (int_between iterations 1 100000 (VER ''invalid qualification iterations'')) (\<lambda>i.
     rbind (int_between batch 1 10000000 (VER ''invalid qualification batch'')) (\<lambda>b.
     rbind (int_between nofile_limit 16 1048576 (VER ''invalid qualification nofile_limit'')) (\<lambda>n.
     Inr \<lparr>ql_timeout_s = t, ql_memory_limit_mb = m, ql_rows = r, ql_features = f, ql_values = v,
          ql_iterations = i, ql_batch = b, ql_nofile_limit = n\<rparr>))))))))"

definition memory_limit_bytes :: "qualification_limits \<Rightarrow> int option" where
  "memory_limit_bytes l = map_option (\<lambda>m. m * 1024 * 1024) (ql_memory_limit_mb l)"

section \<open>The worker\<close>

record 'r qualifier =
  qf_load :: "runtime_type \<Rightarrow> bytes \<Rightarrow> int \<Rightarrow> 'r res"
  qf_benchmark :: "'r \<Rightarrow> f32_array \<Rightarrow> 64 word list \<Rightarrow> int \<Rightarrow> int \<Rightarrow> model_metrics res"
  qf_sandbox :: "int option \<Rightarrow> int \<Rightarrow> unit res"
  qf_pid :: int

definition qualification_max_incoming :: "int \<Rightarrow> qualification_limits \<Rightarrow> int" where
  "qualification_max_incoming max_model_bytes l =
     int max_header_bytes + 1 + max max_model_bytes (ql_values l * 4 + ql_rows l * 8)"

text \<open>Where the worker is, and the frame it sends for an exception (none if that cannot be encoded).\<close>

datatype 'r qualifying = AwaitModel | AwaitData 'r | Finished

definition qualification_error :: "exc \<Rightarrow> pystr \<Rightarrow> bytes list" where
  "qualification_error e d =
     (case encode_error ''qualification_error'' None (Some 0) (class_name (exc_cls e)) (failure_text e d) of
        Inl _ \<Rightarrow> [] | Inr f \<Rightarrow> [f])"

definition qualification_start :: "'r qualifier \<Rightarrow> qualification_limits \<Rightarrow> bytes list \<times> 'r qualifying" where
  "qualification_start qf l =
     (case qf_sandbox qf (memory_limit_bytes l) (ql_nofile_limit l) of
        Inl e \<Rightarrow> (qualification_error e ''resource setup failed'', Finished)
      | Inr _ \<Rightarrow> (case encode_ready (qf_pid qf) of Inl _ \<Rightarrow> ([], Finished) | Inr f \<Rightarrow> ([f], AwaitModel)))"

definition qualification_model ::
  "'r qualifier \<Rightarrow> int \<Rightarrow> bytes \<Rightarrow> bytes list \<times> 'r qualifying" where
  "qualification_model qf max_model_bytes frame =
     (case rbind (decode_load_artifact frame max_model_bytes) (\<lambda>(gen, model, kind, abi, max_uncompressed).
           rbind (load_runtime (qf_load qf) model kind (Some abi) max_uncompressed) (\<lambda>runtime.
           rbind (encode_generation ''loaded'' gen) (\<lambda>f. Inr (f, runtime))))
      of Inl e \<Rightarrow> (qualification_error e ''candidate load failed'', Finished)
       | Inr (f, runtime) \<Rightarrow> ([f], AwaitData runtime))"

definition qualification_data ::
  "'r qualifier \<Rightarrow> qualification_limits \<Rightarrow> 'r \<Rightarrow> bytes \<Rightarrow> bytes list \<times> 'r qualifying" where
  "qualification_data qf l runtime frame =
     (case rbind (decode_qualification frame (ql_rows l) (ql_features l) (ql_values l) (ql_iterations l))
             (\<lambda>(x, y, iterations, batch).
           rbind (qf_benchmark qf runtime x y iterations batch) encode_metrics)
      of Inl e \<Rightarrow> (qualification_error e ''candidate qualification failed'', Finished)
       | Inr f \<Rightarrow> ([f], Finished))"

text \<open>A frame that arrives; one outside the bounds is refused by the socket and ends the worker.\<close>

definition qualification_turn ::
  "'r qualifier \<Rightarrow> int \<Rightarrow> qualification_limits \<Rightarrow> 'r qualifying \<Rightarrow> bytes \<Rightarrow> bytes list \<times> 'r qualifying" where
  "qualification_turn qf max_model_bytes l ph frame =
     (if length frame < 2 \<or> qualification_max_incoming max_model_bytes l < int (length frame) then ([], Finished)
      else case ph of
             AwaitModel \<Rightarrow> qualification_model qf max_model_bytes frame
           | AwaitData runtime \<Rightarrow> qualification_data qf l runtime frame
           | Finished \<Rightarrow> ([], Finished))"

section \<open>The parent\<close>

definition max_control :: int where
  "max_control = int max_header_bytes + 1 + 4096"

definition ask :: "'c host \<Rightarrow> bytes \<Rightarrow> ('c, unit) prog" where
  "ask h frame = h_send h frame"

definition hear :: "'c host \<Rightarrow> ('c, bytes) prog" where
  "hear h = h_recv h max_control"

text \<open>The reply expected, or the worker's report, or neither.\<close>

definition expect :: "(bytes \<Rightarrow> 'a res) \<Rightarrow> string \<Rightarrow> string \<Rightarrow> bytes \<Rightarrow> 'a res" where
  "expect decode failed invalid frame =
     (case decode frame of
        Inr x \<Rightarrow> Inr x
      | Inl e \<Rightarrow>
          if isinstance e IPCProtocolError
          then rbind (except_r [IPCProtocolError] (\<lambda>_. HGE invalid)
                        (decode_error frame ''qualification_error'' False)) (\<lambda>_. Inl (HGE failed))
          else Inl e)"

definition qualification_dialogue ::
  "'c host \<Rightarrow> bytes \<Rightarrow> bytes \<Rightarrow> ('c, model_metrics) prog" where
  "qualification_dialogue h model_frame validation_frame =
     bind_p (hear h) (\<lambda>ready.
     bind_p (lift_r (\<lambda>_. expect decode_ready ''qualification worker startup failed: ''
               ''qualification worker sent invalid startup response'' ready)) (\<lambda>_.
     bind_p (ask h model_frame) (\<lambda>_.
     bind_p (hear h) (\<lambda>load_response.
     bind_p (lift_r (\<lambda>_. expect (\<lambda>f. decode_generation f ''loaded'') ''candidate load failed: ''
               ''qualification worker sent invalid load response'' load_response)) (\<lambda>_.
     bind_p (ask h validation_frame) (\<lambda>_.
     bind_p (hear h) (\<lambda>response.
     lift_r (\<lambda>_. expect decode_metrics ''candidate qualification failed: ''
               ''qualification worker sent invalid metrics response'' response))))))))"

definition transport_failure :: "exc \<Rightarrow> exc" where
  "transport_failure e =
     (if isinstance e TimeoutErr then HGE ''candidate qualification exceeded hard wall-clock deadline''
      else if isinstance e EOFErr \<or> isinstance e OSErr
      then HGE ''candidate qualification worker crashed or disconnected'' else e)"

definition qualify_model_bytes ::
  "('arr \<Rightarrow> f32_array option) \<Rightarrow> ('lab \<Rightarrow> label_array res) \<Rightarrow> bool \<Rightarrow> 'c host \<Rightarrow>
   bytes \<Rightarrow> pystr \<Rightarrow> pystr \<Rightarrow> int \<Rightarrow> 'arr \<Rightarrow> 'lab \<Rightarrow> qualification_limits \<Rightarrow> model_metrics res" where
  "qualify_model_bytes to_f32 to_labels daemon h model kind abi max_uncompressed_bytes x y l =
     rbind (guard_r (\<not> daemon) (HGE ''isolated qualification cannot start from a daemon process'')) (\<lambda>_.
     rbind (guard_r (model \<noteq> []) (HGE ''candidate model bytes must be non-empty'')) (\<lambda>_.
     rbind (guard_r (1024 \<le> max_uncompressed_bytes) (HGE ''invalid candidate model size bound'')) (\<lambda>_.
     rbind (guard_r (int (length model) \<le> max_uncompressed_bytes)
              (HGE ''candidate artifact exceeds qualification transfer bound'')) (\<lambda>_.
     rbind (except_r [IPCProtocolError, ValueError] (\<lambda>_. HGE ''invalid qualification input: '')
              (rbind (encode_qualification to_f32 to_labels x y (ql_iterations l) (ql_batch l)
                        (ql_rows l) (ql_features l) (ql_values l)) (\<lambda>validation_frame.
               rbind (encode_load_artifact 0 model kind abi max_uncompressed_bytes) (\<lambda>model_frame.
               Inr (validation_frame, model_frame))))) (\<lambda>(validation_frame, model_frame).
     recast transport_failure
       (rbind (h_spawn h) (\<lambda>c. fst (qualification_dialogue h model_frame validation_frame c))))))))"

section \<open>Parent and worker together\<close>

record 'r qualification_child =
  qc_phase :: "'r qualifying"
  qc_out :: "bytes list"

definition qualification_host :: "'r qualifier \<Rightarrow> int \<Rightarrow> qualification_limits \<Rightarrow> 'r qualification_child host" where
  "qualification_host qf mm l =
     \<lparr>h_spawn = Inr (let (out, ph) = qualification_start qf l in \<lparr>qc_phase = ph, qc_out = out\<rparr>),
      h_alive = (\<lambda>c. \<not> (case qc_phase c of Finished \<Rightarrow> True | _ \<Rightarrow> False)),
      h_send = (\<lambda>f c. case qc_phase c of
          Finished \<Rightarrow> (Inl (Exc OSErr ''broken pipe''), c)
        | ph \<Rightarrow> (let (out, ph') = qualification_turn qf mm l ph f
                in (Inr (), c\<lparr>qc_phase := ph', qc_out := qc_out c @ out\<rparr>))),
      h_recv = (\<lambda>mx c. case qc_out c of
          [] \<Rightarrow> (Inl (Exc EOFErr ''isolated inference socket closed''), c)
        | f # fs \<Rightarrow> (if length f < 2 \<or> mx < int (length f)
                     then Inl (ipc_err ''IPC frame exceeds configured bound'') else Inr f, c\<lparr>qc_out := fs\<rparr>))\<rparr>"

end
