(* ===== verification/QualificationProps.thy ===== *)
theory QualificationProps
  imports Qualification RunnerSteps IpcProps
begin

text \<open>
  Qualification, parent and worker together: the metrics it returns are those that the worker
  measured on exactly the given model and data; otherwise it raises.
\<close>

lemma frame_of_size_only:
  assumes "encode_frame op fs pl = Inr f"
  shows "2 \<le> length f \<and> int (length f) \<le> int max_header_bytes + 1 + int (length pl)"
proof -
  define t where "t = json_text True (canon (JObj (base_header op (length pl) @ fs)))"
  have "length t \<le> max_header_bytes" "f = t @ newline # pl"
    using assms by (simp_all add: encode_frame_Inr Let_def t_def)
  moreover have "1 \<le> length t" by (simp add: t_def Suc_le_eq)
  ultimately show ?thesis by (simp add: trans_le_add1)
qed

lemma error_frame:
  assumes "qualification_error e d = [g]"
  shows "op \<noteq> ''qualification_error'' \<Longrightarrow> decode_generation g op \<noteq> Inr i"
    and "decode_metrics g \<noteq> Inr m"
proof -
  have "frame_of ''qualification_error'' 0 g"
    using assms frame_of_error [of "''qualification_error''" False 0]
    by (auto simp: qualification_error_def split: sum.splits)
  then obtain h p where h: "decode_frame g 0 = Inr (h, p)" "jfield h ''op'' = JStr ''qualification_error''"
    unfolding frame_of_def by (meson order_refl)
  show "op \<noteq> ''qualification_error'' \<Longrightarrow> decode_generation g op \<noteq> Inr i"
    using h by (auto simp: decode_generation_def rbind_Inr_iff)
  show "decode_metrics g \<noteq> Inr m"
    using h by (auto simp: decode_metrics_def rbind_Inr_iff)
qed

lemma error_list: "qualification_error e d = [] \<or> (\<exists>g. qualification_error e d = [g])"
  by (auto simp: qualification_error_def split: sum.splits)

lemma expect_Inr: "expect dec t u f = Inr x \<longleftrightarrow> dec f = Inr x"
  by (auto simp: expect_def rbind_Inr_iff split: sum.splits)

section \<open>One step of the conversation\<close>

text \<open>The worker answers each message with at most one frame; a reply that is not as expected raises.\<close>

lemma hear_run:
  "hear (qualification_host qf mm l) c =
     (case qc_out c of [] \<Rightarrow> (Inl (Exc EOFErr ''isolated inference socket closed''), c)
      | f # fs \<Rightarrow> (if length f < 2 \<or> max_control < int (length f)
                   then Inl (ipc_err ''IPC frame exceeds configured bound'') else Inr f, c\<lparr>qc_out := fs\<rparr>))"
  by (simp add: hear_def qualification_host_def split: list.splits)

lemma ask_run:
  assumes "\<not> (case qc_phase c of Finished \<Rightarrow> True | _ \<Rightarrow> False)"
  shows "ask (qualification_host qf mm l) f c =
    (Inr (), c\<lparr>qc_phase := snd (qualification_turn qf mm l (qc_phase c) f),
               qc_out := qc_out c @ fst (qualification_turn qf mm l (qc_phase c) f)\<rparr>)"
  using assms by (auto simp: ask_def qualification_host_def Let_def split: qualifying.splits prod.splits)

definition hear_as :: "'c host \<Rightarrow> (bytes \<Rightarrow> 'a res) \<Rightarrow> string \<Rightarrow> string \<Rightarrow> ('c, 'a) prog" where
  "hear_as h dec t u = bind_p (hear h) (\<lambda>f. lift_r (\<lambda>_. expect dec t u f))"

lemma hear_as_Inr:
  assumes "qc_out c = [f]" "2 \<le> length f" "int (length f) \<le> max_control" "dec f = Inr x"
  shows "hear_as (qualification_host qf mm l) dec t u c = (Inr x, c\<lparr>qc_out := []\<rparr>)"
  using assms by (simp add: hear_as_def bind_p_def hear_run lift_r_def expect_def)

lemma hear_as_refused:
  assumes "qc_out c = [] \<or> (\<exists>f. qc_out c = [f] \<and> (\<forall>y. dec f \<noteq> Inr y))"
  shows "fst (hear_as (qualification_host qf mm l) dec t u c) \<noteq> Inr x"
  using assms by (auto simp: hear_as_def bind_p_def hear_run lift_r_def expect_Inr split: if_splits)

lemma dialogue_steps:
  "qualification_dialogue h mf vf =
     bind_p (hear_as h decode_ready ''qualification worker startup failed: ''
               ''qualification worker sent invalid startup response'') (\<lambda>_.
     bind_p (ask h mf) (\<lambda>_.
     bind_p (hear_as h (\<lambda>f. decode_generation f ''loaded'') ''candidate load failed: ''
               ''qualification worker sent invalid load response'') (\<lambda>_.
     bind_p (ask h vf) (\<lambda>_.
     hear_as h decode_metrics ''candidate qualification failed: ''
               ''qualification worker sent invalid metrics response''))))"
  by (simp add: qualification_dialogue_def hear_as_def bind_p_assoc)

lemma bind_refused: "(\<And>y. fst (p s) \<noteq> Inr y) \<Longrightarrow> fst (bind_p p f s) \<noteq> Inr x"
  by (cases "p s") (auto simp: bind_p_def split: sum.splits)

lemma bind_first: "p s = (Inr x, s') \<Longrightarrow> fst (f x s') \<noteq> Inr y \<Longrightarrow> fst (bind_p p f s) \<noteq> Inr y"
  "p s = (Inr x, s') \<Longrightarrow> fst (f x s') = r \<Longrightarrow> fst (bind_p p f s) = r"
  by (simp_all add: bind_p_def)

section \<open>The whole\<close>

definition qualifier_up :: "'r qualifier \<Rightarrow> qualification_limits \<Rightarrow> bool" where
  "qualifier_up qf l \<longleftrightarrow>
     qf_sandbox qf (memory_limit_bytes l) (ql_nofile_limit l) = Inr () \<and> 1 \<le> qf_pid qf \<and> qf_pid qf \<le> max_int31"

text \<open>The metrics the worker measures on the model and the data, as its report carries them.\<close>

definition measured ::
  "'r qualifier \<Rightarrow> qualification_limits \<Rightarrow> bytes \<Rightarrow> pystr \<Rightarrow> pystr \<Rightarrow> int \<Rightarrow> f32_array \<Rightarrow> 64 word list \<Rightarrow> model_metrics \<Rightarrow> bool" where
  "measured qf l model kind abi u a y m \<longleftrightarrow>
     (\<exists>rt. load_runtime (qf_load qf) model kind (Some abi) u = Inr rt \<and>
        rbind (rbind (qf_benchmark qf rt a y (ql_iterations l) (ql_batch l)) encode_metrics) decode_metrics = Inr m)"

lemma dialogue_exact:
  assumes up: "qualifier_up qf l"
    and mf: "encode_load_artifact 0 model kind abi u = Inr mf" "1024 \<le> u" "int (length model) \<le> u"
    and vf: "2 \<le> length vf" "int (length vf) \<le> qualification_max_incoming u l"
      "decode_qualification vf (ql_rows l) (ql_features l) (ql_values l) (ql_iterations l) =
        Inr (a, y, ql_iterations l, ql_batch l)"
    and c: "h_spawn (qualification_host qf u l) = Inr c"
  shows "fst (qualification_dialogue (qualification_host qf u l) mf vf c) = Inr m \<longleftrightarrow> measured qf l model kind abi u a y m"
proof -
  let ?h = "qualification_host qf u l"
  obtain rf where rf: "encode_ready (qf_pid qf) = Inr rf"
    by (rule encode_ready_total [of "qf_pid qf"]) (use up in \<open>auto simp: qualifier_up_def\<close>)
  have c0: "qc_out c = [rf]" "qc_phase c = AwaitModel"
    using c up rf by (auto simp: qualification_host_def qualification_start_def qualifier_up_def)
  have r: "2 \<le> length rf" "int (length rf) \<le> max_control" "decode_ready rf = Inr (qf_pid qf)"
    using frame_of_size [OF frame_of_ready [OF rf]] ready_roundtrip [OF rf] up
    by (auto simp: max_control_def qualifier_up_def)
  define c1 where "c1 = c\<lparr>qc_out := []\<rparr>"
  have h1: "hear_as ?h decode_ready t v c = (Inr (qf_pid qf), c1)" for t v
    unfolding c1_def by (rule hear_as_Inr) (rule c0 r)+
  have t1: "qualification_turn qf u l AwaitModel mf = qualification_model qf u mf"
    using frame_of_size [OF frame_of_load [OF mf(1)]] mf(3)
    by (auto simp: qualification_turn_def qualification_max_incoming_def)
  have dl: "decode_load_artifact mf u = Inr (0, model, kind, abi, u)"
    by (rule load_roundtrip [OF mf(1,2) order_refl mf(3)])
  define c2 where "c2 = c1\<lparr>qc_phase := snd (qualification_model qf u mf), qc_out := fst (qualification_model qf u mf)\<rparr>"
  have a1: "ask ?h mf c1 = (Inr (), c2)"
    using ask_run [of c1 qf u l mf] c0 t1 by (simp add: c1_def c2_def)
  obtain lf where lf: "encode_generation ''loaded'' 0 = Inr lf"
    by (rule encode_generation_total [of "''loaded''" 0]) (auto simp: byte_of_def max_uint_def)
  show ?thesis
  proof (cases "load_runtime (qf_load qf) model kind (Some abi) u")
    case (Inl e)
    then have q: "qualification_model qf u mf = (qualification_error e ''candidate load failed'', Finished)"
      using dl by (simp add: qualification_model_def)
    have r: "fst (hear_as ?h (\<lambda>f. decode_generation f ''loaded'') t v c2) \<noteq> Inr x" for t v x
      using error_list [of e "''candidate load failed''"] error_frame(1) [of e "''candidate load failed''" _ "''loaded''"]
      by (intro hear_as_refused) (auto simp: c2_def q)
    have "fst (qualification_dialogue ?h mf vf c) \<noteq> Inr m"
      unfolding dialogue_steps
      by (rule bind_first(1), rule h1, rule bind_first(1), rule a1, rule bind_refused, rule r)
    then show ?thesis using Inl by (simp add: measured_def)
  next
    case (Inr rt)
    have q: "qualification_model qf u mf = ([lf], AwaitData rt)"
      using dl Inr lf by (simp add: qualification_model_def)
    define c3 where "c3 = c2\<lparr>qc_out := []\<rparr>"
    have l: "2 \<le> length lf" "int (length lf) \<le> max_control" "decode_generation lf ''loaded'' = Inr 0"
      using frame_of_size [OF frame_of_generation [OF lf]] generation_roundtrip [OF lf] by (simp_all add: max_control_def)
    have h2: "hear_as ?h (\<lambda>f. decode_generation f ''loaded'') t v c2 = (Inr 0, c3)" for t v
      unfolding c3_def by (rule hear_as_Inr [of c2 lf]) (use l in \<open>simp_all add: c2_def q\<close>)
    define res where "res = rbind (qf_benchmark qf rt a y (ql_iterations l) (ql_batch l)) encode_metrics"
    define out where "out = (case res of Inl e \<Rightarrow> qualification_error e ''candidate qualification failed'' | Inr f \<Rightarrow> [f])"
    have t2: "qualification_turn qf u l (AwaitData rt) vf = (out, Finished)"
      using vf by (simp add: qualification_turn_def qualification_data_def out_def res_def split: sum.splits)
    define c4 where "c4 = c3\<lparr>qc_phase := Finished, qc_out := out\<rparr>"
    have a2: "ask ?h vf c3 = (Inr (), c4)"
      using ask_run [of c3 qf u l vf] t2 by (simp add: c2_def c3_def c4_def q)
    have d: "fst (qualification_dialogue ?h mf vf c) = fst (hear_as ?h decode_metrics ''candidate qualification failed: ''
               ''qualification worker sent invalid metrics response'' c4)"
      unfolding dialogue_steps
      by (rule bind_first(2), rule h1, rule bind_first(2), rule a1, rule bind_first(2), rule h2,
          rule bind_first(2), rule a2, rule refl)
    have ms: "measured qf l model kind abi u a y m \<longleftrightarrow> rbind res decode_metrics = Inr m"
      using Inr by (simp add: measured_def res_def)
    show ?thesis
    proof (cases res)
      case (Inl e)
      then have "fst (hear_as ?h decode_metrics t v c4) \<noteq> Inr m" for t v
        using error_list [of e "''candidate qualification failed''"] error_frame(2) [of e "''candidate qualification failed''"]
        by (intro hear_as_refused) (auto simp: c4_def out_def)
      then show ?thesis using d ms Inl by simp
    next
      case (Inr f)
      have o: "qc_out c4 = [f]" using Inr by (simp add: c4_def out_def)
      have s: "2 \<le> length f" "int (length f) \<le> max_control"
        using Inr frame_of_size_only
        by (fastforce simp: res_def rbind_Inr_iff encode_metrics_def max_control_def)+
      show ?thesis
      proof (cases "decode_metrics f")
        case Inl': (Inl e)
        then have "fst (hear_as ?h decode_metrics t v c4) \<noteq> Inr m" for t v
          by (intro hear_as_refused) (simp add: o)
        then show ?thesis using d ms Inr Inl' by simp
      next
        case Inr': (Inr m')
        have "hear_as ?h decode_metrics t v c4 = (Inr m', c4\<lparr>qc_out := []\<rparr>)" for t v
          by (rule hear_as_Inr) (rule o s Inr')+
        then show ?thesis using d ms Inr Inr' by simp
      qed
    qed
  qed
qed

text \<open>
  The measurements arrive unchanged where the text of each float reads back as itself and the last
  two are at most 10 to the 12.
\<close>

lemma metrics_roundtrip:
  assumes m: "num_to_float (accuracy m) = Inr a" "num_to_float (ece m) = Inr e"
      "num_to_float (max_rss_mb m) = Inr r" "num_to_float (p95_latency_ms m) = Inr p"
    and rt: "float_rt a" "float_rt e" "float_rt r" "float_rt p"
    and b: "is_finite a \<and> float_le (Fin 0) a \<and> float_le a (Fin 1)" "is_finite e \<and> float_le (Fin 0) e \<and> float_le e (Fin 1)"
      "is_finite p \<and> float_le (Fin 0) p \<and> float_le p (Fin (10 ^ 12))"
      "is_finite r \<and> float_le (Fin 0) r \<and> float_le r (Fin (10 ^ 12))"
    and "encode_metrics m = Inr f"
  shows "decode_metrics f = Inr \<lparr>accuracy = NFloat a, ece = NFloat e, p95_latency_ms = NFloat p, max_rss_mb = NFloat r\<rparr>"
proof -
  have f: "encode_frame ''metrics'' [(''accuracy'', JFloat a), (''ece'', JFloat e), (''max_rss_mb'', JFloat r),
      (''p95_latency_ms'', JFloat p)] [] = Inr f"
    using assms by (auto simp: encode_metrics_def rbind_Inr_iff)
  have g: "finite_metric k (JFloat a) (Fin 0) (Fin 1) = Inr (NFloat a)" "finite_metric k (JFloat e) (Fin 0) (Fin 1) = Inr (NFloat e)"
      "finite_metric k (JFloat p) (Fin 0) (Fin (10 ^ 12)) = Inr (NFloat p)"
      "finite_metric k (JFloat r) (Fin 0) (Fin (10 ^ 12)) = Inr (NFloat r)" for k
    using b by (simp_all add: finite_metric_def as_num_def del: power_numeral)
  show ?thesis
    unfolding decode_metrics_def
    by (subst decode_sent [OF f])
       (simp_all add: rt sent_header_fields(1,2) [OF f] jfield_Cons byte_of_def g del: power_numeral)
qed

text \<open>C38: Qualifying a model in a child process returns some metrics exactly if the data set can be
  sent, the given model loads under its kind and ABI, and these are the metrics, as reported, that
  \<^verbatim>\<open>benchmark\<close> measures of that model on exactly the given data with the configured iterations and
  batch. Whatever else happens in the child, an exception leaves \<^verbatim>\<open>qualify_model_bytes\<close>.\<close>

theorem qualification_end_to_end:
  assumes up: "qualifier_up qf l"
    and x: "to_f32 x = Some a" "length (arr_data a) = prod_list (arr_shape a)"
    and y: "to_labels y = Inr yl" "length (lab_data yl) = prod_list (lab_shape yl)"
    and lim: "1 \<le> ql_iterations l" "1 \<le> ql_batch l" "ql_batch l \<le> ql_rows l"
      "ql_rows l \<le> max_int31" "ql_values l \<le> max_int31"
    and m: "model \<noteq> []" "int (length model) \<le> u" "1024 \<le> u" "u \<le> max_uint"
    and t: "kind \<noteq> []" "utf8_ok kind" "length kind \<le> 256" "abi \<noteq> []" "utf8_ok abi" "length abi \<le> 256"
  shows "qualify_model_bytes to_f32 to_labels False (qualification_host qf u l) model kind abi u x y l = Inr r \<longleftrightarrow>
    (\<exists>vf. encode_qualification to_f32 to_labels x y (ql_iterations l) (ql_batch l) (ql_rows l) (ql_features l)
        (ql_values l) = Inr vf) \<and>
    measured qf l model kind abi u a (to_int64 yl) r"
proof (cases "encode_qualification to_f32 to_labels x y (ql_iterations l) (ql_batch l) (ql_rows l) (ql_features l)
    (ql_values l)")
  case (Inl e)
  then show ?thesis by (simp add: qualify_model_bytes_def rbind_Inr_iff except_r_Inr)
next
  case vf: (Inr vf)
  obtain rows cols where s: "rows \<le> ql_rows l" "rows * cols \<le> ql_values l" "sendable a rows cols"
      "int (length (tobytes 8 (to_int64 yl))) = rows * 8"
    and f: "encode_frame ''qualify''
         [(''batch'', JInt (ql_batch l)), (''cols'', JInt cols), (''iterations'', JInt (ql_iterations l)), (''rows'', JInt rows),
          (''x_bytes'', JInt (rows * cols * 4)), (''y_bytes'', JInt (rows * 8))]
         (tobytes 4 (arr_data a) @ tobytes 8 (to_int64 yl)) = Inr vf"
    by (rule encode_qualification_frame [OF x y vf])
  have size: "2 \<le> length vf" "int (length vf) \<le> qualification_max_incoming u l"
    using frame_of_size_only [OF f] s sendable_length [OF s(3)] by (auto simp: qualification_max_incoming_def)
  have dec: "decode_qualification vf (ql_rows l) (ql_features l) (ql_values l) (ql_iterations l) =
      Inr (a, to_int64 yl, ql_iterations l, ql_batch l)"
    using qualification_roundtrip [OF x y vf lim(1) order_refl lim(2,4,5)] lim(3) by simp
  have "int (length model) < 10 ^ 20" using m(2,4) by (simp add: max_uint_def)
  then have "int (length model) < int (10 ^ 20)" by simp
  then have len: "length model < 10 ^ 20" by (simp only: of_nat_less_iff)
  obtain mf where mf: "encode_load_artifact 0 model kind abi u = Inr mf"
    by (rule encode_load_total [of model 0 u kind abi]) (use m t len in \<open>auto simp: max_uint_def\<close>)
  obtain c where c: "h_spawn (qualification_host qf u l) = Inr c"
    by (simp add: qualification_host_def)
  have "qualify_model_bytes to_f32 to_labels False (qualification_host qf u l) model kind abi u x y l =
      recast transport_failure (fst (qualification_dialogue (qualification_host qf u l) mf vf c))"
    using m vf mf c by (simp add: qualify_model_bytes_def)
  then show ?thesis
    using dialogue_exact [OF up mf m(3,2) size dec c] vf by simp
qed

definition idle_metrics :: model_metrics where
  "idle_metrics =
     \<lparr>accuracy = NFloat (Fin 0), ece = NFloat (Fin 0), p95_latency_ms = NFloat (Fin 0), max_rss_mb = NFloat (Fin 0)\<rparr>"

definition sample_qualifier :: "nat qualifier" where
  "sample_qualifier =
     \<lparr>qf_load = (\<lambda>t b u. Inr (length b)),
      qf_benchmark = (\<lambda>rt a y i b. if rt = 3 \<and> y = [7] \<and> i = 5 \<and> b = 1
        then Inr idle_metrics
        else Inl (HGE ''other data'')),
      qf_sandbox = (\<lambda>m n. Inr ()), qf_pid = 41\<rparr>"

definition sample_limits :: qualification_limits where
  "sample_limits = \<lparr>ql_timeout_s = Fin 30, ql_memory_limit_mb = None, ql_rows = 10, ql_features = 16, ql_values = 128,
     ql_iterations = 5, ql_batch = 1, ql_nofile_limit = 64\<rparr>"

lemma zero_float_rt: "float_rt (Fin 0)"
  by (simp add: float_rt_def) code_simp

lemma sample_report:
  "\<exists>f. encode_metrics idle_metrics = Inr f"
proof -
  let ?fs = "[(''accuracy'', JFloat (Fin 0)), (''ece'', JFloat (Fin 0)), (''max_rss_mb'', JFloat (Fin 0)), (''p95_latency_ms'', JFloat (Fin 0))]"
  have r: "float_repr (Fin 0) = ''0.0''" by code_simp
  have m: "members_size ?fs \<le> 3650"
    using key_size [of "''accuracy''"] key_size [of "''ece''"] key_size [of "''max_rss_mb''"]
      key_size [of "''p95_latency_ms''"] by (simp add: byte_of_def r)
  have p: "length ([] :: bytes) < 10 ^ 20" by simp
  obtain f where "encode_frame ''metrics'' ?fs [] = Inr f"
    by (rule encode_frame_total [of "''metrics''" ?fs "[]", OF _ _ _ _ _ _ _ m p])
       (simp_all add: byte_of_def base_fields_def flat_field_def)
  then show ?thesis by (simp add: encode_metrics_def metrics_validate_def idle_metrics_def
      math_isfinite_def num_le_def num_lt_def)
qed

theorem qualification_end_to_end_witness:
  "qualify_model_bytes Some Inr False (qualification_host sample_qualifier 4096 sample_limits) ''abc''
     ''float32-linear'' ''linear-v1'' 4096 sample_tensor sample_labels sample_limits =
   Inr idle_metrics"
  (is "?q = Inr ?m")
proof -
  have len: "length (arr_data sample_tensor) = prod_list (arr_shape sample_tensor)"
    by (simp add: sample_tensor_def)
  obtain f where f: "encode_metrics ?m = Inr f" using sample_report by blast
  have d: "decode_metrics f = Inr ?m"
    using metrics_roundtrip [OF _ _ _ _ _ _ _ _ _ _ _ _ f] zero_float_rt by (simp add: idle_metrics_def)
  have "measured sample_qualifier sample_limits ''abc'' ''float32-linear'' ''linear-v1'' 4096 sample_tensor [7] ?m"
    using f d by (simp add: measured_def sample_qualifier_def sample_limits_def load_runtime_def runtime_types_def type_abi_def)
  moreover have "\<exists>vf. encode_qualification Some Inr sample_tensor sample_labels 5 1 10 16 128 = Inr vf"
    by (rule encode_qualification_total [of Some sample_tensor sample_tensor 1 2 Inr sample_labels
          sample_labels 10 16 128 5 1])
       (use sample_sendable in \<open>auto simp: sample_labels_simps uint_bounds\<close>)
  ultimately show ?thesis
    using qualification_end_to_end [of sample_qualifier sample_limits Some sample_tensor sample_tensor Inr sample_labels
        sample_labels "''abc''" 4096 "''float32-linear''" "''linear-v1''" ?m] len
    by (simp add: qualifier_up_def sample_qualifier_def sample_limits_def sample_labels_simps uint_bounds byte_of_def
      ascii_utf8_ok)
qed

end
