(* ===== verification/Telemetry.thy ===== *)
theory Telemetry
  imports FileSys Ipc
begin

text \<open>
  The durable telemetry spool of \<^verbatim>\<open>src/src/edgeai/telemetry.py\<close>: one event per line of a file, with
  a stable identifier. State is the file at the path, the lock file and the counters; the two locks
  make every operation one critical section. A write may stop in the middle, a rewrite may fail
  before its rename, and the sink may raise: these are inputs.
\<close>

section \<open>Reading JSON from bytes\<close>

text \<open>
  \<^verbatim>\<open>json.loads\<close> of \<^verbatim>\<open>bytes\<close> guesses among UTF-8, UTF-16 and UTF-32 and decodes with
  \<^verbatim>\<open>surrogatepass\<close>; the results are code points.
\<close>

fun units16 :: "bool \<Rightarrow> nat list \<Rightarrow> nat list option" where
  "units16 little [] = Some []"
| "units16 little [a] = None"
| "units16 little (a # b # r) = map_option ((#) (if little then b * 256 + a else a * 256 + b)) (units16 little r)"

fun points16 :: "nat list \<Rightarrow> nat list" where
  "points16 [] = []"
| "points16 [a] = [a]"
| "points16 (a # b # r) =
     (if 55296 \<le> a \<and> a < 56320 \<and> 56320 \<le> b \<and> b < 57344
      then (65536 + (a - 55296) * 1024 + (b - 56320)) # points16 r
      else a # points16 (b # r))"

fun points32 :: "bool \<Rightarrow> nat list \<Rightarrow> nat list option" where
  "points32 little [] = Some []"
| "points32 little (a # b # c # d # r) =
     (let n = (if little then ((d * 256 + c) * 256 + b) * 256 + a else ((a * 256 + b) * 256 + c) * 256 + d)
      in if n < 1114112 then map_option ((#) n) (points32 little r) else None)"
| "points32 little _ = None"

datatype encoding = Utf8 | Utf8Sig | Utf16 bool | Utf32 bool

definition starts :: "nat list \<Rightarrow> nat list \<Rightarrow> bool" where
  "starts p b \<longleftrightarrow> take (length p) b = p"

text \<open>The encoding and how many bytes of byte order mark it drops.\<close>

definition detect_encoding :: "nat list \<Rightarrow> encoding \<times> nat" where
  "detect_encoding b =
     (if starts [0, 0, 254, 255] b then (Utf32 False, 4)
      else if starts [255, 254, 0, 0] b then (Utf32 True, 4)
      else if starts [254, 255] b then (Utf16 False, 2)
      else if starts [255, 254] b then (Utf16 True, 2)
      else if starts [239, 187, 191] b then (Utf8Sig, 3)
      else if 4 \<le> length b then
        (if b ! 0 = 0 then (if b ! 1 \<noteq> 0 then (Utf16 False, 0) else (Utf32 False, 0))
         else if b ! 1 = 0 then (if b ! 2 \<noteq> 0 \<or> b ! 3 \<noteq> 0 then (Utf16 True, 0) else (Utf32 True, 0))
         else (Utf8, 0))
      else if length b = 2 then
        (if b ! 0 = 0 then (Utf16 False, 0) else if b ! 1 = 0 then (Utf16 True, 0) else (Utf8, 0))
      else (Utf8, 0))"

definition json_decode :: "bytes \<Rightarrow> pystr option" where
  "json_decode raw =
     (let b = map byte_of raw; (enc, n) = detect_encoding b; r = drop n b
      in map_option (\<lambda>cs. concat (map chr_str cs))
           (case enc of
              Utf8 \<Rightarrow> utf8_decode True r
            | Utf8Sig \<Rightarrow> utf8_decode True r
            | Utf16 little \<Rightarrow> map_option points16 (units16 little r)
            | Utf32 little \<Rightarrow> points32 little r))"

definition loads_raw :: "bytes \<Rightarrow> json res" where
  "loads_raw raw =
     rbind (of_opt (Exc UnicodeDecodeError ''invalid data'') (json_decode raw)) strict_json_loads"

section \<open>Lines\<close>

text \<open>\<^verbatim>\<open>bytes.splitlines\<close> breaks at LF, CR and CR LF: a line, its break and the rest.\<close>

abbreviation creturn :: char where "creturn \<equiv> CHR 0x0D"

fun line_break :: "bytes \<Rightarrow> bytes \<times> bytes \<times> bytes" where
  "line_break [] = ([], [], [])"
| "line_break (c # r) =
     (if c = newline then ([], [c], r)
      else if c = creturn then
        (case r of [] \<Rightarrow> ([], [c], []) | d # r' \<Rightarrow> if d = newline then ([], [c, d], r') else ([], [c], r))
      else (case line_break r of (l, e, t) \<Rightarrow> (c # l, e, t)))"

lemma line_break_length: "length (snd (snd (line_break r))) \<le> length r - 1"
proof (induction r)
  case (Cons c r)
  then show ?case by (cases r; cases "line_break r") auto
qed simp

function raw_lines :: "bytes \<Rightarrow> (bytes \<times> bytes) list" where
  "raw_lines [] = []"
| "raw_lines (c # r) = (case line_break (c # r) of (l, e, t) \<Rightarrow> (l, e) # raw_lines t)"
  by pat_completeness auto
termination
  by (relation "measure length")
     (simp, metis diff_Suc_1 in_measure le_imp_less_Suc length_Cons line_break_length snd_conv)

definition splitlines :: "bytes \<Rightarrow> bytes list" where
  "splitlines raw = map fst (raw_lines raw)"

definition splitlines_keepends :: "bytes \<Rightarrow> bytes list" where
  "splitlines_keepends raw = map (\<lambda>(l, e). l @ e) (raw_lines raw)"

section \<open>Records\<close>

definition event_id_ok :: "pystr \<Rightarrow> bool" where
  "event_id_ok s \<longleftrightarrow> length s = 32 \<and>
     list_all (\<lambda>c. 48 \<le> byte_of c \<and> byte_of c \<le> 57 \<or> 97 \<le> byte_of c \<and> byte_of c \<le> 102) s"

definition validate_event_id :: "json \<Rightarrow> pystr res" where
  "validate_event_id v =
     (case v of
        JStr s \<Rightarrow> rbind (guard_r (event_id_ok s) (Exc ValueError ''event_id must be 32 lowercase hexadecimal characters'')) (\<lambda>_. Inr s)
      | _ \<Rightarrow> Inl (Exc ValueError ''event_id must be 32 lowercase hexadecimal characters''))"

definition record_marker :: pystr where
  "record_marker = ''edgeai-spool-v1''"

definition envelope :: "pystr \<Rightarrow> json \<Rightarrow> json" where
  "envelope event_id event =
     JObj [(''_record'', JStr record_marker), (''event_id'', JStr event_id), (''event'', event)]"

definition encode_record :: "json \<Rightarrow> json \<Rightarrow> bytes res" where
  "encode_record event event_id =
     rbind (validate_event_id event_id) (\<lambda>i.
     rbind (canonical_json_bytes (envelope i event)) (\<lambda>b. Inr (b @ [newline])))"

text \<open>The identifier if any, the event, and whether it came in an envelope.\<close>

type_synonym decoded = "pystr option \<times> json \<times> bool"

definition decode_record :: "bytes \<Rightarrow> decoded res" where
  "decode_record raw =
     rbind (loads_raw raw) (\<lambda>v.
     case v of
       JObj kvs \<Rightarrow>
         if has_fields kvs [''_record'', ''event_id'', ''event''] \<and> jfield kvs ''_record'' = JStr record_marker
         then rbind (validate_event_id (jfield kvs ''event_id'')) (\<lambda>i. Inr (Some i, jfield kvs ''event'', True))
         else Inr (None, v, False)
     | _ \<Rightarrow> Inr (None, v, False))"

section \<open>The spool\<close>

record spool =
  sp_path :: "fsnode option"
  sp_lock :: "fsnode option"
  sp_max :: nat
  sp_corrupt :: nat
  sp_dropped :: nat

definition reject_unsafe_existing_path :: "fsnode option \<Rightarrow> unit res" where
  "reject_unsafe_existing_path n =
     (case n of
        None \<Rightarrow> Inr ()
      | Some m \<Rightarrow> guard_r (file_bytes m \<noteq> None) (Exc ValueError ''telemetry spool path must be a regular file''))"

definition spool_init :: "fsnode option \<Rightarrow> fsnode option \<Rightarrow> json \<Rightarrow> spool res" where
  "spool_init path lock max_bytes =
     rbind (of_opt (Exc ValueError ''max_bytes too small'') (as_int max_bytes)) (\<lambda>n.
     rbind (guard_r (1024 \<le> n) (Exc ValueError ''max_bytes too small'')) (\<lambda>_.
     rbind (reject_unsafe_existing_path path) (\<lambda>_.
     Inr \<lparr>sp_path = path, sp_lock = lock, sp_max = nat n, sp_corrupt = 0, sp_dropped = 0\<rparr>)))"

definition not_regular :: exc where
  "not_regular = Exc ValueError ''telemetry spool path must be a regular file''"

definition read_spool :: "(spool, bytes) prog" where
  "read_spool = lift_r (\<lambda>s.
     case sp_path s of
       None \<Rightarrow> Inr []
     | n \<Rightarrow> rbind (open_nofollow n) (\<lambda>m.
             rbind (of_opt not_regular (file_bytes m)) (\<lambda>bs. Inr (take (sp_max s + 1) bs))))"

text \<open>The write stops after \<open>k\<close> bytes in the case \<open>Some k\<close>.\<close>

definition append_line :: "nat option \<Rightarrow> bytes \<Rightarrow> (spool, unit) prog" where
  "append_line stops line = (\<lambda>s.
     case sp_path s of
       Some (Symlink t) \<Rightarrow> (Inl os_error, s)
     | Some (Directory es) \<Rightarrow> (Inl os_error, s)
     | Some Device \<Rightarrow> (Inl not_regular, s)
     | n \<Rightarrow> (let old = (case n of Some (RegFile bs) \<Rightarrow> bs | _ \<Rightarrow> [])
            in case stops of
                 None \<Rightarrow> (Inr (), s\<lparr>sp_path := Some (RegFile (old @ line))\<rparr>)
               | Some k \<Rightarrow> (Inl os_error, s\<lparr>sp_path := Some (RegFile (old @ take k line))\<rparr>)))"

definition rewrite :: "bool \<Rightarrow> bytes \<Rightarrow> (spool, unit) prog" where
  "rewrite works bs = (\<lambda>s.
     if \<not> works then (Inl os_error, s)
     else case write_node (sp_path s) bs of Inl e \<Rightarrow> (Inl e, s) | Inr n \<Rightarrow> (Inr (), s\<lparr>sp_path := Some n\<rparr>))"

definition with_lock :: "(spool, 'a) prog \<Rightarrow> (spool, 'a) prog" where
  "with_lock p =
     bind_p (\<lambda>s. case lock_acquire (sp_lock s) of
                   Inl e \<Rightarrow> (Inl e, s) | Inr n \<Rightarrow> (Inr (), s\<lparr>sp_lock := Some n\<rparr>)) (\<lambda>_. p)"

definition read_bounded :: "(spool, bytes) prog" where
  "read_bounded =
     bind_p read_spool (\<lambda>raw.
     bind_p (guard_p (\<lambda>s. length raw \<le> sp_max s) (Exc ValueError ''telemetry spool exceeds configured size'')) (\<lambda>_.
     ret raw))"

section \<open>Appending\<close>

text \<open>Whether a record of this identifier is there already; with other content it is an error.\<close>

fun already_held :: "pystr \<Rightarrow> json \<Rightarrow> bytes list \<Rightarrow> bool res" where
  "already_held i event [] = Inr False"
| "already_held i event (raw # raws) =
     (case decode_record raw of
        Inl _ \<Rightarrow> already_held i event raws
      | Inr (ei, ev, _) \<Rightarrow>
          if ei = Some i
          then rbind (canonical_json_bytes ev) (\<lambda>a.
               rbind (canonical_json_bytes event) (\<lambda>b.
               rbind (guard_r (a = b) (Exc ValueError ''event_id is already associated with different content'')) (\<lambda>_.
               Inr True)))
          else already_held i event raws)"

text \<open>The oldest lines go until the new one fits: what stays, and how many went.\<close>

fun make_room :: "nat \<Rightarrow> nat \<Rightarrow> bytes list \<Rightarrow> bytes list \<times> nat" where
  "make_room mx n [] = ([], 0)"
| "make_room mx n (l # ls) =
     (if mx < sum_list (map length (l # ls)) + n
      then (case make_room mx n ls of (kept, k) \<Rightarrow> (kept, k + 1)) else (l # ls, 0))"

definition append_locked :: "nat option \<Rightarrow> bool \<Rightarrow> pystr \<Rightarrow> json \<Rightarrow> bytes \<Rightarrow> (spool, bool) prog" where
  "append_locked stops supplied i event line =
     bind_p read_bounded (\<lambda>raw.
     bind_p (if supplied then lift_r (\<lambda>_. already_held i event (splitlines raw)) else ret False) (\<lambda>held.
     if held then ret True
     else
       bind_p (\<lambda>s.
         if sp_max s < length raw + length line
         then (case make_room (sp_max s) (length line) (splitlines_keepends raw) of
                 (kept, k) \<Rightarrow> rewrite (stops = None) (concat kept @ line) (s\<lparr>sp_dropped := sp_dropped s + k\<rparr>))
         else append_line stops line s) (\<lambda>_. ret True)))"

definition spool_append :: "pystr \<Rightarrow> nat option \<Rightarrow> json \<Rightarrow> json \<Rightarrow> (spool, bool) prog" where
  "spool_append fresh stops event event_id =
     bind_p (lift_r (\<lambda>_. if event_id \<noteq> JNull then validate_event_id event_id else Inr fresh)) (\<lambda>i.
     bind_p (lift_r (\<lambda>_. encode_record event (JStr i))) (\<lambda>line.
     (\<lambda>s. if sp_max s < length line then (Inr False, s\<lparr>sp_dropped := sp_dropped s + 1\<rparr>)
          else with_lock (append_locked stops (event_id \<noteq> JNull) i event line) s)))"

section \<open>Flushing\<close>

datatype delivery = Plain json | Recorded "pystr option" json bool

definition delivery_of :: "bool \<Rightarrow> decoded \<Rightarrow> delivery" where
  "delivery_of include_record d =
     (case d of (i, event, enveloped) \<Rightarrow> if include_record then Recorded i event enveloped else Plain event)"

text \<open>
  The sink is a function of what it is given and of its own state \<open>k\<close>; \<open>False\<close>: it raised. The
  result: the lines that remain, how many were sent and how many were corrupt, and the sink.
\<close>

fun flush_lines ::
  "nat option \<Rightarrow> bool \<Rightarrow> (delivery \<Rightarrow> 'k \<Rightarrow> bool \<times> 'k) \<Rightarrow> bytes list \<Rightarrow> nat \<Rightarrow> nat \<Rightarrow> 'k \<Rightarrow> bytes list \<times> nat \<times> nat \<times> 'k"
where
  "flush_lines max_events rec sink [] sent bad k = ([], sent, bad, k)"
| "flush_lines max_events rec sink (raw # raws) sent bad k =
     (if max_events \<noteq> None \<and> the max_events \<le> sent then (raw # raws, sent, bad, k)
      else case decode_record raw of
             Inl _ \<Rightarrow> flush_lines max_events rec sink raws sent (bad + 1) k
           | Inr d \<Rightarrow>
               (case sink (delivery_of rec d) k of
                  (True, k') \<Rightarrow> flush_lines max_events rec sink raws (sent + 1) bad k'
                | (False, k') \<Rightarrow> (raw # raws, sent, bad, k')))"

definition joined :: "bytes list \<Rightarrow> bytes" where
  "joined rs = concat (map (\<lambda>r. r @ [newline]) rs)"

definition events_limit :: "json \<Rightarrow> nat option res" where
  "events_limit v =
     (case v of
        JNull \<Rightarrow> Inr None
      | JInt n \<Rightarrow> rbind (guard_r (0 \<le> n) (Exc ValueError ''max_events must be a non-negative integer'')) (\<lambda>_. Inr (Some (nat n)))
      | _ \<Rightarrow> Inl (Exc ValueError ''max_events must be a non-negative integer''))"

definition flush_spool ::
  "bool \<Rightarrow> (delivery \<Rightarrow> 'k \<Rightarrow> bool \<times> 'k) \<Rightarrow> json \<Rightarrow> bool \<Rightarrow> (spool \<times> 'k, nat) prog" where
  "flush_spool works sink max_events include_record = (\<lambda>(s, k).
     case events_limit max_events of
       Inl e \<Rightarrow> (Inl e, s, k)
     | Inr limit \<Rightarrow>
         (case with_lock read_spool s of
            (Inl e, s) \<Rightarrow> (Inl e, s, k)
          | (Inr raw, s) \<Rightarrow>
              if raw = [] then (Inr 0, s, k)
              else if sp_max s < length raw
              then (Inl (Exc ValueError ''telemetry spool exceeds configured size''), s, k)
              else
                (case flush_lines limit include_record sink (splitlines raw) 0 0 k of
                   (remaining, sent, bad, k') \<Rightarrow>
                     (case rewrite works (joined remaining) (s\<lparr>sp_corrupt := sp_corrupt s + bad\<rparr>) of
                        (Inl e, s') \<Rightarrow> (Inl e, s', k') | (Inr _, s') \<Rightarrow> (Inr sent, s', k')))))"

section \<open>Statistics\<close>

definition spool_stats :: "(spool, nat \<times> nat \<times> nat \<times> nat \<times> nat) prog" where
  "spool_stats =
     with_lock (bind_p read_bounded (\<lambda>raw s.
       (let ds = List.map_filter (\<lambda>l. case decode_record l of Inl _ \<Rightarrow> None | Inr d \<Rightarrow> Some d) (splitlines raw)
        in (Inr (length raw, sp_dropped s, sp_corrupt s, length (filter (\<lambda>(i, e, env). env) ds),
                 length (filter (\<lambda>(i, e, env). \<not> env) ds)), s))))"

end
