(* ===== verification/TelemetryProps.thy ===== *)
theory TelemetryProps
  imports Telemetry "HOL-Library.Sublist"
begin

text \<open>
  The spool: what one operation does to a well-formed file, that no accepted event is lost or
  invented over any run, and what an interrupted write does to the next event.
\<close>

section \<open>Lines and records\<close>

definition no_breaks :: "bytes \<Rightarrow> bool" where
  "no_breaks r \<longleftrightarrow> newline \<notin> set r \<and> creturn \<notin> set r"

lemma line_break_line: "no_breaks r \<Longrightarrow> line_break (r @ newline # t) = (r, [newline], t)"
  by (induction r) (auto simp: no_breaks_def)

lemma raw_lines_line: "no_breaks r \<Longrightarrow> raw_lines (r @ newline # t) = (r, [newline]) # raw_lines t"
  using line_break_line [of r t] by (cases r) auto

lemma joined_simps [simp]: "joined [] = []" "joined (r # rs) = r @ newline # joined rs"
  "joined (rs @ rs') = joined rs @ joined rs'"
  by (simp_all add: joined_def)

lemma raw_lines_joined: "list_all no_breaks rs \<Longrightarrow> raw_lines (joined rs) = map (\<lambda>r. (r, [newline])) rs"
  by (induction rs) (simp_all add: raw_lines_line)

lemma splitlines_joined:
  assumes "list_all no_breaks rs"
  shows "splitlines (joined rs) = rs" and "splitlines_keepends (joined rs) = map (\<lambda>r. r @ [newline]) rs"
  using raw_lines_joined [OF assms] by (simp_all add: splitlines_def splitlines_keepends_def comp_def)

definition visible :: "string \<Rightarrow> bool" where
  "visible s \<longleftrightarrow> list_all (\<lambda>c. 32 \<le> byte_of c) s"

lemma visible_simps [simp]:
  "visible []" "visible (c # s) \<longleftrightarrow> 32 \<le> byte_of c \<and> visible s" "visible (s @ t) \<longleftrightarrow> visible s \<and> visible t"
  by (auto simp: visible_def)

lemma printable_visible: "printable s \<Longrightarrow> visible s"
  by (fastforce simp: printable_def visible_def list_all_iff)

lemma visible_no_breaks: "visible s \<Longrightarrow> no_breaks s"
  by (auto simp: visible_def no_breaks_def list_all_iff byte_of_def)

lemma visible_esc_char: "visible (esc_char False c)"
proof (cases "byte_of c < 128")
  case True
  then have "esc_char False c = esc_char True c \<or> esc_char False c = [c] \<and> 32 \<le> byte_of c"
    by (auto simp: esc_char_def)
  then show ?thesis using printable_esc_char [OF True] by (auto intro: printable_visible)
next
  case False
  then show ?thesis by (auto simp: esc_char_def byte_of_def)
qed

lemma visible_str_text: "visible (str_text False s)"
proof -
  have "visible (concat (map (esc_char False) t))" for t
    by (induction t) (simp_all add: visible_esc_char)
  then show ?thesis by (simp add: str_text_def str_body_def byte_of_def)
qed

lemma visible_json_text:
  "visible (json_text False v)" "visible (elems_text False vs)" "visible (members_text False kvs)"
proof (induction False v and False vs and False kvs rule: json_text_elems_text_members_text.induct)
qed (auto simp: visible_str_text byte_of_def intro: printable_visible)

text \<open>Text that starts like an object is taken for UTF-8.\<close>

lemma json_decode_ascii:
  assumes "utf8_ok (c # d # r)" and "0 < byte_of c" "byte_of c < 128" "0 < byte_of d"
  shows "json_decode (c # d # r) = Some (c # d # r)"
proof -
  let ?s = "c # d # r"
  obtain cs where "utf8_decode False (map byte_of ?s) = Some cs"
    using assms(1) unfolding utf8_ok_def by blast
  then have cs: "utf8_decode True (map byte_of ?s) = Some cs" by (rule utf8_decode_mono)
  then have "code_points ?s = cs" unfolding code_points_def by (simp only: option.case)
  then have "concat (map chr_str cs) = ?s"
    using chr_str_code_points [of ?s] utf8_ok_str_ok [OF assms(1)] by simp
  moreover have "detect_encoding (map byte_of ?s) = (Utf8, 0)"
    using assms(2-4) by (auto simp: detect_encoding_def starts_def)
  ultimately show ?thesis using cs by (simp only: json_decode_def Let_def prod.case encoding.case drop_0 option.map)
qed

lemma json_decode_object: "utf8_ok (CHR ''{'' # dquote # r) \<Longrightarrow> json_decode (CHR ''{'' # dquote # r) = Some (CHR ''{'' # dquote # r)"
  by (rule json_decode_ascii) (simp_all add: byte_of_def)

lemma canon_envelope:
  "canon (envelope i event) = JObj [(''_record'', JStr record_marker), (''event'', canon event), (''event_id'', JStr i)]"
  by (simp add: envelope_def sort_key_def)

lemma record_written:
  assumes "encode_record event (JStr i) = Inr line"
  obtains r where "line = r @ [newline]" "visible r" "json_ok event" "event_id_ok i"
    "r = json_text False (canon (envelope i event))" "utf8_ok r"
proof -
  have "event_id_ok i" "json_ok (envelope i event)" "line = json_text False (canon (envelope i event)) @ [newline]"
      "utf8_ok (json_text False (canon (envelope i event)))"
    using assms by (auto simp: encode_record_def validate_event_id_def rbind_Inr_iff canonical_json_bytes_Inr)
  moreover from this have "json_ok event" by (simp add: envelope_def)
  ultimately show ?thesis using that visible_json_text(1) by blast
qed

lemma record_roundtrip:
  assumes "encode_record event (JStr i) = Inr (r @ [newline])" and "json_rt False event"
  shows "decode_record r = Inr (Some i, canon event, True)"
proof -
  obtain q where q: "r = json_text False (canon (envelope i event))" "utf8_ok r" "event_id_ok i"
    using assms(1) by (rule record_written) auto
  have "ascii i" using q(3) by (fastforce simp: event_id_ok_def ascii_def list_all_iff)
  then have "json_rt False (envelope i event)"
    using assms(2) ascii_utf8_ok utf8_ok_str_ok
    by (auto simp: envelope_def str_rt_def record_marker_def byte_of_def ascii_def list_all_iff)
  then have p: "strict_parse r = Some (canon (envelope i event))"
    using strict_parse_text [OF json_rt_canon, of False _ "[]"] q(1) by simp
  obtain t where t: "r = CHR ''{'' # dquote # t" using q(1) by (auto simp: canon_envelope str_text_def)
  have "loads_raw r = Inr (canon (envelope i event))"
    using json_decode_object [of t] q(2) p by (simp add: loads_raw_def strict_json_loads_def t)
  then show ?thesis
    using q(3) by (simp add: decode_record_def canon_envelope has_fields_def jfield_def validate_event_id_def)
       (auto simp: record_marker_def)
qed

section \<open>One operation\<close>

text \<open>A spool file of whole lines within its bound.\<close>

definition holds :: "spool \<Rightarrow> bytes list \<Rightarrow> bool" where
  "holds s rs \<longleftrightarrow>
     (sp_path s = Some (RegFile (joined rs)) \<or> sp_path s = None \<and> rs = []) \<and>
     list_all no_breaks rs \<and> length (joined rs) \<le> sp_max s"

lemma holds_read: "holds s rs \<Longrightarrow> read_bounded s = (Inr (joined rs), s)"
  by (auto simp: holds_def read_bounded_def read_spool_def bind_p_def lift_r_def guard_p_def ret_def
      open_nofollow_def file_bytes_def)

lemma holds_read_spool: "holds s rs \<Longrightarrow> read_spool s = (Inr (joined rs), s)"
  by (auto simp: holds_def read_spool_def lift_r_def open_nofollow_def file_bytes_def)

lemma holds_counters [simp]:
  "holds (s\<lparr>sp_dropped := n\<rparr>) rs \<longleftrightarrow> holds s rs" "holds (s\<lparr>sp_corrupt := n\<rparr>) rs \<longleftrightarrow> holds s rs"
  "holds (s\<lparr>sp_lock := l\<rparr>) rs \<longleftrightarrow> holds s rs"
  by (simp_all add: holds_def)

lemma holds_rewrite:
  assumes "holds s rs" "list_all no_breaks rs'" "length (joined rs') \<le> sp_max s"
  shows "rewrite True (joined rs') s = (Inr (), s\<lparr>sp_path := Some (RegFile (joined rs'))\<rparr>)"
    and "holds (s\<lparr>sp_path := Some (RegFile (joined rs'))\<rparr>) rs'"
  using assms by (auto simp: holds_def rewrite_def write_node_def)

lemma make_room_spec:
  assumes "n \<le> mx" and "make_room mx n (map (\<lambda>r. r @ [newline]) rs) = (kept, k)"
  shows "concat kept = joined (drop k rs) \<and> k \<le> length rs \<and> length (joined (drop k rs)) + n \<le> mx \<and>
    (\<forall>j<k. mx < length (joined (drop j rs)) + n)"
  using assms(2)
proof (induction rs arbitrary: kept k)
  case Nil
  then show ?case using assms(1) by simp
next
  case (Cons r rs)
  have len: "sum_list (map length (map (\<lambda>r. r @ [newline]) (r # rs))) = length (joined (r # rs))"
    by (simp add: joined_def length_concat comp_def)
  show ?case
  proof (cases "mx < length (joined (r # rs)) + n")
    case True
    obtain q j where qj: "make_room mx n (map (\<lambda>r. r @ [newline]) rs) = (q, j)" by fastforce
    then have "kept = q" "k = j + 1" using Cons.prems True len by auto
    then show ?thesis using Cons.IH [OF qj] True by (auto simp: less_Suc_eq_0_disj)
  next
    case False
    then have "kept = map (\<lambda>r. r @ [newline]) (r # rs)" "k = 0" using Cons.prems len by auto
    then show ?thesis using False by (simp add: joined_def)
  qed
qed

text \<open>Eviction: as few of the oldest lines as needed.\<close>

definition evicts :: "spool \<Rightarrow> bytes list \<Rightarrow> nat \<Rightarrow> bytes \<Rightarrow> bool" where
  "evicts s rs k line \<longleftrightarrow> k \<le> length rs \<and> length (joined (drop k rs @ [line])) \<le> sp_max s \<and>
     (\<forall>j<k. sp_max s < length (joined (drop j rs @ [line])))"

lemma append_new:
  assumes h: "holds s rs" and l: "no_breaks line" "length line < sp_max s"
    and held: "\<not> supplied \<or> already_held i event rs = Inr False"
    and a: "append_locked None supplied i event (line @ [newline]) s = (r, s')"
  shows "\<exists>k. r = Inr True \<and> holds s' (drop k rs @ [line]) \<and> sp_dropped s' = sp_dropped s + k \<and> evicts s rs k line \<and>
    sp_max s' = sp_max s \<and> sp_lock s' = sp_lock s"
proof -
  have nb: "list_all no_breaks rs" using h by (simp add: holds_def)
  note sl = splitlines_joined [OF nb]
  have a': "append_locked None supplied i event (line @ [newline]) s =
    bind_p (\<lambda>s. if sp_max s < length (joined rs) + length (line @ [newline])
         then (case make_room (sp_max s) (length (line @ [newline])) (map (\<lambda>r. r @ [newline]) rs) of
                 (kept, k) \<Rightarrow> rewrite True (concat kept @ line @ [newline]) (s\<lparr>sp_dropped := sp_dropped s + k\<rparr>))
         else append_line None (line @ [newline]) s) (\<lambda>_. ret True) s"
    using held by (auto simp: append_locked_def bind_p_def [of read_bounded] holds_read [OF h] sl bind_p_def [of "if supplied then _ else _"]
        lift_r_def ret_def cong: if_cong)
  show ?thesis
  proof (cases "sp_max s < length (joined rs) + length (line @ [newline])")
    case False
    have "sp_path s = Some (RegFile (joined rs)) \<or> sp_path s = None \<and> rs = []" using h by (simp add: holds_def)
    then have e: "append_line None (line @ [newline]) s = (Inr (), s\<lparr>sp_path := Some (RegFile (joined (rs @ [line])))\<rparr>)"
      by (auto simp: append_line_def)
    have "r = Inr True" "s' = s\<lparr>sp_path := Some (RegFile (joined (rs @ [line])))\<rparr>"
      using a a' False e by (simp_all add: bind_p_def ret_def)
    then show ?thesis using False nb l by (intro exI [of _ 0]) (simp add: holds_def evicts_def)
  next
    case True
    obtain kept k where mr: "make_room (sp_max s) (length (line @ [newline])) (map (\<lambda>r. r @ [newline]) rs) = (kept, k)"
      by fastforce
    have "length (line @ [newline]) \<le> sp_max s" using l(2) by simp
    note m = make_room_spec [OF this mr]
    have c: "concat kept @ line @ [newline] = joined (drop k rs @ [line])" using m by simp
    have d: "list_all no_breaks (drop k rs @ [line])" "length (joined (drop k rs @ [line])) \<le> sp_max s"
      using nb l m set_drop_subset [of k rs] by (auto simp: list_all_iff)
    define s1 where "s1 = s\<lparr>sp_dropped := sp_dropped s + k\<rparr>"
    have h1: "holds s1 rs" "sp_max s1 = sp_max s" using h by (simp_all add: s1_def)
    note w = holds_rewrite [OF h1(1) d(1), unfolded h1(2), OF d(2)]
    have "r = Inr True" "s' = s1\<lparr>sp_path := Some (RegFile (joined (drop k rs @ [line])))\<rparr>"
      using a a' True mr w(1) by (simp_all add: bind_p_def ret_def c s1_def)
    then show ?thesis using w(2) m by (intro exI [of _ k]) (simp add: evicts_def s1_def)
  qed
qed

text \<open>What \<^verbatim>\<open>append\<close> does in every case.\<close>

datatype appended = Refused exc | TooLarge | Duplicate | Added bytes nat

definition append_outcome :: "spool \<Rightarrow> bytes list \<Rightarrow> pystr \<Rightarrow> json \<Rightarrow> json \<Rightarrow> appended \<Rightarrow> bool" where
  "append_outcome s rs i event event_id out =
     (case out of
        Refused e \<Rightarrow> event_id \<noteq> JNull \<and> validate_event_id event_id = Inl e \<or>
          encode_record event (JStr i) = Inl e \<or> event_id \<noteq> JNull \<and> already_held i event rs = Inl e
      | TooLarge \<Rightarrow> \<exists>line. encode_record event (JStr i) = Inr line \<and> sp_max s < length line
      | Duplicate \<Rightarrow> event_id \<noteq> JNull \<and> (\<exists>raw ev b. raw \<in> set rs \<and> (\<exists>f. decode_record raw = Inr (Some i, ev, f)) \<and>
          canonical_json_bytes ev = Inr b \<and> canonical_json_bytes event = Inr b)
      | Added line k \<Rightarrow> encode_record event (JStr i) = Inr (line @ [newline]) \<and> evicts s rs k line \<and>
          (event_id = JNull \<or> already_held i event rs = Inr False))"

text \<open>The identifier the record gets.\<close>

definition used_id :: "pystr \<Rightarrow> json \<Rightarrow> pystr" where
  "used_id fresh event_id = (case event_id of JStr i \<Rightarrow> i | _ \<Rightarrow> fresh)"

definition after_append :: "bytes list \<Rightarrow> appended \<Rightarrow> bytes list" where
  "after_append rs out = (case out of Added line k \<Rightarrow> drop k rs @ [line] | _ \<Rightarrow> rs)"

definition append_result :: "appended \<Rightarrow> bool res" where
  "append_result out = (case out of Refused e \<Rightarrow> Inl e | TooLarge \<Rightarrow> Inr False | _ \<Rightarrow> Inr True)"

definition append_dropped :: "appended \<Rightarrow> nat" where
  "append_dropped out = (case out of TooLarge \<Rightarrow> 1 | Added line k \<Rightarrow> k | _ \<Rightarrow> 0)"

lemma already_held_True:
  "already_held i event rs = Inr True \<Longrightarrow>
     \<exists>raw ev b. raw \<in> set rs \<and> (\<exists>f. decode_record raw = Inr (Some i, ev, f)) \<and> canonical_json_bytes ev = Inr b \<and>
       canonical_json_bytes event = Inr b"
proof (induction rs)
  case (Cons raw rs)
  show ?case
  proof (cases "\<exists>ev f. decode_record raw = Inr (Some i, ev, f)")
    case True
    then show ?thesis using Cons.prems by (auto simp: rbind_Inr_iff)
  next
    case False
    then have "already_held i event rs = Inr True"
      using Cons.prems by (auto split: sum.splits if_splits)
    from Cons.IH [OF this] show ?thesis by auto
  qed
qed simp

lemmas append_cases_defs = append_outcome_def append_result_def after_append_def append_dropped_def

lemma append_locked_effect:
  assumes h: "holds s rs" and l: "no_breaks line" "length line < sp_max s" "encode_record event (JStr i) = Inr (line @ [newline])"
    and a: "append_locked None (event_id \<noteq> JNull) i event (line @ [newline]) s = (r, s')"
  shows "\<exists>out. append_outcome s rs i event event_id out \<and> r = append_result out \<and> holds s' (after_append rs out) \<and>
    sp_dropped s' = sp_dropped s + append_dropped out \<and> sp_max s' = sp_max s \<and> sp_lock s' = sp_lock s"
proof -
  have nb: "list_all no_breaks rs" using h by (simp add: holds_def)
  have dup: "append_locked None (event_id \<noteq> JNull) i event (line @ [newline]) s =
      (case already_held i event rs of Inl e \<Rightarrow> (Inl e, s) | Inr True \<Rightarrow> (Inr True, s)
       | Inr False \<Rightarrow> append_locked None False i event (line @ [newline]) s)" if "event_id \<noteq> JNull"
    using that by (simp add: append_locked_def bind_p_def [of read_bounded] holds_read [OF h] splitlines_joined [OF nb]
        bind_p_def [of "if _ then _ else _"] bind_p_def [of "lift_r _"] bind_p_def [of "ret _"] lift_r_def ret_def
        split: sum.splits bool.splits)
  consider (bad) e where "event_id \<noteq> JNull" "already_held i event rs = Inl e"
    | (same) "event_id \<noteq> JNull" "already_held i event rs = Inr True"
    | (new) "event_id = JNull \<or> already_held i event rs = Inr False"
    by (cases "already_held i event rs") auto
  then show ?thesis
  proof cases
    case bad
    then have "r = Inl e" "s' = s" using a dup by simp_all
    then show ?thesis using bad h by (intro exI [of _ "Refused e"]) (simp add: append_cases_defs)
  next
    case same
    then have "r = Inr True" "s' = s" using a dup by simp_all
    then show ?thesis using same h already_held_True [OF same(2)]
      by (intro exI [of _ Duplicate]) (simp add: append_cases_defs)
  next
    case new
    then have "\<not> event_id \<noteq> JNull \<or> already_held i event rs = Inr False" by simp
    then obtain k where "r = Inr True" "holds s' (drop k rs @ [line])" "sp_dropped s' = sp_dropped s + k"
        "evicts s rs k line" "sp_max s' = sp_max s" "sp_lock s' = sp_lock s"
      using append_new [OF h l(1,2) _ a] by blast
    then show ?thesis using l(3) new by (intro exI [of _ "Added line k"]) (simp add: append_cases_defs)
  qed
qed

text \<open>
  \<^verbatim>\<open>append\<close> on a well-formed spool: it raises for a bad identifier, an event that has no canonical
  JSON or an identifier that is there with other content; or it drops a record larger than the whole
  spool and says so; or it finds the same record there; or it adds the record at the end after
  removing as few of the oldest records as make room.
\<close>

lemma spool_append_effect:
  assumes h: "holds s rs" and lk: "lock_acquire (sp_lock s) = Inr n" and f: "event_id_ok fresh"
    and a: "spool_append fresh None event event_id s = (r, s')"
  shows "\<exists>out. append_outcome s rs (used_id fresh event_id) event event_id out \<and> r = append_result out \<and>
    holds s' (after_append rs out) \<and> sp_dropped s' = sp_dropped s + append_dropped out \<and> sp_max s' = sp_max s \<and>
    (sp_lock s' = sp_lock s \<or> sp_lock s' = Some n)"
proof (cases "event_id \<noteq> JNull \<and> (\<exists>e. validate_event_id event_id = Inl e)")
  case True
  then obtain e where e: "validate_event_id event_id = Inl e" "event_id \<noteq> JNull" by blast
  then have "r = Inl e" "s' = s" using a by (simp_all add: spool_append_def bind_p_def lift_r_def)
  then show ?thesis using e h by (intro exI [of _ "Refused e"]) (simp add: append_cases_defs)
next
  case False
  define i where "i = used_id fresh event_id"
  have i: "(if event_id \<noteq> JNull then validate_event_id event_id else Inr fresh) = Inr i"
    using False by (auto simp: i_def used_id_def validate_event_id_def split: json.splits sum.splits if_splits)
       (auto simp: rbind_def guard_r_def split: if_splits)
  show ?thesis
  proof (cases "encode_record event (JStr i)")
    case (Inl e)
    then have "r = Inl e" "s' = s" using a i by (simp_all add: spool_append_def bind_p_def lift_r_def)
    then show ?thesis using Inl h i_def by (intro exI [of _ "Refused e"]) (simp add: append_cases_defs)
  next
    case (Inr l)
    then obtain line where l: "l = line @ [newline]" "visible line" by (rule record_written)
    show ?thesis
    proof (cases "sp_max s < length l")
      case True
      then have "r = Inr False" "s' = s\<lparr>sp_dropped := sp_dropped s + 1\<rparr>"
        using a i Inr by (simp_all add: spool_append_def bind_p_def lift_r_def)
      then show ?thesis using True Inr h i_def by (intro exI [of _ TooLarge]) (simp add: append_cases_defs)
    next
      case small: False
      define s1 where "s1 = s\<lparr>sp_lock := Some n\<rparr>"
      have s1: "holds s1 rs" "no_breaks line" "length line < sp_max s1"
        using h l small by (simp_all add: s1_def visible_no_breaks)
      have a1: "append_locked None (event_id \<noteq> JNull) i event (line @ [newline]) s1 = (r, s')"
        using a i Inr small lk l(1) by (simp add: spool_append_def with_lock_def bind_p_def lift_r_def s1_def)
      have "append_outcome s1 = append_outcome s"
        by (intro ext) (simp add: append_outcome_def evicts_def s1_def split: appended.splits)
      then show ?thesis using append_locked_effect [OF s1 Inr [unfolded l(1)] a1] by (simp add: s1_def i_def) blast
    qed
  qed
qed

section \<open>Flushing\<close>

definition readable :: "bytes list \<Rightarrow> decoded list" where
  "readable rs = List.map_filter (\<lambda>l. case decode_record l of Inl _ \<Rightarrow> None | Inr d \<Rightarrow> Some d) rs"

lemma readable_simps [simp]:
  "readable [] = []"
  "readable (r # rs) = (case decode_record r of Inl _ \<Rightarrow> readable rs | Inr d \<Rightarrow> d # readable rs)"
  "readable (rs @ rs') = readable rs @ readable rs'"
  by (auto simp: readable_def List.map_filter_def split: sum.splits)

text \<open>A sink that also notes what it accepted.\<close>

definition logging :: "(delivery \<Rightarrow> 'k \<Rightarrow> bool \<times> 'k) \<Rightarrow> delivery \<Rightarrow> 'k \<times> delivery list \<Rightarrow> bool \<times> 'k \<times> delivery list" where
  "logging sink d s = (case s of (k, dl) \<Rightarrow> (case sink d k of (b, k') \<Rightarrow> (b, k', if b then dl @ [d] else dl)))"

lemma logging_run:
  "sink d k = (b, k') \<Longrightarrow> logging sink d (k, dl) = (b, k', if b then dl @ [d] else dl)"
  by (simp add: logging_def)

text \<open>Why the loop stopped before line \<open>n\<close>.\<close>

definition stopped :: "nat option \<Rightarrow> bool \<Rightarrow> (delivery \<Rightarrow> 'k \<Rightarrow> bool \<times> 'k) \<Rightarrow> bytes list \<Rightarrow> nat \<Rightarrow> nat \<Rightarrow> bool" where
  "stopped limit rec sink rs n sent \<longleftrightarrow>
     n = length rs \<or> (\<exists>m. limit = Some m \<and> m \<le> sent) \<or>
     (\<exists>d k. decode_record (rs ! n) = Inr d \<and> \<not> fst (sink (delivery_of rec d) k))"

lemma flush_lines_spec:
  "flush_lines limit rec (logging sink) rs sent bad (k, dl) = (remaining, sent', bad', k', dl') \<Longrightarrow>
   \<exists>n \<le> length rs. remaining = drop n rs \<and> dl' = dl @ map (delivery_of rec) (readable (take n rs)) \<and>
     sent' = sent + length (readable (take n rs)) \<and> bad' + length (readable (take n rs)) = bad + n \<and>
     stopped limit rec sink rs n sent' \<and> (\<forall>m. limit = Some m \<longrightarrow> sent' \<le> max m sent)"
proof (induction rs arbitrary: sent bad k dl)
  case Nil
  then show ?case by (auto simp: stopped_def)
next
  case (Cons r rs)
  have next_line: "\<exists>n \<le> length (r # rs). remaining = drop n (r # rs) \<and>
      dl' = dl @ map (delivery_of rec) (readable (take n (r # rs))) \<and>
      sent' = sent + length (readable (take n (r # rs))) \<and> bad' + length (readable (take n (r # rs))) = bad + n \<and>
      stopped limit rec sink (r # rs) n sent' \<and> (\<forall>m. limit = Some m \<longrightarrow> sent' \<le> max m sent)"
    if n: "n \<le> length rs" "remaining = drop n rs"
      "dl' = dl @ map (delivery_of rec) (readable [r]) @ map (delivery_of rec) (readable (take n rs))"
      "sent' = sent + length (readable [r]) + length (readable (take n rs))"
      "bad' + length (readable [r]) + length (readable (take n rs)) = bad + Suc n" "stopped limit rec sink rs n sent'"
      "\<forall>m. limit = Some m \<longrightarrow> sent' \<le> max m sent" for n
    using n by (intro exI [of _ "Suc n"]) (auto simp: stopped_def split: sum.splits)
  show ?case
  proof (cases "limit \<noteq> None \<and> the limit \<le> sent")
    case True
    then show ?thesis using Cons.prems by (intro exI [of _ 0]) (auto simp: stopped_def)
  next
    case go: False
    show ?thesis
    proof (cases "decode_record r")
      case (Inl e)
      then have "flush_lines limit rec (logging sink) rs sent (bad + 1) (k, dl) = (remaining, sent', bad', k', dl')"
        using Cons.prems go by (auto split: if_splits)
      from Cons.IH [OF this] obtain n where "n \<le> length rs" "remaining = drop n rs"
          "dl' = dl @ map (delivery_of rec) (readable (take n rs))" "sent' = sent + length (readable (take n rs))"
          "bad' + length (readable (take n rs)) = bad + 1 + n" "stopped limit rec sink rs n sent'"
          "\<forall>m. limit = Some m \<longrightarrow> sent' \<le> max m sent"
        by blast
      then show ?thesis using Inl by (intro next_line [of n]) simp_all
    next
      case (Inr d)
      obtain b k1 where s: "sink (delivery_of rec d) k = (b, k1)" by fastforce
      then have lr: "logging sink (delivery_of rec d) (k, dl) = (b, k1, if b then dl @ [delivery_of rec d] else dl)"
        by (rule logging_run)
      show ?thesis
      proof (cases b)
        case True
        then have "flush_lines limit rec (logging sink) rs (sent + 1) bad (k1, dl @ [delivery_of rec d]) =
            (remaining, sent', bad', k', dl')"
          using Cons.prems go Inr lr by auto
        from Cons.IH [OF this] obtain n where n: "n \<le> length rs" "remaining = drop n rs"
            "dl' = (dl @ [delivery_of rec d]) @ map (delivery_of rec) (readable (take n rs))"
            "sent' = sent + 1 + length (readable (take n rs))"
            "bad' + length (readable (take n rs)) = bad + n" "stopped limit rec sink rs n sent'"
            "\<forall>m. limit = Some m \<longrightarrow> sent' \<le> max m (sent + 1)"
          by blast
        have "\<forall>m. limit = Some m \<longrightarrow> sent' \<le> max m sent" using n(7) go by fastforce
        then show ?thesis using Inr n(1-6) by (intro next_line [of n]) simp_all
      next
        case False
        then have "remaining = r # rs" "sent' = sent" "bad' = bad" "dl' = dl"
          using Cons.prems go Inr lr by auto
        moreover have "stopped limit rec sink (r # rs) 0 sent"
          unfolding stopped_def using Inr s False by (metis fst_conv nth_Cons_0)
        ultimately show ?thesis using go by (intro exI [of _ 0]) auto
      qed
    qed
  qed
qed

text \<open>
  A flush of a well-formed spool gives the sink, in order and once each, the readable records of
  the first lines up to one the sink refuses, the limit or the end, and then leaves exactly the other
  lines. If the file cannot be rewritten, nothing is lost: it keeps every line.\<close>

lemma spool_flush_effect:
  assumes h: "holds s rs" and lk: "lock_acquire (sp_lock s) = Inr nd"
    and e: "events_limit max_events = Inr limit"
    and f: "flush_spool works (logging sink) max_events rec (s, k, []) = (r, s', k', dl)"
  shows "\<exists>n \<le> length rs. dl = map (delivery_of rec) (readable (take n rs)) \<and> stopped limit rec sink rs n (length dl) \<and>
    (\<forall>m. limit = Some m \<longrightarrow> length dl \<le> m) \<and> sp_corrupt s' + length dl = sp_corrupt s + n \<and>
    (if works \<or> rs = [] then r = Inr (length dl) \<and> holds s' (drop n rs) else r = Inl os_error \<and> holds s' rs) \<and>
    sp_max s' = sp_max s \<and> sp_dropped s' = sp_dropped s \<and> sp_lock s' = Some nd"
proof -
  define s1 where "s1 = s\<lparr>sp_lock := Some nd\<rparr>"
  have h1: "holds s1 rs" "list_all no_breaks rs" using h by (simp_all add: s1_def holds_def)
  have rd: "with_lock read_spool s = (Inr (joined rs), s1)"
    using holds_read_spool [OF h1(1)] lk by (simp add: with_lock_def bind_p_def s1_def)
  show ?thesis
  proof (cases "rs = []")
    case True
    then have "r = Inr 0" "s' = s1" "dl = []" using f e rd by (auto simp: flush_spool_def)
    then show ?thesis using h1 True by (auto simp: stopped_def s1_def)
  next
    case False
    then have ne: "joined rs \<noteq> []" by (cases rs) auto
    have len: "\<not> sp_max s1 < length (joined rs)" using h1 by (simp add: holds_def)
    obtain rm sent bad kk lg where fl: "flush_lines limit rec (logging sink) rs 0 0 (k, []) = (rm, sent, bad, kk, lg)"
      by (metis prod_cases5)
    obtain n where n: "n \<le> length rs" "rm = drop n rs" "lg = map (delivery_of rec) (readable (take n rs))"
        "sent = length (readable (take n rs))" "bad + length (readable (take n rs)) = n"
        "stopped limit rec sink rs n sent" "\<forall>m. limit = Some m \<longrightarrow> sent \<le> m"
      using flush_lines_spec [OF fl] by auto
    define s2 where "s2 = s1\<lparr>sp_corrupt := sp_corrupt s1 + bad\<rparr>"
    have f2: "(case rewrite works (joined rm) s2 of (Inl e, s') \<Rightarrow> (Inl e, s', kk, lg) | (Inr _, s') \<Rightarrow> (Inr sent, s', kk, lg)) =
        (r, s', k', dl)"
      using f e rd ne len fl by (simp add: flush_spool_def splitlines_joined [OF h1(2)] s2_def split: prod.splits sum.splits)
    show ?thesis
    proof (cases works)
      case False
      then have "r = Inl os_error" "s' = s2" "dl = lg" using f2 by (auto simp: rewrite_def)
      then show ?thesis using n h1 False \<open>rs \<noteq> []\<close> by (intro exI [of _ n]) (auto simp: s2_def s1_def)
    next
      case True
      have d: "list_all no_breaks (drop n rs)" using h1(2) set_drop_subset [of n rs] by (auto simp: list_all_iff)
      have "joined rs = joined (take n rs) @ joined (drop n rs)"
        using joined_simps(3) [of "take n rs" "drop n rs"] by simp
      then have b: "length (joined (drop n rs)) \<le> sp_max s2" using h1 by (simp add: holds_def s2_def)
      have h2: "holds s2 rs" using h1 by (simp add: s2_def)
      note w = holds_rewrite [OF h2 d b]
      have "r = Inr sent" "s' = s2\<lparr>sp_path := Some (RegFile (joined (drop n rs)))\<rparr>" "dl = lg"
        using f2 w(1) True n(2) by auto
      then show ?thesis using n w(2) True by (intro exI [of _ n]) (auto simp: s2_def s1_def)
    qed
  qed
qed


section \<open>Any run\<close>

definition spool_lines :: "spool \<Rightarrow> bytes list" where
  "spool_lines s = (case sp_path s of Some (RegFile bs) \<Rightarrow> splitlines bs | _ \<Rightarrow> [])"

lemma holds_lines: "holds s rs \<Longrightarrow> spool_lines s = rs"
  by (auto simp: holds_def spool_lines_def splitlines_joined)

text \<open>
  Appends and flushes in any order, with what was accepted, what sinks accepted and what was
  evicted. A flush may fail to rewrite the file, the sink may refuse.
\<close>

inductive spool_run :: "spool \<Rightarrow> decoded list \<Rightarrow> delivery list \<Rightarrow> decoded list \<Rightarrow> bool" where
  started: "spool_init None None (JInt m) = Inr s \<Longrightarrow> spool_run s [] [] []"
| appended: "spool_run s acc del ev \<Longrightarrow> event_id_ok fresh \<Longrightarrow> json_rt False event \<Longrightarrow>
    spool_append fresh None event event_id s = (r, s') \<Longrightarrow>
    spool_run s' (if r = Inr True then acc @ [(Some (used_id fresh event_id), canon event, True)] else acc) del
      (if r = Inr True then ev @ readable (take (sp_dropped s' - sp_dropped s) (spool_lines s)) else ev)"
| flushed: "spool_run s acc del ev \<Longrightarrow>
    flush_spool works (logging (sink :: delivery \<Rightarrow> nat \<Rightarrow> bool \<times> nat)) max_events rec (s, k, []) = (r, s', k', dl) \<Longrightarrow>
    spool_run s' acc (del @ dl) ev"

definition sealed :: "bytes \<Rightarrow> bool" where
  "sealed r \<longleftrightarrow> (\<exists>i e. json_rt False e \<and> encode_record e (JStr i) = Inr (r @ [newline]))"

lemma sealed_decodes: "sealed r \<Longrightarrow> \<exists>i e. decode_record r = Inr (Some i, canon e, True) \<and> json_rt False e"
  using record_roundtrip by (auto simp: sealed_def)

lemma readable_length: "list_all sealed rs \<Longrightarrow> length (readable rs) = length rs"
  by (induction rs) (auto dest!: sealed_decodes)

lemma canonical_inj:
  assumes "canonical_json_bytes v = Inr b" "canonical_json_bytes w = Inr b" "json_rt False v" "json_rt False w"
  shows "canon v = canon w"
  using loads_canonical [OF assms(1,3), of "[]"] loads_canonical [OF assms(2,4), of "[]"] by simp

lemma sealed_same:
  assumes "sealed raw" "decode_record raw = Inr (Some i, ev, f)" "canonical_json_bytes ev = Inr b"
    "canonical_json_bytes event = Inr b" "json_rt False event"
  shows "decode_record raw = Inr (Some i, canon event, True)"
proof -
  obtain j e where e: "decode_record raw = Inr (Some j, canon e, True)" "json_rt False e"
    using sealed_decodes [OF assms(1)] by blast
  then have "ev = canon e" "i = j" using assms(2) by simp_all
  then show ?thesis using canonical_inj [OF _ assms(4) e(2) assms(5)] assms(3) e(1) by simp
qed

lemma readable_mem: "raw \<in> set rs \<Longrightarrow> decode_record raw = Inr d \<Longrightarrow> d \<in> set (readable rs)"
  by (induction rs) (auto split: sum.splits)

text \<open>Nothing accepted is lost, nothing is invented.\<close>

definition accounted :: "decoded list \<Rightarrow> decoded list \<Rightarrow> delivery list \<Rightarrow> decoded list \<Rightarrow> bool" where
  "accounted stored acc del ev \<longleftrightarrow>
     (\<forall>a \<in> set acc. a \<in> set stored \<or> a \<in> set ev \<or> (\<exists>b. delivery_of b a \<in> set del)) \<and>
     subseq stored acc \<and> (\<forall>d \<in> set del. \<exists>a \<in> set acc. \<exists>b. d = delivery_of b a) \<and> set ev \<subseteq> set acc"

lemma subseq_set: "subseq xs ys \<Longrightarrow> set xs \<subseteq> set ys"
  by (auto simp: subseq_conv_nths dest: in_set_nthsD)

lemma subseq_drop: "subseq xs ys \<Longrightarrow> subseq (drop k xs) ys"
  by (rule subseq_order.trans [OF suffix_imp_subseq [OF suffix_drop]])

lemma accountedD:
  assumes "accounted st acc del ev"
  shows "a \<in> set acc \<Longrightarrow> a \<in> set st \<or> a \<in> set ev \<or> (\<exists>b. delivery_of b a \<in> set del)"
    and "subseq st acc" and "set st \<subseteq> set acc" and "d \<in> set del \<Longrightarrow> \<exists>a \<in> set acc. \<exists>b. d = delivery_of b a"
    and "set ev \<subseteq> set acc"
  using assms subseq_set by (auto simp: accounted_def)

lemma take_drop_mem: "a \<in> set st \<Longrightarrow> a \<in> set (take k st) \<or> a \<in> set (drop k st)"
  by (metis append_take_drop_id Un_iff set_append)

lemma accounted_add:
  assumes "accounted st acc del ev"
  shows "accounted (drop k st @ [d]) (acc @ [d]) del (ev @ take k st)"
proof -
  note a = accountedD [OF assms]
  have "subseq (drop k st @ [d]) (acc @ [d])" using subseq_drop [OF a(2), of k] by simp
  moreover have "set (take k st) \<subseteq> set acc" using a(3) set_take_subset by fastforce
  moreover have "x \<in> set (drop k st @ [d]) \<or> x \<in> set (ev @ take k st) \<or> (\<exists>b. delivery_of b x \<in> set del)"
    if "x \<in> set (acc @ [d])" for x
    using that a(1) [of x] take_drop_mem [of x st k] by auto
  moreover have "\<exists>x \<in> set (acc @ [d]). \<exists>b. e = delivery_of b x" if "e \<in> set del" for e
    using a(4) [OF that] by auto
  ultimately show ?thesis using a(5) unfolding accounted_def by auto
qed

lemma accounted_dup:
  assumes "accounted st acc del ev" and "d \<in> set st"
  shows "accounted st (acc @ [d]) del ev"
  using accountedD [OF assms(1)] assms(2) subseq_rev_drop_many [of st acc "[d]"]
  unfolding accounted_def by fastforce

lemma accounted_keep:
  assumes "accounted st acc del ev"
  shows "accounted st acc (del @ map (delivery_of b) (take n st)) ev"
proof -
  note a = accountedD [OF assms]
  have "set (take n st) \<subseteq> set acc" using a(3) set_take_subset by fastforce
  then show ?thesis unfolding accounted_def using a(1,2,4,5) by fastforce
qed

lemma accounted_flush:
  assumes "accounted st acc del ev"
  shows "accounted (drop n st) acc (del @ map (delivery_of b) (take n st)) ev"
proof -
  note a = accountedD [OF accounted_keep [OF assms, of b n]]
  have "a \<in> set (drop n st) \<or> a \<in> set ev \<or> (\<exists>b'. delivery_of b' a \<in> set (del @ map (delivery_of b) (take n st)))"
    if "a \<in> set acc" for a
    using a(1) [OF that] take_drop_mem [of a st n] by auto
  then show ?thesis unfolding accounted_def using a(4,5) subseq_drop [OF a(2)] by blast
qed

lemma readable_take_drop:
  "list_all sealed rs \<Longrightarrow> readable (take n rs) = take n (readable rs) \<and> readable (drop n rs) = drop n (readable rs)"
proof (induction rs arbitrary: n)
  case (Cons r rs)
  then show ?case using sealed_decodes [of r] by (cases n) auto
qed simp

definition spool_invariant :: "spool \<Rightarrow> decoded list \<Rightarrow> delivery list \<Rightarrow> decoded list \<Rightarrow> bool" where
  "spool_invariant s acc del ev \<longleftrightarrow>
     (\<exists>rs. holds s rs \<and> list_all sealed rs \<and> accounted (readable rs) acc del ev) \<and>
     (\<exists>n. lock_acquire (sp_lock s) = Inr n) \<and> length ev \<le> sp_dropped s"

lemma relocked: "lock_acquire l = Inr n \<Longrightarrow> lock_acquire (Some n) = Inr n"
  by (auto simp: lock_acquire_Inr)

lemma spool_run_invariant: "spool_run s acc del ev \<Longrightarrow> spool_invariant s acc del ev"
proof (induction rule: spool_run.induct)
  case (started m s)
  then have "holds s []" "sp_lock s = None" by (auto simp: spool_init_def rbind_Inr_iff holds_def)
  then show ?case by (auto simp: spool_invariant_def accounted_def lock_acquire_def intro!: exI [of _ "[]"])
next
  case (appended s acc del ev fresh event event_id r s')
  obtain rs n where rs: "holds s rs" "list_all sealed rs" "accounted (readable rs) acc del ev"
    and n: "lock_acquire (sp_lock s) = Inr n" and d: "length ev \<le> sp_dropped s"
    using appended.IH by (auto simp: spool_invariant_def)
  let ?d = "(Some (used_id fresh event_id), canon event, True)"
  obtain out where out: "append_outcome s rs (used_id fresh event_id) event event_id out" "r = append_result out"
      "holds s' (after_append rs out)" "sp_dropped s' = sp_dropped s + append_dropped out"
      "sp_lock s' = sp_lock s \<or> sp_lock s' = Some n"
    using spool_append_effect [OF rs(1) n appended.hyps(2,4)] by blast
  have lk: "\<exists>n. lock_acquire (sp_lock s') = Inr n" using out(5) n relocked [OF n] by auto
  show ?case
  proof (cases out)
    case (Refused e)
    then show ?thesis using out rs d lk
      by (auto simp: spool_invariant_def append_result_def after_append_def append_dropped_def)
  next
    case TooLarge
    then show ?thesis using out rs d lk
      by (auto simp: spool_invariant_def append_result_def after_append_def append_dropped_def)
  next
    case Duplicate
    then obtain raw e b f where "raw \<in> set rs" "decode_record raw = Inr (Some (used_id fresh event_id), e, f)"
        "canonical_json_bytes e = Inr b" "canonical_json_bytes event = Inr b"
      using out(1) by (auto simp: append_outcome_def)
    moreover from this have "sealed raw" using rs(2) by (auto simp: list_all_iff)
    ultimately have "?d \<in> set (readable rs)"
      using sealed_same [OF _ _ _ _ appended.hyps(3)] readable_mem by blast
    then have "accounted (readable rs) (acc @ [?d]) del ev" by (rule accounted_dup [OF rs(3)])
    then show ?thesis using out Duplicate rs d lk
      by (auto simp: spool_invariant_def append_result_def after_append_def append_dropped_def)
  next
    case (Added line k)
    then have l: "encode_record event (JStr (used_id fresh event_id)) = Inr (line @ [newline])" "k \<le> length rs"
      using out(1) by (auto simp: append_outcome_def evicts_def)
    have s: "sealed line" using l(1) appended.hyps(3) by (auto simp: sealed_def)
    have dl: "readable [line] = [?d]" using record_roundtrip [OF l(1) appended.hyps(3)] by simp
    have q: "list_all sealed (drop k rs @ [line])"
      using rs(2) s set_drop_subset [of k rs] by (auto simp: list_all_iff)
    have "accounted (readable (drop k rs @ [line])) (acc @ [?d]) del (ev @ readable (take k rs))"
      using accounted_add [OF rs(3)] readable_take_drop [OF rs(2)] dl by simp
    moreover have "length (readable (take k rs)) \<le> k"
      using readable_take_drop [OF rs(2), of k] by simp
    ultimately show ?thesis using out(2-4) Added d lk q holds_lines [OF rs(1)]
      by (auto simp: spool_invariant_def append_result_def after_append_def append_dropped_def intro!: exI [of _ "drop k rs @ [line]"])
  qed
next
  case (flushed s acc del ev works sink max_events rec k r s' k' dl)
  obtain rs n where rs: "holds s rs" "list_all sealed rs" "accounted (readable rs) acc del ev"
    and n: "lock_acquire (sp_lock s) = Inr n" and d: "length ev \<le> sp_dropped s"
    using flushed.IH by (auto simp: spool_invariant_def)
  show ?case
  proof (cases "events_limit max_events")
    case (Inl e)
    then have "s' = s" "dl = []" using flushed.hyps(2) by (simp_all add: flush_spool_def)
    then show ?thesis using flushed.IH by simp
  next
    case (Inr limit)
    obtain j where j: "dl = map (delivery_of rec) (readable (take j rs))"
        "holds s' (drop j rs) \<or> holds s' rs" "sp_dropped s' = sp_dropped s" "sp_lock s' = Some n"
      using spool_flush_effect [OF rs(1) n Inr flushed.hyps(2)] by (metis (no_types))
    have "list_all sealed (drop j rs)" using rs(2) set_drop_subset [of j rs] by (auto simp: list_all_iff)
    then show ?thesis
      using j d relocked [OF n] rs accounted_flush [OF rs(3), of j rec] accounted_keep [OF rs(3), of rec j]
        readable_take_drop [OF rs(2), of j]
      by (auto simp: spool_invariant_def)
  qed
qed


section \<open>An interrupted write\<close>

lemma double_brace: "strict_parse (CHR ''{'' # CHR ''{'' # r) = None"
  by (simp add: strict_parse_def is_ws_def)

lemma torn_unreadable:
  assumes "utf8_ok (CHR ''{'' # CHR ''{'' # r)"
  shows "decode_record (CHR ''{'' # CHR ''{'' # r) = Inl (Exc ValueError ''invalid JSON'')"
proof -
  have "json_decode (CHR ''{'' # CHR ''{'' # r) = Some (CHR ''{'' # CHR ''{'' # r)"
    by (rule json_decode_ascii [OF assms]) (simp_all add: byte_of_def)
  then show ?thesis by (simp add: decode_record_def loads_raw_def strict_json_loads_def double_brace)
qed

lemma append_plain:
  assumes "lock_acquire (sp_lock s) = Inr n" "encode_record event (JStr fresh) = Inr line" "length line \<le> sp_max s"
    and "sp_path s = Some (RegFile bs) \<or> sp_path s = None \<and> bs = []" "length bs + length line \<le> sp_max s"
  shows "spool_append fresh stops event JNull s =
    (case stops of
       None \<Rightarrow> (Inr True, s\<lparr>sp_lock := Some n, sp_path := Some (RegFile (bs @ line))\<rparr>)
     | Some k \<Rightarrow> (Inl os_error, s\<lparr>sp_lock := Some n, sp_path := Some (RegFile (bs @ take k line))\<rparr>))"
proof -
  let ?s = "s\<lparr>sp_lock := Some n\<rparr>"
  have r: "read_bounded ?s = (Inr bs, ?s)"
    using assms(4,5) by (auto simp: read_bounded_def read_spool_def bind_p_def lift_r_def guard_p_def ret_def
        open_nofollow_def file_bytes_def)
  have "append_line stops line ?s =
    (case stops of None \<Rightarrow> (Inr (), ?s\<lparr>sp_path := Some (RegFile (bs @ line))\<rparr>)
     | Some k \<Rightarrow> (Inl os_error, ?s\<lparr>sp_path := Some (RegFile (bs @ take k line))\<rparr>))"
    using assms(4) by (auto simp: append_line_def split: option.splits)
  then show ?thesis
    using assms r by (auto simp: spool_append_def append_locked_def with_lock_def bind_p_def lift_r_def ret_def split: option.splits)
qed

text \<open>C40: When a write stops after its first byte, the record appended next is accepted and lost: it ends up
  on the line of the torn one, which no reader can decode. Both calls have room, and the spool was
  well-formed before.\<close>

theorem torn_append_loses_next:
  assumes h: "holds s rs" and lk: "lock_acquire (sp_lock s) = Inr n"
    and e: "encode_record e1 (JStr i) = Inr l1" "encode_record e2 (JStr j) = Inr l2"
    and room: "length (joined rs) + length l1 + length l2 \<le> sp_max s"
  shows "\<exists>s1 s2. spool_append i (Some 1) e1 JNull s = (Inl os_error, s1) \<and>
    spool_append j None e2 JNull s1 = (Inr True, s2) \<and>
    readable (spool_lines s2) = readable rs \<and> length (spool_lines s2) = length rs + 1"
proof -
  obtain r1 where r1: "l1 = r1 @ [newline]" "visible r1" "r1 = json_text False (canon (envelope i e1))"
    using e(1) by (rule record_written) auto
  obtain r2 where r2: "l2 = r2 @ [newline]" "visible r2" "r2 = json_text False (canon (envelope j e2))" "utf8_ok r2"
    using e(2) by (rule record_written) auto
  have p: "sp_path s = Some (RegFile (joined rs)) \<or> sp_path s = None \<and> joined rs = []"
    using h by (auto simp: holds_def)
  obtain t1 t2 where t: "r1 = CHR ''{'' # t1" "r2 = CHR ''{'' # t2" using r1(3) r2(3) by (simp add: canon_envelope)
  define s1 where "s1 = s\<lparr>sp_lock := Some n, sp_path := Some (RegFile (joined rs @ ''{''))\<rparr>"
  have a1: "spool_append i (Some 1) e1 JNull s = (Inl os_error, s1)"
    using append_plain [OF lk e(1) _ p, of "Some 1"] room by (simp add: s1_def r1(1) t)
  define s2 where "s2 = s1\<lparr>sp_path := Some (RegFile (joined (rs @ [CHR ''{'' # r2])))\<rparr>"
  have l1: "lock_acquire (sp_lock s1) = Inr n" using relocked [OF lk] by (simp add: s1_def)
  have p1: "sp_path s1 = Some (RegFile (joined rs @ ''{'')) \<or> sp_path s1 = None \<and> joined rs @ ''{'' = []" by (simp add: s1_def)
  have a2: "spool_append j None e2 JNull s1 = (Inr True, s2)"
    using append_plain [OF l1 e(2) _ p1, of None] room r1(1) t(1) by (simp add: s1_def s2_def r2(1))
  have nb: "list_all no_breaks (rs @ [CHR ''{'' # r2])"
    using h visible_no_breaks [OF r2(2)] by (auto simp: holds_def no_breaks_def)
  have sl: "spool_lines s2 = rs @ [CHR ''{'' # r2]"
    using splitlines_joined(1) [OF nb] by (simp add: spool_lines_def s2_def)
  have "utf8_ok (CHR ''{'' # r2)" using r2(4) by (intro utf8_ok_Cons) (simp_all add: byte_of_def)
  then have "readable [CHR ''{'' # r2] = []" using torn_unreadable by (simp add: t(2))
  then show ?thesis using a1 a2 sl by (intro exI [of _ s1] exI [of _ s2]) simp
qed

section \<open>Samples\<close>

definition sample_id :: pystr where
  "sample_id = replicate 32 (CHR ''a'')"

definition sample_spool :: spool where
  "sample_spool = \<lparr>sp_path = None, sp_lock = None, sp_max = 1024, sp_corrupt = 0, sp_dropped = 0\<rparr>"

lemma sample_id_ok: "event_id_ok sample_id"
  by (simp add: sample_id_def event_id_ok_def byte_of_def list_all_iff)

lemma sample_record: "\<exists>l. encode_record (JInt 7) (JStr sample_id) = Inr l \<and> length l = 86"
proof -
  have "utf8_ok (json_text False (canon (envelope sample_id (JInt 7))))"
    by (intro utf8_ok_json_text(1) json_utf8_canon)
       (simp add: envelope_def record_marker_def sample_id_def ascii_utf8_ok ascii_def byte_of_def list_all_iff)
  moreover have "length (json_text False (canon (envelope sample_id (JInt 7)))) = 85" by code_simp
  ultimately show ?thesis
    using sample_id_ok by (simp add: encode_record_def validate_event_id_def canonical_json_bytes_def envelope_def Let_def
        nat_str_small)
qed

theorem torn_append_loses_next_witness:
  "\<exists>s1 s2. spool_append sample_id (Some 1) (JInt 7) JNull sample_spool = (Inl os_error, s1) \<and>
    spool_append sample_id None (JInt 7) JNull s1 = (Inr True, s2) \<and> readable (spool_lines s2) = []"
proof -
  obtain l where l: "encode_record (JInt 7) (JStr sample_id) = Inr l" "length l = 86" using sample_record by blast
  have "holds sample_spool []" by (simp add: holds_def sample_spool_def)
  then show ?thesis
    using torn_append_loses_next [of sample_spool "[]" "RegFile []" "JInt 7" sample_id l "JInt 7" sample_id l] l
    by (auto simp: sample_spool_def lock_acquire_def)
qed


end
