(* ===== verification/Engine.thy ===== *)
theory Engine
  imports Deploy ProcessRunner
begin

text \<open>
  The inference engine of \<^verbatim>\<open>src/src/edgeai/engine.py\<close> with the counters of
  \<^verbatim>\<open>src/src/edgeai/observability.py\<close>, over the deployer of \<open>Deploy\<close>: validation of inputs and of
  outputs, and the two caches of the active model, one of a live runtime and one of the bytes for
  an isolated worker. Each cache is filled under the engine's lock; the question what is active comes
  before that, without it. Parameters: the conversions of NumPy, the runtimes' \<^verbatim>\<open>logits\<close>, the clock.
\<close>

section \<open>Counters\<close>

text \<open>Counts are floats that hold integers, exact up to 2 to the 53.\<close>

record metrics_store =
  counts :: "string \<rightharpoonup> nat"
  latencies :: "pyfloat list"

definition metrics_init :: metrics_store where
  "metrics_init = \<lparr>counts = Map.empty, latencies = []\<rparr>"

definition inc :: "string \<Rightarrow> nat \<Rightarrow> metrics_store \<Rightarrow> metrics_store" where
  "inc name n m = m\<lparr>counts := (counts m)(name \<mapsto> (case counts m name of None \<Rightarrow> 0 | Some k \<Rightarrow> k) + n)\<rparr>"

definition last_n :: "nat \<Rightarrow> 'x list \<Rightarrow> 'x list" where
  "last_n n xs = drop (length xs - n) xs"

definition observe_latency :: "pyfloat \<Rightarrow> metrics_store \<Rightarrow> metrics_store" where
  "observe_latency v m = m\<lparr>latencies := last_n 10000 (latencies m @ [v])\<rparr>"

text \<open>\<^verbatim>\<open>int(.95*(len(lat)-1))\<close>: the product of two floats, rounded, then truncated.\<close>

definition p95_index :: "nat \<Rightarrow> nat" where
  "p95_index n = nat \<lfloor>fl (fl (95 / 100) * of_nat (n - 1))\<rfloor>"

definition p95 :: "pyfloat list \<Rightarrow> pyfloat" where
  "p95 lat = (if lat = [] then Fin 0 else sort_key fin_val lat ! p95_index (length lat))"

definition metrics_snapshot :: "metrics_store \<Rightarrow> (string \<rightharpoonup> nat) \<times> pyfloat \<times> nat" where
  "metrics_snapshot m = (counts m, p95 (latencies m), length (latencies m))"

section \<open>The engine\<close>

record engine_limits =
  el_batch :: int
  el_input_features :: int
  el_input_values :: int
  el_output_classes :: int
  el_output_values :: int

record 'r engine =
  en_limits :: engine_limits
  en_metrics :: metrics_store
  en_active :: "('r \<times> pystr \<times> int) option"
  en_isolated :: "((bytes \<times> pystr \<times> pystr) \<times> pystr \<times> int) option"

definition engine_limit :: "string \<Rightarrow> json \<Rightarrow> int res" where
  "engine_limit name v =
     rbind (of_opt (Exc ValueError (name @ '' must be a positive integer'')) (as_int v)) (\<lambda>i.
     rbind (guard_r (1 \<le> i) (Exc ValueError (name @ '' must be a positive integer''))) (\<lambda>_. Inr i))"

definition engine_init :: "json \<Rightarrow> json \<Rightarrow> json \<Rightarrow> json \<Rightarrow> json \<Rightarrow> 'r engine res" where
  "engine_init batch features inputs classes outputs =
     rbind (engine_limit ''max_batch'' batch) (\<lambda>b.
     rbind (engine_limit ''max_input_features'' features) (\<lambda>f.
     rbind (engine_limit ''max_input_values'' inputs) (\<lambda>i.
     rbind (engine_limit ''max_output_classes'' classes) (\<lambda>c.
     rbind (engine_limit ''max_output_values'' outputs) (\<lambda>o'.
     Inr \<lparr>en_limits = \<lparr>el_batch = b, el_input_features = f, el_input_values = i, el_output_classes = c,
            el_output_values = o'\<rparr>,
          en_metrics = metrics_init, en_active = None, en_isolated = None\<rparr>)))))"

definition isolation_limits :: "engine_limits \<Rightarrow> ('a, 'r) env \<Rightarrow> ipc_limits" where
  "isolation_limits l E =
     \<lparr>max_batch = el_batch l, max_input_features = el_input_features l, max_input_values = el_input_values l,
      max_output_classes = el_output_classes l, max_output_values = el_output_values l,
      max_model_transfer_bytes = Deploy.max_model_bytes E\<rparr>"

section \<open>Inputs and outputs\<close>

definition validated_array :: "engine_limits \<Rightarrow> ('x \<Rightarrow> f32_array res) \<Rightarrow> 'x \<Rightarrow> f32_array res" where
  "validated_array l to_f32 x =
     rbind (except_r [TypeError, ValueError, OverflowErr]
              (\<lambda>_. VE ''input must be a rectangular numeric rank-2 array'') (to_f32 x)) (\<lambda>a.
     rbind (guard_r (length (arr_shape a) = 2) (VE ''input must be rank-2'')) (\<lambda>_.
     rbind (guard_r (1 \<le> dim a 0 \<and> dim a 0 \<le> el_batch l) (VE ''batch outside configured bounds'')) (\<lambda>_.
     rbind (guard_r (1 \<le> dim a 1 \<and> dim a 1 \<le> el_input_features l)
              (VE ''feature count outside configured bounds'')) (\<lambda>_.
     rbind (guard_r (int (prod_list (arr_shape a)) \<le> el_input_values l)
              (VE ''input element count outside configured bounds'')) (\<lambda>_.
     rbind (guard_r (all_f32_finite a) (VE ''input contains non-finite values'')) (\<lambda>_.
     Inr a))))))"

definition validated_logits :: "engine_limits \<Rightarrow> ('l \<Rightarrow> nd_array res) \<Rightarrow> 'l \<Rightarrow> int \<Rightarrow> f32_array res" where
  "validated_logits l asarray logits batch_size =
     rbind (except_r [TypeError, ValueError, OverflowErr]
              (\<lambda>_. VE ''runtime output must be a numeric rank-2 array'') (asarray logits)) (\<lambda>raw.
     rbind (guard_r (length (nd_shape raw) = 2) (VE ''runtime output must be rank-2'')) (\<lambda>_.
     rbind (guard_r (int (nd_shape raw ! 0) = batch_size) (VE ''runtime output batch dimension mismatch'')) (\<lambda>_.
     rbind (guard_r (1 \<le> int (nd_shape raw ! 1) \<and> int (nd_shape raw ! 1) \<le> el_output_classes l)
              (VE ''runtime output class count outside configured bounds'')) (\<lambda>_.
     rbind (guard_r (int (prod_list (nd_shape raw)) \<le> el_output_values l)
              (VE ''runtime output element count outside configured bounds'')) (\<lambda>_.
     rbind (guard_r (nd_number raw) (VE ''runtime output must be numeric'')) (\<lambda>_.
     rbind (except_r [TypeError, ValueError, OverflowErr]
              (\<lambda>_. VE ''runtime output cannot be represented as float32'') (nd_f32 raw)) (\<lambda>normalized.
     rbind (guard_r (all_f32_finite normalized) (VE ''runtime produced non-finite output'')) (\<lambda>_.
     Inr normalized))))))))"

text \<open>\<^verbatim>\<open>argmax(1)\<close>: the order of finite floats is that of their signed magnitudes.\<close>

definition f32_key :: "32 word \<Rightarrow> int" where
  "f32_key w = (if 2 ^ 31 \<le> uint w then 2 ^ 31 - uint w else uint w)"

fun argmax_from :: "nat \<Rightarrow> nat \<Rightarrow> 32 word \<Rightarrow> 32 word list \<Rightarrow> nat" where
  "argmax_from i best w [] = best"
| "argmax_from i best w (x # xs) =
     (if f32_key w < f32_key x then argmax_from (i + 1) i x xs else argmax_from (i + 1) best w xs)"

definition argmax_row :: "32 word list \<Rightarrow> nat" where
  "argmax_row xs = (case xs of [] \<Rightarrow> 0 | x # r \<Rightarrow> argmax_from 1 0 x r)"

fun rows_of :: "nat \<Rightarrow> nat \<Rightarrow> 'x list \<Rightarrow> 'x list list" where
  "rows_of 0 c xs = []"
| "rows_of (Suc n) c xs = take c xs # rows_of n c (drop c xs)"

definition argmax1 :: "f32_array \<Rightarrow> nat list" where
  "argmax1 a = map argmax_row (rows_of (arr_shape a ! 0) (arr_shape a ! 1) (arr_data a))"

section \<open>The active model\<close>

definition on_deployer :: "('d, 'x) prog \<Rightarrow> ('d \<times> 'e, 'x) prog" where
  "on_deployer p s = (case s of (d, e) \<Rightarrow> (case p d of (r, d') \<Rightarrow> (r, d', e)))"

definition no_active :: exc where
  "no_active = Exc DeploymentError ''no active model''"

text \<open>What is active, asked before the engine's lock is taken.\<close>

definition ask_identity :: "('a, 'r) env \<Rightarrow> ('a deployer \<times> 'r engine, int \<times> pystr) prog" where
  "ask_identity E =
     bind_p (on_deployer (active_identity E)) (\<lambda>(g, v).
     case v of None \<Rightarrow> raise_e no_active | Some v \<Rightarrow> ret (g, v))"

text \<open>Under the lock: the cached model if it is the one asked for, else a fresh one.\<close>

definition lookup_active ::
  "('a, 'r) env \<Rightarrow> int \<Rightarrow> pystr \<Rightarrow> ('a deployer \<times> 'r engine, 'r \<times> pystr \<times> int) prog" where
  "lookup_active E g v s =
     (case en_active (snd s) of
        Some (rt, cv, cg) \<Rightarrow>
          if g \<noteq> cg \<or> v \<noteq> cv
          then bind_p (on_deployer (active_snapshot E)) (\<lambda>y (d, e). (Inr y, d, e\<lparr>en_active := Some y\<rparr>)) s
          else (Inr (rt, cv, cg), s)
      | None \<Rightarrow> bind_p (on_deployer (active_snapshot E)) (\<lambda>y (d, e). (Inr y, d, e\<lparr>en_active := Some y\<rparr>)) s)"

definition engine_active :: "('a, 'r) env \<Rightarrow> ('a deployer \<times> 'r engine, 'r \<times> pystr \<times> int) prog" where
  "engine_active E = bind_p (ask_identity E) (\<lambda>(g, v). lookup_active E g v)"

text \<open>The bytes, the kind and the ABI, with the version and the generation.\<close>

definition artifact_refill ::
  "('a, 'r) env \<Rightarrow> ('a deployer, (bytes \<times> pystr \<times> pystr) \<times> pystr \<times> int) prog" where
  "artifact_refill E =
     bind_p (active_artifact_snapshot E) (\<lambda>(raw, m, g).
     ret ((raw, model_kind m, runtime_abi m), version m, g))"

definition lookup_isolated ::
  "('a, 'r) env \<Rightarrow> int \<Rightarrow> pystr \<Rightarrow> ('a deployer \<times> 'r engine, (bytes \<times> pystr \<times> pystr) \<times> pystr \<times> int) prog" where
  "lookup_isolated E g v s =
     (case en_isolated (snd s) of
        Some (a, cv, cg) \<Rightarrow>
          if g \<noteq> cg \<or> v \<noteq> cv
          then bind_p (on_deployer (artifact_refill E)) (\<lambda>y (d, e). (Inr y, d, e\<lparr>en_isolated := Some y\<rparr>)) s
          else (Inr (a, cv, cg), s)
      | None \<Rightarrow> bind_p (on_deployer (artifact_refill E)) (\<lambda>y (d, e). (Inr y, d, e\<lparr>en_isolated := Some y\<rparr>)) s)"

text \<open>The snapshot, as the part of \<open>prepared\<close> that is not the input.\<close>

definition with_inputs ::
  "('a, 'r) env \<Rightarrow> (bytes \<times> pystr \<times> pystr) \<times> pystr \<times> int \<Rightarrow> f32_array \<Rightarrow> prepared" where
  "with_inputs E y a =
     (case y of ((model, kind, abi), v, g) \<Rightarrow>
        \<lparr>p_generation = g, p_model_bytes = model, p_model_kind = kind, p_runtime_abi = abi,
         p_max_uncompressed_bytes = Deploy.max_model_bytes E, p_inputs = a\<rparr>)"

definition isolated_runtime_snapshot ::
  "('a, 'r) env \<Rightarrow> ('a deployer \<times> 'r engine, (bytes \<times> pystr \<times> pystr) \<times> pystr \<times> int) prog" where
  "isolated_runtime_snapshot E = bind_p (ask_identity E) (\<lambda>(g, v). lookup_isolated E g v)"

section \<open>Predicting\<close>

definition prepare ::
  "('a, 'r) env \<Rightarrow> ('x \<Rightarrow> f32_array res) \<Rightarrow> 'x \<Rightarrow> ('a deployer \<times> 'r engine, f32_array \<times> 'r \<times> pystr \<times> int) prog" where
  "prepare E to_f32 x =
     bind_p (lift_r (\<lambda>s. validated_array (en_limits (snd s)) to_f32 x)) (\<lambda>a.
     bind_p (engine_active E) (\<lambda>(rt, v, g). ret (a, rt, v, g)))"

definition prepare_isolated ::
  "('a, 'r) env \<Rightarrow> ('x \<Rightarrow> f32_array res) \<Rightarrow> 'x \<Rightarrow> ('a deployer \<times> 'r engine, prepared \<times> pystr) prog" where
  "prepare_isolated E to_f32 x =
     bind_p (lift_r (\<lambda>s. validated_array (en_limits (snd s)) to_f32 x)) (\<lambda>a.
     bind_p (isolated_runtime_snapshot E) (\<lambda>y. ret (with_inputs E y a, fst (snd y))))"

definition on_metrics :: "(metrics_store \<Rightarrow> metrics_store) \<Rightarrow> 'r engine \<Rightarrow> 'r engine" where
  "on_metrics f e = e\<lparr>en_metrics := f (en_metrics e)\<rparr>"

definition engine_complete ::
  "('l \<Rightarrow> nd_array res) \<Rightarrow> f32_array \<Rightarrow> pystr \<Rightarrow> 'l \<Rightarrow> ('r engine, nat list \<times> f32_array \<times> pystr) prog" where
  "engine_complete asarray inputs v logits =
     bind_p (lift_r (\<lambda>e. validated_logits (en_limits e) asarray logits (dim inputs 0))) (\<lambda>validated e.
     (Inr (argmax1 validated, validated, v),
      on_metrics (inc ''inference_examples_total'' (nat (dim inputs 0)) \<circ> inc ''inference_requests_total'' 1) e))"

text \<open>\<^verbatim>\<open>except Exception: record_failure(); raise\<close> and \<^verbatim>\<open>finally: observe_latency_ms\<close>.\<close>

definition measured_run :: "pyfloat \<Rightarrow> ('r engine, 'x) prog \<Rightarrow> ('r engine, 'x) prog" where
  "measured_run ms p e =
     (case p e of
        (Inl x, e') \<Rightarrow> (Inl x, on_metrics (observe_latency ms \<circ> inc ''inference_errors_total'' 1) e')
      | (Inr y, e') \<Rightarrow> (Inr y, on_metrics (observe_latency ms) e'))"

definition engine_predict ::
  "('a, 'r) env \<Rightarrow> ('x \<Rightarrow> f32_array res) \<Rightarrow> ('r \<Rightarrow> f32_array \<Rightarrow> 'l res) \<Rightarrow> ('l \<Rightarrow> nd_array res) \<Rightarrow> pyfloat \<Rightarrow> 'x \<Rightarrow>
   ('a deployer \<times> 'r engine, nat list \<times> f32_array \<times> pystr) prog" where
  "engine_predict E to_f32 infer asarray ms x =
     bind_p (prepare E to_f32 x) (\<lambda>(a, rt, v, g) (d, e).
     (case measured_run ms (bind_p (lift_r (\<lambda>_. infer rt a)) (engine_complete asarray a v)) e of (r, e') \<Rightarrow> (r, d, e')))"

text \<open>\<^verbatim>\<open>_process_predict\<close> of the executor: the same with a worker process.\<close>

definition process_predict ::
  "('a, 'r) env \<Rightarrow> ('x \<Rightarrow> f32_array res) \<Rightarrow> 'c host \<Rightarrow> pyfloat \<Rightarrow> pyfloat \<Rightarrow> 'x \<Rightarrow>
   (('a deployer \<times> 'r engine) \<times> 'c runner, nat list \<times> f32_array \<times> pystr) prog" where
  "process_predict E to_f32 h now ms x =
     bind_p (on_deployer (prepare_isolated E to_f32 x)) (\<lambda>(p, v) ((d, e), c).
     (case runner_execute h now p (isolation_limits (en_limits e) E) c of
        (r, c') \<Rightarrow>
          (case measured_run ms (bind_p (lift_r (\<lambda>_. r))
                  (engine_complete (\<lambda>a. Inr \<lparr>nd_shape = arr_shape a, nd_number = True, nd_f32 = Inr a\<rparr>) (p_inputs p) v)) e
           of (q, e') \<Rightarrow> (q, (d, e'), c'))))"

definition engine_readiness ::
  "('a, 'r) env \<Rightarrow> ('a deployer, bool \<times> pystr option \<times> deployment_state) prog" where
  "engine_readiness E =
     bind_p (active_version E) (\<lambda>v.
     bind_p (read_state E True) (\<lambda>st. ret (v \<noteq> None, v, st)))"

end
