(* ===== verification/EngineCache.thy ===== *)
theory EngineCache
  imports Engine
begin

text \<open>
  The engine's caches: that concurrent calls get what the deployer authenticated, and that a snapshot
  is what an uncached read would have given.
\<close>

section \<open>A cache keyed by generation and version\<close>

text \<open>
  A call first asks for the identity of what is active and then looks the value up. Between the two,
  and between calls, the store behind the cache may change in any way. A call knows the length of the
  history when it asked. The history has the latest state first.
\<close>

datatype 'v call = Idle | Asked int pystr nat | Answered int pystr nat "'v \<times> pystr \<times> int"

inductive cache_run ::
  "('d, int \<times> pystr option) prog \<Rightarrow> (int \<Rightarrow> pystr \<Rightarrow> ('d \<times> 'e, 'v \<times> pystr \<times> int) prog) \<Rightarrow> 'e \<Rightarrow>
   'd list \<Rightarrow> 'e \<Rightarrow> (nat \<Rightarrow> 'v call) \<Rightarrow> bool"
  for identity lookup e0 where
  begins: "cache_run identity lookup e0 [d] e0 (\<lambda>_. Idle)"
| changes: "cache_run identity lookup e0 ds e calls \<Longrightarrow> cache_run identity lookup e0 (d' # ds) e calls"
| asks: "cache_run identity lookup e0 (d # ds) e calls \<Longrightarrow> identity d = (Inr (g, Some v), d') \<Longrightarrow>
    cache_run identity lookup e0 (d' # d # ds) e (calls(i := Asked g v (length ds)))"
| gets: "cache_run identity lookup e0 (d # ds) e calls \<Longrightarrow> calls i = Asked g v n \<Longrightarrow>
    lookup g v (d, e) = (Inr y, d', e') \<Longrightarrow>
    cache_run identity lookup e0 (d' # d # ds) e' (calls(i := Answered g v n y))"
| fails: "cache_run identity lookup e0 (d # ds) e calls \<Longrightarrow> calls i = Asked g v n \<Longrightarrow>
    lookup g v (d, e) = (Inl x, d', e') \<Longrightarrow> cache_run identity lookup e0 (d' # d # ds) e' (calls(i := Idle))"

text \<open>
  Right answers: what the store gave at some moment, and either under the generation and version
  that the call was told, or since it asked. The moment it asked is still in the history.
\<close>

definition given :: "('d, 'v \<times> pystr \<times> int) prog \<Rightarrow> 'v \<times> pystr \<times> int \<Rightarrow> 'd list \<Rightarrow> bool" where
  "given refill y ds \<longleftrightarrow> (\<exists>d \<in> set ds. fst (refill d) = Inr y)"

definition call_right ::
  "('d, int \<times> pystr option) prog \<Rightarrow> ('d, 'v \<times> pystr \<times> int) prog \<Rightarrow> 'd list \<Rightarrow> 'v call \<Rightarrow> bool" where
  "call_right identity refill ds c \<longleftrightarrow>
     (case c of
        Idle \<Rightarrow> True
      | Asked g v n \<Rightarrow> n < length ds \<and> fst (identity (rev ds ! n)) = Inr (g, Some v)
      | Answered g v n (x, v', g') \<Rightarrow>
          n < length ds \<and> fst (identity (rev ds ! n)) = Inr (g, Some v) \<and> given refill (x, v', g') ds \<and>
          (g' = g \<and> v' = v \<or> given refill (x, v', g') (take (length ds - n) ds)))"

locale generation_cache =
  fixes refill :: "('d, 'v \<times> pystr \<times> int) prog"
    and lookup :: "int \<Rightarrow> pystr \<Rightarrow> ('d \<times> 'e, 'v \<times> pystr \<times> int) prog"
    and cached :: "'e \<Rightarrow> ('v \<times> pystr \<times> int) option"
  assumes hit: "cached e = Some (x, v, g) \<Longrightarrow> lookup g v (d, e) = (Inr (x, v, g), d, e)"
    and miss: "(\<forall>x. cached e \<noteq> Some (x, v, g)) \<Longrightarrow> refill d = (Inr y, d') \<Longrightarrow>
      \<exists>e'. lookup g v (d, e) = (Inr y, d', e') \<and> cached e' = Some y"
    and miss_fails: "(\<forall>x. cached e \<noteq> Some (x, v, g)) \<Longrightarrow> refill d = (Inl z, d') \<Longrightarrow>
      lookup g v (d, e) = (Inl z, d', e)"
begin

lemma lookup_cases:
  assumes "lookup g v (d, e) = (r, d', e')"
  obtains (found) x where "cached e = Some (x, v, g)" "r = Inr (x, v, g)" "d' = d" "e' = e"
  | (fresh) y where "\<forall>x. cached e \<noteq> Some (x, v, g)" "fst (refill d) = Inr y" "r = Inr y" "cached e' = Some y"
  | (failed) z where "\<forall>x. cached e \<noteq> Some (x, v, g)" "fst (refill d) = Inl z" "r = Inl z" "e' = e"
proof (cases "\<exists>x. cached e = Some (x, v, g)")
  case True
  then obtain x where x: "cached e = Some (x, v, g)" by blast
  show ?thesis using that(1) [OF x] hit [OF x, of d] assms by auto
next
  case False
  obtain q d1 where q: "refill d = (q, d1)" by fastforce
  show ?thesis
  proof (cases q)
    case (Inl z)
    have "lookup g v (d, e) = (Inl z, d1, e)" by (rule miss_fails) (use False q Inl in auto)
    then show ?thesis using that(3) [of z] False q assms Inl by auto
  next
    case (Inr y)
    then obtain e1 where "lookup g v (d, e) = (Inr y, d1, e1)" "cached e1 = Some y"
      using miss False q by blast
    then show ?thesis using that(2) [of y] False q assms Inr by auto
  qed
qed

lemma transparent:
  assumes "\<And>x. cached e = Some (x, v, g) \<Longrightarrow> fst (refill d) = Inr (x, v, g)"
  shows "fst (lookup g v (d, e)) = fst (refill d)"
proof -
  obtain r d' e' where l: "lookup g v (d, e) = (r, d', e')" by (metis prod_cases3)
  then show ?thesis using assms by (cases rule: lookup_cases [OF l]) simp_all
qed

lemma given_more: "given refill y ds \<Longrightarrow> given refill y (d # ds)"
  by (auto simp: given_def)

lemma call_right_more:
  assumes "call_right identity refill ds c"
  shows "call_right identity refill (d # ds) c"
proof (cases c)
  case (Answered g v n y)
  obtain x v' g' where y: "y = (x, v', g')" by (cases y)
  have n: "n < length ds" using assms Answered y by (simp add: call_right_def)
  then have "take (length (d # ds) - n) (d # ds) = d # take (length ds - n) ds" by (simp add: Suc_diff_le)
  then show ?thesis using assms Answered y n given_more [of "(x, v', g')"]
    by (auto simp: call_right_def nth_append)
qed (use assms in \<open>auto simp: call_right_def nth_append\<close>)

lemma run_right:
  assumes "cache_run identity lookup e0 ds e calls" and "cached e0 = None"
  shows "ds \<noteq> [] \<and> (\<forall>y. cached e = Some y \<longrightarrow> given refill y ds) \<and> (\<forall>i. call_right identity refill ds (calls i))"
  using assms(1)
proof induction
  case (begins d)
  then show ?case using assms(2) by (simp add: call_right_def)
next
  case (changes ds e calls d')
  then show ?case using given_more call_right_more by blast
next
  case (asks d ds e calls g v d' i)
  have "call_right identity refill (d' # d # ds) (Asked g v (length ds))"
    using asks.hyps(2) by (simp add: call_right_def nth_append)
  then show ?case using asks.IH given_more call_right_more by auto
next
  case (gets d ds e calls i g v n y d' e')
  have c: "call_right identity refill (d # ds) (Asked g v n)" using gets.IH gets.hyps(2) by metis
  have g: "\<forall>z. cached e' = Some z \<longrightarrow> given refill z (d # ds)" "given refill y (d # ds)"
      "snd y = (v, g) \<or> fst (refill d) = Inr y"
    using gets.IH by (cases rule: lookup_cases [OF gets.hyps(3)]; auto simp: given_def)+
  obtain x v' g' where y: "y = (x, v', g')" by (cases y)
  have n: "n < length (d # ds)" using c by (simp add: call_right_def)
  then have "take (length (d # ds) - n) (d # ds) = d # take (length ds - n) ds" by (cases "n = length (d # ds)") (simp_all add: Suc_diff_le)
  then have "call_right identity refill (d # ds) (Answered g v n y)"
    using c g y by (auto simp: call_right_def given_def)
  then show ?case using gets.IH g(1) given_more call_right_more by auto
next
  case (fails d ds e calls i g v n x d' e')
  have "cached e' = cached e" by (cases rule: lookup_cases [OF fails.hyps(3)]) simp_all
  then show ?case using fails.IH given_more call_right_more by (auto simp: call_right_def)
qed

end

lemma on_deployer_run: "p d = (r, d') \<Longrightarrow> on_deployer p (d, e) = (r, d', e)"
  by (simp add: on_deployer_def)

interpretation runtime_cache: generation_cache "active_snapshot E" "lookup_active E" en_active for E
proof
  fix e :: "'b engine" and v g d y d' and z :: exc
  assume m: "\<forall>x. en_active e \<noteq> Some (x, v, g)"
  have l: "lookup_active E g v (d, e) =
      bind_p (on_deployer (active_snapshot E)) (\<lambda>y (d, e). (Inr y, d, e\<lparr>en_active := Some y\<rparr>)) (d, e)"
    using m by (auto simp: lookup_active_def split: option.splits)
  show "active_snapshot E d = (Inr y, d') \<Longrightarrow> \<exists>e'. lookup_active E g v (d, e) = (Inr y, d', e') \<and> en_active e' = Some y"
    by (simp add: l bind_p_def on_deployer_def)
  show "active_snapshot E d = (Inl z, d') \<Longrightarrow> lookup_active E g v (d, e) = (Inl z, d', e)"
    by (simp add: l bind_p_def on_deployer_def)
qed (simp add: lookup_active_def)

interpretation artifact_cache: generation_cache "artifact_refill E" "lookup_isolated E" en_isolated for E
proof
  fix e :: "'b engine" and v g d y d' and z :: exc
  assume m: "\<forall>x. en_isolated e \<noteq> Some (x, v, g)"
  have l: "lookup_isolated E g v (d, e) =
      bind_p (on_deployer (artifact_refill E)) (\<lambda>y (d, e). (Inr y, d, e\<lparr>en_isolated := Some y\<rparr>)) (d, e)"
    using m by (auto simp: lookup_isolated_def split: option.splits)
  show "artifact_refill E d = (Inr y, d') \<Longrightarrow> \<exists>e'. lookup_isolated E g v (d, e) = (Inr y, d', e') \<and> en_isolated e' = Some y"
    by (simp add: l bind_p_def on_deployer_def)
  show "artifact_refill E d = (Inl z, d') \<Longrightarrow> lookup_isolated E g v (d, e) = (Inl z, d', e)"
    by (simp add: l bind_p_def on_deployer_def)
qed (simp add: lookup_isolated_def)

section \<open>Reading the deployer\<close>

definition committed_state :: "'a deployer \<Rightarrow> deployment_state res" where
  "committed_state d =
     (if path_exists (nodes (dur d) StateFile) then state_of_node (nodes (dur d) StateFile) else Inr initial_state)"

text \<open>Reading changes the lock file at most.\<close>

definition same_disk :: "'a deployer \<Rightarrow> 'a deployer \<Rightarrow> bool" where
  "same_disk d d' \<longleftrightarrow> (\<forall>c. c \<noteq> LockFile \<longrightarrow> nodes (dur d') c = nodes (dur d) c) \<and> reg (dur d') = reg (dur d)"

lemma same_disk_refl [simp]: "same_disk d d"
  by (simp add: same_disk_def)

lemma same_disk_trans: "same_disk d d' \<Longrightarrow> same_disk d' d'' \<Longrightarrow> same_disk d d''"
  by (simp add: same_disk_def)

lemma same_disk_state: "same_disk d d' \<Longrightarrow> committed_state d' = committed_state d"
  by (simp add: same_disk_def committed_state_def)

lemma read_anchor_floor_disk: "read_anchor_floor E d = (r, d') \<Longrightarrow> same_disk d d'"
  by (auto simp: read_anchor_floor_def catch_p_def bind_p_def anchor_p_def lift_r_def raise_e_def commit_durable_def
      same_disk_def split: option.splits sum.splits prod.splits)

lemma validate_state_anchor_disk: "validate_state_anchor E st d = (r, d') \<Longrightarrow> same_disk d d'"
  by (auto simp: validate_state_anchor_def bind_p_def gets_p_def ret_def guard_p_def node_p_def modify_p_def same_disk_def
      split: option.splits sum.splits prod.splits if_splits dest!: read_anchor_floor_disk)

lemma read_state_disk:
  assumes "read_state E True d = (r, d')"
  shows "same_disk d d'" and "r = Inr st \<Longrightarrow> committed_state d = Inr st"
proof -
  have "same_disk d d' \<and> (r = Inr st \<longrightarrow> committed_state d = Inr st)"
    using assms
    by (auto simp: read_state_def bind_p_def node_p_def gets_p_def guard_p_def lift_r_def ret_def committed_state_def
        split: sum.splits prod.splits if_splits dest: validate_state_anchor_disk)
  then show "same_disk d d'" "r = Inr st \<Longrightarrow> committed_state d = Inr st" by blast+
qed

lemma active_identity_read:
  assumes "active_identity E d = (Inr (g, v), d')"
  obtains st where "committed_state d = Inr st" "g = generation st"
    "v = (case active_slot st of None \<Rightarrow> None | Some a \<Rightarrow> slots st a)" "same_disk d d'"
proof -
  obtain r d1 where r: "read_state E True d = (r, d1)" by fastforce
  then obtain st where "r = Inr st" using assms by (cases r) (auto simp: active_identity_def bind_p_def)
  then show ?thesis
    using that [of st] assms r read_state_disk [OF r] by (simp add: active_identity_def bind_p_def ret_def)
qed

text \<open>What the active slot holds, authenticated.\<close>

definition serving :: "('a, 'r) env \<Rightarrow> 'a deployer \<Rightarrow> bytes \<Rightarrow> artifact_manifest \<Rightarrow> int \<Rightarrow> bool" where
  "serving E d raw m g \<longleftrightarrow>
     (\<exists>st sl. committed_state d = Inr st \<and> active_version_is st sl (version m) \<and> g = generation st \<and>
        verified_slot_artifact E (reg (dur d)) (nodes (dur d) (SlotDir sl)) (version m) = Inr (raw, m))"

lemma serving_disk: "same_disk d d' \<Longrightarrow> serving E d' raw m g = serving E d raw m g"
  using same_disk_state [of d d'] by (simp add: serving_def same_disk_def)

lemma verified_artifact_version: "verified_slot_artifact E r n v = Inr (raw, m) \<Longrightarrow> version m = v"
  by (auto simp: verified_slot_artifact_def rbind_Inr_iff open_verified_model_Inr Let_def)

lemma artifact_snapshot_serving:
  assumes "active_artifact_snapshot E d = (Inr (raw, m, g), d')"
  shows "serving E d raw m g" and "same_disk d d'"
proof -
  obtain n where n: "lock_acquire (nodes (dur d) LockFile) = Inr n"
    using assms by (auto simp: active_artifact_snapshot_def deploy_locked_def bind_p_def lift_r_def
        split: sum.splits)
  define d1 where "d1 = commit_durable (set_node LockFile (Some n) (dur d)) d"
  have s1: "same_disk d d1" by (simp add: d1_def same_disk_def commit_durable_def set_node_def)
  obtain r d2 where r: "read_state E True d1 = (r, d2)" by fastforce
  have run: "bind_p (read_state E True) (\<lambda>st.
       bind_p (lift_r (\<lambda>_. active_slot_version st)) (\<lambda>(a, v).
       bind_p (on_slot (\<lambda>r n. verified_slot_artifact E r n v) a) (\<lambda>(raw, m). ret (raw, m, generation st)))) d1 =
      (Inr (raw, m, g), d')"
    using assms n by (simp add: active_artifact_snapshot_def deploy_locked_def bind_p_def [of "lift_r _"]
        bind_p_def [of "modify_p _"] lift_r_def modify_p_def d1_def)
  then obtain st where st: "r = Inr st" using r by (cases r) (auto simp: bind_p_def)
  note rd = read_state_disk [OF r]
  have "\<exists>sl v. active_slot_version st = Inr (sl, v) \<and>
      verified_slot_artifact E (reg (dur d2)) (nodes (dur d2) (SlotDir sl)) v = Inr (raw, m) \<and> g = generation st \<and> d' = d2"
    using run r st by (auto simp: bind_p_def lift_r_def on_slot_def ret_def split: sum.splits prod.splits)
  then obtain sl v where v: "active_slot_version st = Inr (sl, v)" "g = generation st" "d' = d2"
      "verified_slot_artifact E (reg (dur d2)) (nodes (dur d2) (SlotDir sl)) v = Inr (raw, m)"
    by blast
  have "active_version_is st sl v"
    using v(1) by (auto simp: active_slot_version_def active_version_is_def split: option.splits)
  then have "serving E d2 raw m g"
    using v verified_artifact_version [OF v(4)] rd(2) [OF st] same_disk_state [OF rd(1)] by (auto simp: serving_def)
  moreover have s2: "same_disk d d2" by (rule same_disk_trans [OF s1 rd(1)])
  ultimately show "serving E d raw m g" "same_disk d d'" using serving_disk [OF s2, of E raw m g] v(3) by simp_all
qed

lemma artifact_refill_serving:
  assumes "artifact_refill E d = (Inr y, d')"
  obtains raw m g where "y = ((raw, model_kind m, runtime_abi m), version m, g)" "serving E d raw m g" "same_disk d d'"
proof -
  obtain r d1 where r: "active_artifact_snapshot E d = (r, d1)" by fastforce
  then obtain q where q: "r = Inr q" using assms by (cases r) (auto simp: artifact_refill_def bind_p_def)
  obtain raw m g where "q = (raw, m, g)" by (cases q)
  then show ?thesis
    using that [of raw m g] assms r q artifact_snapshot_serving [of E d raw m g d1]
    by (simp add: artifact_refill_def bind_p_def ret_def)
qed

section \<open>What a snapshot is\<close>

text \<open>A cached artifact under the current generation and version is the one that is served.\<close>

definition coherent :: "('a, 'r) env \<Rightarrow> 'a deployer \<Rightarrow> 'r engine \<Rightarrow> bool" where
  "coherent E d e \<longleftrightarrow>
     (\<forall>a v g st. en_isolated e = Some (a, v, g) \<and> committed_state d = Inr st \<and> generation st = g \<longrightarrow>
        (\<exists>raw m. serving E d raw m g \<and> version m = v \<and> a = (raw, model_kind m, runtime_abi m)))"

lemma coherent_empty: "en_isolated e = None \<Longrightarrow> coherent E d e"
  by (simp add: coherent_def)

text \<open>A deployment or a rollback raises the generation above every cached one.\<close>

lemma coherent_newer:
  assumes "committed_state d = Inr st" "\<forall>a v g. en_isolated e = Some (a, v, g) \<longrightarrow> g < generation st"
  shows "coherent E d e"
  using assms by (fastforce simp: coherent_def)

lemma snapshot_exact:
  assumes c: "coherent E d e" and r: "isolated_runtime_snapshot E (d, e) = (Inr y, d', e')"
  obtains raw m g where "y = ((raw, model_kind m, runtime_abi m), version m, g)" "serving E d raw m g"
    "same_disk d d'" "en_isolated e' = Some y" "coherent E d' e'" "en_limits e' = en_limits e"
proof -
  obtain q d1 where q: "active_identity E d = (q, d1)" by fastforce
  obtain g v where gv: "q = Inr (g, Some v)" and lk: "lookup_isolated E g v (d1, e) = (Inr y, d', e')"
    using r q by (cases q) (auto simp: isolated_runtime_snapshot_def ask_identity_def bind_p_def on_deployer_def
        ret_def raise_e_def split: prod.splits option.splits)
  obtain st where st: "committed_state d = Inr st" "g = generation st"
      "Some v = (case active_slot st of None \<Rightarrow> None | Some a \<Rightarrow> slots st a)" "same_disk d d1"
    by (rule active_identity_read [OF q [unfolded gv]])
  have keep: "en_limits e' = en_limits e"
    using lk by (auto simp: lookup_isolated_def bind_p_def split: option.splits if_splits sum.splits prod.splits
        simp: on_deployer_def)
  have fin: "coherent E d' e'" if "serving E d raw m k" "same_disk d d'" "en_isolated e' = Some y"
      "y = ((raw, model_kind m, runtime_abi m), version m, k)" for raw m k
    using that serving_disk [OF that(2), of E raw m k] by (auto simp: coherent_def)
  show ?thesis
  proof (cases rule: artifact_cache.lookup_cases [OF lk])
    case (1 x)
    then obtain raw m where "serving E d raw m g" "version m = v" "x = (raw, model_kind m, runtime_abi m)"
      using c st by (auto simp: coherent_def)
    then show ?thesis using that [of raw m g] 1 st(4) fin [of raw m g] keep by simp
  next
    case (2 z)
    obtain d2 where rf: "artifact_refill E d1 = (Inr z, d2)" using 2 by (metis prod.collapse)
    then have d2: "d' = d2" using lk 2(1) by (auto simp: lookup_isolated_def bind_p_def on_deployer_def split: option.splits)
    obtain raw m k where s: "z = ((raw, model_kind m, runtime_abi m), version m, k)" "serving E d1 raw m k" "same_disk d1 d2"
      by (rule artifact_refill_serving [OF rf])
    have "serving E d raw m k" "same_disk d d'"
      using s serving_disk [OF st(4), of E raw m k] same_disk_trans [OF st(4)] d2 by simp_all
    then show ?thesis using that [of raw m k] 2 s(1) fin [of raw m k] keep by simp
  qed simp
qed

end
