(* ===== verification/EngineProps.thy ===== *)
theory EngineProps
  imports EngineCache RunnerProps DeployProps FloatOrder
begin

text \<open>
  The engine: its cached snapshots under concurrency, the agreement of its checks with the worker's,
  the greatest class, the percentile, and the whole path from a prediction request to the runtime of
  the active slot.
\<close>

section \<open>Cached snapshots\<close>

text \<open>C35: Predictions that run concurrently with each other, with deployments and with anything else that
  happens to the disk: the artifact that a call gets is one that the deployer authenticated as its
  active one at some moment, and this moment lies within the call, or the generation and the version
  are those that the deployer named when the call asked.\<close>

theorem isolated_snapshots_linearizable:
  assumes "cache_run (active_identity E) (lookup_isolated E) e0 ds e calls" and "en_isolated e0 = None"
    and "calls i = Answered g v n (a, v', g')"
  shows "n < length ds \<and> fst (active_identity E (rev ds ! n)) = Inr (g, Some v) \<and>
    (\<exists>d \<in> set (if g' = g \<and> v' = v then ds else take (length ds - n) ds).
       \<exists>raw m. serving E d raw m g' \<and> a = (raw, model_kind m, runtime_abi m) \<and> v' = version m)"
proof -
  have "call_right (active_identity E) (artifact_refill E) ds (calls i)"
    using artifact_cache.run_right [OF assms(1,2)] by blast
  then have c: "n < length ds" "fst (active_identity E (rev ds ! n)) = Inr (g, Some v)"
      "given (artifact_refill E) (a, v', g') (if g' = g \<and> v' = v then ds else take (length ds - n) ds)"
    using assms(3) by (auto simp: call_right_def)
  then obtain d where d: "d \<in> set (if g' = g \<and> v' = v then ds else take (length ds - n) ds)"
      "fst (artifact_refill E d) = Inr (a, v', g')"
    by (auto simp: given_def)
  then obtain d' where r: "artifact_refill E d = (Inr (a, v', g'), d')" by (metis prod.collapse)
  obtain raw m k where "(a, v', g') = ((raw, model_kind m, runtime_abi m), version m, k)" "serving E d raw m k"
    by (rule artifact_refill_serving [OF r])
  then show ?thesis using c(1,2) d(1) by blast
qed

section \<open>Inputs and outputs\<close>

lemma validated_array_sendable:
  assumes "validated_array l to_f32 x = Inr a" "to_f32 x = Inr a \<Longrightarrow> length (arr_data a) = prod_list (arr_shape a)"
  obtains rows cols where "to_f32 x = Inr a" "sendable a rows cols" "rows \<le> el_batch l" "cols \<le> el_input_features l"
    "rows * cols \<le> el_input_values l"
proof -
  have v: "to_f32 x = Inr a" "length (arr_shape a) = 2" "1 \<le> dim a 0" "dim a 0 \<le> el_batch l" "1 \<le> dim a 1"
      "dim a 1 \<le> el_input_features l" "int (prod_list (arr_shape a)) \<le> el_input_values l" "all_f32_finite a"
    using assms(1) by (auto simp: validated_array_def rbind_Inr_iff)
  obtain r c where rc: "arr_shape a = [r, c]" using v(2) by (auto simp: length_Suc_conv numeral_2_eq_2)
  have "sendable a (dim a 0) (dim a 1)"
    using f32_array_matrix [OF rc] assms(2) [OF v(1)] rc v by (simp add: sendable_def dim_def)
  then show ?thesis using that [of "dim a 0" "dim a 1"] v rc by (simp add: dim_def)
qed

text \<open>The worker and the engine decide alike, so an answer of a faithful worker is never refused.\<close>

lemma logits_checks_agree:
  "worker_validate_logits be logits b (isolation_limits l E) = validated_logits l (be_asarray be) logits b"
  by (simp add: worker_validate_logits_def validated_logits_def isolation_limits_def Let_def not_less conj_commute)

lemma validated_again:
  assumes "validated_logits l asarray logits b = Inr a"
    and "\<And>raw. asarray logits = Inr raw \<Longrightarrow> nd_f32 raw = Inr a \<Longrightarrow> arr_shape a = nd_shape raw"
  shows "validated_logits l (\<lambda>a. Inr \<lparr>nd_shape = arr_shape a, nd_number = True, nd_f32 = Inr a\<rparr>) a b = Inr a"
  using assms by (auto simp: validated_logits_def rbind_Inr_iff)

lemma argmax_from_spec:
  "best < i \<Longrightarrow> w = xs ! best \<Longrightarrow> i \<le> length xs \<Longrightarrow> (\<forall>j < i. f32_key (xs ! j) \<le> f32_key w) \<Longrightarrow>
   (\<forall>j < best. f32_key (xs ! j) < f32_key w) \<Longrightarrow> ys = drop i xs \<Longrightarrow>
   argmax_from i best w ys < length xs \<and> (\<forall>j < length xs. f32_key (xs ! j) \<le> f32_key (xs ! argmax_from i best w ys)) \<and>
   (\<forall>j < argmax_from i best w ys. f32_key (xs ! j) < f32_key (xs ! argmax_from i best w ys))"
proof (induction ys arbitrary: i best w)
  case Nil
  then show ?case by (auto dest: sym)
next
  case (Cons y ys)
  have y: "i < length xs" "y = xs ! i" "ys = drop (i + 1) xs"
    using Cons.prems(6) by (metis drop_eq_Nil list.distinct(1) not_le_imp_less, metis nth_via_drop,
        metis Suc_eq_plus1 drop_Suc list.sel(3) tl_drop)
  show ?case
  proof (cases "f32_key w < f32_key y")
    case True
    have "\<forall>j < i + 1. f32_key (xs ! j) \<le> f32_key y" "\<forall>j < i. f32_key (xs ! j) < f32_key y"
      using Cons.prems(4) True y(2) by (auto simp: less_Suc_eq)
    then show ?thesis using Cons.IH [of i "i + 1" y] True y by simp
  next
    case False
    have "\<forall>j < i + 1. f32_key (xs ! j) \<le> f32_key w" using Cons.prems(4) False y(2) by (auto simp: less_Suc_eq)
    then show ?thesis using Cons.IH [of best "i + 1" w] Cons.prems(1,2,3,5) False y by simp
  qed
qed

text \<open>The first of the greatest logits of a row.\<close>

lemma argmax_row_first:
  assumes "xs \<noteq> []"
  shows "argmax_row xs < length xs" "j < length xs \<Longrightarrow> f32_key (xs ! j) \<le> f32_key (xs ! argmax_row xs)"
    "j < argmax_row xs \<Longrightarrow> f32_key (xs ! j) < f32_key (xs ! argmax_row xs)"
proof -
  obtain x r where x: "xs = x # r" using assms by (cases xs) auto
  have p: "x = xs ! 0" "1 \<le> length xs" "\<forall>j < 1. f32_key (xs ! j) \<le> f32_key x" "r = drop 1 xs"
    by (simp_all add: x)
  have "argmax_from 1 0 x r = argmax_row xs" by (simp only: x argmax_row_def list.case)
  then have "argmax_row xs < length xs \<and> (\<forall>j < length xs. f32_key (xs ! j) \<le> f32_key (xs ! argmax_row xs)) \<and>
      (\<forall>j < argmax_row xs. f32_key (xs ! j) < f32_key (xs ! argmax_row xs))"
    using argmax_from_spec [OF zero_less_one p(1-3) _ p(4)] by simp
  then show "argmax_row xs < length xs" "j < length xs \<Longrightarrow> f32_key (xs ! j) \<le> f32_key (xs ! argmax_row xs)"
    "j < argmax_row xs \<Longrightarrow> f32_key (xs ! j) < f32_key (xs ! argmax_row xs)"
    by blast+
qed

section \<open>Counters\<close>

lemma fl_scaled_below:
  assumes "0 \<le> x" "x \<le> 1" "k < 2 ^ 53"
  shows "0 \<le> fl (fl x * of_nat k)" "fl (fl x * of_nat k) \<le> of_nat k"
proof -
  have x: "0 \<le> fl x" "fl x \<le> 1" using fl_nonneg [OF assms(1)] fl_mono [OF assms(1,2)] fl_int [of 1] by simp_all
  then show "0 \<le> fl (fl x * of_nat k)" using fl_nonneg by simp
  have "fl x * of_nat k \<le> of_nat k" using x by (simp add: mult_left_le_one_le)
  moreover have "fl (of_nat k) = of_nat k"
  proof -
    have "int k < 2 ^ 53" using assms(3) by (metis of_nat_less_iff of_nat_numeral of_nat_power)
    then show ?thesis using fl_int [of "int k"] by simp
  qed
  ultimately show "fl (fl x * of_nat k) \<le> of_nat k" using fl_mono [of "fl x * of_nat k" "of_nat k"] x(1) by simp
qed

text \<open>The percentile is one of the samples, for any number of samples that the store can hold.\<close>

lemma p95_index_below:
  assumes "0 < n" "n \<le> 10000"
  shows "p95_index n < n"
proof -
  have k: "n - 1 < 2 ^ 53" by (rule le_less_trans [of _ 10000]) (use assms(2) in auto)
  have u: "(0 :: rat) \<le> 95 / 100" "(95 :: rat) / 100 \<le> 1" by simp_all
  have "\<lfloor>fl (fl (95 / 100) * of_nat (n - 1))\<rfloor> \<le> int (n - 1)"
    using fl_scaled_below(2) [OF u k] by linarith
  then show ?thesis using assms(1) unfolding p95_index_def by linarith
qed

lemma p95_sample:
  assumes "lat \<noteq> []" "length lat \<le> 10000"
  shows "p95 lat \<in> set lat"
proof -
  have "p95_index (length lat) < length (sort_key fin_val lat)" using p95_index_below [of "length lat"] assms by simp
  from nth_mem [OF this] show ?thesis using assms(1) by (simp add: p95_def)
qed

lemma latencies_bounded: "length (latencies (observe_latency v m)) \<le> 10000"
  by (simp add: observe_latency_def last_n_def)

section \<open>The whole path of a prediction\<close>

lemma prepare_isolated_served:
  assumes c: "coherent E d e" and q: "prepare_isolated E to_f32 x (d, e) = (Inr (p, v), d1, e1)"
    and np: "\<And>a. to_f32 x = Inr a \<Longrightarrow> length (arr_data a) = prod_list (arr_shape a)"
  obtains inp raw m g rows cols where "to_f32 x = Inr inp" "p = with_inputs E ((raw, model_kind m, runtime_abi m), version m, g) inp"
    "v = version m" "serving E d raw m g" "coherent E d1 e1" "en_limits e1 = en_limits e"
    "sendable inp rows cols" "rows \<le> el_batch (en_limits e)" "cols \<le> el_input_features (en_limits e)"
    "rows * cols \<le> el_input_values (en_limits e)"
proof -
  obtain inp where inp: "validated_array (en_limits e) to_f32 x = Inr inp"
    using q by (cases "validated_array (en_limits e) to_f32 x") (simp_all add: prepare_isolated_def bind_p_def lift_r_def)
  obtain r s where r: "isolated_runtime_snapshot E (d, e) = (r, s)" by (rule prod.exhaust)
  then obtain y where y: "r = Inr y" using q inp
    by (cases r) (simp_all add: prepare_isolated_def bind_p_def lift_r_def)
  have pv: "p = with_inputs E y inp" "v = fst (snd y)" "s = (d1, e1)"
    using q inp r y by (simp_all add: prepare_isolated_def bind_p_def lift_r_def ret_def)
  obtain raw m g where m: "y = ((raw, model_kind m, runtime_abi m), version m, g)" "serving E d raw m g"
      "coherent E d1 e1" "en_limits e1 = en_limits e"
    by (rule snapshot_exact [OF c r [unfolded y pv]]) 
  obtain rows cols where a: "to_f32 x = Inr inp" "sendable inp rows cols" "rows \<le> el_batch (en_limits e)"
      "cols \<le> el_input_features (en_limits e)" "rows * cols \<le> el_input_values (en_limits e)"
    by (rule validated_array_sendable [OF inp]) (rule np)
  show ?thesis by (rule that [OF a(1) _ _ m(2-4) a(2-5)]) (simp_all add: pv m(1))
qed

abbreviation as_array :: "f32_array \<Rightarrow> nd_array res" where
  "as_array a \<equiv> Inr \<lparr>nd_shape = arr_shape a, nd_number = True, nd_f32 = Inr a\<rparr>"

lemma completed_run:
  assumes "measured_run ms (bind_p (lift_r (\<lambda>_. r)) (engine_complete as_array inp w)) e1 = (Inr (pred, a, v), e')"
  shows "r = Inr a" "pred = argmax1 a" "v = w" "en_isolated e' = en_isolated e1"
proof -
  obtain z where z: "r = Inr z" using assms by (cases r) (simp_all add: measured_run_def bind_p_def lift_r_def)
  obtain b where b: "validated_logits (en_limits e1) as_array z (dim inp 0) = Inr b"
    using assms z by (cases "validated_logits (en_limits e1) as_array z (dim inp 0)")
      (simp_all add: measured_run_def bind_p_def lift_r_def engine_complete_def)
  then have "b = z" by (auto simp: validated_logits_def rbind_Inr_iff)
  then show "r = Inr a" "pred = argmax1 a" "v = w" "en_isolated e' = en_isolated e1"
    using assms z b by (auto simp: measured_run_def bind_p_def lift_r_def engine_complete_def on_metrics_def)
qed

lemma process_predict_parts:
  assumes "process_predict E to_f32 h now ms x ((d, e), c) = (Inr (pred, a, v), (d', e'), c')"
  obtains p w e1 where "prepare_isolated E to_f32 x (d, e) = (Inr (p, w), d', e1)"
    "runner_execute h now p (isolation_limits (en_limits e1) E) c = (Inr a, c')" "pred = argmax1 a" "v = w"
    "en_isolated e' = en_isolated e1"
proof -
  obtain q d1 e1 where q: "prepare_isolated E to_f32 x (d, e) = (q, d1, e1)" by (metis prod_cases3)
  then obtain p w where p: "q = Inr (p, w)" using assms
    by (cases q) (auto simp: process_predict_def bind_p_def on_deployer_def)
  obtain r c1 where ex: "runner_execute h now p (isolation_limits (en_limits e1) E) c = (r, c1)" by fastforce
  obtain z e2 where m: "measured_run ms (bind_p (lift_r (\<lambda>_. r)) (engine_complete as_array (p_inputs p) w)) e1 = (z, e2)"
    by fastforce
  have z: "z = Inr (pred, a, v)" "d' = d1" "e' = e2" "c' = c1"
    using assms q p ex m by (simp_all add: process_predict_def bind_p_def [of "on_deployer _"] on_deployer_def)
  show ?thesis using that [of p w e1] completed_run [OF m [unfolded z(1)]] q p z ex by simp
qed

text \<open>C36: A prediction by a worker process that returns gives the checked logits of the runtime that the
  active slot's authenticated artifact loads to, on the validated input, the first greatest class of
  each row, and the version of the active slot; the supervisor and the cache stay usable. This holds
  whatever the supervisor and its worker did before, with a cache that is empty or was filled under
  this generation or an older one.\<close>

theorem process_predict_serves_active:
  assumes d: "read_limits dict = Some l" "l = isolation_limits (en_limits e) E" "limits_fit l" "numpy_ok be"
      "1024 \<le> Deploy.max_model_bytes E"
    and c: "coherent E d e"
    and s: "consistent l holds c" "0 \<le> r_request_id c" "r_request_id c < max_uint"
    and np: "\<And>a. to_f32 x = Inr a \<Longrightarrow> length (arr_data a) = prod_list (arr_shape a)"
    and m: "\<And>raw m g. serving E d raw m g \<Longrightarrow> raw \<noteq> [] \<and> int (length raw) \<le> Deploy.max_model_bytes E \<and>
        0 \<le> g \<and> g \<le> max_uint \<and> (\<forall>t \<in> {model_kind m, runtime_abi m}. t \<noteq> [] \<and> utf8_ok t \<and> length t \<le> 256) \<and>
        holds g = load_runtime (be_load be) raw (model_kind m) (Some (runtime_abi m)) (Deploy.max_model_bytes E)"
    and run: "process_predict E to_f32 (worker_host be mem dict n l) now ms x ((d, e), c) = (Inr (pred, a, v), (d', e'), c')"
  shows "\<exists>inp raw m g rt lg. to_f32 x = Inr inp \<and> serving E d raw m g \<and> v = version m \<and>
    load_runtime (be_load be) raw (model_kind m) (Some (runtime_abi m)) (Deploy.max_model_bytes E) = Inr rt \<and>
    be_logits be rt inp = Inr lg \<and> validated_logits (en_limits e) (be_asarray be) lg (dim inp 0) = Inr a \<and>
    pred = argmax1 a \<and> coherent E d' e' \<and> consistent l holds c'"
proof -
  obtain p w e1 where p: "prepare_isolated E to_f32 x (d, e) = (Inr (p, w), d', e1)"
      "runner_execute (worker_host be mem dict n l) now p (isolation_limits (en_limits e1) E) c = (Inr a, c')"
      "pred = argmax1 a" "v = w" "en_isolated e' = en_isolated e1"
    by (rule process_predict_parts [OF run])
  obtain inp raw m' g rows cols where i: "to_f32 x = Inr inp"
      "p = with_inputs E ((raw, model_kind m', runtime_abi m'), version m', g) inp" "w = version m'" "serving E d raw m' g"
      "coherent E d' e1" "en_limits e1 = en_limits e" "sendable inp rows cols" "rows \<le> el_batch (en_limits e)"
      "cols \<le> el_input_features (en_limits e)" "rows * cols \<le> el_input_values (en_limits e)"
    by (rule prepare_isolated_served [OF c p(1) np])
  have tr: "transferable l p" "holds (p_generation p) = loads be p"
    using m [OF i(4)] d(2,5) by (simp_all add: transferable_def with_inputs_def isolation_limits_def i(2) loads_def)
  have ad: "admissible l p"
    using i(7-10) by (auto simp: admissible_def with_inputs_def isolation_limits_def i(2) d(2))
  have ex: "runner_execute (worker_host be mem dict n l) now p l c = (Inr a, c')" using p(2) i(6) d(2) by simp
  have exact: "(\<exists>rt. loads be p = Inr rt \<and> infers be l rt p = Inr a) \<and> consistent l holds c'"
    using execute_exact [OF d(1,3,4) tr(1) ad tr(2) s ex, of a] by blast
  then obtain rt where rt: "loads be p = Inr rt" "infers be l rt p = Inr a" by blast
  have "p_inputs p = inp" by (simp add: i(2) with_inputs_def)
  then obtain lg where lg: "be_logits be rt inp = Inr lg"
      "validated_logits (en_limits e) (be_asarray be) lg (dim inp 0) = Inr a"
    using rt(2) d(2) by (auto simp: infers_def rbind_Inr_iff logits_checks_agree)
  have ld: "load_runtime (be_load be) raw (model_kind m') (Some (runtime_abi m')) (Deploy.max_model_bytes E) = Inr rt"
    using rt(1) by (simp add: loads_def with_inputs_def i(2))
  have "coherent E d' e'" using i(5) p(5) by (simp add: coherent_def)
  then show ?thesis using i(1,3,4) p(3,4) ld lg exact by blast
qed

section \<open>A sample engine\<close>

lemma sample_slot_artifact:
  "verified_slot_artifact sample_env sample_store (Some (Directory sample_files)) ''1.0.0'' =
     Inr (''npz'', canon_manifest sample_manifest)"
proof -
  have "verified_directory_manifest sample_ext sample_store (Some (Directory sample_files)) ''1.0.0'' =
     Inr (canon_manifest sample_manifest)"
    by (rule sample_slot_verified)
  obtain files where "stage_files sample_manifest sample_signature ''k1'' ''npz'' = Inr files"
      "open_verified_model sample_ext (reg_keyring sample_registry) (Some (Directory files)) (Some ''1.0.0'') =
       Inr (''npz'', canon_manifest sample_manifest)"
    using sample_staged by blast
  then have o: "open_verified_model sample_ext (reg_keyring sample_store) (Some (Directory sample_files)) (Some ''1.0.0'') =
       Inr (''npz'', canon_manifest sample_manifest)"
    by (simp add: sample_files_def sample_store_def)
  have m: "model_bytes (canon_manifest sample_manifest) = 3" by (simp add: canon_manifest_def sample_manifest_def)
  have h: "sha256_hex sample_ext ''npz'' = model_sha256 (canon_manifest sample_manifest)"
    using o by (auto simp: open_verified_model_Inr)
  have e: "ext_of sample_env = sample_ext" "Deploy.max_model_bytes sample_env = 2048" by (simp_all add: sample_env_def)
  show ?thesis
    using o m h manifest_eq_refl
    by (simp add: verified_slot_artifact_def e canonical_manifest_def sample_inspect guard_r_def)
qed

abbreviation sample_deployer :: "memory_anchor deployer" where
  "sample_deployer \<equiv> at_start sample_active"

lemma sample_disk: "dur sample_deployer = sample_active"
  by (simp add: at_start_def)

lemma sample_committed: "committed_state sample_deployer = Inr sample_two"
proof -
  have s: "state_of_node (nodes sample_active StateFile) = Inr sample_two"
    using base_reads [OF live_base [OF sample_active_live]] state_storable_fits [OF sample_two_ok] by blast
  then show ?thesis using state_node_exists [OF s] by (simp add: committed_state_def at_start_def)
qed

lemma sample_reads: "trusted_floor d = None \<Longrightarrow> same_disk sample_deployer d \<Longrightarrow> read_state E True d = (Inr sample_two, d)"
proof -
  assume d: "trusted_floor d = None" "same_disk sample_deployer d"
  have "committed_state d = Inr sample_two" "path_exists (nodes (dur d) StateFile)"
    using sample_committed same_disk_state [OF d(2)] d(2)
    by (simp_all add: same_disk_def at_start_def sample_active_def path_exists_def)
  then show ?thesis
    using d(1) by (simp add: committed_state_def read_state_def bind_p_def node_p_def gets_p_def lift_r_def
        validate_state_anchor_def ret_def)
qed

lemma sample_version: "version (canon_manifest sample_manifest) = ''1.0.0''"
  by (rule verified_artifact_version [OF sample_slot_artifact])

lemma sample_serving: "serving sample_env sample_deployer raw m g \<longleftrightarrow>
    raw = ''npz'' \<and> m = canon_manifest sample_manifest \<and> g = 7" (is "?l = ?r")
proof
  assume ?l
  then obtain sl where "active_version_is sample_two sl (version m)" "g = generation sample_two"
      "verified_slot_artifact sample_env (reg sample_active) (nodes sample_active (SlotDir sl)) (version m) = Inr (raw, m)"
    by (auto simp: serving_def sample_committed sample_disk)
  then show ?r using sample_slot_artifact
    by (cases sl) (simp_all add: active_version_is_def sample_two_def sample_active_def)
next
  assume ?r
  moreover have "nodes sample_active (SlotDir SlotA) = Some (Directory sample_files)" "reg sample_active = sample_store"
      "active_version_is sample_two SlotA ''1.0.0''" "generation sample_two = 7"
    by (simp_all add: sample_active_def active_version_is_def sample_two_def)
  ultimately show ?l using sample_committed sample_slot_artifact sample_version
    unfolding serving_def sample_disk by auto
qed


lemma sample_identity_read: "trusted_floor d = None \<Longrightarrow> same_disk sample_deployer d \<Longrightarrow>
    active_identity E d = (Inr (7, Some ''1.0.0''), d)"
  by (simp add: active_identity_def bind_p_def sample_reads ret_def sample_two_def)

definition sample_entry :: "(bytes \<times> pystr \<times> pystr) \<times> pystr \<times> int" where
  "sample_entry = ((''npz'', ''float32-linear'', ''linear-v1''), ''1.0.0'', 7)"

lemma sample_kind: "model_kind (canon_manifest sample_manifest) = ''float32-linear''"
  "runtime_abi (canon_manifest sample_manifest) = ''linear-v1''"
  by (simp_all add: canon_manifest_def sample_manifest_def)

lemma sample_refill: "\<exists>d. artifact_refill sample_env sample_deployer = (Inr sample_entry, d)"
proof -
  define d where "d = commit_durable (set_node LockFile (Some (RegFile [])) sample_active) sample_deployer"
  have d: "same_disk sample_deployer d" "trusted_floor d = None"
    by (simp_all add: d_def same_disk_def commit_durable_def set_node_def at_start_def)
  have l: "lock_acquire (nodes sample_active LockFile) = Inr (RegFile [])"
    by (simp add: sample_active_def lock_acquire_def)
  have a: "active_slot_version sample_two = Inr (SlotA, ''1.0.0'')" "generation sample_two = 7"
    by (simp_all add: active_slot_version_def sample_two_def)
  have "nodes (dur d) (SlotDir SlotA) = Some (Directory sample_files)" "reg (dur d) = sample_store"
    by (simp_all add: d_def commit_durable_def set_node_def sample_active_def)
  then have "on_slot (\<lambda>r n. verified_slot_artifact sample_env r n ''1.0.0'') SlotA d =
      (Inr (''npz'', canon_manifest sample_manifest), d)"
    by (simp add: on_slot_def lift_r_def sample_slot_artifact)
  then have "active_artifact_snapshot sample_env sample_deployer = (Inr (''npz'', canon_manifest sample_manifest, 7), d)"
    using sample_reads [OF d(2,1), of sample_env] l a
    by (simp add: active_artifact_snapshot_def deploy_locked_def bind_p_def lift_r_def modify_p_def d_def [symmetric]
        sample_disk ret_def)
  then show ?thesis
    by (simp add: artifact_refill_def bind_p_def ret_def sample_kind sample_version sample_entry_def)
qed

definition sample_engine :: "unit engine" where
  "sample_engine =
     \<lparr>en_limits = \<lparr>el_batch = 8, el_input_features = 16, el_input_values = 128, el_output_classes = 16,
        el_output_values = 128\<rparr>, en_metrics = metrics_init, en_active = None, en_isolated = None\<rparr>"

theorem isolated_snapshots_linearizable_witness:
  "\<exists>ds e calls.
     cache_run (active_identity sample_env) (lookup_isolated sample_env) sample_engine ds e calls \<and>
     calls 0 = Answered 7 ''1.0.0'' 1 sample_entry \<and> 1 < length ds \<and>
     fst (active_identity sample_env (rev ds ! 1)) = Inr (7, Some ''1.0.0'')"
proof -
  let ?run = "cache_run (active_identity sample_env) (lookup_isolated sample_env) sample_engine"
  obtain d where d: "artifact_refill sample_env sample_deployer = (Inr sample_entry, d)" using sample_refill by blast
  have "trusted_floor sample_deployer = None" "same_disk sample_deployer sample_deployer"
    by (simp_all add: at_start_def)
  then have i: "active_identity sample_env sample_deployer = (Inr (7, Some ''1.0.0''), sample_deployer)"
    by (rule sample_identity_read)
  have none: "en_isolated sample_engine = None" by (simp add: sample_engine_def)
  obtain e where e: "lookup_isolated sample_env 7 ''1.0.0'' (sample_deployer, sample_engine) = (Inr sample_entry, d, e)"
    using artifact_cache.miss [OF _ d, of sample_engine] none by auto
  have "?run [sample_deployer, sample_deployer] sample_engine (\<lambda>_. Idle)"
    by (rule changes, rule begins)
  note asked = asks [OF this i, of 0]
  define calls :: "nat \<Rightarrow> (bytes \<times> pystr \<times> pystr) call" where "calls = ((\<lambda>_. Idle)(0 := Asked 7 ''1.0.0'' (length [sample_deployer])))
      (0 := Answered 7 ''1.0.0'' (length [sample_deployer]) sample_entry)"
  have run: "?run [d, sample_deployer, sample_deployer, sample_deployer] e calls"
    unfolding calls_def by (rule gets [OF asked _ e]) simp
  have c: "calls 0 = Answered 7 ''1.0.0'' 1 (fst sample_entry, ''1.0.0'', 7)" by (simp add: calls_def sample_entry_def)
  let ?ds = "[d, sample_deployer, sample_deployer, sample_deployer]"
  have "1 < length ?ds \<and> fst (active_identity sample_env (rev ?ds ! 1)) = Inr (7, Some ''1.0.0'')"
    using isolated_snapshots_linearizable [OF run none c] by blast
  moreover have "calls 0 = Answered 7 ''1.0.0'' 1 sample_entry" using c by (simp add: sample_entry_def)
  ultimately show ?thesis using run by blast
qed

definition path_backend :: "(unit, unit) backend" where
  "path_backend =
     sample_backend\<lparr>be_load := \<lambda>_ model _. if model = ''npz'' then Inr () else Inl (Exc ValueError ''corrupt'')\<rparr>"

definition path_limits :: ipc_limits where
  "path_limits = sample_limits\<lparr>max_model_transfer_bytes := 2048\<rparr>"

definition path_limit_dict :: header where
  "path_limit_dict = butlast sample_limit_dict @ [(''max_model_transfer_bytes'', JInt 2048)]"

definition path_runner :: "unit child runner" where
  "path_runner = sample_runner\<lparr>r_limits := path_limits\<rparr>"

abbreviation path_host :: "unit child host" where
  "path_host \<equiv> worker_host path_backend None path_limit_dict 64 path_limits"

definition path_prepared :: prepared where
  "path_prepared = with_inputs sample_env sample_entry sample_tensor"

lemma path_limits_of: "path_limits = isolation_limits (en_limits sample_engine) sample_env"
  by (simp add: path_limits_def sample_limits_def isolation_limits_def sample_engine_def sample_env_def)

lemma path_limits_read: "read_limits path_limit_dict = Some path_limits"
  by (simp add: read_limits_def path_limit_dict_def sample_limit_dict_def required_limits_def has_fields_def
      limit_value_def jfield_Cons sample_limits_def path_limits_def)

lemma path_limits_fit: "limits_fit path_limits"
  by (simp add: limits_fit_def limits_ok_def sample_limits_def path_limits_def uint_bounds)

lemma path_numpy: "numpy_ok path_backend"
  using sample_numpy by (simp add: numpy_ok_def path_backend_def)

lemma path_loaded: "load_runtime (be_load path_backend) ''npz'' ''float32-linear'' (Some ''linear-v1'') 2048 = Inr ()"
  by (simp add: load_runtime_def runtime_types_def type_abi_def path_backend_def)

lemma path_execute:
  "\<exists>t. runner_execute path_host (Fin 0) path_prepared path_limits path_runner = (Inr sample_tensor, t)"
proof -
  obtain x t where r: "runner_execute path_host (Fin 0) path_prepared path_limits path_runner = (x, t)" by fastforce
  have p: "transferable path_limits path_prepared" "admissible path_limits path_prepared"
      "loads path_backend path_prepared = Inr ()"
    using sample_transferable sample_admissible path_loaded
    by (simp_all add: transferable_def admissible_def loads_def path_prepared_def sample_prepared_def with_inputs_def
        sample_entry_def sample_env_def path_limits_def sample_limits_def uint_bounds)
  have i: "infers path_backend path_limits () path_prepared = Inr sample_tensor"
    using sample_infers by (simp add: infers_def path_backend_def path_limits_def path_prepared_def sample_prepared_def
        with_inputs_def sample_entry_def worker_validate_logits_def)
  have "healthy path_backend None 64" using sample_healthy by (simp add: healthy_def path_backend_def apply_process_security_def apply_process_memory_limit_def)
  then have h: "healthy path_backend None 64 \<and> grants (Fin 0) path_runner" "in_sync path_runner path_prepared"
    by (simp_all add: grants_def in_sync_def path_runner_def sample_runner_def new_runner_def)
  have c: "consistent path_limits (\<lambda>_. Inr ()) path_runner" "r_request_id path_runner = 0"
    by (simp_all add: consistent_def path_runner_def sample_runner_def new_runner_def)
  have "x = Inr sample_tensor"
    using execute_exact [OF path_limits_read path_limits_fit path_numpy p(1,2) _ c(1) _ _ r, of sample_tensor "()"]
      h p(3) i c(2) by (simp add: max_uint_def)
  then show ?thesis using r by blast
qed

lemma path_runs:
  "\<exists>s. process_predict sample_env Inr path_host (Fin 0) (Fin 1) sample_tensor
     ((sample_deployer, sample_engine), path_runner) = (Inr ([0], sample_tensor, ''1.0.0''), s)"
proof -
  obtain d where d: "artifact_refill sample_env sample_deployer = (Inr sample_entry, d)" using sample_refill by blast
  have i: "active_identity sample_env sample_deployer = (Inr (7, Some ''1.0.0''), sample_deployer)"
    by (rule sample_identity_read) (simp_all add: at_start_def)
  obtain e where e: "lookup_isolated sample_env 7 ''1.0.0'' (sample_deployer, sample_engine) = (Inr sample_entry, d, e)"
      "e = sample_engine\<lparr>en_isolated := Some sample_entry\<rparr>"
    using d by (simp add: lookup_isolated_def sample_engine_def bind_p_def on_deployer_def)
  have v: "validated_array (en_limits sample_engine) Inr sample_tensor = Inr sample_tensor"
    using sample_sendable by (simp add: validated_array_def sample_engine_def sendable_def except_r_def guard_r_def
        dim_def sample_tensor_def)
  have "isolated_runtime_snapshot sample_env (sample_deployer, sample_engine) = (Inr sample_entry, d, e)"
    using i e(1) by (simp add: isolated_runtime_snapshot_def ask_identity_def bind_p_def on_deployer_def ret_def)
  then have p: "prepare_isolated sample_env Inr sample_tensor (sample_deployer, sample_engine) =
      (Inr (path_prepared, ''1.0.0''), d, e)"
    using v by (simp add: prepare_isolated_def bind_p_def lift_r_def ret_def path_prepared_def sample_entry_def)
  have l: "isolation_limits (en_limits e) sample_env = path_limits" by (simp add: e(2) path_limits_of)
  obtain t where t: "runner_execute path_host (Fin 0) path_prepared path_limits path_runner = (Inr sample_tensor, t)"
    using path_execute by blast
  have o: "validated_logits (en_limits e) as_array sample_tensor (dim sample_tensor 0) = Inr sample_tensor"
    using sample_sendable by (simp add: validated_logits_def e(2) sample_engine_def sendable_def except_r_def guard_r_def
        dim_def sample_tensor_def)
  have a: "argmax1 sample_tensor = [0]" "p_inputs path_prepared = sample_tensor"
    by (simp_all add: argmax1_def sample_tensor_def argmax_row_def f32_key_def one_f32_def path_prepared_def
        with_inputs_def sample_entry_def)
  show ?thesis
    using p l t o a by (simp add: process_predict_def bind_p_def on_deployer_def measured_run_def lift_r_def engine_complete_def)
qed

theorem process_predict_serves_active_witness:
  "\<exists>raw m g. serving sample_env sample_deployer raw m g \<and> version m = ''1.0.0'' \<and>
     load_runtime (be_load path_backend) raw (model_kind m) (Some (runtime_abi m)) 2048 = Inr ()"
proof -
  obtain d e c where run: "process_predict sample_env Inr path_host (Fin 0) (Fin 1) sample_tensor
     ((sample_deployer, sample_engine), path_runner) = (Inr ([0], sample_tensor, ''1.0.0''), (d, e), c)"
    using path_runs by (metis prod_cases3 surj_pair)
  have c: "consistent path_limits (\<lambda>_. Inr ()) path_runner" "r_request_id path_runner = 0"
    by (simp_all add: consistent_def path_runner_def sample_runner_def new_runner_def)
  have b: "Deploy.max_model_bytes sample_env = 2048" by (simp add: sample_env_def)
  have n: "length (arr_data sample_tensor) = prod_list (arr_shape sample_tensor)" by (simp add: sample_tensor_def)
  have m: "raw \<noteq> [] \<and> int (length raw) \<le> Deploy.max_model_bytes sample_env \<and> 0 \<le> g \<and> g \<le> max_uint \<and>
      (\<forall>t \<in> {model_kind m, runtime_abi m}. t \<noteq> [] \<and> utf8_ok t \<and> length t \<le> 256) \<and>
      Inr () = load_runtime (be_load path_backend) raw (model_kind m) (Some (runtime_abi m)) (Deploy.max_model_bytes sample_env)"
    if "serving sample_env sample_deployer raw m g" for raw m g
    using that by (simp add: sample_serving b sample_kind path_loaded ascii_utf8_ok byte_of_def uint_bounds)
  have "\<exists>inp raw m g rt lg. Inr sample_tensor = Inr inp \<and> serving sample_env sample_deployer raw m g \<and> ''1.0.0'' = version m \<and>
      load_runtime (be_load path_backend) raw (model_kind m) (Some (runtime_abi m)) (Deploy.max_model_bytes sample_env) = Inr rt"
    using process_predict_serves_active [OF path_limits_read path_limits_of path_limits_fit path_numpy _ coherent_empty c(1) _ _ _ m run]
      n c(2) b by (auto simp: max_uint_def sample_engine_def)
  then obtain raw m g where "serving sample_env sample_deployer raw m g" "version m = ''1.0.0''"
      "load_runtime (be_load path_backend) raw (model_kind m) (Some (runtime_abi m)) 2048 = Inr ()"
    unfolding b by fastforce
  then show ?thesis by blast
qed

end
