(* ===== verification/Config.thy ===== *)
theory Config
  imports Engine Service Qualification
begin

text \<open>
  The runtime configuration of \<^verbatim>\<open>src/src/edgeai/config.py\<close>: the YAML mapping with unique keys, the
  fields with their defaults, and the checks. Parameters: the text of the file, the parser of YAML with its
  merging of mappings, and NumPy's \<^verbatim>\<open>isfinite\<close>. A value is a JSON value; what else YAML knows (dates,
  bytes, sets) is refused wherever a list is.
\<close>

section \<open>Mappings\<close>

definition hashable :: "json \<Rightarrow> bool" where
  "hashable v = (case v of JList _ \<Rightarrow> False | JObj _ \<Rightarrow> False | _ \<Rightarrow> True)"

text \<open>The same key of a dict: equal, and not a NaN, which equals nothing.\<close>

definition same_key :: "json \<Rightarrow> json \<Rightarrow> bool" where
  "same_key k k' \<longleftrightarrow> py_eq k k' \<and> k \<noteq> JFloat NaN"

fun add_unique :: "('n \<Rightarrow> json res) \<Rightarrow> ('n \<times> 'n) list \<Rightarrow> (json \<times> json) list \<Rightarrow> (json \<times> json) list res" where
  "add_unique build [] mapping = Inr mapping"
| "add_unique build ((k, v) # rest) mapping =
     rbind (build k) (\<lambda>key.
     rbind (guard_r (hashable key) (Exc TypeError ''unhashable type'')) (\<lambda>_.
     rbind (guard_r (list_all (\<lambda>(k', _). \<not> same_key key k') mapping) (VER ''duplicate configuration key'')) (\<lambda>_.
     rbind (build v) (\<lambda>x.
     add_unique build rest (mapping @ [(key, x)])))))"

definition construct_unique_mapping ::
  "('m \<Rightarrow> ('n \<times> 'n) list res) \<Rightarrow> ('n \<Rightarrow> json res) \<Rightarrow> 'm \<Rightarrow> (json \<times> json) list res" where
  "construct_unique_mapping flatten build node =
     rbind (flatten node) (\<lambda>pairs. add_unique build pairs [])"

section \<open>Bounds\<close>

definition bounded_int :: "string \<Rightarrow> json \<Rightarrow> int \<Rightarrow> int \<Rightarrow> int res" where
  "bounded_int name v lo hi =
     rbind (of_opt (VER (''invalid '' @ name)) (as_int v)) (\<lambda>i.
     rbind (guard_r (lo \<le> i \<and> i \<le> hi) (VER (''invalid '' @ name))) (\<lambda>_. Inr i))"

definition bounded_number :: "string \<Rightarrow> json \<Rightarrow> pynum \<Rightarrow> int \<Rightarrow> pyfloat res" where
  "bounded_number name v lo hi =
     rbind (of_opt (VER (''invalid '' @ name)) (as_num v)) (\<lambda>n.
     rbind (math_isfinite n) (\<lambda>fin.
     rbind (guard_r (fin \<and> num_le lo n \<and> num_le n (NInt hi)) (VER (''invalid '' @ name))) (\<lambda>_.
     num_to_float n)))"

section \<open>The configuration\<close>

record runtime_config =
  rc_deployment_root :: json
  rc_registry_root :: json
  rc_api_key_env :: json
  rc_queue_capacity :: json
  rc_queue_policy :: json
  rc_max_batch :: json
  rc_max_input_features :: json
  rc_max_input_values :: json
  rc_max_output_classes :: json
  rc_max_output_values :: json
  rc_max_request_bytes :: json
  rc_inference_workers :: json
  rc_queue_deadline_s :: json
  rc_execution_mode :: json
  rc_execution_timeout_s :: json
  rc_process_control_timeout_s :: json
  rc_process_memory_limit_mb :: json
  rc_process_nofile_limit :: json
  rc_process_restart_limit :: json
  rc_process_restart_window_s :: json
  rc_shutdown_timeout_s :: json
  rc_max_model_uncompressed_bytes :: json
  rc_isolate_health_gate :: json
  rc_health_gate_timeout_s :: json
  rc_health_gate_memory_limit_mb :: json
  rc_max_validation_rows :: json
  rc_max_validation_features :: json
  rc_max_validation_values :: json
  rc_health_benchmark_iterations :: json
  rc_health_benchmark_batch :: json
  rc_min_accuracy :: json
  rc_max_accuracy_drop :: json
  rc_max_ece :: json
  rc_max_p95_latency_ms :: json
  rc_max_rss_mb :: json

definition config_fields :: "pystr list" where
  "config_fields =
    [''deployment_root'', ''registry_root'', ''api_key_env'', ''queue_capacity'', ''queue_policy'',
     ''max_batch'', ''max_input_features'', ''max_input_values'', ''max_output_classes'',
     ''max_output_values'', ''max_request_bytes'', ''inference_workers'', ''queue_deadline_s'',
     ''execution_mode'', ''execution_timeout_s'', ''process_control_timeout_s'',
     ''process_memory_limit_mb'', ''process_nofile_limit'', ''process_restart_limit'',
     ''process_restart_window_s'', ''shutdown_timeout_s'', ''max_model_uncompressed_bytes'',
     ''isolate_health_gate'', ''health_gate_timeout_s'', ''health_gate_memory_limit_mb'',
     ''max_validation_rows'', ''max_validation_features'', ''max_validation_values'',
     ''health_benchmark_iterations'', ''health_benchmark_batch'', ''min_accuracy'',
     ''max_accuracy_drop'', ''max_ece'', ''max_p95_latency_ms'', ''max_rss_mb'']"

definition decimal :: "nat \<Rightarrow> int \<Rightarrow> json" where
  "decimal m e = JFloat (float_of_decimal False m e)"

definition setting :: "(pystr \<times> json) list \<Rightarrow> pystr \<Rightarrow> json \<Rightarrow> json" where
  "setting kvs name default_value = (case map_of kvs name of Some v \<Rightarrow> v | None \<Rightarrow> default_value)"

definition required :: "(pystr \<times> json) list \<Rightarrow> pystr \<Rightarrow> json res" where
  "required kvs name = of_opt (Exc TypeError ''missing required argument'') (map_of kvs name)"

text \<open>\<^verbatim>\<open>RuntimeConfig(**raw)\<close>\<close>

definition runtime_config_of :: "(pystr \<times> json) list \<Rightarrow> runtime_config res" where
  "runtime_config_of kvs =
     rbind (required kvs ''deployment_root'') (\<lambda>d.
     rbind (required kvs ''registry_root'') (\<lambda>r.
     Inr \<lparr>
          rc_deployment_root = d,
          rc_registry_root = r,
          rc_api_key_env = setting kvs ''api_key_env'' (JStr ''EDGEAI_API_KEY''),
          rc_queue_capacity = setting kvs ''queue_capacity'' (JInt 64),
          rc_queue_policy = setting kvs ''queue_policy'' (JStr ''reject''),
          rc_max_batch = setting kvs ''max_batch'' (JInt 128),
          rc_max_input_features = setting kvs ''max_input_features'' (JInt 4096),
          rc_max_input_values = setting kvs ''max_input_values'' (JInt 524288),
          rc_max_output_classes = setting kvs ''max_output_classes'' (JInt 4096),
          rc_max_output_values = setting kvs ''max_output_values'' (JInt 262144),
          rc_max_request_bytes = setting kvs ''max_request_bytes'' (JInt 8388608),
          rc_inference_workers = setting kvs ''inference_workers'' (JInt 1),
          rc_queue_deadline_s = setting kvs ''queue_deadline_s'' (JFloat (Fin 1)),
          rc_execution_mode = setting kvs ''execution_mode'' (JStr ''thread''),
          rc_execution_timeout_s = setting kvs ''execution_timeout_s'' (JNull),
          rc_process_control_timeout_s = setting kvs ''process_control_timeout_s'' (JFloat (Fin 5)),
          rc_process_memory_limit_mb = setting kvs ''process_memory_limit_mb'' (JNull),
          rc_process_nofile_limit = setting kvs ''process_nofile_limit'' (JInt 64),
          rc_process_restart_limit = setting kvs ''process_restart_limit'' (JInt 8),
          rc_process_restart_window_s = setting kvs ''process_restart_window_s'' (JFloat (Fin 60)),
          rc_shutdown_timeout_s = setting kvs ''shutdown_timeout_s'' (JFloat (Fin 5)),
          rc_max_model_uncompressed_bytes = setting kvs ''max_model_uncompressed_bytes'' (JInt 268435456),
          rc_isolate_health_gate = setting kvs ''isolate_health_gate'' (JBool True),
          rc_health_gate_timeout_s = setting kvs ''health_gate_timeout_s'' (JFloat (Fin 30)),
          rc_health_gate_memory_limit_mb = setting kvs ''health_gate_memory_limit_mb'' (JNull),
          rc_max_validation_rows = setting kvs ''max_validation_rows'' (JInt 100000),
          rc_max_validation_features = setting kvs ''max_validation_features'' (JInt 1000000),
          rc_max_validation_values = setting kvs ''max_validation_values'' (JInt 10000000),
          rc_health_benchmark_iterations = setting kvs ''health_benchmark_iterations'' (JInt 40),
          rc_health_benchmark_batch = setting kvs ''health_benchmark_batch'' (JInt 32),
          rc_min_accuracy = setting kvs ''min_accuracy'' (decimal 94 (- 2)),
          rc_max_accuracy_drop = setting kvs ''max_accuracy_drop'' (decimal 2 (- 2)),
          rc_max_ece = setting kvs ''max_ece'' (decimal 20 (- 2)),
          rc_max_p95_latency_ms = setting kvs ''max_p95_latency_ms'' (JFloat (Fin 20)),
          rc_max_rss_mb = setting kvs ''max_rss_mb'' (JFloat (Fin 1024))\<rparr>))"

definition as_bool :: "json \<Rightarrow> bool option" where
  "as_bool v = (case v of JBool b \<Rightarrow> Some b | _ \<Rightarrow> None)"

definition named_text :: "string \<Rightarrow> json \<Rightarrow> pystr res" where
  "named_text name v =
     rbind (of_opt (VER (''invalid '' @ name)) (as_str v)) (\<lambda>t.
     rbind (guard_r (py_strip t \<noteq> []) (VER (''invalid '' @ name))) (\<lambda>_. Inr t))"

definition parse_policy :: "pystr \<Rightarrow> overflow_policy res" where
  "parse_policy t =
     (if t = ''drop_oldest'' then Inr DROP_OLDEST else if t = ''drop_newest'' then Inr DROP_NEWEST
      else if t = ''reject'' then Inr REJECT else Inl (VER ''not a valid OverflowPolicy''))"

definition qualification_limits_of :: "runtime_config \<Rightarrow> qualification_limits res" where
  "qualification_limits_of c =
     limits_validate (rc_health_gate_timeout_s c) (rc_health_gate_memory_limit_mb c) (rc_max_validation_rows c)
       (rc_max_validation_features c) (rc_max_validation_values c) (rc_health_benchmark_iterations c)
       (rc_health_benchmark_batch c) (rc_process_nofile_limit c)"

text \<open>
  \<^verbatim>\<open>HealthPolicy\<close> takes whatever NumPy takes for a number, Booleans too; on anything else NumPy or the
  comparison after it raises.
\<close>

definition policy_number :: "json \<Rightarrow> pynum option" where
  "policy_number v = (case v of JBool b \<Rightarrow> Some (NInt (if b then 1 else 0)) | _ \<Rightarrow> as_num v)"

fun policy_numbers ::
  "(pynum \<Rightarrow> bool res) \<Rightarrow> (json \<Rightarrow> exc) \<Rightarrow> json list \<Rightarrow> pynum list res" where
  "policy_numbers np_isfinite np_other [] = Inr []"
| "policy_numbers np_isfinite np_other (v # vs) =
     rbind (of_opt (np_other v) (policy_number v)) (\<lambda>n.
     rbind (np_isfinite n) (\<lambda>fin.
     rbind (guard_r fin (VER ''health policy must be finite'')) (\<lambda>_.
     rbind (policy_numbers np_isfinite np_other vs) (\<lambda>ns. Inr (n # ns)))))"

definition health_policy_of ::
  "(pynum \<Rightarrow> bool res) \<Rightarrow> (json \<Rightarrow> exc) \<Rightarrow> runtime_config \<Rightarrow> health_policy res" where
  "health_policy_of np_isfinite np_other c =
     rbind (policy_numbers np_isfinite np_other
       [rc_min_accuracy c, rc_max_accuracy_drop c, rc_max_ece c, rc_max_p95_latency_ms c, rc_max_rss_mb c]) (\<lambda>ns.
     let p = \<lparr>min_accuracy = ns ! 0, max_accuracy_drop = ns ! 1, max_ece = ns ! 2, max_p95_latency_ms = ns ! 3,
              policy_max_rss_mb = ns ! 4, require_finite_logits = True\<rparr>
     in rbind (policy_check np_isfinite p) (\<lambda>_. Inr p))"

definition one_milli :: pynum where
  "one_milli = NFloat (float_of_decimal False 1 (- 3))"

definition config_validate ::
  "(pynum \<Rightarrow> bool res) \<Rightarrow> (json \<Rightarrow> exc) \<Rightarrow> runtime_config \<Rightarrow> runtime_config res" where
  "config_validate np_isfinite np_other c =
     rbind (named_text ''deployment_root'' (rc_deployment_root c)) (\<lambda>_.
     rbind (named_text ''registry_root'' (rc_registry_root c)) (\<lambda>_.
     rbind (named_text ''api_key_env'' (rc_api_key_env c)) (\<lambda>_.
     rbind (bounded_int ''queue_capacity'' (rc_queue_capacity c) 1 100000) (\<lambda>_.
     rbind (of_opt (VER ''invalid queue_policy'') (as_str (rc_queue_policy c))) (\<lambda>qp.
     rbind (parse_policy qp) (\<lambda>_.
     rbind (bounded_int ''max_batch'' (rc_max_batch c) 1 4096) (\<lambda>_.
     rbind (bounded_int ''max_input_features'' (rc_max_input_features c) 1 1000000) (\<lambda>_.
     rbind (bounded_int ''max_input_values'' (rc_max_input_values c) 1 100000000) (\<lambda>_.
     rbind (bounded_int ''max_output_classes'' (rc_max_output_classes c) 1 1000000) (\<lambda>_.
     rbind (bounded_int ''max_output_values'' (rc_max_output_values c) 1 10000000) (\<lambda>_.
     rbind (bounded_int ''max_request_bytes'' (rc_max_request_bytes c) 1024 268435456) (\<lambda>_.
     rbind (bounded_int ''inference_workers'' (rc_inference_workers c) 1 64) (\<lambda>_.
     rbind (bounded_number ''queue_deadline_s'' (rc_queue_deadline_s c) (NInt 0) 3600) (\<lambda>_.
     rbind (of_opt (VER ''invalid execution_mode'') (as_str (rc_execution_mode c))) (\<lambda>em.
     rbind (parse_mode em) (\<lambda>mode.
     rbind (opt_arg (rc_execution_timeout_s c) (\<lambda>v. bounded_number ''execution_timeout_s'' v one_milli 3600)) (\<lambda>et.
     rbind (guard_r (\<not> (mode = PROCESS \<and> et = None)) (VER ''process execution_mode requires execution_timeout_s'')) (\<lambda>_.
     rbind (guard_r (\<not> (mode = THREAD \<and> et \<noteq> None)) (VER ''execution_timeout_s requires process execution_mode'')) (\<lambda>_.
     rbind (bounded_number ''process_control_timeout_s'' (rc_process_control_timeout_s c) one_milli 3600) (\<lambda>_.
     rbind (opt_arg (rc_process_memory_limit_mb c) (\<lambda>v. bounded_int ''process_memory_limit_mb'' v 64 1048576)) (\<lambda>mem.
     rbind (guard_r (\<not> (mode = THREAD \<and> mem \<noteq> None)) (VER ''process_memory_limit_mb requires process execution_mode'')) (\<lambda>_.
     rbind (bounded_int ''process_nofile_limit'' (rc_process_nofile_limit c) 16 1048576) (\<lambda>_.
     rbind (bounded_int ''process_restart_limit'' (rc_process_restart_limit c) 1 10000) (\<lambda>_.
     rbind (bounded_number ''process_restart_window_s'' (rc_process_restart_window_s c) one_milli 86400) (\<lambda>_.
     rbind (bounded_number ''shutdown_timeout_s'' (rc_shutdown_timeout_s c) (NInt 0) 3600) (\<lambda>_.
     rbind (bounded_int ''max_model_uncompressed_bytes'' (rc_max_model_uncompressed_bytes c) 1024 17179869184) (\<lambda>_.
     rbind (of_opt (VER ''invalid isolate_health_gate'') (as_bool (rc_isolate_health_gate c))) (\<lambda>_.
     rbind (qualification_limits_of c) (\<lambda>_.
     rbind (health_policy_of np_isfinite np_other c) (\<lambda>_.
     Inr c))))))))))))))))))))))))))))))"

definition deployer_kwargs :: "runtime_config \<Rightarrow> (json \<times> json \<times> qualification_limits) res" where
  "deployer_kwargs c =
     rbind (qualification_limits_of c) (\<lambda>q. Inr (rc_max_model_uncompressed_bytes c, rc_isolate_health_gate c, q))"

section \<open>Loading\<close>

text \<open>Sorting the unknown keys for the message fails on a mixture of types.\<close>

definition sortable :: "json list \<Rightarrow> bool" where
  "sortable ks \<longleftrightarrow>
     length ks \<le> 1 \<or> list_all (\<lambda>k. as_str k \<noteq> None) ks \<or> list_all (\<lambda>k. policy_number k \<noteq> None) ks"

definition unknown_keys :: "(json \<times> json) list \<Rightarrow> json list" where
  "unknown_keys raw = filter (\<lambda>k. \<not> list_ex (\<lambda>n. k = JStr n) config_fields) (map fst raw)"

definition keyword_arguments :: "(json \<times> json) list \<Rightarrow> (pystr \<times> json) list" where
  "keyword_arguments raw = map (\<lambda>(k, v). (case as_str k of Some n \<Rightarrow> n | None \<Rightarrow> [], v)) raw"

datatype document = Mapping "(json \<times> json) list" | Other_document

definition load_config ::
  "(pynum \<Rightarrow> bool res) \<Rightarrow> (json \<Rightarrow> exc) \<Rightarrow> (pystr \<Rightarrow> document res) \<Rightarrow> pystr res \<Rightarrow> runtime_config res" where
  "load_config np_isfinite np_other yaml_load text =
     rbind text (\<lambda>t.
     rbind (yaml_load t) (\<lambda>doc.
     rbind (case doc of Mapping raw \<Rightarrow> Inr raw | Other_document \<Rightarrow> Inl (VER ''configuration must be a mapping'')) (\<lambda>raw.
     let unknown = unknown_keys raw
     in rbind (guard_r (unknown = [])
                (if sortable unknown then VER ''unknown configuration keys'' else Exc TypeError ''not comparable'')) (\<lambda>_.
     except_r [TypeError] (\<lambda>_. VER ''invalid configuration'')
       (rbind (runtime_config_of (keyword_arguments raw)) (config_validate np_isfinite np_other))))))"

end
