(* ===== verification/ConfigProps.thy ===== *)
theory ConfigProps
  imports Config FloatOrder
begin

text \<open>
  The configuration: a mapping has no two equal keys, and what loads is accepted by every component that
  is built from it.
\<close>

section \<open>Unique keys\<close>

lemma add_unique_Inr:
  "add_unique build rest m = Inr m' \<Longrightarrow> sorted_wrt (\<lambda>x y. \<not> same_key (fst y) (fst x)) m \<Longrightarrow>
   \<exists>new. m' = m @ new \<and> list_all2 (\<lambda>(a, b) (k, v). build a = Inr k \<and> build b = Inr v) rest new \<and>
     sorted_wrt (\<lambda>x y. \<not> same_key (fst y) (fst x)) m' \<and> list_all (\<lambda>(k, v). hashable k) new"
proof (induction build rest m rule: add_unique.induct)
  case (2 build a b rest m)
  obtain k v where kv: "build a = Inr k" "hashable k" "list_all (\<lambda>(k', _). \<not> same_key k k') m" "build b = Inr v"
      "add_unique build rest (m @ [(k, v)]) = Inr m'"
    using "2.prems"(1) by (auto simp: rbind_Inr_iff)
  have "sorted_wrt (\<lambda>x y. \<not> same_key (fst y) (fst x)) (m @ [(k, v)])"
    using "2.prems"(2) kv(3) by (auto simp: sorted_wrt_append list_all_iff)
  from "2.IH" [OF kv(5) this]
  obtain new where "m' = (m @ [(k, v)]) @ new"
      "list_all2 (\<lambda>(a, b) (k, v). build a = Inr k \<and> build b = Inr v) rest new"
      "sorted_wrt (\<lambda>x y. \<not> same_key (fst y) (fst x)) m'" "list_all (\<lambda>(k, v). hashable k) new"
    using kv(2,3) by auto
  then show ?case using kv by (intro exI [of _ "(k, v) # new"]) simp
qed simp

text \<open>The pairs of a mapping in their order, no two with the same key.\<close>

lemma unique_mapping_distinct:
  assumes "construct_unique_mapping flatten build node = Inr m"
  shows "\<exists>pairs. flatten node = Inr pairs \<and> list_all2 (\<lambda>(a, b) (k, v). build a = Inr k \<and> build b = Inr v) pairs m \<and>
    sorted_wrt (\<lambda>x y. \<not> same_key (fst y) (fst x)) m"
  using assms add_unique_Inr [of build _ "[]" m]
  by (fastforce simp: construct_unique_mapping_def rbind_Inr_iff)

section \<open>Bounds\<close>

lemma bounded_int_Inr: "bounded_int name v lo hi = Inr i \<longleftrightarrow> v = JInt i \<and> lo \<le> i \<and> i \<le> hi"
  by (auto simp: bounded_int_def rbind_Inr_iff as_int_def split: json.splits)

lemma int_between_Inr: "int_between v lo hi e = Inr i \<longleftrightarrow> v = JInt i \<and> lo \<le> i \<and> i \<le> hi"
  by (auto simp: int_between_def rbind_Inr_iff as_int_def split: json.splits)

lemma fl_unit: "0 \<le> q \<Longrightarrow> q \<le> 1 \<Longrightarrow> 0 \<le> fl q \<and> fl q \<le> 1"
  using fl_nonneg [of q] fl_mono [of q 1] fl_int [of 1] by simp

text \<open>A decimal between 0 and 1 is a float between 0 and 1.\<close>

lemma decimal_unit:
  assumes "scale10 m k \<le> 1"
  shows "float_of_decimal False m k = Fin (fl (scale10 m k))" "0 \<le> fl (scale10 m k)" "fl (scale10 m k) \<le> 1"
proof -
  have "0 \<le> scale10 m k" by (simp add: scale10_def)
  then show u: "0 \<le> fl (scale10 m k)" "fl (scale10 m k) \<le> 1" using fl_unit assms by blast+
  have "(1::rat) < float_max_exp" by (simp add: float_max_exp_def)
  then show "float_of_decimal False m k = Fin (fl (scale10 m k))"
    using u by (simp add: float_of_decimal_def float_round_def Let_def)
qed

lemma decimal_range:
  "scale10 m k \<le> 1 \<Longrightarrow> num_le (NInt 0) (NFloat (float_of_decimal False m k)) \<and>
     num_le (NFloat (float_of_decimal False m k)) (NInt 1)"
  by (simp add: num_le_def decimal_unit)

lemma one_milli_fin: "one_milli = NFloat (Fin (fl (1 / 1000)))"
  using decimal_unit(1) [of 1 "- 3"] by (simp add: one_milli_def scale10_def)

lemma one_milli_positive: "\<not> num_le one_milli (NInt 0)"
proof -
  have "0 < fl (1 / 1000)" by code_simp
  then show ?thesis unfolding num_le_def one_milli_fin by simp
qed

lemma bounded_number_positive:
  assumes "bounded_number name v one_milli hi = Inr x"
  shows "positive_number v e = Inr x"
proof -
  obtain n where n: "as_num v = Some n" "math_isfinite n = Inr True" "num_le one_milli n" "num_to_float n = Inr x"
    using assms(1) by (auto simp: bounded_number_def rbind_Inr_iff)
  have "\<not> num_le n (NInt 0)" using n(3) one_milli_positive float_le_trans unfolding num_le_def by blast
  then show ?thesis using n by (simp add: positive_number_def)
qed

lemma bounded_number_nonneg: "bounded_number name v (NInt 0) hi = Inr x \<Longrightarrow> nonneg_number v e = Inr x"
  by (auto simp: bounded_number_def nonneg_number_def rbind_Inr_iff)

lemma bounded_number_le:
  assumes "bounded_number name v lo hi = Inr x" "\<bar>hi\<bar> < 2 ^ 53"
  shows "float_le x (Fin (of_int hi))"
proof -
  obtain n where n: "num_le n (NInt hi)" "num_to_float n = Inr x"
    using assms(1) by (auto simp: bounded_number_def rbind_Inr_iff)
  show ?thesis
  proof (cases n)
    case (NInt i)
    then have "float_of_rat (of_int i) = x" "(of_int i :: rat) \<le> of_int hi"
      using n by (auto simp: int_to_float_def Let_def num_le_def split: if_splits)
    then show ?thesis using float_of_rat_mono [of "of_int i" "of_int hi"] float_of_small_int [OF assms(2)] by simp
  qed (use n in \<open>simp add: num_le_def\<close>)
qed

lemma opt_arg_mono:
  assumes "opt_arg v f = Inr y" "\<And>x. f v = Inr x \<Longrightarrow> g v = Inr x"
  shows "opt_arg v g = Inr y"
  using assms by (auto simp: opt_arg_def rbind_Inr_iff split: if_splits)

section \<open>What loads is accepted everywhere\<close>

lemma load_config_valid:
  assumes "load_config np other yaml_load text = Inr c"
  shows "config_validate np other c = Inr c"
  using assms
  by (auto simp: load_config_def rbind_Inr_iff Let_def except_r_Inr) (auto simp: config_validate_def rbind_Inr_iff)

text \<open>The checks that the executor and the service repeat, with what they yield.\<close>

lemma valid_execution:
  assumes "config_validate np other c = Inr c"
  obtains w cap qp pol em mode et ct mem nf rl rw where
    "bounded_int ''inference_workers'' (rc_inference_workers c) 1 64 = Inr w"
    "bounded_int ''queue_capacity'' (rc_queue_capacity c) 1 100000 = Inr cap"
    "rc_queue_policy c = JStr qp" "parse_policy qp = Inr pol" "rc_execution_mode c = JStr em" "parse_mode em = Inr mode"
    "opt_arg (rc_execution_timeout_s c) (\<lambda>v. bounded_number ''execution_timeout_s'' v one_milli 3600) = Inr et"
    "mode = PROCESS \<longleftrightarrow> et \<noteq> None"
    "bounded_number ''process_control_timeout_s'' (rc_process_control_timeout_s c) one_milli 3600 = Inr ct"
    "opt_arg (rc_process_memory_limit_mb c) (\<lambda>v. bounded_int ''process_memory_limit_mb'' v 64 1048576) = Inr mem"
    "\<not> (mode = THREAD \<and> mem \<noteq> None)"
    "bounded_int ''process_nofile_limit'' (rc_process_nofile_limit c) 16 1048576 = Inr nf"
    "bounded_int ''process_restart_limit'' (rc_process_restart_limit c) 1 10000 = Inr rl"
    "bounded_number ''process_restart_window_s'' (rc_process_restart_window_s c) one_milli 86400 = Inr rw"
proof -
  have m: "(m = PROCESS \<longleftrightarrow> et \<noteq> None) \<longleftrightarrow> \<not> (m = PROCESS \<and> et = None) \<and> \<not> (m = THREAD \<and> et \<noteq> None)"
    for m and et :: "pyfloat option" by (cases m) auto
  show thesis
    using assms that unfolding m by (auto simp: config_validate_def rbind_Inr_iff as_str_def split: json.splits)
qed

lemma valid_service:
  assumes "config_validate np other c = Inr c"
  shows "\<exists>mb. rc_max_request_bytes c = JInt mb \<and> 1024 \<le> mb"
    "\<exists>x. bounded_number ''queue_deadline_s'' (rc_queue_deadline_s c) (NInt 0) 3600 = Inr x"
    "\<exists>x. bounded_number ''shutdown_timeout_s'' (rc_shutdown_timeout_s c) (NInt 0) 3600 = Inr x"
  using assms by (auto simp: config_validate_def rbind_Inr_iff bounded_int_Inr)

lemma valid_engine:
  assumes "config_validate np other c = Inr c"
  shows "\<exists>e. engine_init (rc_max_batch c) (rc_max_input_features c) (rc_max_input_values c) (rc_max_output_classes c)
      (rc_max_output_values c) = Inr e"
proof -
  have "\<exists>b f i oc ov. rc_max_batch c = JInt b \<and> 1 \<le> b \<and> rc_max_input_features c = JInt f \<and> 1 \<le> f \<and>
      rc_max_input_values c = JInt i \<and> 1 \<le> i \<and> rc_max_output_classes c = JInt oc \<and> 1 \<le> oc \<and>
      rc_max_output_values c = JInt ov \<and> 1 \<le> ov"
    using assms by (auto simp: config_validate_def rbind_Inr_iff bounded_int_Inr)
  then show ?thesis by (auto simp: engine_init_def engine_limit_def as_int_def)
qed

lemma valid_deployer:
  assumes "config_validate np other c = Inr c"
  shows "\<exists>b iso l. deployer_kwargs c = Inr (JInt b, JBool iso, l) \<and> 1024 \<le> b"
    "\<exists>p. health_policy_of np other c = Inr p \<and> policy_check np p = Inr ()"
  using assms by (auto simp: config_validate_def rbind_Inr_iff bounded_int_Inr deployer_kwargs_def as_bool_def
      split: json.splits)
    (auto simp: health_policy_of_def rbind_Inr_iff Let_def)

text \<open>The service's arguments for a configuration.\<close>

abbreviation service_args_of :: "runtime_config \<Rightarrow> pystr \<Rightarrow> pystr \<Rightarrow> service_args" where
  "service_args_of c mode key \<equiv>
     \<lparr>a_development = False, a_api_key = Some key, a_max_request_bytes = rc_max_request_bytes c,
      a_queue_deadline_s = rc_queue_deadline_s c, a_execution_mode = mode,
      a_execution_timeout_s = rc_execution_timeout_s c, a_control_timeout_s = rc_process_control_timeout_s c,
      a_memory_limit_mb = rc_process_memory_limit_mb c, a_nofile_limit = rc_process_nofile_limit c,
      a_restart_limit = rc_process_restart_limit c, a_restart_window_s = rc_process_restart_window_s c,
      a_shutdown_timeout_s = rc_shutdown_timeout_s c\<rparr>"

lemma valid_runs:
  assumes v: "config_validate np other c = Inr c" and k: "key \<noteq> []"
  obtains w cap qp pol mode x where "rc_inference_workers c = JInt w" "rc_queue_capacity c = JInt cap"
    "rc_queue_policy c = JStr qp" "parse_policy qp = Inr pol" "rc_execution_mode c = JStr mode"
    "executor_config_check (rc_inference_workers c) cap pol mode (rc_execution_timeout_s c)
       (rc_process_control_timeout_s c) (rc_process_memory_limit_mb c) (rc_process_nofile_limit c)
       (rc_process_restart_limit c) (rc_process_restart_window_s c) = Inr x"
    "create_app_check (service_args_of c mode key) = Inr ()"
proof -
  obtain w cap qp pol em mode et ct mem nf rl rw where x: "rc_inference_workers c = JInt w" "1 \<le> w" "w \<le> 64"
      "rc_queue_capacity c = JInt cap" "1 \<le> cap" "rc_queue_policy c = JStr qp" "parse_policy qp = Inr pol"
      "rc_execution_mode c = JStr em" "parse_mode em = Inr mode"
      "opt_arg (rc_execution_timeout_s c) (\<lambda>v. bounded_number ''execution_timeout_s'' v one_milli 3600) = Inr et"
      "mode = PROCESS \<longleftrightarrow> et \<noteq> None"
      "bounded_number ''process_control_timeout_s'' (rc_process_control_timeout_s c) one_milli 3600 = Inr ct"
      "opt_arg (rc_process_memory_limit_mb c) (\<lambda>v. bounded_int ''process_memory_limit_mb'' v 64 1048576) = Inr mem"
      "\<not> (mode = THREAD \<and> mem \<noteq> None)"
      "rc_process_nofile_limit c = JInt nf" "16 \<le> nf" "nf \<le> 1048576"
      "rc_process_restart_limit c = JInt rl" "1 \<le> rl" "rl \<le> 10000"
      "bounded_number ''process_restart_window_s'' (rc_process_restart_window_s c) one_milli 86400 = Inr rw"
    by (rule valid_execution [OF v]) (simp only: bounded_int_Inr; blast)
  have et: "opt_arg (rc_execution_timeout_s c) (\<lambda>v. positive_number v e) = Inr et" for e
    by (rule opt_arg_mono [OF x(10)]) (rule bounded_number_positive)
  have mem: "opt_arg (rc_process_memory_limit_mb c) (\<lambda>v. int_between v 64 1048576 e) = Inr mem" for e
    by (rule opt_arg_mono [OF x(13)]) (simp add: bounded_int_Inr int_between_Inr)
  note num = bounded_number_positive [OF x(12)] bounded_number_positive [OF x(21)]
  have rw: "float_le rw (Fin 86400)" using bounded_number_le [OF x(21)] by simp
  have ints: "int_between (JInt w) 1 64 e = Inr w" "int_between (JInt nf) 16 1048576 e = Inr nf"
      "int_between (JInt rl) 1 10000 e = Inr rl" for e
    using x by (simp_all add: int_between_Inr)
  have et': "\<not> (mode = PROCESS \<and> et = None)" "\<not> (mode = THREAD \<and> et \<noteq> None)" using x(11) by auto
  have "\<exists>y. executor_config_check (rc_inference_workers c) cap pol em (rc_execution_timeout_s c)
       (rc_process_control_timeout_s c) (rc_process_memory_limit_mb c) (rc_process_nofile_limit c)
       (rc_process_restart_limit c) (rc_process_restart_window_s c) = Inr y"
    using x(1,5,9,14,15,18) et et' mem num rw ints by (simp add: executor_config_check_def queue_init_def)
  moreover obtain mb qd st where sv: "rc_max_request_bytes c = JInt mb" "1024 \<le> mb"
      "bounded_number ''queue_deadline_s'' (rc_queue_deadline_s c) (NInt 0) 3600 = Inr qd"
      "bounded_number ''shutdown_timeout_s'' (rc_shutdown_timeout_s c) (NInt 0) 3600 = Inr st"
    using valid_service [OF v] by blast
  note nn = bounded_number_nonneg [OF sv(3)] bounded_number_nonneg [OF sv(4)]
  have od: "opt_arg (rc_queue_deadline_s c) (\<lambda>v. nonneg_number v e) =
      Inr (if rc_queue_deadline_s c = JNull then None else Some qd)" for e
    by (simp add: opt_arg_def nn)
  have "create_app_check (service_args_of c em key) = Inr ()"
    using x(9,14,15,18) k et et' mem num rw ints sv(1,2) nn od by (simp add: create_app_check_def as_int_def)
  ultimately show ?thesis using that [OF x(1,4,6,7,8)] by blast
qed


text \<open>C21: A configuration file that loads can be deployed: the engine, the executor with its queue and the
  production service accept its values, the deployer gets a model bound, a switch and qualification
  limits in their ranges, and the health policy it describes is a valid one. So no component
  refuses at its construction what the file was accepted with.\<close>

theorem loaded_config_accepted:
  assumes "load_config np other yaml_load text = Inr c" and "key \<noteq> []"
  shows "(\<exists>e. engine_init (rc_max_batch c) (rc_max_input_features c) (rc_max_input_values c) (rc_max_output_classes c)
      (rc_max_output_values c) = Inr e) \<and>
    (\<exists>cap qp pol mode x. rc_queue_capacity c = JInt cap \<and> rc_queue_policy c = JStr qp \<and> parse_policy qp = Inr pol \<and>
       rc_execution_mode c = JStr mode \<and>
       executor_config_check (rc_inference_workers c) cap pol mode (rc_execution_timeout_s c)
         (rc_process_control_timeout_s c) (rc_process_memory_limit_mb c) (rc_process_nofile_limit c)
         (rc_process_restart_limit c) (rc_process_restart_window_s c) = Inr x \<and>
       create_app_check (service_args_of c mode key) = Inr ()) \<and>
    (\<exists>b iso l. deployer_kwargs c = Inr (JInt b, JBool iso, l) \<and> 1024 \<le> b) \<and>
    (\<exists>p. health_policy_of np other c = Inr p \<and> policy_check np p = Inr ())"
proof -
  note v = load_config_valid [OF assms(1)]
  note parts = valid_engine [OF v] valid_deployer [OF v]
  show ?thesis by (rule valid_runs [OF v assms(2)]) (use parts in blast)
qed

definition sample_yaml :: "pystr \<Rightarrow> document res" where
  "sample_yaml t =
     rbind (construct_unique_mapping Inr (\<lambda>n. Inr (JStr n)) [(''deployment_root'', ''var/d''), (''registry_root'', t)])
       (\<lambda>m. Inr (Mapping m))"

lemma ascii_strip:
  assumes "ascii t" "\<forall>c \<in> set t. 32 < byte_of c"
  shows "py_strip t = t"
proof -
  have n: "\<not> is_space_cp (byte_of c)" if "c \<in> set t" for c
    using assms that by (auto simp: is_space_cp_def ascii_def)
  then have "dropWhile is_space_cp (map byte_of t) = map byte_of t"
      "dropWhile is_space_cp (rev (map byte_of t)) = rev (map byte_of t)"
    by (auto intro!: dropWhile_none)
  moreover have "concat (map (\<lambda>c. chr_str (byte_of c)) t) = t"
    using assms(1) by (induction t) (auto simp: chr_str_def utf8_encode_cp_def)
  ultimately show ?thesis using assms(1) by (simp add: py_strip_def ascii_code_points comp_def)
qed

lemma sample_texts: "py_strip ''var/d'' \<noteq> []" "py_strip ''var/r'' \<noteq> []" "py_strip ''EDGEAI_API_KEY'' \<noteq> []"
  by (subst ascii_strip; simp add: byte_of_def)+

lemma milli_below: "num_le one_milli (NFloat (Fin 5))" "num_le one_milli (NFloat (Fin 60))"
  using fl_unit [of "1 / 1000"] unfolding num_le_def one_milli_fin by simp_all

lemma default_ranges:
  "num_le (NInt 0) (NFloat (float_of_decimal False 94 (- 2)))" "num_le (NFloat (float_of_decimal False 94 (- 2))) (NInt 1)"
  "num_le (NInt 0) (NFloat (float_of_decimal False 2 (- 2)))" "num_le (NFloat (float_of_decimal False 2 (- 2))) (NInt 1)"
  "num_le (NInt 0) (NFloat (float_of_decimal False 20 (- 2)))" "num_le (NFloat (float_of_decimal False 20 (- 2))) (NInt 1)"
  using decimal_range [of _ "- 2"] by (simp_all add: scale10_def)

definition sample_config :: runtime_config where
  "sample_config =
       \<lparr>
          rc_deployment_root = JStr ''var/d'',
          rc_registry_root = JStr ''var/r'',
          rc_api_key_env = JStr ''EDGEAI_API_KEY'',
          rc_queue_capacity = JInt 64,
          rc_queue_policy = JStr ''reject'',
          rc_max_batch = JInt 128,
          rc_max_input_features = JInt 4096,
          rc_max_input_values = JInt 524288,
          rc_max_output_classes = JInt 4096,
          rc_max_output_values = JInt 262144,
          rc_max_request_bytes = JInt 8388608,
          rc_inference_workers = JInt 1,
          rc_queue_deadline_s = JFloat (Fin 1),
          rc_execution_mode = JStr ''thread'',
          rc_execution_timeout_s = JNull,
          rc_process_control_timeout_s = JFloat (Fin 5),
          rc_process_memory_limit_mb = JNull,
          rc_process_nofile_limit = JInt 64,
          rc_process_restart_limit = JInt 8,
          rc_process_restart_window_s = JFloat (Fin 60),
          rc_shutdown_timeout_s = JFloat (Fin 5),
          rc_max_model_uncompressed_bytes = JInt 268435456,
          rc_isolate_health_gate = JBool True,
          rc_health_gate_timeout_s = JFloat (Fin 30),
          rc_health_gate_memory_limit_mb = JNull,
          rc_max_validation_rows = JInt 100000,
          rc_max_validation_features = JInt 1000000,
          rc_max_validation_values = JInt 10000000,
          rc_health_benchmark_iterations = JInt 40,
          rc_health_benchmark_batch = JInt 32,
          rc_min_accuracy = decimal 94 (- 2),
          rc_max_accuracy_drop = decimal 2 (- 2),
          rc_max_ece = decimal 20 (- 2),
          rc_max_p95_latency_ms = JFloat (Fin 20),
          rc_max_rss_mb = JFloat (Fin 1024)\<rparr>"

lemma sample_built:
  "runtime_config_of [(''deployment_root'', JStr ''var/d''), (''registry_root'', JStr ''var/r'')] = Inr sample_config"
  by (simp add: runtime_config_of_def required_def setting_def sample_config_def)

lemma sample_read: "sample_yaml ''var/r'' =
    Inr (Mapping [(JStr ''deployment_root'', JStr ''var/d''), (JStr ''registry_root'', JStr ''var/r'')])"
  by (simp add: sample_yaml_def construct_unique_mapping_def hashable_def same_key_def py_eq_def)

lemma sample_qualification: "\<exists>l. qualification_limits_of sample_config = Inr l"
  by (simp add: sample_config_def num_le_def qualification_limits_of_def limits_validate_def positive_number_def as_num_def
      math_isfinite_def opt_arg_def int_between_def as_int_def)

lemma sample_policy_valid: "\<exists>p. health_policy_of (\<lambda>_. Inr True) (\<lambda>_. Exc TypeError []) sample_config = Inr p"
  by (simp add: sample_config_def health_policy_of_def policy_number_def as_num_def decimal_def policy_check_def default_ranges)
    (simp add: num_le_def)

lemma sample_numbers:
  "\<exists>x. bounded_number ''queue_deadline_s'' (JFloat (Fin 1)) (NInt 0) 3600 = Inr x"
  "\<exists>x. bounded_number ''shutdown_timeout_s'' (JFloat (Fin 5)) (NInt 0) 3600 = Inr x"
  "\<exists>x. bounded_number ''process_control_timeout_s'' (JFloat (Fin 5)) one_milli 3600 = Inr x"
  "\<exists>x. bounded_number ''process_restart_window_s'' (JFloat (Fin 60)) one_milli 86400 = Inr x"
  by (simp_all add: bounded_number_def as_num_def math_isfinite_def milli_below) (simp_all add: num_le_def)

lemma sample_config_valid: "config_validate (\<lambda>_. Inr True) (\<lambda>_. Exc TypeError []) sample_config = Inr sample_config"
proof -
  obtain q p x1 x2 x3 x4 where "qualification_limits_of sample_config = Inr q"
      "health_policy_of (\<lambda>_. Inr True) (\<lambda>_. Exc TypeError []) sample_config = Inr p"
      "bounded_number ''queue_deadline_s'' (rc_queue_deadline_s sample_config) (NInt 0) 3600 = Inr x1"
      "bounded_number ''shutdown_timeout_s'' (rc_shutdown_timeout_s sample_config) (NInt 0) 3600 = Inr x2"
      "bounded_number ''process_control_timeout_s'' (rc_process_control_timeout_s sample_config) one_milli 3600 = Inr x3"
      "bounded_number ''process_restart_window_s'' (rc_process_restart_window_s sample_config) one_milli 86400 = Inr x4"
    using sample_qualification sample_policy_valid sample_numbers unfolding sample_config_def by fastforce
  then show ?thesis
    unfolding config_validate_def
    by (simp add: sample_config_def named_text_def as_str_def bounded_int_def as_int_def parse_policy_def
        parse_mode_def opt_arg_def as_bool_def sample_texts)
qed

lemma sample_loaded:
  "load_config (\<lambda>_. Inr True) (\<lambda>_. Exc TypeError []) sample_yaml (Inr ''var/r'') = Inr sample_config"
  by (simp add: load_config_def sample_read unknown_keys_def config_fields_def keyword_arguments_def as_str_def
      sample_built sample_config_valid)

theorem loaded_config_accepted_witness:
  "\<exists>cap pol mode x.
     executor_config_check (JInt 1) cap pol mode JNull (JFloat (Fin 5)) JNull (JInt 64) (JInt 8) (JFloat (Fin 60)) = Inr x \<and>
     create_app_check (service_args_of sample_config mode ''key'') = Inr ()"
proof -
  have k: "''key'' \<noteq> ([] :: pystr)" by simp
  have f: "rc_inference_workers sample_config = JInt 1" "rc_execution_timeout_s sample_config = JNull"
      "rc_process_control_timeout_s sample_config = JFloat (Fin 5)" "rc_process_memory_limit_mb sample_config = JNull"
      "rc_process_nofile_limit sample_config = JInt 64" "rc_process_restart_limit sample_config = JInt 8"
      "rc_process_restart_window_s sample_config = JFloat (Fin 60)"
    by (simp_all add: sample_config_def)
  show ?thesis using loaded_config_accepted [OF sample_loaded k] unfolding f by blast
qed

end
