(* ===== verification/ModelIo.thy ===== *)
theory ModelIo
  imports FileSys Wire Util
begin

text \<open>
  Reading a model archive, \<^verbatim>\<open>src/src/edgeai/model_io.py\<close>: the checks of the members and of their array
  headers before NumPy allocates anything. Parameters: the ZIP reader and NumPy's header reader; the
  predicate \<open>bad_zip\<close> tells the errors of the ZIP reader that the source names.
\<close>

section \<open>The file\<close>

definition model_error :: "string \<Rightarrow> exc" where
  "model_error t = Exc ValidationError t"

definition open_regular_binary :: "fsnode option \<Rightarrow> bytes res" where
  "open_regular_binary n =
     rbind (except_r [OSErr] (\<lambda>_. model_error ''model artifact cannot be opened safely'') (open_nofollow n)) (\<lambda>m.
     of_opt (model_error ''model artifact is not a regular file'') (file_bytes m))"

text \<open>A source is a handle that the caller keeps, or a path.\<close>

datatype model_source = Handle bytes | At_path "fsnode option"

definition source_bytes :: "model_source \<Rightarrow> bytes res" where
  "source_bytes s = (case s of Handle bs \<Rightarrow> Inr bs | At_path n \<Rightarrow> open_regular_binary n)"

section \<open>Array headers\<close>

record np_dtype =
  dt_kind :: char
  dt_itemsize :: nat
  dt_hasobject :: bool
  dt_swapped :: bool

definition float32_dtype :: np_dtype where
  "float32_dtype = \<lparr>dt_kind = CHR ''f'', dt_itemsize = 4, dt_hasobject = False, dt_swapped = False\<rparr>"

definition int8_dtype :: np_dtype where
  "int8_dtype = \<lparr>dt_kind = CHR ''i'', dt_itemsize = 1, dt_hasobject = False, dt_swapped = False\<rparr>"

record array_header =
  ah_shape :: "int list"
  ah_dtype :: np_dtype
  ah_fortran_order :: bool
  ah_data_bytes :: int

text \<open>A member of the archive; \<open>'h\<close> is what the ZIP reader needs to open it.\<close>

record 'h zip_info =
  zi_filename :: pystr
  zi_flag_bits :: int
  zi_compress_type :: int
  zi_file_size :: int
  zi_handle :: 'h

record ('h, 's) archive_ops =
  ao_infolist :: "bytes \<Rightarrow> 'h zip_info list res"
  ao_open :: "'h \<Rightarrow> 's res"
  ao_bad_zip :: "exc \<Rightarrow> bool"
  np_read_magic :: "'s \<Rightarrow> (nat \<times> nat) res"
  np_read_header :: "nat \<Rightarrow> 's \<Rightarrow> (json list option \<times> bool \<times> np_dtype) res"

definition dimensions :: "json list option \<Rightarrow> int list option" where
  "dimensions shape =
     (case shape of None \<Rightarrow> None
      | Some ds \<Rightarrow> if list_all (\<lambda>d. case as_int d of Some i \<Rightarrow> 0 \<le> i | None \<Rightarrow> False) ds
                   then Some (map (\<lambda>d. case as_int d of Some i \<Rightarrow> i | None \<Rightarrow> 0) ds) else None)"

definition read_npy_header :: "('h, 's) archive_ops \<Rightarrow> 's \<Rightarrow> array_header res" where
  "read_npy_header ops s =
     rbind (recast (\<lambda>_. model_error ''invalid NPY member header'')
        (rbind (np_read_magic ops s) (\<lambda>version.
         rbind (if version = (1, 0) then Inr 1 else if version = (2, 0) then Inr 2
                else Inl (Exc ValueError ''unsupported NPY version'')) (\<lambda>reader.
         np_read_header ops reader s)))) (\<lambda>(shape, fortran_order, dtype).
     rbind (guard_r (\<not> dt_hasobject dtype) (model_error ''object dtypes are forbidden in model artifacts'')) (\<lambda>_.
     rbind (of_opt (model_error ''invalid array shape in model artifact'') (dimensions shape)) (\<lambda>dims.
     Inr \<lparr>ah_shape = dims, ah_dtype = dtype, ah_fortran_order = fortran_order,
          ah_data_bytes = prod_list dims * int (dt_itemsize dtype)\<rparr>)))"

section \<open>The archive\<close>

definition max_members :: nat where
  "max_members = 16"

definition allowed_compression :: "int list" where
  "allowed_compression = [0, 8]"

definition npy_suffix :: pystr where
  "npy_suffix = ''.npy''"

definition member_checks :: "'h zip_info \<Rightarrow> unit res" where
  "member_checks i =
     rbind (guard_r (CHR ''/'' \<notin> set (zi_filename i) \<and> CHR 0x5C \<notin> set (zi_filename i))
              (model_error ''nested NPZ members are forbidden'')) (\<lambda>_.
     rbind (guard_r (\<not> odd (zi_flag_bits i)) (model_error ''encrypted NPZ members are forbidden'')) (\<lambda>_.
     rbind (guard_r (zi_compress_type i \<in> set allowed_compression)
              (model_error ''unsupported NPZ compression method'')) (\<lambda>_.
     guard_r (1 \<le> zi_file_size i) (model_error ''empty NPZ member''))))"

fun preflight_members ::
  "('h, 's) archive_ops \<Rightarrow> int \<Rightarrow> int \<Rightarrow> 'h zip_info list \<Rightarrow> (pystr \<times> array_header) list res" where
  "preflight_members ops limit declared_total [] = Inr []"
| "preflight_members ops limit declared_total (i # infos) =
     rbind (member_checks i) (\<lambda>_.
     let total = declared_total + zi_file_size i
     in rbind (guard_r (total \<le> limit) (model_error ''model expanded size exceeds configured limit'')) (\<lambda>_.
        rbind (ao_open ops (zi_handle i)) (\<lambda>s.
        rbind (read_npy_header ops s) (\<lambda>header.
        rbind (guard_r (ah_data_bytes header \<le> zi_file_size i)
                 (model_error ''array shape exceeds NPZ member size'')) (\<lambda>_.
        rbind (preflight_members ops limit total infos) (\<lambda>rest.
        Inr ((take (length (zi_filename i) - 4) (zi_filename i), header) # rest)))))))"

definition preflight_npz ::
  "('h, 's) archive_ops \<Rightarrow> bytes \<Rightarrow> pystr list \<Rightarrow> json \<Rightarrow> (pystr \<times> array_header) list res" where
  "preflight_npz ops file expected max_uncompressed_bytes =
     rbind (of_opt (Exc ValueError ''max_uncompressed_bytes must be an integer'') (as_int max_uncompressed_bytes)) (\<lambda>limit.
     rbind (guard_r (1024 \<le> limit) (Exc ValueError ''max_uncompressed_bytes must be >= 1024'')) (\<lambda>_.
     rbind (guard_r (expected \<noteq> []) (Exc ValueError ''expected_arrays must not be empty'')) (\<lambda>_.
     recast (\<lambda>e. if isinstance e ValidationError then e
                 else if isinstance e OSErr \<or> ao_bad_zip ops e then model_error ''invalid NPZ model artifact'' else e)
       (rbind (ao_infolist ops file) (\<lambda>infos.
        let names = map zi_filename infos
        in rbind (guard_r (distinct names) (model_error ''duplicate NPZ members are forbidden'')) (\<lambda>_.
           rbind (guard_r (set names = (\<lambda>n. n @ npy_suffix) ` set expected)
                    (model_error ''unexpected or missing arrays in model artifact'')) (\<lambda>_.
           rbind (guard_r (length infos \<le> max_members) (model_error ''too many arrays in model artifact'')) (\<lambda>_.
           preflight_members ops limit 0 infos))))))))"

section \<open>Headers of a linear model\<close>

definition header_of :: "(pystr \<times> array_header) list \<Rightarrow> pystr \<Rightarrow> array_header res" where
  "header_of headers name = of_opt (Exc KeyErr name) (map_of headers name)"

definition validate_linear_headers :: "(pystr \<times> array_header) list \<Rightarrow> bool \<Rightarrow> unit res" where
  "validate_linear_headers headers quantized =
     rbind (header_of headers (if quantized then ''qW'' else ''W'')) (\<lambda>weights.
     rbind (header_of headers ''b'') (\<lambda>bias.
     rbind (header_of headers ''abi'') (\<lambda>abi.
     rbind (guard_r (length (ah_shape weights) = 2 \<and> list_all (\<lambda>d. 1 \<le> d) (ah_shape weights))
              (model_error ''model weights must be a non-empty rank-2 array'')) (\<lambda>_.
     rbind (guard_r (ah_shape bias = [ah_shape weights ! 0])
              (model_error ''model bias shape does not match output dimension'')) (\<lambda>_.
     rbind (guard_r (ah_shape abi = []) (model_error ''runtime ABI marker must be scalar'')) (\<lambda>_.
     rbind (if quantized then
              rbind (header_of headers ''scales'') (\<lambda>scales.
              rbind (guard_r (ah_dtype weights = int8_dtype) (model_error ''quantized weights must be int8'')) (\<lambda>_.
              rbind (guard_r (ah_shape scales = [ah_shape weights ! 0])
                       (model_error ''quantization scale shape does not match output dimension'')) (\<lambda>_.
              guard_r (ah_dtype scales = float32_dtype \<and> ah_dtype bias = float32_dtype)
                (model_error ''quantization scales and bias must be float32''))))
            else guard_r (ah_dtype weights = float32_dtype \<and> ah_dtype bias = float32_dtype)
                   (model_error ''float model weights and bias must be float32'')) (\<lambda>_.
     guard_r (dt_kind (ah_dtype abi) = CHR ''U'' \<or> dt_kind (ah_dtype abi) = CHR ''S'')
       (model_error ''runtime ABI marker must be a string''))))))))"

end
