(* ===== verification/Models.thy ===== *)
theory Models
  imports ModelIo
begin

unbundle bit_operations_syntax

text \<open>
  The linear runtimes, \<^verbatim>\<open>src/src/edgeai/model.py\<close> and \<^verbatim>\<open>src/src/edgeai/quantization.py\<close>. A stored
  \<^verbatim>\<open>int8\<close> weight is an 8-bit word and an accumulator of the dynamic runtime a 32-bit word, so sums wrap
  as NumPy's do. Parameters (\<open>numerics\<close>): NumPy's \<^verbatim>\<open>float32\<close> arithmetic and its conversions.
\<close>

record i8_array =
  q_shape :: "nat list"
  q_data :: "8 word list"

text \<open>
  \<open>affine x W b\<close> is \<^verbatim>\<open>x @ W.T + b\<close>; \<open>dequantized qW scales\<close> is \<^verbatim>\<open>qW.astype(np.float32) * scales[:, None]\<close>;
  \<open>row_scale\<close> is \<^verbatim>\<open>np.maximum(np.max(np.abs(row)) / 127.0, 1e-12)\<close>; \<open>rint_div x s\<close> is \<^verbatim>\<open>np.rint(x / s)\<close>, an
  integer; \<open>rescale\<close> is \<^verbatim>\<open>accum.astype(np.float32) * (xscale[:, None] * scales[None, :]) + b\<close>.
\<close>

record numerics =
  affine :: "f32_array \<Rightarrow> f32_array \<Rightarrow> f32_array \<Rightarrow> f32_array"
  dequantized :: "i8_array \<Rightarrow> f32_array \<Rightarrow> f32_array"
  row_scale :: "32 word list \<Rightarrow> 32 word"
  rint_div :: "32 word \<Rightarrow> 32 word \<Rightarrow> int"
  rescale :: "32 word list list \<Rightarrow> 32 word list \<Rightarrow> f32_array \<Rightarrow> f32_array \<Rightarrow> f32_array"

section \<open>Float models\<close>

record linear_model =
  lm_W :: f32_array
  lm_b :: f32_array

definition linear_abi :: pystr where
  "linear_abi = ''linear-v1''"

definition linear_model_of :: "f32_array \<Rightarrow> f32_array \<Rightarrow> linear_model res" where
  "linear_model_of W b =
     rbind (guard_r (length (arr_shape W) = 2 \<and> length (arr_shape b) = 1 \<and> arr_shape W ! 0 = arr_shape b ! 0)
              (model_error ''invalid linear model shape'')) (\<lambda>_.
     rbind (guard_r (1 \<le> arr_shape W ! 0 \<and> 1 \<le> arr_shape W ! 1)
              (model_error ''linear model dimensions must be non-zero'')) (\<lambda>_.
     rbind (guard_r (all_f32_finite W \<and> all_f32_finite b) (model_error ''non-finite model'')) (\<lambda>_.
     Inr \<lparr>lm_W = W, lm_b = b\<rparr>)))"

definition linear_logits :: "numerics \<Rightarrow> linear_model \<Rightarrow> f32_array \<Rightarrow> f32_array res" where
  "linear_logits np m x =
     rbind (guard_r (length (arr_shape x) = 2 \<and> arr_shape x ! 1 = arr_shape (lm_W m) ! 1)
              (model_error ''invalid input shape'')) (\<lambda>_.
     rbind (guard_r (all_f32_finite x) (model_error ''non-finite input'')) (\<lambda>_.
     Inr (affine np x (lm_W m) (lm_b m))))"

section \<open>Weight-only int8 models\<close>

record int8_model =
  im_qW :: i8_array
  im_scales :: f32_array
  im_b :: f32_array

text \<open>Greater than zero: the sign bit is clear and the rest is not zero.\<close>

definition f32_positive :: "32 word \<Rightarrow> bool" where
  "f32_positive w \<longleftrightarrow> 0 < uint w \<and> uint w < 2 ^ 31"

definition int8_model_of :: "i8_array \<Rightarrow> f32_array \<Rightarrow> f32_array \<Rightarrow> int8_model res" where
  "int8_model_of qW scales b =
     rbind (guard_r (length (q_shape qW) = 2 \<and> 1 \<le> q_shape qW ! 0 \<and> 1 \<le> q_shape qW ! 1 \<and>
                     arr_shape scales = [q_shape qW ! 0] \<and> arr_shape b = [q_shape qW ! 0])
              (model_error ''invalid int8 model'')) (\<lambda>_.
     rbind (guard_r (list_all (\<lambda>s. f32_positive s \<and> f32_finite s) (arr_data scales))
              (model_error ''invalid quantization scale'')) (\<lambda>_.
     rbind (guard_r (all_f32_finite b) (model_error ''invalid quantization bias'')) (\<lambda>_.
     Inr \<lparr>im_qW = qW, im_scales = scales, im_b = b\<rparr>)))"

definition checked_input :: "int8_model \<Rightarrow> f32_array \<Rightarrow> unit res" where
  "checked_input m x =
     guard_r (length (arr_shape x) = 2 \<and> arr_shape x ! 1 = q_shape (im_qW m) ! 1 \<and> all_f32_finite x)
       (model_error ''invalid input'')"

definition weight_only_logits :: "numerics \<Rightarrow> int8_model \<Rightarrow> f32_array \<Rightarrow> f32_array res" where
  "weight_only_logits np m x =
     rbind (checked_input m x) (\<lambda>_. Inr (affine np x (dequantized np (im_qW m) (im_scales m)) (im_b m)))"

section \<open>Dynamic int8 models\<close>

definition max_safe_int32_dot :: nat where
  "max_safe_int32_dot = (2 ^ 31 - 1) div (127 * 127)"

definition dynamic_model_of :: "i8_array \<Rightarrow> f32_array \<Rightarrow> f32_array \<Rightarrow> int8_model res" where
  "dynamic_model_of qW scales b =
     rbind (int8_model_of qW scales b) (\<lambda>m.
     rbind (guard_r (q_shape qW ! 1 \<le> max_safe_int32_dot)
              (model_error ''dynamic int8 input dimension exceeds safe int32 accumulation bound'')) (\<lambda>_. Inr m))"

text \<open>\<^verbatim>\<open>np.clip(n, -127, 127).astype(np.int8)\<close>\<close>

definition to_int8 :: "int \<Rightarrow> 8 word" where
  "to_int8 n = word_of_int (max (- 127) (min 127 n))"

fun rows :: "nat \<Rightarrow> nat \<Rightarrow> 'x list \<Rightarrow> 'x list list" where
  "rows 0 c xs = []"
| "rows (Suc n) c xs = take c xs # rows n c (drop c xs)"

text \<open>One entry of \<^verbatim>\<open>qx.astype(np.int32) @ self.qW.astype(np.int32).T\<close>.\<close>

definition int32_dot :: "8 word list \<Rightarrow> 8 word list \<Rightarrow> 32 word" where
  "int32_dot xs ws = sum_list (map2 (\<lambda>x w. scast x * scast w) xs ws)"

definition quantized_row :: "numerics \<Rightarrow> 32 word list \<Rightarrow> 8 word list" where
  "quantized_row np r = map (\<lambda>x. to_int8 (rint_div np x (row_scale np r))) r"

definition weight_rows :: "i8_array \<Rightarrow> 8 word list list" where
  "weight_rows q = rows (q_shape q ! 0) (q_shape q ! 1) (q_data q)"

definition input_rows :: "f32_array \<Rightarrow> 32 word list list" where
  "input_rows x = rows (arr_shape x ! 0) (arr_shape x ! 1) (arr_data x)"

definition accumulators :: "numerics \<Rightarrow> int8_model \<Rightarrow> f32_array \<Rightarrow> 32 word list list" where
  "accumulators np m x =
     map (\<lambda>r. map (\<lambda>w. int32_dot (quantized_row np r) w) (weight_rows (im_qW m))) (input_rows x)"

definition dynamic_logits :: "numerics \<Rightarrow> int8_model \<Rightarrow> f32_array \<Rightarrow> f32_array res" where
  "dynamic_logits np m x =
     rbind (checked_input m x) (\<lambda>_.
     Inr (rescale np (accumulators np m x) (map (row_scale np) (input_rows x)) (im_scales m) (im_b m)))"

section \<open>Quantizing\<close>

definition quantized_weights :: "numerics \<Rightarrow> f32_array \<Rightarrow> i8_array \<times> f32_array" where
  "quantized_weights np W =
     (\<lparr>q_shape = arr_shape W, q_data = concat (map (quantized_row np) (input_rows W))\<rparr>,
      \<lparr>arr_shape = [arr_shape W ! 0], arr_data = map (row_scale np) (input_rows W)\<rparr>)"

definition quantize_weights :: "numerics \<Rightarrow> linear_model \<Rightarrow> int8_model res" where
  "quantize_weights np m = (case quantized_weights np (lm_W m) of (q, s) \<Rightarrow> int8_model_of q s (lm_b m))"

definition quantize_dynamic :: "numerics \<Rightarrow> linear_model \<Rightarrow> int8_model res" where
  "quantize_dynamic np m = (case quantized_weights np (lm_W m) of (q, s) \<Rightarrow> dynamic_model_of q s (lm_b m))"

section \<open>Loading\<close>

text \<open>
  What \<^verbatim>\<open>np.load\<close> yields for an archive: its ABI marker as text and its arrays, of the types that the
  headers were checked for.
\<close>

record np_loader =
  npz_abi :: "bytes \<Rightarrow> pystr res"
  npz_f32 :: "bytes \<Rightarrow> pystr \<Rightarrow> f32_array res"
  npz_i8 :: "bytes \<Rightarrow> pystr \<Rightarrow> i8_array res"

definition linear_arrays :: "pystr list" where
  "linear_arrays = [''W'', ''b'', ''abi'']"

definition int8_arrays :: "pystr list" where
  "int8_arrays = [''qW'', ''scales'', ''b'', ''abi'']"

definition linear_load ::
  "('h, 's) archive_ops \<Rightarrow> np_loader \<Rightarrow> model_source \<Rightarrow> json \<Rightarrow> linear_model res" where
  "linear_load ops np source max_uncompressed_bytes =
     rbind (source_bytes source) (\<lambda>file.
     rbind (preflight_npz ops file linear_arrays max_uncompressed_bytes) (\<lambda>headers.
     rbind (validate_linear_headers headers False) (\<lambda>_.
     rbind (npz_abi np file) (\<lambda>abi.
     rbind (guard_r (abi = linear_abi) (model_error ''runtime ABI mismatch'')) (\<lambda>_.
     rbind (npz_f32 np file ''W'') (\<lambda>W.
     rbind (npz_f32 np file ''b'') (\<lambda>b.
     linear_model_of W b)))))))"

definition int8_load ::
  "('h, 's) archive_ops \<Rightarrow> np_loader \<Rightarrow> pystr \<Rightarrow> (i8_array \<Rightarrow> f32_array \<Rightarrow> f32_array \<Rightarrow> int8_model res) \<Rightarrow>
   model_source \<Rightarrow> json \<Rightarrow> int8_model res" where
  "int8_load ops np abi_of_class construct_model source max_uncompressed_bytes =
     rbind (source_bytes source) (\<lambda>file.
     rbind (preflight_npz ops file int8_arrays max_uncompressed_bytes) (\<lambda>headers.
     rbind (validate_linear_headers headers True) (\<lambda>_.
     rbind (npz_abi np file) (\<lambda>abi.
     rbind (guard_r (abi = abi_of_class) (model_error ''runtime ABI mismatch'')) (\<lambda>_.
     rbind (npz_i8 np file ''qW'') (\<lambda>qW.
     rbind (npz_f32 np file ''scales'') (\<lambda>scales.
     rbind (npz_f32 np file ''b'') (\<lambda>b.
     construct_model qW scales b))))))))"

definition weight_only_load :: "('h, 's) archive_ops \<Rightarrow> np_loader \<Rightarrow> model_source \<Rightarrow> json \<Rightarrow> int8_model res" where
  "weight_only_load ops np = int8_load ops np ''linear-int8-weight-v1'' int8_model_of"

definition dynamic_load :: "('h, 's) archive_ops \<Rightarrow> np_loader \<Rightarrow> model_source \<Rightarrow> json \<Rightarrow> int8_model res" where
  "dynamic_load ops np = int8_load ops np ''linear-int8-dynamic-v1'' dynamic_model_of"

end
