(* ===== verification/ModelProps.thy ===== *)
theory ModelProps
  imports Models
begin

text \<open>
  Model archives and int8 models: an archive that passes the checks makes NumPy allocate at most the
  configured size, and the accumulators of the dynamic runtime are exact for what the quantizer writes.
\<close>

section \<open>Archives\<close>

lemma read_npy_header_bytes:
  assumes "read_npy_header ops s = Inr h"
  shows "0 \<le> ah_data_bytes h"
proof -
  have h: "ah_data_bytes h = prod_list (ah_shape h) * int (dt_itemsize (ah_dtype h))"
      "\<exists>shape. dimensions shape = Some (ah_shape h)"
    using assms by (auto simp: read_npy_header_def rbind_Inr_iff)
  obtain ds where "list_all (\<lambda>d. case as_int d of Some i \<Rightarrow> 0 \<le> i | None \<Rightarrow> False) ds"
      "ah_shape h = map (\<lambda>d. case as_int d of Some i \<Rightarrow> i | None \<Rightarrow> 0) ds"
    using h(2) by (auto simp: dimensions_def split: option.splits if_splits)
  moreover have "0 \<le> prod_list (map (\<lambda>d. case as_int d of Some i \<Rightarrow> i | None \<Rightarrow> 0) ds)" using calculation(1)
    by (induction ds) (auto split: option.splits)
  ultimately have "0 \<le> prod_list (ah_shape h)" by simp
  then show ?thesis using h(1) by simp
qed

definition allocated :: "(pystr \<times> array_header) list \<Rightarrow> int" where
  "allocated headers = sum_list (map (\<lambda>(n, h). ah_data_bytes h) headers)"

lemma preflight_members_bound:
  "preflight_members ops limit t infos = Inr hs \<Longrightarrow> t \<le> limit \<Longrightarrow>
   t + allocated hs \<le> limit \<and> list_all (\<lambda>(n, h). 0 \<le> ah_data_bytes h) hs \<and>
   map fst hs = map (\<lambda>i. take (length (zi_filename i) - 4) (zi_filename i)) infos"
proof (induction ops limit t infos arbitrary: hs rule: preflight_members.induct)
  case (2 ops limit t i infos)
  obtain s h rest where p: "t + zi_file_size i \<le> limit" "ao_open ops (zi_handle i) = Inr s"
      "read_npy_header ops s = Inr h" "ah_data_bytes h \<le> zi_file_size i"
      "preflight_members ops limit (t + zi_file_size i) infos = Inr rest"
      "hs = (take (length (zi_filename i) - 4) (zi_filename i), h) # rest" "member_checks i = Inr ()"
    using "2.prems"(1) by (auto simp: rbind_Inr_iff Let_def)
  from "2.IH" [OF refl p(5,1)]
  have "t + zi_file_size i + allocated rest \<le> limit \<and> list_all (\<lambda>(n, h). 0 \<le> ah_data_bytes h) rest \<and>
      map fst rest = map (\<lambda>i. take (length (zi_filename i) - 4) (zi_filename i)) infos" .
  then show ?case using p read_npy_header_bytes [OF p(3)] by (simp add: allocated_def)
qed (simp add: allocated_def)

text \<open>C22: What an archive may make NumPy allocate. If the checks of an archive pass, it has exactly the
  expected arrays, each once and at most sixteen, and the data of all of them together, as their own
  headers declare it, is within the configured bound, whatever shapes and sizes the archive claims.\<close>

theorem preflight_bounds_allocation:
  assumes "preflight_npz ops file expected limit = Inr headers"
  shows "\<exists>n. limit = JInt n \<and> 1024 \<le> n \<and> 0 \<le> allocated headers \<and> allocated headers \<le> n \<and>
    (\<forall>(name, h) \<in> set headers. 0 \<le> ah_data_bytes h \<and> ah_data_bytes h \<le> n) \<and>
    distinct (map fst headers) \<and> set (map fst headers) = set expected \<and> length headers \<le> 16"
proof -
  obtain n infos where p: "limit = JInt n" "1024 \<le> n" "distinct (map zi_filename infos)"
      "set (map zi_filename infos) = (\<lambda>n. n @ npy_suffix) ` set expected" "length infos \<le> 16"
      "preflight_members ops n 0 infos = Inr headers"
    using assms by (auto simp: preflight_npz_def rbind_Inr_iff Let_def as_int_def max_members_def split: json.splits)
  have b: "allocated headers \<le> n" "list_all (\<lambda>(m, h). 0 \<le> ah_data_bytes h) headers"
      "map fst headers = map (\<lambda>i. take (length (zi_filename i) - 4) (zi_filename i)) infos"
    using preflight_members_bound [OF p(6)] p(2) by simp_all
  define strip where "strip = (\<lambda>f :: pystr. take (length f - 4) f)"
  have st: "strip (m @ npy_suffix) = m" for m by (simp add: strip_def npy_suffix_def)
  have fst: "map fst headers = map strip (map zi_filename infos)" by (simp add: b(3) strip_def comp_def)
  have inj: "inj_on strip (set (map zi_filename infos))" unfolding p(4) by (auto simp: inj_on_def st)
  have d: "distinct (map fst headers)" unfolding fst distinct_map using p(3) inj by (simp add: distinct_map)
  have s: "set (map fst headers) = set expected" unfolding fst set_map [of strip] p(4) by (auto simp: st image_image)
  have nonneg: "0 \<le> allocated headers \<and> (\<forall>(m, h) \<in> set headers. ah_data_bytes h \<le> allocated headers)"
    using b(2) by (induction headers) (auto simp: allocated_def)
  have "length headers \<le> 16" using p(5) arg_cong [OF fst, of length] by simp
  then show ?thesis using p(1,2) b(1,2) d s nonneg by (fastforce simp: list_all_iff)
qed

section \<open>Accumulators\<close>

definition int_dot :: "8 word list \<Rightarrow> 8 word list \<Rightarrow> int" where
  "int_dot xs ws = sum_list (map2 (\<lambda>x w. sint x * sint w) xs ws)"

lemma int32_dot_int: "int32_dot xs ws = word_of_int (int_dot xs ws)"
proof -
  have p: "scast x * scast w = (word_of_int (sint x * sint w) :: 32 word)" for x w :: "8 word"
    unfolding scast_eq by (rule wi_hom_mult)
  have "sum_list (map (\<lambda>(x, w). word_of_int (sint x * sint w)) zs) =
      (word_of_int (sum_list (map (\<lambda>(x, w). sint x * sint w) zs)) :: 32 word)" for zs :: "(8 word \<times> 8 word) list"
  proof (induction zs)
    case (Cons z zs)
    then show ?case by (cases z) (simp only: list.map sum_list.Cons prod.case Cons.IH wi_hom_add)
  qed simp
  then show ?thesis unfolding int32_dot_def int_dot_def p .
qed

lemma sint_small: "- (2 ^ 31) \<le> i \<Longrightarrow> i < 2 ^ 31 \<Longrightarrow> sint (word_of_int i :: 32 word) = i"
  by (simp add: sint_sbintrunc' signed_take_bit_int_eq_self)

definition narrow :: "8 word \<Rightarrow> bool" where
  "narrow w \<longleftrightarrow> - 127 \<le> sint w \<and> sint w \<le> 127"

lemma narrow_to_int8: "narrow (to_int8 n)"
proof -
  have "sint (word_of_int i :: 8 word) = i" if "- 128 \<le> i" "i < 128" for i
    using that by (simp add: sint_sbintrunc' signed_take_bit_int_eq_self)
  then show ?thesis by (simp add: narrow_def to_int8_def)
qed

lemma narrow_product:
  assumes "narrow x" "narrow w"
  shows "\<bar>sint x * sint w\<bar> \<le> 16129"
proof -
  have "\<bar>sint x\<bar> * \<bar>sint w\<bar> \<le> 127 * 127"
    using assms by (intro mult_mono) (auto simp: narrow_def)
  then show ?thesis by (simp add: abs_mult)
qed

lemma int_dot_bound:
  "list_all narrow xs \<Longrightarrow> list_all narrow ws \<Longrightarrow> \<bar>int_dot xs ws\<bar> \<le> int (length ws) * 16129"
proof (induction xs arbitrary: ws)
  case (Cons x xs)
  show ?case
  proof (cases ws)
    case (Cons w ws')
    then have "\<bar>int_dot xs ws'\<bar> \<le> int (length ws') * 16129" "\<bar>sint x * sint w\<bar> \<le> 16129"
      using Cons.IH [of ws'] Cons.prems narrow_product by simp_all
    then show ?thesis by (simp add: Cons int_dot_def)
  qed (simp add: int_dot_def)
qed (simp add: int_dot_def)

lemma int32_dot_exact:
  assumes "list_all narrow xs" "list_all narrow ws" "length ws \<le> max_safe_int32_dot"
  shows "sint (int32_dot xs ws) = int_dot xs ws"
proof -
  have "int (length ws) * 16129 \<le> int max_safe_int32_dot * 16129" using assms(3) by simp
  also have "\<dots> < 2 ^ 31" by (simp add: max_safe_int32_dot_def)
  finally have "\<bar>int_dot xs ws\<bar> < 2 ^ 31" using int_dot_bound [OF assms(1,2)] by linarith
  then show ?thesis unfolding int32_dot_int by (intro sint_small) auto
qed

lemma rows_lengths: "r \<in> set (rows n c xs) \<Longrightarrow> length r \<le> c \<and> set r \<subseteq> set xs"
  by (induction n c xs rule: rows.induct) (auto dest: in_set_takeD in_set_dropD)

lemma int_dot_replicate: "int_dot (replicate n x) (replicate n w) = int n * (sint x * sint w)"
  by (induction n) (simp_all add: int_dot_def algebra_simps)

text \<open>The exact accumulators, of integers.\<close>

definition exact_accumulators :: "numerics \<Rightarrow> int8_model \<Rightarrow> f32_array \<Rightarrow> int list list" where
  "exact_accumulators np m x =
     map (\<lambda>r. map (\<lambda>w. int_dot (quantized_row np r) w) (weight_rows (im_qW m))) (input_rows x)"

lemma accumulators_exact:
  assumes "dynamic_model_of qW scales b = Inr m" "list_all narrow (q_data qW)"
  shows "map (map sint) (accumulators np m x) = exact_accumulators np m x"
proof -
  have m: "im_qW m = qW" "q_shape qW ! 1 \<le> max_safe_int32_dot"
    using assms(1) by (auto simp: dynamic_model_of_def int8_model_of_def rbind_Inr_iff)
  have "sint (int32_dot (quantized_row np r) w) = int_dot (quantized_row np r) w" if "w \<in> set (weight_rows qW)" for r w
  proof (rule int32_dot_exact)
    show "list_all narrow (quantized_row np r)" by (simp add: quantized_row_def list_all_iff narrow_to_int8)
    have w: "length w \<le> q_shape qW ! 1" "set w \<subseteq> set (q_data qW)"
      using rows_lengths that unfolding weight_rows_def by blast+
    then show "list_all narrow w" "length w \<le> max_safe_int32_dot" using assms(2) m(2) by (auto simp: list_all_iff)
  qed
  then show ?thesis by (simp add: accumulators_def exact_accumulators_def m(1))
qed

text \<open>C23: The sums of the dynamic runtime. In a model that the quantizer made, every 32-bit accumulator is
  the exact dot product, for every input: the bound on the input dimension excludes wrap-around. A
  stored model, whose weights nothing keeps from being -128, is accepted at the same bound, and
  there the accumulator of a saturated row wraps to the wrong sign.\<close>

theorem dynamic_accumulation:
  shows "(quantize_dynamic np lm = Inr m \<longrightarrow> map (map sint) (accumulators np m x) = exact_accumulators np m x) \<and>
    (let n = max_safe_int32_dot; q = \<lparr>q_shape = [1, n], q_data = replicate n (- 128)\<rparr>;
         one = \<lparr>arr_shape = [1], arr_data = [1]\<rparr>
     in dynamic_model_of q one one = Inr \<lparr>im_qW = q, im_scales = one, im_b = one\<rparr> \<and>
        int_dot (replicate n 127) (replicate n (- 128)) < 0 \<and> 0 < sint (int32_dot (replicate n 127) (replicate n (- 128))))"
proof -
  have q: "map (map sint) (accumulators np m x) = exact_accumulators np m x" if "quantize_dynamic np lm = Inr m"
  proof -
    obtain q s where qs: "quantized_weights np (lm_W lm) = (q, s)" by (rule prod.exhaust)
    then have "dynamic_model_of q s (lm_b lm) = Inr m" using that by (simp add: quantize_dynamic_def)
    moreover from qs have "list_all narrow (q_data q)"
      by (auto simp: quantized_weights_def quantized_row_def list_all_iff narrow_to_int8)
    ultimately show ?thesis using accumulators_exact by blast
  qed
  define n where "n = max_safe_int32_dot"
  have n: "n = 133144" by (simp add: n_def max_safe_int32_dot_def)
  have d: "int_dot (replicate n 127) (replicate n (- 128)) = - 2164388864" by (simp add: int_dot_replicate n)
  have w: "sint (int32_dot (replicate n 127) (replicate n (- 128))) = 2130578432"
    unfolding int32_dot_int d by simp
  have k: "Suc 0 \<le> n" "n \<le> n" "f32_positive 1" "f32_finite 1"
    by (simp_all add: n f32_positive_def f32_finite_def)
  show ?thesis using q d w k unfolding n_def [symmetric]
    by (simp add: Let_def dynamic_model_of_def int8_model_of_def all_f32_finite_def n_def [symmetric])
qed

section \<open>Samples\<close>

definition sample_info :: "pystr \<Rightarrow> int zip_info" where
  "sample_info name =
     \<lparr>zi_filename = name @ npy_suffix, zi_flag_bits = 0, zi_compress_type = 8, zi_file_size = 200, zi_handle = 10\<rparr>"

text \<open>Every member holds ten floats.\<close>

definition sample_archive :: "(int, int) archive_ops" where
  "sample_archive =
     \<lparr>ao_infolist = \<lambda>_. Inr [sample_info ''W'', sample_info ''b'', sample_info ''abi''], ao_open = Inr,
      ao_bad_zip = \<lambda>_. False, np_read_magic = \<lambda>_. Inr (1, 0),
      np_read_header = \<lambda>_ n. Inr (Some [JInt n], False, float32_dtype)\<rparr>"

definition sample_headers :: "(pystr \<times> array_header) list" where
  "sample_headers =
     map (\<lambda>n. (n, \<lparr>ah_shape = [10], ah_dtype = float32_dtype, ah_fortran_order = False, ah_data_bytes = 40\<rparr>))
       [''W'', ''b'', ''abi'']"

lemma sample_preflight: "preflight_npz sample_archive [] linear_arrays (JInt 1024) = Inr sample_headers"
proof -
  have h: "read_npy_header sample_archive 10 =
      Inr \<lparr>ah_shape = [10], ah_dtype = float32_dtype, ah_fortran_order = False, ah_data_bytes = 40\<rparr>"
    by (simp add: read_npy_header_def sample_archive_def float32_dtype_def dimensions_def as_int_def)
  have c: "member_checks (sample_info n) = Inr ()" if "n \<in> {''W'', ''b'', ''abi''}" for n
    using that by (auto simp: member_checks_def sample_info_def npy_suffix_def allowed_compression_def)
  have m: "preflight_members sample_archive 1024 0 [sample_info ''W'', sample_info ''b'', sample_info ''abi''] =
      Inr sample_headers"
    using h c by (simp add: Let_def sample_headers_def) (simp add: sample_archive_def sample_info_def npy_suffix_def)
  have "ao_infolist sample_archive [] = Inr [sample_info ''W'', sample_info ''b'', sample_info ''abi'']"
    by (simp add: sample_archive_def)
  then show ?thesis using m
    by (simp add: preflight_npz_def as_int_def linear_arrays_def max_members_def Let_def)
      (simp add: sample_info_def npy_suffix_def)
qed

theorem preflight_bounds_allocation_witness:
  "0 \<le> allocated sample_headers \<and> allocated sample_headers \<le> 1024 \<and> set (map fst sample_headers) = {''W'', ''b'', ''abi''}"
  using preflight_bounds_allocation [OF sample_preflight] by (simp add: linear_arrays_def)

definition sample_numerics :: numerics where
  "sample_numerics =
     \<lparr>affine = \<lambda>x W b. x, dequantized = \<lambda>q s. s, row_scale = \<lambda>_. 1, rint_div = \<lambda>x s. uint x - 300,
      rescale = \<lambda>a s t b. b\<rparr>"

definition sample_linear :: linear_model where
  "sample_linear = \<lparr>lm_W = \<lparr>arr_shape = [1, 2], arr_data = [0, 305]\<rparr>, lm_b = \<lparr>arr_shape = [1], arr_data = [0]\<rparr>\<rparr>"

lemma sample_quantized:
  "quantize_dynamic sample_numerics sample_linear =
     Inr \<lparr>im_qW = \<lparr>q_shape = [1, 2], q_data = [to_int8 (- 300), to_int8 5]\<rparr>,
          im_scales = \<lparr>arr_shape = [1], arr_data = [1]\<rparr>, im_b = \<lparr>arr_shape = [1], arr_data = [0]\<rparr>\<rparr>"
  by (simp add: quantize_dynamic_def quantized_weights_def sample_linear_def sample_numerics_def input_rows_def
      quantized_row_def dynamic_model_of_def int8_model_of_def f32_positive_def f32_finite_def all_f32_finite_def
      max_safe_int32_dot_def)

theorem dynamic_accumulation_witness:
  "let m = \<lparr>im_qW = \<lparr>q_shape = [1, 2], q_data = [to_int8 (- 300), to_int8 5]\<rparr>,
          im_scales = \<lparr>arr_shape = [1], arr_data = [1]\<rparr>, im_b = \<lparr>arr_shape = [1], arr_data = [0]\<rparr>\<rparr>;
       x = \<lparr>arr_shape = [1, 2], arr_data = [7, 310]\<rparr>
   in map (map sint) (accumulators sample_numerics m x) = exact_accumulators sample_numerics m x"
  using dynamic_accumulation [of sample_numerics sample_linear] sample_quantized by (simp add: Let_def)

end
