(* ===== verification/Readiness.thy ===== *)
theory Readiness
  imports Engine Executor Supervisor
begin

text \<open>
  The executor with its child processes, \<^verbatim>\<open>start\<close>, \<^verbatim>\<open>ensure_ready\<close>, \<^verbatim>\<open>stats\<close> and the end of \<^verbatim>\<open>close\<close> of
  \<^verbatim>\<open>BoundedInferenceExecutor\<close> in \<^verbatim>\<open>src/src/edgeai/runtime.py\<close>: one supervisor per worker, with the counters
  and the restart budget shared by all of them.
\<close>

section \<open>The limits that the workers are given\<close>

definition limits_dict :: "ipc_limits \<Rightarrow> header" where
  "limits_dict l =
     [(''max_batch'', JInt (max_batch l)), (''max_input_features'', JInt (max_input_features l)),
      (''max_input_values'', JInt (max_input_values l)), (''max_output_classes'', JInt (max_output_classes l)),
      (''max_output_values'', JInt (max_output_values l)),
      (''max_model_transfer_bytes'', JInt (max_model_transfer_bytes l))]"

text \<open>The constructor of an executor checks them as the worker does.\<close>

definition checked_isolation_limits :: "header \<Rightarrow> ipc_limits res" where
  "checked_isolation_limits d = of_opt (VER ''engine returned invalid process-isolation limits'') (read_limits d)"

lemma limits_dict_accepted: "checked_isolation_limits (limits_dict l) = Inr l \<longleftrightarrow> limits_ok l"
  by (auto simp: checked_isolation_limits_def read_limits_def limits_dict_def required_limits_def has_fields_def
      limit_value_def jfield_Cons as_int_def limits_ok_def)

text \<open>What an engine's constructor accepts is accepted by the executor and by the worker.\<close>

lemma engine_limits_accepted:
  assumes "engine_init a b c d f = Inr e" "1 \<le> Deploy.max_model_bytes E"
  shows "checked_isolation_limits (limits_dict (isolation_limits (en_limits e) E)) = Inr (isolation_limits (en_limits e) E)"
  using assms by (auto simp: limits_dict_accepted limits_ok_def isolation_limits_def engine_init_def engine_limit_def rbind_Inr_iff)

section \<open>The pool\<close>

record 'c pool =
  members :: "'c runner list"
  shared_counters :: process_counters
  shared_budget :: budget

text \<open>An operation of one supervisor, on the shared counters and the shared budget.\<close>

definition on_member :: "nat \<Rightarrow> ('c runner, 'x) prog \<Rightarrow> ('c pool, 'x) prog" where
  "on_member i p s =
     (case p ((members s ! i)\<lparr>r_counters := shared_counters s, r_budget := shared_budget s\<rparr>) of
        (x, t) \<Rightarrow> (x, s\<lparr>members := (members s)[i := t], shared_counters := r_counters t, shared_budget := r_budget t\<rparr>))"

fun each_member :: "('c runner, unit) prog \<Rightarrow> nat list \<Rightarrow> ('c pool, unit) prog" where
  "each_member p [] = ret ()"
| "each_member p (i # is) = bind_p (on_member i p) (\<lambda>_. each_member p is)"

definition all_members :: "('c runner, unit) prog \<Rightarrow> ('c pool, unit) prog" where
  "all_members p s = each_member p [0..<length (members s)] s"

section \<open>Starting and closing\<close>

definition start_processes :: "'c host \<Rightarrow> pyfloat \<Rightarrow> ipc_limits \<Rightarrow> nat \<Rightarrow> ('c pool, unit) prog" where
  "start_processes h now l workers =
     bind_p (modify_p (\<lambda>s. s\<lparr>members := replicate workers (new_runner l (shared_counters s) (shared_budget s))\<rparr>)) (\<lambda>_.
     catch_p (all_members (runner_start h now))
       (\<lambda>e. bind_p (all_members (runner_close h)) (\<lambda>_.
            bind_p (modify_p (\<lambda>s. s\<lparr>members := []\<rparr>)) (\<lambda>_. raise_e e))))"

definition executor_begin ::
  "'c host \<Rightarrow> pyfloat \<Rightarrow> ipc_limits \<Rightarrow> execution_mode \<Rightarrow> nat \<Rightarrow> ('c pool \<times> ('p, 'q) executor, unit) prog" where
  "executor_begin h now l mode workers s =
     (case s of (po, x) \<Rightarrow>
        if mode = PROCESS \<and> \<not> x_closed x \<and> \<not> x_started x then
          (case start_processes h now l workers po of (r, po') \<Rightarrow>
             (case executor_start r workers x of (r', x') \<Rightarrow> (r', po', x')))
        else (case executor_start (Inr ()) workers x of (r', x') \<Rightarrow> (r', po, x')))"

text \<open>\<^verbatim>\<open>close\<close> before it waits; \<^verbatim>\<open>wake_all\<close> has no effect but to let the workers look again.\<close>

definition nonneg_timeout :: "json \<Rightarrow> pyfloat option res" where
  "nonneg_timeout v =
     (if v = JNull then Inr None
      else rbind (of_opt (VER ''timeout_s must be finite and >= 0'') (as_num v)) (\<lambda>n.
           rbind (math_isfinite n) (\<lambda>fin.
           rbind (guard_r (fin \<and> num_le (NInt 0) n) (VER ''timeout_s must be finite and >= 0'')) (\<lambda>_.
           rbind (num_to_float n) (\<lambda>t. Inr (Some t))))))"

definition executor_end ::
  "'c host \<Rightarrow> execution_mode \<Rightarrow> json \<Rightarrow> ('c pool \<times> ('p, 'q) executor, unit) prog" where
  "executor_end h mode timeout_s s =
     (case s of (po, x) \<Rightarrow>
        (case nonneg_timeout timeout_s of
           Inl e \<Rightarrow> (Inl e, po, x)
         | Inr _ \<Rightarrow>
             if mode = PROCESS
             then (case all_members (runner_close h) po of (r, po') \<Rightarrow> (r, po', executor_close x))
             else (Inr (), po, executor_close x)))"

text \<open>What \<^verbatim>\<open>close\<close> returns once it has waited: whether every thread has ended.\<close>

definition all_ended :: "nat \<Rightarrow> ('p, 'q) executor \<Rightarrow> bool" where
  "all_ended workers x \<longleftrightarrow> list_all (\<lambda>w. x_phase x w = Exited) [0..<workers]"

section \<open>Statistics\<close>

record executor_stats =
  es_queue :: queue_stats
  es_completed :: nat
  es_failed :: nat
  es_processes :: process_counters
  es_config :: executor_config
  es_closed :: bool
  es_restarts_in_window :: nat
  es_alive :: nat
  es_loaded :: nat
  es_protocol :: string

definition executor_stats ::
  "'c host \<Rightarrow> pyfloat \<Rightarrow> executor_config \<Rightarrow> 'c pool \<Rightarrow> ('p, 'q) executor \<Rightarrow> executor_stats \<times> 'c pool" where
  "executor_stats h now cf po x =
     (case budget_current now (shared_budget po) of (n, b) \<Rightarrow>
        (\<lparr>es_queue = stats (x_queue x), es_completed = x_completed x, es_failed = x_failed x,
          es_processes = shared_counters po, es_config = cf, es_closed = x_closed x,
          es_restarts_in_window = n, es_alive = length (filter (runner_alive h) (members po)),
          es_loaded = length (filter (\<lambda>s. r_generation s \<noteq> None) (members po)),
          es_protocol = (if cf_mode cf = PROCESS then ''raw-v1'' else ''none'')\<rparr>,
         po\<lparr>shared_budget := b\<rparr>))"

section \<open>Readiness\<close>

definition no_inputs :: f32_array where
  "no_inputs = \<lparr>arr_shape = [], arr_data = []\<rparr>"

text \<open>The snapshot to load, or none if nothing is deployed.\<close>

definition snapshot_or_none ::
  "('a, 'r) env \<Rightarrow> ('a deployer \<times> 'r engine, prepared option) prog" where
  "snapshot_or_none E =
     catch_p (bind_p (isolated_runtime_snapshot E) (\<lambda>y. ret (Some (with_inputs E y no_inputs))))
       (\<lambda>e. if isinstance e DeploymentError then ret None else raise_e e)"

definition ensure_ready ::
  "('a, 'r) env \<Rightarrow> 'c host \<Rightarrow> pyfloat \<Rightarrow> ipc_limits \<Rightarrow> executor_config \<Rightarrow>
   (('a deployer \<times> 'r engine) \<times> 'c pool \<times> ('p, 'q) executor, executor_stats) prog" where
  "ensure_ready E h now l cf s =
     (case s of (de, po, x) \<Rightarrow>
      case executor_begin h now l (cf_mode cf) (nat (cf_workers cf)) (po, x) of
        (Inl e, po1, x1) \<Rightarrow> (Inl e, de, po1, x1)
      | (Inr _, po1, x1) \<Rightarrow>
          if x_closed x1 then (Inl closed_error, de, po1, x1)
          else if cf_mode cf \<noteq> PROCESS then
            (case executor_stats h now cf po1 x1 of (st, po2) \<Rightarrow> (Inr st, de, po2, x1))
          else
            (case all_members (runner_start h now) po1 of
               (Inl e, po2) \<Rightarrow> (Inl e, de, po2, x1)
             | (Inr _, po2) \<Rightarrow>
                 (case snapshot_or_none E de of
                    (Inl e, de') \<Rightarrow> (Inl e, de', po2, x1)
                  | (Inr snapshot, de') \<Rightarrow>
                      (case (case snapshot of None \<Rightarrow> (Inr (), po2)
                                            | Some p \<Rightarrow> all_members (runner_load h now p) po2) of
                         (Inl e, po3) \<Rightarrow> (Inl e, de', po3, x1)
                       | (Inr _, po3) \<Rightarrow>
                           (case executor_stats h now cf po3 x1 of (st, po4) \<Rightarrow> (Inr st, de', po4, x1))))))"

end
