(* ===== verification/ReadinessProps.thy ===== *)
theory ReadinessProps
  imports Readiness
begin

text \<open>
  Readiness: when \<^verbatim>\<open>ensure_ready\<close> returns with a deployment, every supervisor notes that generation as
  loaded; and a start that fails costs nothing of the restart budget.
\<close>

section \<open>Over the pool\<close>

lemma on_member_run:
  assumes "on_member i p s = (x, s')" "i < length (members s)"
  obtains t where "p ((members s ! i)\<lparr>r_counters := shared_counters s, r_budget := shared_budget s\<rparr>) = (x, t)"
    "members s' = (members s)[i := t]" "shared_budget s' = r_budget t" "shared_counters s' = r_counters t"
  using assms by (auto simp: on_member_def split: prod.splits)

lemma each_member_returns:
  assumes "each_member p is s = (Inr (), s')" "list_all (\<lambda>i. i < length (members s)) is" "distinct is"
    and post: "\<And>r t. p r = (Inr (), t) \<Longrightarrow> Q t"
  shows "length (members s') = length (members s) \<and> (\<forall>i \<in> set is. Q (members s' ! i)) \<and>
    (\<forall>i. i \<notin> set is \<longrightarrow> members s' ! i = members s ! i)"
  using assms(1-3)
proof (induction "is" arbitrary: s)
  case (Cons i "is")
  obtain x s1 where m: "on_member i p s = (x, s1)" by (rule prod.exhaust)
  then have x: "x = Inr ()" and r: "each_member p is s1 = (Inr (), s')"
    using Cons.prems(1) by (cases x; simp add: bind_p_def)+
  have i: "i < length (members s)" using Cons.prems(2) by simp
  obtain t where t: "p ((members s ! i)\<lparr>r_counters := shared_counters s, r_budget := shared_budget s\<rparr>) = (x, t)"
      "members s1 = (members s)[i := t]"
    by (rule on_member_run [OF m i])
  then show ?case using Cons.IH [OF r] Cons.prems(2,3) post i x by (auto simp: list_all_iff nth_list_update)
qed (simp add: ret_def)

lemma all_members_return:
  assumes "all_members p s = (Inr (), s')" "\<And>r t. p r = (Inr (), t) \<Longrightarrow> Q t"
  shows "length (members s') = length (members s) \<and> (\<forall>t \<in> set (members s'). Q t)"
  using each_member_returns [where Q = Q, OF assms(1) [unfolded all_members_def] _ _ assms(2)]
  by (auto simp: list_all_iff in_set_conv_nth)

section \<open>Readiness\<close>

lemma runner_load_done: "runner_load h now p s = (Inr (), t) \<Longrightarrow> r_generation t = Some (p_generation p)"
  by (auto simp: runner_load_def load_reply_def read_load_reply_def or_violation_def fail_with_def bind_p_def prog_simps
      rbind_Inr_iff split: prod.splits sum.splits if_splits)

text \<open>
  When the probe returns and something is deployed, all the supervisors note the generation of the snapshot
  that was authenticated during the probe, and the statistics count them as loaded.
\<close>

lemma ready_means_loaded:
  assumes "ensure_ready E h now l cf (de, po, x) = (Inr st, de', po', x')"
    and "snapshot_or_none E de = (Inr (Some p), de')" "cf_mode cf = PROCESS"
  shows "(\<forall>t \<in> set (members po'). r_generation t = Some (p_generation p)) \<and> es_loaded st = length (members po')"
proof -
  obtain po1 x1 where b: "executor_begin h now l PROCESS (nat (cf_workers cf)) (po, x) = (Inr (), po1, x1)" "\<not> x_closed x1"
    using assms(1,3) by (auto simp: ensure_ready_def split: sum.splits prod.splits if_splits)
  obtain po2 where s: "all_members (runner_start h now) po1 = (Inr (), po2)"
    using assms(1,3) b by (auto simp: ensure_ready_def split: sum.splits prod.splits)
  obtain po3 where ld: "all_members (runner_load h now p) po2 = (Inr (), po3)"
      "executor_stats h now cf po3 x1 = (st, po')"
    using assms b s by (auto simp: ensure_ready_def split: sum.splits prod.splits)
  have g: "\<forall>t \<in> set (members po3). r_generation t = Some (p_generation p)"
    by (rule conjunct2 [OF all_members_return [where Q = "\<lambda>t. r_generation t = Some (p_generation p)", OF ld(1)]]) (rule runner_load_done)
  have "members po' = members po3" "es_loaded st = length (filter (\<lambda>s. r_generation s \<noteq> None) (members po3))"
    using ld(2) by (auto simp: executor_stats_def split: prod.splits)
  then show ?thesis using g by (metis (mono_tags, lifting) filter_True option.distinct(1))
qed

section \<open>A failed start\<close>

definition spares :: "('c runner, 'x) prog \<Rightarrow> bool" where
  "spares p \<longleftrightarrow> (\<forall>s x t. p s = (x, t) \<longrightarrow> r_budget t = r_budget s)"

lemma spares_bind: "spares p \<Longrightarrow> (\<And>x. spares (f x)) \<Longrightarrow> spares (bind_p p f)"
  by (fastforce simp: spares_def bind_p_def split: sum.splits prod.splits)

lemma spares_basic:
  "spares (ret x)" "spares (lift_r f)" "spares (gets_p g)" "spares (increment k)"
  "(\<And>s. r_budget (g s) = r_budget s) \<Longrightarrow> spares (modify_p g)"
  by (auto simp: spares_def prog_simps increment_def)

lemma spares_fail: "spares (fail_with k e)"
  by (auto simp: spares_def fail_with_def abort_def increment_def bind_p_def prog_simps)

lemma fail_budget: "fail_with k e s = (x, t) \<Longrightarrow> r_budget t = r_budget s"
  using spares_fail unfolding spares_def by blast

lemma spares_steps: "spares (receive_frame h de)" "spares (or_violation cs text r)" "spares (runner_close h)"
  unfolding spares_def
  by (auto simp: receive_frame_def or_violation_def runner_close_def abort_def modify_p_def Let_def
      split: option.splits sum.splits prod.splits if_splits dest: fail_budget)

lemma fresh_start_spares:
  assumes "\<not> ever_started s" "link s = None" "runner_start h now s = (x, t)"
  shows "r_budget t = r_budget s"
proof -
  have hs: "spares (bind_p (receive_frame h False) read_handshake)"
    unfolding read_handshake_def by (auto intro!: spares_bind spares_steps spares_fail spares_basic)
  have ln: "r_budget t' = r_budget s'" if "launch h now s' = (y, t')" "\<not> ever_started s'" for s' y t'
    using that by (auto simp: launch_def bind_p_def prog_simps increment_def split: sum.splits prod.splits)
  show ?thesis
    using assms hs ln unfolding spares_def
    by (auto simp: runner_start_def runner_alive_def bind_p_def prog_simps split: sum.splits prod.splits)
qed

lemma each_member_budget:
  assumes "each_member p is s = (x, s')" "\<forall>i \<in> set is. i < length (members s) \<and> F (members s ! i)" "distinct is"
    and step: "\<And>r c b y t. F r \<Longrightarrow> p (r\<lparr>r_counters := c, r_budget := b\<rparr>) = (y, t) \<Longrightarrow> r_budget t = b"
  shows "shared_budget s' = shared_budget s \<and> length (members s') = length (members s)"
  using assms(1-3)
proof (induction "is" arbitrary: s)
  case (Cons i "is")
  obtain y s1 where m: "on_member i p s = (y, s1)" by (rule prod.exhaust)
  have i: "i < length (members s)" using Cons.prems(2) by simp
  obtain t where t: "p ((members s ! i)\<lparr>r_counters := shared_counters s, r_budget := shared_budget s\<rparr>) = (y, t)"
      "members s1 = (members s)[i := t]" "shared_budget s1 = r_budget t"
    by (rule on_member_run [OF m i])
  have b: "shared_budget s1 = shared_budget s" using step [OF _ t(1)] Cons.prems(2) t(3) by simp
  show ?case
  proof (cases y)
    case (Inl e)
    then show ?thesis using Cons.prems(1) m b t(2) by (simp add: bind_p_def)
  next
    case (Inr u)
    then have "each_member p is s1 = (x, s')" using Cons.prems(1) m by (simp add: bind_p_def)
    moreover have "\<forall>j \<in> set is. j < length (members s1) \<and> F (members s1 ! j)"
      using Cons.prems(2,3) t(2) by (auto simp: nth_list_update)
    ultimately show ?thesis using Cons.IH [of s1] Cons.prems(3) b t(2) by simp
  qed
qed (simp add: ret_def)

lemma closes_all: "host_ok h \<Longrightarrow> fst (each_member (runner_close h) is s) = Inr ()"
  by (induction "is" arbitrary: s) (simp_all add: ret_def bind_p_def on_member_def close_ends)

text \<open>
  Children that die while the executor starts cost nothing: the supervisors are thrown away, the next request
  makes new ones, and for a new one the first process is not a restart. So the budget does not bound
  how often a backend that cannot start is started.
\<close>

lemma failed_start_free:
  assumes "start_processes h now l workers po = (Inl e, po')" and "host_ok h"
  shows "members po' = []" "shared_budget po' = shared_budget po"
proof -
  define po1 where "po1 = po\<lparr>members := replicate workers (new_runner l (shared_counters po) (shared_budget po))\<rparr>"
  obtain x po2 where st: "all_members (runner_start h now) po1 = (x, po2)" by (rule prod.exhaust)
  then obtain e1 where e1: "x = Inl e1" using assms
    by (cases x) (auto simp: start_processes_def bind_p_def modify_p_def catch_p_def po1_def)
  obtain y po3 where cl: "all_members (runner_close h) po2 = (y, po3)" by (rule prod.exhaust)
  have start: "r_budget t = b" if "\<not> ever_started r \<and> link r = None"
      "runner_start h now (r\<lparr>r_counters := c, r_budget := b\<rparr>) = (y, t)" for r c b t and y :: "unit res"
    using fresh_start_spares [of "r\<lparr>r_counters := c, r_budget := b\<rparr>", OF _ _ that(2)] that(1) by simp
  have fresh: "\<forall>i \<in> set [0..<length (members po1)]. i < length (members po1) \<and>
      \<not> ever_started (members po1 ! i) \<and> link (members po1 ! i) = None"
    by (simp add: po1_def new_runner_def)
  have "shared_budget po2 = shared_budget po1"
    by (rule conjunct1 [OF each_member_budget [where F = "\<lambda>r. \<not> ever_started r \<and> link r = None",
        OF st [unfolded all_members_def] fresh distinct_upt]]) (rule start)
  then have b2: "shared_budget po2 = shared_budget po" by (simp add: po1_def)
  have close: "r_budget t = b" if "runner_close h (r\<lparr>r_counters := c, r_budget := b\<rparr>) = (y, t)" for r c b t and y :: "unit res"
    using spares_steps(3) [of h] that unfolding spares_def by fastforce
  have b3: "shared_budget po3 = shared_budget po2"
    by (rule conjunct1 [OF each_member_budget [where F = "\<lambda>_. True", OF cl [unfolded all_members_def] _ distinct_upt]])
      (simp, rule close)
  have cl_ok: "y = Inr ()"
    using closes_all [OF assms(2), of "[0..<length (members po2)]" po2] cl by (simp add: all_members_def)
  have "start_processes h now l workers po = (Inl e1, po3\<lparr>members := []\<rparr>)"
    using st e1 cl cl_ok
    by (simp add: start_processes_def bind_p_def modify_p_def catch_p_def po1_def [symmetric] raise_e_def)
  then show "members po' = []" "shared_budget po' = shared_budget po"
    using assms(1) b2 b3 by simp_all
qed

end
