(* ===== verification/Sandbox.thy ===== *)
theory Sandbox
  imports Util
begin

text \<open>
  Process hardening, \<^verbatim>\<open>src/src/edgeai/sandbox.py\<close>: what is left of the environment, the resource limits and
  the privileges of a worker before it loads a model. Parameter: whether the kernel grants a change.
\<close>

section \<open>A process\<close>

datatype rlimit = CORE | NOFILE | AS

text \<open>Soft and hard limits; none is \<^verbatim>\<open>RLIM_INFINITY\<close>.\<close>

type_synonym limit_pair = "int option \<times> int option"

record process =
  environment :: "(string \<times> string) list"
  rlimits :: "rlimit \<Rightarrow> limit_pair"
  no_new_privs :: bool

text \<open>The kernel: the error of a refused \<^verbatim>\<open>setrlimit\<close> or \<^verbatim>\<open>prctl\<close>, and the platform.\<close>

record kernel =
  k_setrlimit :: "rlimit \<Rightarrow> limit_pair \<Rightarrow> process \<Rightarrow> exc option"
  k_prctl :: "process \<Rightarrow> exc option"
  k_linux :: bool

definition setrlimit :: "kernel \<Rightarrow> rlimit \<Rightarrow> limit_pair \<Rightarrow> (process, unit) prog" where
  "setrlimit k r l p =
     (case k_setrlimit k r l p of Some e \<Rightarrow> (Inl e, p) | None \<Rightarrow> (Inr (), p\<lparr>rlimits := (rlimits p)(r := l)\<rparr>))"

section \<open>Arguments\<close>

definition at_least :: "string \<Rightarrow> json \<Rightarrow> int \<Rightarrow> int option res" where
  "at_least name v minimum =
     (if v = JNull then Inr None
      else rbind (of_opt (Exc ValueError (name @ '' must be an integer'')) (as_int v)) (\<lambda>i.
           rbind (guard_r (minimum \<le> i) (Exc ValueError (name @ '' is too small''))) (\<lambda>_. Inr (Some i))))"

definition boolean_arg :: "string \<Rightarrow> json \<Rightarrow> bool res" where
  "boolean_arg name v = (case v of JBool b \<Rightarrow> Inr b | _ \<Rightarrow> Inl (Exc ValueError (name @ '' must be boolean'')))"

section \<open>Hardening\<close>

definition set_no_new_privs :: "kernel \<Rightarrow> (process, unit) prog" where
  "set_no_new_privs k =
     bind_p (guard_p (\<lambda>_. k_linux k) (Exc RuntimeError ''no_new_privs hardening requires Linux'')) (\<lambda>_ p.
     (case k_prctl k p of Some e \<Rightarrow> (Inl e, p) | None \<Rightarrow> (Inr (), p\<lparr>no_new_privs := True\<rparr>)))"

definition lower_nofile :: "kernel \<Rightarrow> int \<Rightarrow> (process, unit) prog" where
  "lower_nofile k limit p =
     (let hard = (case snd (rlimits p NOFILE) of None \<Rightarrow> limit | Some h \<Rightarrow> min limit h);
          soft = min limit hard
      in setrlimit k NOFILE (Some soft, Some hard) p)"

definition apply_process_sandbox ::
  "kernel \<Rightarrow> json \<Rightarrow> json \<Rightarrow> json \<Rightarrow> json \<Rightarrow> (process, unit) prog" where
  "apply_process_sandbox k memory_limit_bytes nofile_limit clear_environment no_new_privs_arg =
     bind_p (lift_r (\<lambda>_. at_least ''memory_limit_bytes'' memory_limit_bytes 1)) (\<lambda>memory.
     bind_p (lift_r (\<lambda>_. at_least ''nofile_limit'' nofile_limit 16)) (\<lambda>nofile.
     bind_p (lift_r (\<lambda>_. boolean_arg ''clear_environment'' clear_environment)) (\<lambda>clear.
     bind_p (lift_r (\<lambda>_. boolean_arg ''no_new_privs'' no_new_privs_arg)) (\<lambda>nnp.
     bind_p (if clear then modify_p (\<lambda>p. p\<lparr>environment := []\<rparr>) else ret ()) (\<lambda>_.
     bind_p (setrlimit k CORE (Some 0, Some 0)) (\<lambda>_.
     bind_p (case nofile of None \<Rightarrow> ret () | Some n \<Rightarrow> lower_nofile k n) (\<lambda>_.
     bind_p (case memory of None \<Rightarrow> ret () | Some m \<Rightarrow> setrlimit k AS (Some m, Some m)) (\<lambda>_.
     if nnp then set_no_new_privs k else ret ()))))))))"

section \<open>What a hardened process has\<close>

definition at_most :: "int \<Rightarrow> int option \<Rightarrow> bool" where
  "at_most n l \<longleftrightarrow> (case l of None \<Rightarrow> False | Some i \<Rightarrow> i \<le> n)"

lemma setrlimit_done:
  "setrlimit k r l p = (Inr u, p') \<Longrightarrow> p' = p\<lparr>rlimits := (rlimits p)(r := l)\<rparr>"
  by (simp add: setrlimit_def split: option.splits)

lemma at_least_Inr:
  "at_least name v m = Inr x \<longleftrightarrow> v = JNull \<and> x = None \<or> (\<exists>i. v = JInt i \<and> m \<le> i \<and> x = Some i)"
  by (auto simp: at_least_def rbind_Inr_iff as_int_def split: json.splits)

lemma set_no_new_privs_done:
  "set_no_new_privs k p = (Inr u, p') \<Longrightarrow> p' = p\<lparr>no_new_privs := True\<rparr>"
  by (auto simp: set_no_new_privs_def bind_p_def guard_p_def split: option.splits if_splits)

text \<open>
  A worker whose hardening returned has no environment, no core files, no more file descriptors than it
  was given nor than it had, its memory bound and no way to more privileges.
\<close>

lemma hardened:
  assumes "apply_process_sandbox k memory (JInt n) (JBool True) (JBool True) p = (Inr u, p')"
  shows "environment p' = []" "rlimits p' CORE = (Some 0, Some 0)" "no_new_privs p'"
    "at_most n (fst (rlimits p' NOFILE))" "at_most n (snd (rlimits p' NOFILE))"
    "snd (rlimits p NOFILE) = Some h \<Longrightarrow> at_most h (snd (rlimits p' NOFILE))"
    "memory = JInt m \<Longrightarrow> rlimits p' AS = (Some m, Some m)" "memory = JNull \<Longrightarrow> rlimits p' AS = rlimits p AS"
proof -
  obtain mem where a: "at_least ''memory_limit_bytes'' memory 1 = Inr mem" "16 \<le> n"
    using assms by (cases "at_least ''memory_limit_bytes'' memory 1"; cases "at_least ''nofile_limit'' (JInt n) 16")
      (auto simp: apply_process_sandbox_def bind_p_def lift_r_def at_least_Inr)
  have nf: "at_least ''nofile_limit'' (JInt n) 16 = Inr (Some n)" using a(2) by (simp add: at_least_Inr)
  define p1 where "p1 = p\<lparr>environment := []\<rparr>"
  define h1 where "h1 = (case snd (rlimits p NOFILE) of None \<Rightarrow> n | Some h \<Rightarrow> min n h)"
  define p2 where "p2 = p1\<lparr>rlimits := (rlimits p)(CORE := (Some 0, Some 0), NOFILE := (Some (min n h1), Some h1))\<rparr>"
  define p3 where "p3 = (case mem of None \<Rightarrow> p2 | Some m \<Rightarrow> p2\<lparr>rlimits := (rlimits p2)(AS := (Some m, Some m))\<rparr>)"
  have "p' = p3\<lparr>no_new_privs := True\<rparr>"
    using assms a nf
    by (auto simp: apply_process_sandbox_def bind_p_def lift_r_def boolean_arg_def modify_p_def lower_nofile_def Let_def
        ret_def p1_def h1_def p2_def p3_def fun_upd_twist
        split: sum.splits prod.splits option.splits dest!: setrlimit_done set_no_new_privs_done)
  then show "environment p' = []" "rlimits p' CORE = (Some 0, Some 0)" "no_new_privs p'"
    "at_most n (fst (rlimits p' NOFILE))" "at_most n (snd (rlimits p' NOFILE))"
    "snd (rlimits p NOFILE) = Some h \<Longrightarrow> at_most h (snd (rlimits p' NOFILE))"
    "memory = JInt m \<Longrightarrow> rlimits p' AS = (Some m, Some m)" "memory = JNull \<Longrightarrow> rlimits p' AS = rlimits p AS"
    using a(1) by (auto simp: p1_def p2_def p3_def h1_def at_most_def at_least_Inr split: option.splits)
qed

end
