(* ===== verification/Datasets.thy ===== *)
theory Datasets
  imports Registry
begin

unbundle bit_operations_syntax

text \<open>
  Acquiring the public data set, \<^verbatim>\<open>src/src/edgeai/datasets.py\<close>: the checks of the archive, the bounded
  download, the replacement of the destination as a whole, and the checks of what is loaded. Parameters:
  the network, the ZIP reader, \<^verbatim>\<open>np.loadtxt\<close>, the hash and the clock's text.
\<close>

section \<open>The archive\<close>

definition data_error :: "string \<Rightarrow> exc" where
  "data_error t = Exc ValidationError t"

record dataset_spec =
  ds_texts :: "(pystr \<times> json) list"
  max_download_bytes :: int
  max_uncompressed_bytes :: int

record 'h archive_member =
  am_filename :: pystr
  am_external_attr :: int
  am_file_size :: int
  am_handle :: 'h

fun split_slash :: "pystr \<Rightarrow> pystr \<Rightarrow> pystr list" where
  "split_slash part [] = [part]"
| "split_slash part (c # cs) = (if c = CHR ''/'' then part # split_slash [] cs else split_slash (part @ [c]) cs)"

definition unsafe_path :: "pystr \<Rightarrow> bool" where
  "unsafe_path name \<longleftrightarrow> take 1 name = ''/'' \<or> ''..'' \<in> set (split_slash [] name)"

definition posix_name :: "pystr \<Rightarrow> pystr" where
  "posix_name name = map (\<lambda>c. if c = CHR 0x5C then CHR ''/'' else c) name"

definition symlink_bits :: "int \<Rightarrow> bool" where
  "symlink_bits attr \<longleftrightarrow> drop_bit 16 attr AND 0xF000 = 0xA000"

fun safe_zip_members ::
  "int \<Rightarrow> int \<Rightarrow> (pystr \<times> 'h archive_member) list \<Rightarrow> 'h archive_member list \<Rightarrow> (pystr \<times> 'h archive_member) list res" where
  "safe_zip_members limit sofar infos [] = Inr infos"
| "safe_zip_members limit sofar infos (m # ms) =
     (let name = posix_name (am_filename m); size = sofar + am_file_size m
      in rbind (guard_r (\<not> unsafe_path name) (data_error ''dataset archive contains an unsafe path'')) (\<lambda>_.
         rbind (guard_r (\<not> symlink_bits (am_external_attr m)) (data_error ''dataset archive contains a symlink'')) (\<lambda>_.
         rbind (guard_r (0 \<le> am_file_size m) (data_error ''dataset archive contains an invalid member size'')) (\<lambda>_.
         rbind (guard_r (size \<le> limit) (data_error ''dataset archive exceeds uncompressed size limit'')) (\<lambda>_.
         rbind (guard_r (name \<notin> set (map fst infos)) (data_error ''dataset archive contains duplicate members'')) (\<lambda>_.
         safe_zip_members limit size (infos @ [(name, m)]) ms))))))"

section \<open>The download\<close>

fun copy_limited :: "int \<Rightarrow> bytes \<Rightarrow> bytes res list \<Rightarrow> bytes res" where
  "copy_limited max_bytes copied [] = Inr copied"
| "copy_limited max_bytes copied (chunk # chunks) =
     rbind chunk (\<lambda>c.
     if c = [] then Inr copied
     else rbind (guard_r (int (length (copied @ c)) \<le> max_bytes)
                   (data_error ''dataset download exceeds configured size limit'')) (\<lambda>_.
          copy_limited max_bytes (copied @ c) chunks))"

definition check_content_length :: "(pystr \<Rightarrow> int option) \<Rightarrow> int \<Rightarrow> pystr option \<Rightarrow> unit res" where
  "check_content_length py_int limit content_length =
     (case content_length of None \<Rightarrow> Inr ()
      | Some t \<Rightarrow> rbind (of_opt (data_error ''dataset source returned invalid Content-Length'') (py_int t)) (\<lambda>declared.
          guard_r (declared \<le> limit) (data_error ''dataset source exceeds configured download size limit'')))"

section \<open>The destination\<close>

text \<open>Nothing, a directory with its files by relative path, or something else.\<close>

datatype destination = Absent | Dataset "pystr \<rightharpoonup> bytes" | Not_a_dataset

definition provenance_name :: pystr where
  "provenance_name = ''provenance.json''"

definition dataset_complete :: "pystr list \<Rightarrow> destination \<Rightarrow> bool" where
  "dataset_complete required d \<longleftrightarrow>
     (case d of Dataset files \<Rightarrow> list_all (\<lambda>n. files n \<noteq> None) (provenance_name # required) | _ \<Rightarrow> False)"

definition write_provenance :: "dataset_spec \<Rightarrow> pystr \<Rightarrow> int \<Rightarrow> pystr \<Rightarrow> bytes res" where
  "write_provenance spec retrieved source_bytes source_sha256 =
     rbind (canonical_json_bytes (JObj (ds_texts spec @
        [(''retrieved_utc'', JStr retrieved), (''source_bytes'', JInt source_bytes),
         (''source_sha256'', JStr source_sha256)]))) (\<lambda>bs. Inr (bs @ [newline]))"

record 'h zip_reader =
  zr_members :: "bytes \<Rightarrow> 'h archive_member list res"
  zr_read :: "'h \<Rightarrow> bytes res"
  zr_bad_zip :: "exc \<Rightarrow> bool"

fun extract_required ::
  "('h \<Rightarrow> bytes res) \<Rightarrow> (pystr \<times> 'h archive_member) list \<Rightarrow> (pystr \<times> pystr) list \<Rightarrow> (pystr \<rightharpoonup> bytes) res" where
  "extract_required rd infos [] = Inr Map.empty"
| "extract_required rd infos ((upstream, relative) # req) =
     rbind (of_opt (Exc KeyErr upstream) (map_of infos upstream)) (\<lambda>m.
     rbind (rd (am_handle m)) (\<lambda>bs.
     rbind (extract_required rd infos req) (\<lambda>files. Inr (files(relative \<mapsto> bs)))))"

definition unpack_dataset ::
  "'h zip_reader \<Rightarrow> dataset_spec \<Rightarrow> (pystr \<times> pystr) list \<Rightarrow> bytes \<Rightarrow> (pystr \<rightharpoonup> bytes) res" where
  "unpack_dataset zr spec required archive =
     recast (\<lambda>e. if zr_bad_zip zr e then data_error ''dataset source is not a valid ZIP archive'' else e)
       (rbind (zr_members zr archive) (\<lambda>ms.
        rbind (safe_zip_members (max_uncompressed_bytes spec) 0 [] ms) (\<lambda>infos.
        rbind (guard_r (list_all (\<lambda>(u, r). u \<in> set (map fst infos)) required)
                 (data_error ''dataset archive missing required members'')) (\<lambda>_.
        extract_required (zr_read zr) infos required))))"

text \<open>
  The network's answer is its declared length and its chunks. Removing the old destination may fail and
  leave anything; renaming may fail.
\<close>

record acquisition =
  aq_response :: "(pystr option \<times> bytes res list) res"
  aq_retrieved :: pystr
  aq_rmtree :: "(exc \<times> destination) option"
  aq_rename :: "exc option"

definition acquired ::
  "ext \<Rightarrow> (pystr \<Rightarrow> int option) \<Rightarrow> 'h zip_reader \<Rightarrow> dataset_spec \<Rightarrow> (pystr \<times> pystr) list \<Rightarrow> acquisition \<Rightarrow>
   (pystr \<rightharpoonup> bytes) res" where
  "acquired x py_int zr spec required a =
     rbind (aq_response a) (\<lambda>(content_length, chunks).
     rbind (check_content_length py_int (max_download_bytes spec) content_length) (\<lambda>_.
     rbind (copy_limited (max_download_bytes spec) [] chunks) (\<lambda>archive.
     rbind (unpack_dataset zr spec required archive) (\<lambda>files.
     rbind (write_provenance spec (aq_retrieved a) (int (length archive)) (sha256_hex x archive)) (\<lambda>p.
     Inr (files(provenance_name \<mapsto> p)))))))"

definition fetch_uci_har ::
  "ext \<Rightarrow> (pystr \<Rightarrow> int option) \<Rightarrow> 'h zip_reader \<Rightarrow> dataset_spec \<Rightarrow> (pystr \<times> pystr) list \<Rightarrow> acquisition \<Rightarrow> bool \<Rightarrow>
   (destination, unit) prog" where
  "fetch_uci_har x py_int zr spec required a force d =
     (if d \<noteq> Absent \<and> \<not> force then
        (if dataset_complete (map snd required) d then Inr ()
         else Inl (data_error ''dataset destination exists but is incomplete; use force=True to replace it''), d)
      else case acquired x py_int zr spec required a of
             Inl e \<Rightarrow> (Inl e, d)
           | Inr files \<Rightarrow>
               (case (if d = Absent then None else aq_rmtree a) of
                  Some (e, rest) \<Rightarrow> (Inl e, rest)
                | None \<Rightarrow> (case aq_rename a of Some e \<Rightarrow> (Inl e, Absent) | None \<Rightarrow> (Inr (), Dataset files))))"

section \<open>Loading\<close>

record har_arrays =
  x_train_shape :: "nat list"
  x_test_shape :: "nat list"
  x_finite :: bool
  y_train_raw :: "int list"
  y_test_raw :: "int list"
  train_subjects :: "int list"
  test_subjects :: "int list"

definition check_har :: "har_arrays \<Rightarrow> (int list \<times> int list) res" where
  "check_har h =
     rbind (guard_r (length (x_train_shape h) = 2 \<and> length (x_test_shape h) = 2 \<and> x_train_shape h ! 1 = x_test_shape h ! 1)
              (data_error ''UCI HAR feature matrices have inconsistent shapes'')) (\<lambda>_.
     rbind (guard_r (x_train_shape h ! 1 = 561)
              (data_error ''UCI HAR feature count differs from the qualified 561-feature schema'')) (\<lambda>_.
     rbind (guard_r (x_finite h) (data_error ''UCI HAR features contain non-finite values'')) (\<lambda>_.
     rbind (guard_r (x_train_shape h ! 0 = length (y_train_raw h) \<and> x_train_shape h ! 0 = length (train_subjects h))
              (data_error ''UCI HAR training rows are inconsistent'')) (\<lambda>_.
     rbind (guard_r (x_test_shape h ! 0 = length (y_test_raw h) \<and> x_test_shape h ! 0 = length (test_subjects h))
              (data_error ''UCI HAR test rows are inconsistent'')) (\<lambda>_.
     rbind (guard_r (list_all (\<lambda>s. s \<notin> set (test_subjects h)) (train_subjects h))
              (data_error ''UCI HAR subject split is not disjoint'')) (\<lambda>_.
     rbind (guard_r (set (y_train_raw h @ y_test_raw h) = set [1..6])
              (data_error ''UCI HAR activity labels differ from expected 1..6 schema'')) (\<lambda>_.
     Inr (map (\<lambda>y. y - 1) (y_train_raw h), map (\<lambda>y. y - 1) (y_test_raw h)))))))))"

section \<open>What holds of them\<close>

lemma safe_zip_members_Inr:
  "safe_zip_members limit sofar infos ms = Inr r \<Longrightarrow> distinct (map fst infos) \<Longrightarrow> sofar \<le> limit \<Longrightarrow>
   \<exists>new. r = infos @ new \<and> distinct (map fst r) \<and> list_all (\<lambda>(n, m). \<not> unsafe_path n \<and> \<not> symlink_bits (am_external_attr m)) new \<and>
     sofar + sum_list (map (\<lambda>(n, m). am_file_size m) new) \<le> limit"
proof (induction limit sofar infos ms rule: safe_zip_members.induct)
  case (2 limit sofar infos m ms)
  let ?n = "posix_name (am_filename m)"
  have c: "\<not> unsafe_path ?n" "\<not> symlink_bits (am_external_attr m)" "sofar + am_file_size m \<le> limit"
      "?n \<notin> set (map fst infos)" "safe_zip_members limit (sofar + am_file_size m) (infos @ [(?n, m)]) ms = Inr r"
    using "2.prems"(1) by (auto simp: Let_def rbind_Inr_iff)
  have "distinct (map fst (infos @ [(?n, m)]))" using "2.prems"(2) c(4) by simp
  then obtain new where "r = (infos @ [(?n, m)]) @ new" "distinct (map fst r)"
      "list_all (\<lambda>(n, m). \<not> unsafe_path n \<and> \<not> symlink_bits (am_external_attr m)) new"
      "sofar + am_file_size m + sum_list (map (\<lambda>(n, m). am_file_size m) new) \<le> limit"
    using "2.IH" [OF refl refl c(5) _ c(3)] by blast
  then show ?case using c(1,2) by (intro exI [of _ "(?n, m) # new"]) simp
qed simp

lemma copy_limited_Inr:
  "copy_limited mx copied chunks = Inr bs \<Longrightarrow> int (length copied) \<le> mx \<Longrightarrow>
   int (length bs) \<le> mx \<and> (\<exists>n. bs = copied @ concat (map (\<lambda>c. case c of Inr b \<Rightarrow> b | Inl _ \<Rightarrow> []) (take n chunks)))"
proof (induction mx copied chunks rule: copy_limited.induct)
  case (2 mx copied chunk chunks)
  obtain c where c: "chunk = Inr c" using "2.prems"(1) by (cases chunk) auto
  show ?case
  proof (cases "c = []")
    case True
    then show ?thesis using "2.prems" c by (auto intro: exI [of _ 0])
  next
    case False
    have "int (length (copied @ c)) \<le> mx" "copy_limited mx (copied @ c) chunks = Inr bs"
      using "2.prems"(1) c False by (auto simp: rbind_Inr_iff)
    from "2.IH" [OF False this(2,1)] obtain n where
      "int (length bs) \<le> mx" "bs = (copied @ c) @ concat (map (\<lambda>c. case c of Inr b \<Rightarrow> b | Inl _ \<Rightarrow> []) (take n chunks))"
      by auto
    then show ?thesis using c by (intro conjI exI [of _ "Suc n"]) simp_all
  qed
qed (auto intro: exI [of _ 0])

lemma extract_required_complete:
  "extract_required rd infos req = Inr files \<Longrightarrow> list_all (\<lambda>(u, r). files r \<noteq> None) req"
  by (induction rd infos req arbitrary: files rule: extract_required.induct)
     (auto simp: rbind_Inr_iff list_all_iff)

text \<open>
  The destination as a whole. Without force an existing one is never touched. A fetch that returns leaves a
  complete data set. One that fails before the old destination is removed leaves it as it was; after
  that, the destination may be gone.
\<close>

lemma fetch_whole:
  assumes "fetch_uci_har x py_int zr spec required a force d = (r, d')"
  shows "d \<noteq> Absent \<Longrightarrow> \<not> force \<Longrightarrow> d' = d"
    "r = Inr () \<Longrightarrow> dataset_complete (map snd required) d'"
    "aq_rmtree a = None \<Longrightarrow> r \<noteq> Inr () \<Longrightarrow> d' = d \<or> d' = Absent \<and> aq_rename a \<noteq> None"
proof -
  have c: "dataset_complete (map snd required) (Dataset files)" if ok: "acquired x py_int zr spec required a = Inr files" for files
  proof -
    obtain archive fs p where "unpack_dataset zr spec required archive = Inr fs" "files = fs(provenance_name \<mapsto> p)"
      using ok by (auto simp: acquired_def rbind_Inr_iff)
    moreover from this(1) have "list_all (\<lambda>(u, r). fs r \<noteq> None) required"
      by (auto simp: unpack_dataset_def rbind_Inr_iff dest: extract_required_complete)
    ultimately show ?thesis by (auto simp: dataset_complete_def list_all_iff)
  qed
  show "d \<noteq> Absent \<Longrightarrow> \<not> force \<Longrightarrow> d' = d" using assms by (auto simp: fetch_uci_har_def)
  show "r = Inr () \<Longrightarrow> dataset_complete (map snd required) d'"
    using assms c by (auto simp: fetch_uci_har_def split: if_splits sum.splits option.splits)
  show "aq_rmtree a = None \<Longrightarrow> r \<noteq> Inr () \<Longrightarrow> d' = d \<or> d' = Absent \<and> aq_rename a \<noteq> None"
    using assms by (auto simp: fetch_uci_har_def split: if_splits sum.splits option.splits)
qed

lemma check_har_Inr:
  assumes "check_har h = Inr (ytr, yte)"
  shows "set ytr \<subseteq> {0..5}" "length ytr = x_train_shape h ! 0" "length yte = x_test_shape h ! 0"
    "set (train_subjects h) \<inter> set (test_subjects h) = {}"
proof -
  have "set (y_train_raw h) \<subseteq> {1..6}" "ytr = map (\<lambda>y. y - 1) (y_train_raw h)"
    using assms by (auto simp: check_har_def rbind_Inr_iff)
  then show "set ytr \<subseteq> {0..5}" by fastforce
qed (use assms in \<open>auto simp: check_har_def rbind_Inr_iff list_all_iff\<close>)

end
