(* ===== verification/Spec2Isabelle.thy ===== *)
theory Spec2Isabelle
  imports DeployProps IpcProps SocketFrames InferenceQueue RequestTask RunnerProps RestartBudget Supervisor ExecutorProps Service QualificationProps TelemetryProps EngineProps ConfigProps ModelProps ReadinessProps Sandbox Datasets
begin

text \<open>
  A verification development for EdgeFort AI, the Python package under \<^verbatim>\<open>src/src/edgeai\<close>: a runtime that
  deploys signed model releases on a device and answers prediction requests from them.

  \<^bold>\<open>The program.\<close> A release is a model file with a signed manifest (\<^verbatim>\<open>artifact.py\<close>), kept in an immutable
  registry of directories (\<^verbatim>\<open>registry.py\<close>). The deployer (\<^verbatim>\<open>deploy.py\<close>) copies it into one of two slots,
  lets the health gate (\<^verbatim>\<open>health.py\<close>, in a process of its own: \<^verbatim>\<open>qualification.py\<close>) measure it, advances
  an external monotonic floor against rollback (\<^verbatim>\<open>rollback_anchor.py\<close>) and commits a state file; a journal
  lets it recover at the next start. The engine (\<^verbatim>\<open>engine.py\<close>) caches what is active and checks inputs and
  outputs; the executor (\<^verbatim>\<open>runtime.py\<close>) queues requests for a fixed set of workers, which call the engine
  in a thread or a child process over framed messages (\<^verbatim>\<open>ipc.py\<close>); the service (\<^verbatim>\<open>service.py\<close>) puts HTTP in
  front. Beside them are the model formats (\<^verbatim>\<open>model_io.py\<close>, \<^verbatim>\<open>model.py\<close>, \<^verbatim>\<open>quantization.py\<close>), the configuration
  (\<^verbatim>\<open>config.py\<close>), the hardening of processes (\<^verbatim>\<open>sandbox.py\<close>) and the telemetry spool (\<^verbatim>\<open>telemetry.py\<close>).

  \<^bold>\<open>How the code is modelled.\<close> Names are the source's. An exception is a value, \<open>exc\<close>, and a function that
  may raise returns a sum, \<open>'a res\<close>; a method that changes state is a \<open>('s, 'a) prog\<close>, from a state to a
  result and a state, composed with \<open>bind_p\<close>, \<open>catch_p\<close> and the other combinators of \<open>Prelude\<close>. Python's
  ints are \<open>int\<close>, its floats \<open>pyfloat\<close> (exact binary64 values with rounding, \<open>PyFloat\<close>), its strings the
  UTF-8 bytes of their code points (\<open>PyText\<close>); elements of NumPy arrays are 8-, 32- and 64-bit words. A
  lock's critical section is one step, and what threads or processes do between sections is a step
  relation or an arbitrary change. Everything the repository does not contain is a parameter: hashing and
  signatures, base64, dates, the conversions and float arithmetic of NumPy, the ZIP and YAML readers, the
  clock, sockets, and the operating system's refusals.

  \<^bold>\<open>The theories.\<close>

  \<^item> \<open>Prelude\<close>, \<open>PyText\<close>, \<open>PyFloat\<close>, \<open>FloatOrder\<close>: exceptions (\<^verbatim>\<open>errors.py\<close>), results, programs with their
    Hoare rules (\<open>wp\<close>, \<open>prog_simps\<close>), text, floats, and that rounding keeps order.
  \<^item> \<open>Json\<close>, \<open>JsonRoundtrip\<close>, \<open>Types\<close>, \<open>Util\<close>, \<open>FileSys\<close>: JSON as Python writes and strictly reads it, with
    the round trip on bytes; \<^verbatim>\<open>types.py\<close> and \<^verbatim>\<open>util.py\<close>; file system nodes, links and atomic writes.
  \<^item> \<open>Artifact\<close>, \<open>Registry\<close>: \<open>raw_manifest\<close>, \<open>validate_manifest\<close>, \<open>keyring_verify\<close>; a registry as its entries,
    \<open>add\<close> and \<open>inspect\<close>. Lemmas: what is verified is what was signed, entries never change, sequences are unique;
    the locale \<open>artifact_store\<close>, interpreted on the registry.
  \<^item> \<open>RollbackAnchor\<close>: the locale \<open>rollback_anchor\<close> and both anchors as interpretations.
  \<^item> \<open>Health\<close>, \<open>Qualification\<close>, \<open>QualificationProps\<close>: policy and gate; the dialogue of parent and worker, and that
    its metrics are those measured on the given model and data.
  \<^item> \<open>DeployState\<close>, \<open>Deploy\<close>: the state file and the journal as JSON; \<^verbatim>\<open>ABDeployer\<close> over a \<open>durable\<close> disk, any step of
    which may fail, with every durable state it passes recorded in \<open>history\<close>.
  \<^item> \<open>CrashLogic\<close>, \<open>RecoverySteps\<close>, \<open>StateBounds\<close>, \<open>Recovery\<close>, \<open>DeployCrash\<close>, \<open>DeployProps\<close>, \<open>SampleDeployer\<close>: a
    Hoare logic with a crash condition; recovery from every state a crash may leave, also if it is
    interrupted itself; deployment and rollback as a refinement of a manager of two versions and a floor.
  \<^item> \<open>Wire\<close>, \<open>Ipc\<close>, \<open>IpcMessages\<close>, \<open>IpcRoundtrip\<close>, \<open>IpcProps\<close>, \<open>SocketFrames\<close>: frames, messages and their transport over a
    socket that transfers in parts; round trips, bounds and errors of every decoder.
  \<^item> \<open>InferenceQueue\<close>, \<open>RequestTask\<close>, \<open>Executor\<close>, \<open>ExecutorProps\<close>: the bounded queue (locale \<open>work_queue\<close>), the
    settlement of one request, and the executor as the step relation \<open>exec_step\<close> of all threads; no
    request is lost, and closing settles all.
  \<^item> \<open>Worker\<close>, \<open>ProcessRunner\<close>, \<open>RunnerComposed\<close>, \<open>RunnerSteps\<close>, \<open>RunnerProps\<close>, \<open>Supervisor\<close>, \<open>RestartBudget\<close>: the child
    process, its supervisor, both composed, the supervisor against any child, and the restart budget
    against a reference that forgets nothing.
  \<^item> \<open>Engine\<close>, \<open>EngineCache\<close>, \<open>EngineProps\<close>: the engine and its counters (\<^verbatim>\<open>observability.py\<close>); the locale
    \<open>generation_cache\<close> for both caches, under any interleaving with deployments; the path of a
    prediction from its input to the runtime of the active slot and back.
  \<^item> \<open>Readiness\<close>, \<open>ReadinessProps\<close>: the pool of supervisors with shared counters and budget, \<^verbatim>\<open>start\<close>,
    \<^verbatim>\<open>ensure_ready\<close>, \<^verbatim>\<open>stats\<close> and \<^verbatim>\<open>close\<close>.
  \<^item> \<open>Service\<close>: the middlewares, the error mapping and the checks of \<^verbatim>\<open>create_app\<close>.
  \<^item> \<open>Config\<close>, \<open>ConfigProps\<close>: \<^verbatim>\<open>load_config\<close>, and that every component accepts what loads.
  \<^item> \<open>ModelIo\<close>, \<open>Models\<close>, \<open>ModelProps\<close>: the checks of an archive and the memory they admit; the runtimes, and
    when 32-bit accumulators are exact.
  \<^item> \<open>Sandbox\<close>, \<open>Telemetry\<close>, \<open>TelemetryProps\<close>, \<open>Datasets\<close>: what hardening leaves a process; the spool, which
    loses no event unless it says so; the bounded download of a public data set.

  \<^bold>\<open>Bounds and fuel.\<close> Loops are structural recursion, or recursion on the length of what is left to
  read. Three take what the outside gives them, one element per turn: the scripts of socket results
  (\<open>recv_loop\<close>, \<open>send_loop\<close>; a frame of \<open>n\<close> bytes needs at most \<open>n\<close> turns that make progress), the
  clock readings of \<open>pop_loop\<close> (it returns once they pass the timeout) and the frames that a worker
  receives; the properties about them say that the result is reached, not only what it is.

  \<^bold>\<open>What is not modelled.\<close>

  \<^item> Code that calls libraries only: training and float arithmetic (\<^verbatim>\<open>model.py\<close>), metrics, drift scores,
    parsing of data sets, evaluation and showcase scripts, the ONNX back end, the command line.
  \<^item> \<^verbatim>\<open>fsync\<close>, advisory locks and file modes: a completed write is durable, and one process at a time holds
    the deployment lock. A rename and a single write are atomic, except the telemetry append, which
    a full disk may cut.
  \<^item> \<^verbatim>\<open>RecursionError\<close> and \<^verbatim>\<open>MemoryError\<close>; the texts of library exceptions; the wording of JSON errors.
  \<^item> Threads inside a critical section, the fairness of the scheduler, and signals. A deadline is a possible
    \<^verbatim>\<open>TimeoutError\<close> of a transfer.
  \<^item> FastAPI and Starlette: routing, the parsing of requests into models, responses.
\<close>

end
